(* ===== verification/Prelude.thy ===== *)
theory Prelude
  imports Main "HOL-Library.Sublist" "HOL-Library.Char_ord" "HOL-Library.List_Lexorder"
    "HOL-Library.Product_Lexorder" "HOL-Library.Multiset"
begin

text \<open>
  Shared vocabulary of the development: byte strings and the string operations of Rust's
  standard library the program uses, fallible results, stateful actions that keep their
  state when they fail, and the generic lemmas the component theories rest on.
  A Rust \<open>&str\<close> is the list of its UTF-8 bytes; every separator the program looks for
  is an ASCII byte, so byte-wise and character-wise splitting agree.
\<close>

type_synonym bytes = string

named_theorems result_simps \<open>unfolding of results and actions\<close>
named_theorems str_simps \<open>string operations of the standard library\<close>

section \<open>Results and actions\<close>

text \<open>\<open>Result<T, E>\<close> is the sum \<open>'e + 'a\<close>; \<open>and_then\<close> is the \<open>?\<close> operator.\<close>

definition and_then :: "'e + 'a \<Rightarrow> ('a \<Rightarrow> 'e + 'b) \<Rightarrow> 'e + 'b" where
  "and_then m k = (case m of Inl e \<Rightarrow> Inl e | Inr a \<Rightarrow> k a)"

lemma and_then_simps [simp, result_simps]:
  "and_then (Inl e) k = Inl e" "and_then (Inr a) k = k a"
  by (simp_all add: and_then_def)

lemma and_then_eq_Inr:
  "and_then m k = Inr b \<longleftrightarrow> (\<exists>a. m = Inr a \<and> k a = Inr b)"
  by (cases m) simp_all

definition guard :: "bool \<Rightarrow> 'e \<Rightarrow> 'e + unit" where
  "guard ok e = (if ok then Inr () else Inl e)"

lemma guard_eq_Inr [simp]: "guard ok e = Inr u \<longleftrightarrow> ok"
  by (simp add: guard_def)

fun map_results :: "('a \<Rightarrow> 'e + 'b) \<Rightarrow> 'a list \<Rightarrow> 'e + 'b list" where
  "map_results f [] = Inr []"
| "map_results f (x # xs) = and_then (f x) (\<lambda>y. and_then (map_results f xs) (\<lambda>ys. Inr (y # ys)))"

lemma map_results_Inr_length: "map_results f xs = Inr ys \<Longrightarrow> length ys = length xs"
  by (induction xs arbitrary: ys) (auto simp: and_then_eq_Inr)

lemma map_results_Inr_nth:
  "map_results f xs = Inr ys \<Longrightarrow> i < length xs \<Longrightarrow> f (xs ! i) = Inr (ys ! i)"
  by (induction xs arbitrary: ys i) (auto simp: and_then_eq_Inr nth_Cons split: nat.split)

text \<open>
  A stateful action returns its result and the state it leaves behind. An error keeps the
  state reached so far: the program does not undo what it did before it failed.
\<close>

type_synonym ('s, 'e, 'a) action = "'s \<Rightarrow> ('e + 'a) \<times> 's"

definition act_ok :: "'a \<Rightarrow> ('s, 'e, 'a) action" where
  "act_ok a s = (Inr a, s)"

definition act_err :: "'e \<Rightarrow> ('s, 'e, 'a) action" where
  "act_err e s = (Inl e, s)"

definition act_lift :: "'e + 'a \<Rightarrow> ('s, 'e, 'a) action" where
  "act_lift r s = (r, s)"

definition bind_act :: "('s, 'e, 'a) action \<Rightarrow> ('a \<Rightarrow> ('s, 'e, 'b) action) \<Rightarrow> ('s, 'e, 'b) action"
where
  "bind_act m k s = (case m s of (Inl e, s') \<Rightarrow> (Inl e, s') | (Inr a, s') \<Rightarrow> k a s')"

lemma action_simps [simp, result_simps]:
  "act_ok a s = (Inr a, s)" "act_err e s = (Inl e, s)" "act_lift r s = (r, s)"
  by (simp_all add: act_ok_def act_err_def act_lift_def)

lemma bind_act_Inl [simp]: "m s = (Inl e, s') \<Longrightarrow> bind_act m k s = (Inl e, s')"
  and bind_act_Inr [simp]: "m s = (Inr a, s') \<Longrightarrow> bind_act m k s = k a s'"
  by (simp_all add: bind_act_def)

lemma bind_act_eq_Inr:
  "bind_act m k s = (Inr b, s'') \<longleftrightarrow> (\<exists>a s'. m s = (Inr a, s') \<and> k a s' = (Inr b, s''))"
  by (auto simp: bind_act_def split: prod.splits sum.splits)

lemma bind_act_eq_Inl:
  "bind_act m k s = (Inl e, s'') \<longleftrightarrow>
     m s = (Inl e, s'') \<or> (\<exists>a s'. m s = (Inr a, s') \<and> k a s' = (Inl e, s''))"
  by (auto simp: bind_act_def split: prod.splits sum.splits)

text \<open>A relation every primitive respects is respected by their sequence.\<close>

definition keeps :: "('s \<Rightarrow> 's \<Rightarrow> bool) \<Rightarrow> ('s, 'e, 'a) action \<Rightarrow> bool" where
  "keeps R m \<longleftrightarrow> (\<forall>s. R s (snd (m s)))"

lemma keepsI: "(\<And>s r s'. m s = (r, s') \<Longrightarrow> R s s') \<Longrightarrow> keeps R m"
  by (simp add: keeps_def prod_eq_iff)

lemma keepsD: "keeps R m \<Longrightarrow> m s = (r, s') \<Longrightarrow> R s s'"
  by (metis keeps_def snd_conv)

lemma keeps_bind:
  assumes "keeps R m" and "\<And>a. keeps R (k a)" and "transp R"
  shows "keeps R (bind_act m k)"
proof (rule keepsI)
  fix s r s'
  assume *: "bind_act m k s = (r, s')"
  obtain q t where m: "m s = (q, t)" by (cases "m s")
  with assms(1) have "R s t" by (rule keepsD)
  moreover have "R t s'" if "q = Inr a" for a
    using * m that keepsD [OF assms(2)] by (auto simp: bind_act_def)
  ultimately show "R s s'"
    using * m \<open>transp R\<close> by (cases q) (auto simp: bind_act_def dest: transpD)
qed

lemma keeps_pure:
  assumes "reflp R"
  shows "keeps R (act_ok a)" and "keeps R (act_err e)" and "keeps R (act_lift r)"
  using assms by (simp_all add: keeps_def reflpD)

text \<open>\<open>fails R m\<close>: every erroneous run of \<open>m\<close> relates its first and last state by \<open>R\<close>.\<close>

definition fails :: "('s \<Rightarrow> 's \<Rightarrow> bool) \<Rightarrow> ('s, 'e, 'a) action \<Rightarrow> bool" where
  "fails R m \<longleftrightarrow> (\<forall>s e s'. m s = (Inl e, s') \<longrightarrow> R s s')"

lemma failsI: "(\<And>s e s'. m s = (Inl e, s') \<Longrightarrow> R s s') \<Longrightarrow> fails R m"
  by (simp add: fails_def)

lemma failsD: "fails R m \<Longrightarrow> m s = (Inl e, s') \<Longrightarrow> R s s'"
  by (simp add: fails_def)

lemma fails_bind:
  assumes "keeps R m" and "\<And>a. fails R (k a)" and "transp R"
  shows "fails R (bind_act m k)"
proof (rule failsI)
  fix s e s' assume "bind_act m k s = (Inl e, s')"
  then consider "m s = (Inl e, s')" | a t where "m s = (Inr a, t)" "k a t = (Inl e, s')"
    by (auto simp: bind_act_eq_Inl)
  then show "R s s'"
    using keepsD [OF assms(1)] failsD [OF assms(2)] transpD [OF assms(3)] by cases blast+
qed

lemma fails_last: "fails R m \<Longrightarrow> fails R (bind_act m (\<lambda>a. act_ok (f a)))"
  by (auto simp: fails_def bind_act_eq_Inl)

lemma fails_pure: "reflp R \<Longrightarrow> fails R (act_ok a)" "reflp R \<Longrightarrow> fails R (act_err e)"
  by (simp_all add: fails_def reflpD)

text \<open>\<open>Option\<close> as an iterator.\<close>

definition option_list :: "'a option \<Rightarrow> 'a list" where
  "option_list x = (case x of None \<Rightarrow> [] | Some a \<Rightarrow> [a])"

lemma option_list_simps [simp]: "option_list None = []" "option_list (Some a) = [a]"
  by (simp_all add: option_list_def)

section \<open>Byte strings\<close>

definition starts_with :: "string \<Rightarrow> string \<Rightarrow> bool" where
  "starts_with s p \<longleftrightarrow> take (length p) s = p"

lemma starts_with_iff: "starts_with s p \<longleftrightarrow> (\<exists>r. s = p @ r)"
  by (auto simp: starts_with_def) (metis append_take_drop_id)

lemma starts_with_simps [simp, str_simps]:
  "starts_with s []" "\<not> starts_with [] (c # p)"
  "starts_with (d # s) (c # p) \<longleftrightarrow> d = c \<and> starts_with s p"
  by (auto simp: starts_with_def)

lemma starts_with_append [simp]: "starts_with (p @ s) p"
  by (auto simp: starts_with_iff)

lemma starts_with_refl [simp]: "starts_with p p"
  by (auto simp: starts_with_iff)

lemma starts_with_trans: "starts_with a b \<Longrightarrow> starts_with b c \<Longrightarrow> starts_with a c"
  by (auto simp: starts_with_iff)

definition trim_start :: "char \<Rightarrow> string \<Rightarrow> string" where
  "trim_start c s = dropWhile (\<lambda>x. x = c) s"

definition trim_end :: "char \<Rightarrow> string \<Rightarrow> string" where
  "trim_end c s = rev (dropWhile (\<lambda>x. x = c) (rev s))"

definition trim_both :: "char \<Rightarrow> string \<Rightarrow> string" where
  "trim_both c s = trim_end c (trim_start c s)"

text \<open>\<open>str::split(char)\<close>: always at least one piece, empty pieces kept.\<close>

fun split_on :: "char \<Rightarrow> string \<Rightarrow> string list" where
  "split_on c [] = [[]]"
| "split_on c (x # xs) =
     (if x = c then [] # split_on c xs
      else (case split_on c xs of [] \<Rightarrow> [[x]] | w # ws \<Rightarrow> (x # w) # ws))"

fun join_with :: "char \<Rightarrow> string list \<Rightarrow> string" where
  "join_with c [] = []"
| "join_with c [w] = w"
| "join_with c (w # ws) = w @ [c] @ join_with c ws"

lemma split_on_nonempty [simp]: "split_on c s \<noteq> []"
  by (induction s) (auto split: list.splits)

lemma join_with_Cons: "ws \<noteq> [] \<Longrightarrow> join_with c (w # ws) = w @ c # join_with c ws"
  by (cases ws) simp_all

lemma join_split [simp]: "join_with c (split_on c s) = s"
proof (induction s)
  case (Cons x s)
  obtain w ws where "split_on c s = w # ws" by (cases "split_on c s") auto
  with Cons show ?case by (cases ws) (auto simp: join_with_Cons)
qed simp

lemma split_on_no_sep: "w \<in> set (split_on c s) \<Longrightarrow> c \<notin> set w"
proof (induction s arbitrary: w)
  case (Cons x s)
  obtain v vs where "split_on c s = v # vs" by (cases "split_on c s") auto
  with Cons show ?case by (auto split: if_splits)
qed simp

lemma split_on_free: "c \<notin> set s \<Longrightarrow> split_on c s = [s]"
  by (induction s) auto

lemma split_on_append_sep:
  "split_on c (s @ c # t) = split_on c s @ split_on c t"
proof (induction s)
  case (Cons x s)
  obtain v vs where "split_on c s = v # vs" by (cases "split_on c s") auto
  with Cons show ?case by simp
qed simp

lemma split_join: "ws \<noteq> [] \<Longrightarrow> \<forall>w \<in> set ws. c \<notin> set w \<Longrightarrow> split_on c (join_with c ws) = ws"
proof (induction c ws rule: join_with.induct)
  case (3 c w v vs)
  then have "split_on c (w @ c # join_with c (v # vs)) = split_on c w @ v # vs"
    by (subst split_on_append_sep) simp
  with 3 show ?case by (simp add: split_on_free)
qed (auto simp: split_on_free)

lemma join_with_append:
  "vs \<noteq> [] \<Longrightarrow> ws \<noteq> [] \<Longrightarrow> join_with c (vs @ ws) = join_with c vs @ c # join_with c ws"
  by (induction c vs rule: join_with.induct) (auto simp: join_with_Cons)

lemma split_on_prefix_iff:
  "prefix (split_on c p) (split_on c q) \<longleftrightarrow> q = p \<or> starts_with q (p @ [c])"
proof
  assume "prefix (split_on c p) (split_on c q)"
  then obtain ws where ws: "split_on c q = split_on c p @ ws" by (auto simp: prefix_def)
  have "q = join_with c (split_on c p @ ws)" by (simp flip: ws)
  then show "q = p \<or> starts_with q (p @ [c])"
    by (cases "ws = []") (auto simp: join_with_append starts_with_iff)
next
  assume "q = p \<or> starts_with q (p @ [c])"
  then show "prefix (split_on c p) (split_on c q)"
    by (auto simp: starts_with_iff split_on_append_sep)
qed

text \<open>\<open>str::rsplit_once(char)\<close>.\<close>

definition rsplit_once :: "char \<Rightarrow> string \<Rightarrow> (string \<times> string) option" where
  "rsplit_once c s =
     (let leaf = rev (takeWhile (\<lambda>x. x \<noteq> c) (rev s)) in
      if c \<in> set s then Some (take (length s - length leaf - 1) s, leaf) else None)"

lemma rsplit_once_None: "rsplit_once c s = None \<longleftrightarrow> c \<notin> set s"
  by (simp add: rsplit_once_def Let_def)

lemma rsplit_once_append:
  assumes "c \<notin> set leaf"
  shows "rsplit_once c (p @ c # leaf) = Some (p, leaf)"
proof -
  have "takeWhile (\<lambda>x. x \<noteq> c) (rev leaf @ c # rev p) = rev leaf"
    using assms by (subst takeWhile_append2) auto
  then show ?thesis by (simp add: rsplit_once_def)
qed

lemma rsplit_once_Some:
  "rsplit_once c s = Some (p, leaf) \<longleftrightarrow> s = p @ c # leaf \<and> c \<notin> set leaf"
proof
  assume *: "rsplit_once c s = Some (p, leaf)"
  then have "c \<in> set s" by (metis option.distinct(1) rsplit_once_None)
  then obtain q l where "s = q @ c # l" "c \<notin> set l" by (meson split_list_last)
  with * show "s = p @ c # leaf \<and> c \<notin> set leaf" by (simp add: rsplit_once_append)
qed (auto simp: rsplit_once_append)

text \<open>\<open>str::split_once(char)\<close>.\<close>

definition split_once :: "char \<Rightarrow> string \<Rightarrow> (string \<times> string) option" where
  "split_once c s =
     (case dropWhile (\<lambda>x. x \<noteq> c) s of
        [] \<Rightarrow> None
      | _ # rest \<Rightarrow> Some (takeWhile (\<lambda>x. x \<noteq> c) s, rest))"

lemma split_once_append: "c \<notin> set p \<Longrightarrow> split_once c (p @ c # rest) = Some (p, rest)"
proof -
  assume "c \<notin> set p"
  then have "\<forall>x \<in> set p. x \<noteq> c" by auto
  then show ?thesis
    by (simp add: split_once_def dropWhile_append2 takeWhile_append2)
qed

text \<open>\<open>format!("{}", n)\<close> of an unsigned number, and its inverse.\<close>

fun show_nat :: "nat \<Rightarrow> string" where
  "show_nat n = (if n < 10 then [char_of (48 + n)] else show_nat (n div 10) @ [char_of (48 + n mod 10)])"

declare show_nat.simps [simp del]

definition read_nat :: "string \<Rightarrow> nat" where
  "read_nat s = foldl (\<lambda>v c. 10 * v + (of_char c - 48)) 0 s"

definition digit :: "char \<Rightarrow> bool" where
  "digit c \<longleftrightarrow> CHR ''0'' \<le> c \<and> c \<le> CHR ''9''"

lemma digit_char_of: "d < 10 \<Longrightarrow> digit (char_of (48 + d :: nat))"
  by (simp add: digit_def less_eq_char_def of_char_of)

lemma show_nat_ne [simp]: "show_nat n \<noteq> []"
  by (subst show_nat.simps) simp

lemma show_nat_digits: "list_all digit (show_nat n)"
proof (induction n rule: show_nat.induct)
  case (1 n)
  then show ?case by (subst show_nat.simps) (auto simp: digit_char_of)
qed

lemma read_show_nat [simp]: "read_nat (show_nat n) = n"
proof (induction n rule: show_nat.induct)
  case (1 n)
  show ?case
  proof (cases "n < 10")
    case True
    then show ?thesis by (subst show_nat.simps) (simp add: read_nat_def of_char_of)
  next
    case False
    with 1 have "read_nat (show_nat (n div 10)) = n div 10" by simp
    with False show ?thesis by (subst show_nat.simps) (simp add: read_nat_def of_char_of)
  qed
qed

lemma show_nat_inject [simp]: "show_nat m = show_nat n \<longleftrightarrow> m = n"
  by (metis read_show_nat)

definition strip_suffix :: "char \<Rightarrow> string \<Rightarrow> string option" where
  "strip_suffix c s = (if s \<noteq> [] \<and> last s = c then Some (butlast s) else None)"

fun contains_str :: "string \<Rightarrow> string \<Rightarrow> bool" where
  "contains_str [] p \<longleftrightarrow> p = []"
| "contains_str (c # s) p \<longleftrightarrow> starts_with (c # s) p \<or> contains_str s p"

lemma contains_str_iff: "contains_str s p \<longleftrightarrow> (\<exists>a b. s = a @ p @ b)"
proof (induction s)
  case (Cons c s)
  show ?case
  proof
    assume "contains_str (c # s) p"
    then consider "starts_with (c # s) p" | "contains_str s p" by auto
    then show "\<exists>a b. c # s = a @ p @ b"
    proof cases
      case 1
      then obtain b where "c # s = [] @ p @ b" by (auto simp: starts_with_iff)
      then show ?thesis by blast
    next
      case 2
      with Cons.IH obtain a b where "s = a @ p @ b" by blast
      then have "c # s = (c # a) @ p @ b" by simp
      then show ?thesis by blast
    qed
  next
    assume "\<exists>a b. c # s = a @ p @ b"
    then obtain a b where ab: "c # s = a @ p @ b" by blast
    show "contains_str (c # s) p"
    proof (cases a)
      case Nil
      with ab have "starts_with (c # s) p" by simp
      then show ?thesis by simp
    next
      case (Cons x a')
      with ab have "s = a' @ p @ b" by simp
      with Cons.IH show ?thesis by auto
    qed
  qed
qed auto

text \<open>
  \<open>str::replace\<close> for a non-empty pattern, the only use the program makes of it:
  leftmost matches first, the scan resuming behind each replaced match.
\<close>

function str_replace :: "string \<Rightarrow> string \<Rightarrow> string \<Rightarrow> string" where
  "str_replace pat rep s =
     (case s of
        [] \<Rightarrow> []
      | c # cs \<Rightarrow>
          if pat \<noteq> [] \<and> starts_with s pat then rep @ str_replace pat rep (drop (length pat) s)
          else c # str_replace pat rep cs)"
  by pat_completeness auto
termination
  by (relation "measure (\<lambda>(pat, rep, s). length s)") auto

declare str_replace.simps [simp del]

lemma str_replace_absent: "\<not> contains_str s pat \<Longrightarrow> str_replace pat rep s = s"
proof (induction s)
  case Nil
  then show ?case by (subst str_replace.simps) simp
next
  case (Cons c s)
  then show ?case by (subst str_replace.simps) auto
qed

text \<open>\<open>[u8]::eq_ignore_ascii_case\<close>.\<close>

definition ascii_lower :: "char \<Rightarrow> char" where
  "ascii_lower c = (if CHR ''A'' \<le> c \<and> c \<le> CHR ''Z'' then char_of (of_char c + (32::nat)) else c)"

definition eq_ignore_ascii_case :: "string \<Rightarrow> string \<Rightarrow> bool" where
  "eq_ignore_ascii_case a b \<longleftrightarrow> map ascii_lower a = map ascii_lower b"

definition in_range :: "char \<Rightarrow> char \<Rightarrow> char \<Rightarrow> bool" where
  "in_range lo hi c \<longleftrightarrow> lo \<le> c \<and> c \<le> hi"

section \<open>Lists\<close>

text \<open>\<open>slice::position\<close>: the index of the first element satisfying a predicate.\<close>

fun position_of :: "('a \<Rightarrow> bool) \<Rightarrow> 'a list \<Rightarrow> nat option" where
  "position_of P [] = None"
| "position_of P (x # xs) = (if P x then Some 0 else map_option Suc (position_of P xs))"

lemma position_of_None: "position_of P xs = None \<longleftrightarrow> (\<forall>x \<in> set xs. \<not> P x)"
  by (induction xs) auto

lemma position_of_Some:
  "position_of P xs = Some i \<longleftrightarrow> i < length xs \<and> P (xs ! i) \<and> (\<forall>j < i. \<not> P (xs ! j))"
proof (induction xs arbitrary: i)
  case (Cons x xs)
  show ?case
  proof (cases i)
    case 0
    then show ?thesis by auto
  next
    case (Suc k)
    then show ?thesis using Cons.IH by (auto simp: less_Suc_eq_0_disj)
  qed
qed simp

text \<open>\<open>Vec::insert\<close> at a position not beyond the end.\<close>

definition insert_at :: "nat \<Rightarrow> 'a \<Rightarrow> 'a list \<Rightarrow> 'a list" where
  "insert_at i x xs = take i xs @ x # drop i xs"

lemma set_insert_at [simp]: "set (insert_at i x xs) = insert x (set xs)"
  unfolding insert_at_def by (metis append_take_drop_id insert_is_Un list.simps(15) set_append sup_left_commute)

lemma nth_insert_at: "i \<le> length xs \<Longrightarrow> insert_at i x xs ! i = x"
  by (simp add: insert_at_def nth_append)

lemma filter_insert_at: "\<not> P x \<Longrightarrow> filter P (insert_at i x xs) = filter P xs"
  unfolding insert_at_def by (simp, metis append_take_drop_id filter_append)

text \<open>The page window \<open>skip(offset).take(count)\<close>.\<close>

definition window :: "nat \<Rightarrow> nat \<Rightarrow> 'a list \<Rightarrow> 'a list" where
  "window offset len xs = take len (drop offset xs)"

end
