(* ===== verification/Errors.thy ===== *)
theory Errors
  imports Prelude
begin

text \<open>
  \<open>src/error.rs\<close>: the application error type and its mapping to an HTTP response. Errors of
  \<open>git2\<close> and of \<open>std::io\<close> carry the part the program inspects (their code or kind) and
  their message.
\<close>

datatype git_code = GitNotFound | GitUnbornBranch | GitOther

datatype git_error = GitError git_code string

datatype io_kind = IoNotFound | IoNotADirectory | IoIsADirectory | IoInvalidInput | IoOther

datatype io_error = IoError io_kind string

datatype app_error =
    FileNotFound string
  | CommitNotFound string
  | OrderNotFound string
  | TenantNotFound string
  | InvalidTenant string
  | InvalidPath string
  | InvalidOperation string
  | InvalidUtf8 string
  | GitErr git_error
  | IoErr io_error
  | TaskFailed string

type_synonym 'a app_result = "app_error + 'a"

fun git_message :: "git_error \<Rightarrow> string" where
  "git_message (GitError c m) = m"

fun io_message :: "io_error \<Rightarrow> string" where
  "io_message (IoError k m) = m"

text \<open>The \<open>#[error("...")]\<close> attributes: what \<open>to_string\<close> answers.\<close>

fun error_message :: "app_error \<Rightarrow> string" where
  "error_message (FileNotFound path) = ''file not found: '' @ path"
| "error_message (CommitNotFound sha) = ''commit not found: '' @ sha"
| "error_message (OrderNotFound directory) = ''order index not found for directory: '' @ directory"
| "error_message (TenantNotFound tenant) = ''tenant not found: '' @ tenant"
| "error_message (InvalidTenant tenant) = ''invalid tenant id: '' @ tenant"
| "error_message (InvalidPath reason) = ''invalid path: '' @ reason"
| "error_message (InvalidOperation reason) = ''invalid operation: '' @ reason"
| "error_message (InvalidUtf8 path) = ''file content is not valid UTF-8 at path: '' @ path"
| "error_message (GitErr e) = ''git error: '' @ git_message e"
| "error_message (IoErr e) = ''io error: '' @ io_message e"
| "error_message (TaskFailed m) = ''background task failed: '' @ m"

text \<open>
  \<open>IntoResponse for AppError\<close>: the status code, the body's \<open>error\<close> field, and the line
  logged for server errors.
\<close>

record response =
  status :: nat
  body_error :: string
  logged :: "string option"

fun status_of :: "app_error \<Rightarrow> nat" where
  "status_of (FileNotFound _) = 404"
| "status_of (CommitNotFound _) = 404"
| "status_of (OrderNotFound _) = 404"
| "status_of (TenantNotFound _) = 404"
| "status_of (InvalidTenant _) = 400"
| "status_of (InvalidPath _) = 400"
| "status_of (InvalidOperation _) = 400"
| "status_of (InvalidUtf8 _) = 422"
| "status_of (GitErr _) = 500"
| "status_of (IoErr _) = 500"
| "status_of (TaskFailed _) = 500"

definition is_server_error :: "nat \<Rightarrow> bool" where
  "is_server_error s \<longleftrightarrow> 500 \<le> s \<and> s < 600"

definition into_response :: "app_error \<Rightarrow> response" where
  "into_response e =
     \<lparr>status = status_of e, body_error = error_message e,
      logged = (if is_server_error (status_of e)
                then Some (''server error response: '' @ error_message e) else None)\<rparr>"

definition client_fault :: "app_error \<Rightarrow> bool" where
  "client_fault e \<longleftrightarrow> status_of e \<in> {400, 404, 422}"

lemma client_fault_iff:
  "client_fault e \<longleftrightarrow> (\<forall>g. e \<noteq> GitErr g) \<and> (\<forall>i. e \<noteq> IoErr i) \<and> (\<forall>m. e \<noteq> TaskFailed m)"
  by (cases e) (simp_all add: client_fault_def)

lemma logged_iff_server_fault: "logged (into_response e) \<noteq> None \<longleftrightarrow> \<not> client_fault e"
  by (cases e) (simp_all add: into_response_def client_fault_def is_server_error_def)

end
