(* ===== verification/Rust_Path.thy ===== *)
theory Rust_Path
  imports Prelude
begin

text \<open>
  The parts of \<open>std::path\<close> the program relies on (Unix): \<open>Path::components\<close>,
  \<open>file_name\<close>, \<open>extension\<close>, and the lexical resolution of a joined path.
  \<open>components\<close> drops empty pieces, and drops \<open>.\<close> pieces except a leading one.
\<close>

datatype component = RootDir | CurDir | ParentDir | Normal string

definition component_of :: "string \<Rightarrow> component" where
  "component_of w = (if w = ''..'' then ParentDir else Normal w)"

definition path_pieces :: "string \<Rightarrow> string list" where
  "path_pieces p = filter (\<lambda>w. w \<noteq> [] \<and> w \<noteq> ''.'') (split_on CHR ''/'' p)"

definition path_components :: "string \<Rightarrow> component list" where
  "path_components p =
     (if starts_with p ''/'' then [RootDir]
      else if hd (split_on CHR ''/'' p) = ''.'' then [CurDir] else [])
     @ map component_of (path_pieces p)"

definition path_file_name :: "string \<Rightarrow> string option" where
  "path_file_name p =
     (case rev (path_components p) of Normal w # _ \<Rightarrow> Some w | _ \<Rightarrow> None)"

definition path_extension :: "string \<Rightarrow> string option" where
  "path_extension p =
     (case path_file_name p of
        None \<Rightarrow> None
      | Some w \<Rightarrow>
          (case rsplit_once CHR ''.'' w of
             None \<Rightarrow> None
           | Some (before, after) \<Rightarrow> if before = [] then None else Some after))"

text \<open>\<open>Path::with_extension\<close> on the last component of a path.\<close>

definition file_stem :: "string \<Rightarrow> string" where
  "file_stem w =
     (case rsplit_once CHR ''.'' w of
        None \<Rightarrow> w
      | Some (before, after) \<Rightarrow> if before = [] then w else before)"

definition with_extension :: "string \<Rightarrow> string \<Rightarrow> string" where
  "with_extension w ext = file_stem w @ (if ext = [] then [] else CHR ''.'' # ext)"

text \<open>
  Where a relative path ends up when joined to a directory, following its components the
  way the operating system does.
\<close>

fun resolve_in :: "string list \<Rightarrow> component list \<Rightarrow> string list" where
  "resolve_in d [] = d"
| "resolve_in d (RootDir # cs) = resolve_in [] cs"
| "resolve_in d (CurDir # cs) = resolve_in d cs"
| "resolve_in d (ParentDir # cs) = resolve_in (butlast d) cs"
| "resolve_in d (Normal w # cs) = resolve_in (d @ [w]) cs"

definition path_join :: "string list \<Rightarrow> string \<Rightarrow> string list" where
  "path_join d p = resolve_in d (path_components p)"

lemma resolve_in_Normals: "resolve_in d (map Normal ws) = d @ ws"
  by (induction ws arbitrary: d) simp_all

lemma path_pieces_props:
  "w \<in> set (path_pieces p) \<Longrightarrow> w \<noteq> [] \<and> w \<noteq> ''.'' \<and> CHR ''/'' \<notin> set w"
  by (auto simp: path_pieces_def dest: split_on_no_sep)

lemma path_components_single:
  assumes "w \<noteq> []" "CHR ''/'' \<notin> set w" "CHR ''.'' \<notin> set w"
  shows "path_components w = [Normal w]"
proof -
  have s: "split_on CHR ''/'' w = [w]" using assms(2) by (rule split_on_free)
  have "\<not> starts_with w ''/''" using assms(1,2) by (cases w) auto
  moreover have "w \<noteq> ''.''" "w \<noteq> ''..''" using assms(3) by auto
  ultimately show ?thesis
    using assms(1) s by (simp add: path_components_def path_pieces_def component_of_def)
qed

end
