(* ===== verification/Validate.thy ===== *)
theory Validate
  imports Errors Rust_Path
begin

text \<open>
  \<open>src/validate.rs\<close>: every user-controlled value is sanitised here before it reaches the
  filesystem or git. Identifiers are checked against an alphabet and a length, paths against
  their components. The locale \<open>id_validator\<close> is the contract the five identifier checks
  share, \<open>path_sanitiser\<close> the one of the three path checks.
\<close>

section \<open>Identifiers\<close>

definition MAX_TENANT_ID_LEN :: nat where "MAX_TENANT_ID_LEN = 64"
definition MAX_COLLECTION_ID_LEN :: nat where "MAX_COLLECTION_ID_LEN = 64"
definition MIN_COMMIT_SHA_LEN :: nat where "MIN_COMMIT_SHA_LEN = 4"
definition MAX_COMMIT_SHA_LEN :: nat where "MAX_COMMIT_SHA_LEN = 64"
definition MAX_NODE_ID_LEN :: nat where "MAX_NODE_ID_LEN = 64"
definition IDENTITY_LEN :: nat where "IDENTITY_LEN = 64"

lemmas id_limits = MAX_TENANT_ID_LEN_def MAX_COLLECTION_ID_LEN_def MIN_COMMIT_SHA_LEN_def
  MAX_COMMIT_SHA_LEN_def MAX_NODE_ID_LEN_def IDENTITY_LEN_def

definition id_char :: "char \<Rightarrow> bool" where
  "id_char c \<longleftrightarrow> in_range CHR ''a'' CHR ''z'' c \<or> in_range CHR ''A'' CHR ''Z'' c
     \<or> in_range CHR ''0'' CHR ''9'' c \<or> c = CHR ''-'' \<or> c = CHR ''_''"

definition hex_digit :: "char \<Rightarrow> bool" where
  "hex_digit c \<longleftrightarrow> in_range CHR ''0'' CHR ''9'' c \<or> in_range CHR ''a'' CHR ''f'' c
     \<or> in_range CHR ''A'' CHR ''F'' c"

definition lower_hex_digit :: "char \<Rightarrow> bool" where
  "lower_hex_digit c \<longleftrightarrow> in_range CHR ''0'' CHR ''9'' c \<or> in_range CHR ''a'' CHR ''f'' c"

definition node_id_char :: "char \<Rightarrow> bool" where
  "node_id_char c \<longleftrightarrow> id_char c \<or> c = CHR ''.'' \<or> c = CHR '':'' \<or> c = CHR ''['' \<or> c = CHR '']''"

lemmas alphabets = id_char_def hex_digit_def lower_hex_digit_def node_id_char_def in_range_def

definition collection_id :: "string \<Rightarrow> string app_result" where
  "collection_id raw =
     (let valid_length = raw \<noteq> [] \<and> length raw \<le> MAX_COLLECTION_ID_LEN;
          valid_chars = list_all id_char raw
      in if valid_length \<and> valid_chars then Inr raw else Inl (InvalidTenant raw))"

definition tenant_id :: "string \<Rightarrow> string app_result" where
  "tenant_id raw =
     (let valid_length = raw \<noteq> [] \<and> length raw \<le> MAX_TENANT_ID_LEN;
          valid_chars = list_all id_char raw
      in if valid_length \<and> valid_chars then Inr raw else Inl (InvalidTenant raw))"

definition commit_sha :: "string \<Rightarrow> string app_result" where
  "commit_sha raw =
     (let valid_length = MIN_COMMIT_SHA_LEN \<le> length raw \<and> length raw \<le> MAX_COMMIT_SHA_LEN;
          valid_chars = list_all hex_digit raw
      in if valid_length \<and> valid_chars then Inr raw
         else Inl (InvalidOperation (''commit sha must be hexadecimal: '' @ raw)))"

definition node_id :: "string \<Rightarrow> string app_result" where
  "node_id raw =
     (let valid_length = raw \<noteq> [] \<and> length raw \<le> MAX_NODE_ID_LEN;
          valid_chars = list_all node_id_char raw
      in if valid_length \<and> valid_chars then Inr raw
         else Inl (InvalidOperation
           (''node id must be 1-64 characters of [A-Za-z0-9._:-] (IPv6 brackets allowed): '' @ raw)))"

definition replication_identity :: "string \<Rightarrow> string app_result" where
  "replication_identity raw =
     (let valid_length = length raw = IDENTITY_LEN;
          valid_chars = list_all lower_hex_digit raw
      in if valid_length \<and> valid_chars then Inr raw
         else Inl (InvalidOperation
           ''replication identity must be 64 lowercase hexadecimal characters''))"

locale id_validator =
  fixes validate :: "string \<Rightarrow> string app_result"
    and alphabet :: "char \<Rightarrow> bool"
    and shortest longest :: nat
  assumes accepts_iff: "validate raw = Inr v \<longleftrightarrow>
      v = raw \<and> shortest \<le> length raw \<and> length raw \<le> longest \<and> list_all alphabet raw"
    and rejects_400: "validate raw = Inl e \<Longrightarrow> status_of e = 400"
    and nonempty: "0 < shortest"
    and no_slash: "\<not> alphabet CHR ''/''"
begin

lemma unchanged: "validate raw = Inr v \<Longrightarrow> v = raw"
  by (simp add: accepts_iff)

lemma bounded: "validate raw = Inr v \<Longrightarrow> 0 < length v \<and> length v \<le> longest"
  using nonempty by (auto simp: accepts_iff)

lemma idempotent: "validate raw = Inr v \<Longrightarrow> validate v = Inr v"
  by (simp add: accepts_iff)

lemma slash_free: "validate raw = Inr v \<Longrightarrow> CHR ''/'' \<notin> set v"
  using no_slash by (auto simp: accepts_iff list_all_iff)

lemma one_component:
  assumes "validate raw = Inr v" and "\<not> alphabet CHR ''.''"
  shows "path_components v = [Normal v]"
proof (rule path_components_single)
  show "v \<noteq> []" using bounded [OF assms(1)] by auto
  show "CHR ''/'' \<notin> set v" using assms(1) by (rule slash_free)
  show "CHR ''.'' \<notin> set v" using assms by (auto simp: accepts_iff list_all_iff)
qed

end

interpretation collection: id_validator collection_id id_char 1 64
  by unfold_locales
    (auto simp: collection_id_def id_limits alphabets Let_def Suc_le_eq split: if_splits)

interpretation tenant: id_validator tenant_id id_char 1 64
  by unfold_locales
    (auto simp: tenant_id_def id_limits alphabets Let_def Suc_le_eq split: if_splits)

interpretation sha: id_validator commit_sha hex_digit 4 64
  by unfold_locales (auto simp: commit_sha_def id_limits alphabets Let_def split: if_splits)

interpretation node: id_validator node_id node_id_char 1 64
  by unfold_locales
    (auto simp: node_id_def id_limits alphabets Let_def Suc_le_eq split: if_splits)

interpretation identity: id_validator replication_identity lower_hex_digit 64 64
  by unfold_locales
    (auto simp: replication_identity_def id_limits alphabets Let_def split: if_splits)

section \<open>Paths\<close>

fun reject_unsafe_list :: "component list \<Rightarrow> unit app_result" where
  "reject_unsafe_list [] = Inr ()"
| "reject_unsafe_list (c # cs) =
     (case c of
        ParentDir \<Rightarrow> Inl (InvalidPath ''path must not contain '..' components'')
      | CurDir \<Rightarrow> Inl (InvalidPath ''path must not contain '.' components'')
      | RootDir \<Rightarrow> Inl (InvalidPath ''path must be relative'')
      | Normal name \<Rightarrow>
          if name = ''.git'' then Inl (InvalidPath ''path must not reference .git'')
          else reject_unsafe_list cs)"

definition reject_unsafe_components :: "string \<Rightarrow> unit app_result" where
  "reject_unsafe_components path = reject_unsafe_list (path_components path)"

definition folder_path :: "string \<Rightarrow> string app_result" where
  "folder_path raw =
     (let path = trim_both CHR ''/'' raw in
      if path = [] then Inr path
      else and_then (reject_unsafe_components path) (\<lambda>_. Inr path))"

definition file_path :: "string \<Rightarrow> string app_result" where
  "file_path raw =
     (let path = trim_start CHR ''/'' raw in
      if path = [] then Inl (InvalidPath ''path must not be empty'')
      else and_then (reject_unsafe_components path) (\<lambda>_. Inr path))"

definition file_or_folder_path :: "string \<Rightarrow> string app_result" where
  "file_or_folder_path raw =
     (let path = trim_both CHR ''/'' raw in
      if path = [] then Inl (InvalidPath ''path must not be empty'')
      else and_then (reject_unsafe_components path) (\<lambda>_. Inr path))"

text \<open>
  \<open>file_extension\<close>: the whitelist is compared without its leading dots and without case.
\<close>

definition extension_permitted :: "string \<Rightarrow> string list \<Rightarrow> bool" where
  "extension_permitted extension allowed \<longleftrightarrow>
     extension \<noteq> [] \<and>
     list_ex (\<lambda>entry. eq_ignore_ascii_case (trim_start CHR ''.'' entry) extension) allowed"

definition file_extension :: "string \<Rightarrow> string list option \<Rightarrow> unit app_result" where
  "file_extension path allowed_extensions =
     (case allowed_extensions of
        None \<Rightarrow> Inr ()
      | Some allowed \<Rightarrow>
          (let extension = (case path_extension path of None \<Rightarrow> [] | Some x \<Rightarrow> x) in
           if extension_permitted extension allowed then Inr ()
           else Inl (InvalidPath (''file extension is not allowed: '' @ path))))"

text \<open>A path is safe when its components are plain names other than \<open>.git\<close>.\<close>

definition safe_name :: "string \<Rightarrow> bool" where
  "safe_name w \<longleftrightarrow> w \<noteq> [] \<and> w \<noteq> ''.'' \<and> w \<noteq> ''..'' \<and> w \<noteq> ''.git'' \<and> CHR ''/'' \<notin> set w"

definition safe_path :: "string \<Rightarrow> bool" where
  "safe_path p \<longleftrightarrow>
     path_components p = map Normal (path_pieces p) \<and> list_all safe_name (path_pieces p)"

lemma reject_unsafe_list_ok:
  "reject_unsafe_list cs = Inr u \<longleftrightarrow> (\<exists>ws. cs = map Normal ws \<and> ''.git'' \<notin> set ws)"
proof (induction cs)
  case (Cons c cs)
  show ?case
  proof (cases c)
    case (Normal w)
    show ?thesis
    proof
      assume "reject_unsafe_list (c # cs) = Inr u"
      with Normal have "w \<noteq> ''.git''" "reject_unsafe_list cs = Inr u"
        by (auto split: if_splits)
      then obtain ws where "cs = map Normal ws" "''.git'' \<notin> set ws" using Cons.IH by auto
      with Normal \<open>w \<noteq> ''.git''\<close>
      have "c # cs = map Normal (w # ws) \<and> ''.git'' \<notin> set (w # ws)" by simp
      then show "\<exists>ws. c # cs = map Normal ws \<and> ''.git'' \<notin> set ws"
        by (rule exI [of _ "w # ws"])
    next
      assume "\<exists>ws. c # cs = map Normal ws \<and> ''.git'' \<notin> set ws"
      then show "reject_unsafe_list (c # cs) = Inr u" using Normal Cons.IH by auto
    qed
  qed (auto simp: Cons_eq_map_conv)
qed simp

lemma reject_unsafe_400: "reject_unsafe_list cs = Inl e \<Longrightarrow> \<exists>r. e = InvalidPath r"
  by (induction cs) (auto split: component.splits if_splits)

lemma component_of_Normals: "map Normal ws = map component_of vs \<Longrightarrow> vs = ws"
proof (induction vs arbitrary: ws)
  case (Cons v vs)
  then show ?case by (auto simp: Cons_eq_map_conv component_of_def split: if_splits)
qed simp

lemma component_of_not_parent: "map Normal ws = map component_of vs \<Longrightarrow> ''..'' \<notin> set vs"
  by (induction vs arbitrary: ws) (auto simp: Cons_eq_map_conv component_of_def split: if_splits)

lemma reject_unsafe_components_ok:
  assumes "reject_unsafe_components p = Inr u"
  shows "safe_path p"
proof -
  obtain ws where ws: "path_components p = map Normal ws" "''.git'' \<notin> set ws"
    using assms by (auto simp: reject_unsafe_components_def reject_unsafe_list_ok)
  then have eq: "map Normal ws = map component_of (path_pieces p)"
    by (auto simp: path_components_def Cons_eq_map_conv split: if_splits)
  have pieces: "path_pieces p = ws" using eq by (rule component_of_Normals)
  show ?thesis
    using ws pieces path_pieces_props [of _ p] component_of_not_parent [OF eq]
    by (auto simp: safe_path_def safe_name_def list_all_iff)
qed

lemma safe_path_inside:
  assumes "safe_path p"
  shows "path_join root p = root @ path_pieces p" and "''.git'' \<notin> set (path_pieces p)"
  using assms by (auto simp: safe_path_def path_join_def resolve_in_Normals safe_name_def list_all_iff)

lemma trim_start_suffix: "\<exists>a. raw = a @ trim_start c raw \<and> set a \<subseteq> {c}"
  by (rule exI [of _ "takeWhile (\<lambda>x. x = c) raw"])
    (auto simp: trim_start_def dest: set_takeWhileD)

lemma trim_end_prefix: "\<exists>b. raw = trim_end c raw @ b \<and> set b \<subseteq> {c}"
proof -
  have "rev raw = takeWhile (\<lambda>x. x = c) (rev raw) @ dropWhile (\<lambda>x. x = c) (rev raw)" by simp
  then have "raw = trim_end c raw @ rev (takeWhile (\<lambda>x. x = c) (rev raw))"
    unfolding trim_end_def by (metis rev_append rev_rev_ident)
  moreover have "set (rev (takeWhile (\<lambda>x. x = c) (rev raw))) \<subseteq> {c}"
    by (auto dest: set_takeWhileD)
  ultimately show ?thesis by blast
qed

lemma trim_both_infix: "\<exists>a b. raw = a @ trim_both c raw @ b \<and> set (a @ b) \<subseteq> {c}"
proof -
  obtain a where a: "raw = a @ trim_start c raw" "set a \<subseteq> {c}"
    using trim_start_suffix by blast
  obtain b where b: "trim_start c raw = trim_end c (trim_start c raw) @ b" "set b \<subseteq> {c}"
    using trim_end_prefix by blast
  from a b have "raw = a @ trim_both c raw @ b \<and> set (a @ b) \<subseteq> {c}"
    by (simp add: trim_both_def)
  then show ?thesis by blast
qed

locale path_sanitiser =
  fixes sanitise :: "string \<Rightarrow> string app_result"
  assumes accepts_safe: "sanitise raw = Inr p \<Longrightarrow> safe_path p"
    and only_slashes_trimmed:
      "sanitise raw = Inr p \<Longrightarrow> \<exists>a b. raw = a @ p @ b \<and> set (a @ b) \<subseteq> {CHR ''/''}"
    and rejects: "sanitise raw = Inl e \<Longrightarrow> \<exists>r. e = InvalidPath r"
begin

lemma stays_inside:
  "sanitise raw = Inr p \<Longrightarrow> \<exists>ws. path_join root p = root @ ws \<and> list_all safe_name ws"
  using safe_path_inside(1) [OF accepts_safe]
  by (metis accepts_safe safe_path_def)

lemma rejects_400: "sanitise raw = Inl e \<Longrightarrow> status_of e = 400"
  by (auto dest: rejects)

end

lemma safe_path_empty: "safe_path []"
  by (simp add: safe_path_def path_components_def path_pieces_def)

interpretation file_san: path_sanitiser file_path
proof
  fix raw p assume *: "file_path raw = Inr p"
  then show "safe_path p"
    by (auto simp: file_path_def Let_def and_then_eq_Inr reject_unsafe_components_ok split: if_splits)
  from * have "p = trim_start CHR ''/'' raw"
    by (auto simp: file_path_def Let_def and_then_eq_Inr split: if_splits)
  then show "\<exists>a b. raw = a @ p @ b \<and> set (a @ b) \<subseteq> {CHR ''/''}"
    using trim_start_suffix [of raw "CHR ''/''"] by (metis append_Nil2)
next
  fix raw e assume "file_path raw = Inl e"
  then show "\<exists>r. e = InvalidPath r"
    by (auto simp: file_path_def Let_def and_then_def reject_unsafe_components_def
        dest: reject_unsafe_400 split: if_splits sum.splits)
qed

interpretation folder_san: path_sanitiser folder_path
proof
  fix raw p assume *: "folder_path raw = Inr p"
  then show "safe_path p"
    by (auto simp: folder_path_def Let_def and_then_eq_Inr reject_unsafe_components_ok
        safe_path_empty split: if_splits)
  from * have "p = trim_both CHR ''/'' raw"
    by (auto simp: folder_path_def Let_def and_then_eq_Inr split: if_splits)
  then show "\<exists>a b. raw = a @ p @ b \<and> set (a @ b) \<subseteq> {CHR ''/''}"
    using trim_both_infix by blast
next
  fix raw e assume "folder_path raw = Inl e"
  then show "\<exists>r. e = InvalidPath r"
    by (auto simp: folder_path_def Let_def and_then_def reject_unsafe_components_def
        dest: reject_unsafe_400 split: if_splits sum.splits)
qed

interpretation either_san: path_sanitiser file_or_folder_path
proof
  fix raw p assume *: "file_or_folder_path raw = Inr p"
  then show "safe_path p"
    by (auto simp: file_or_folder_path_def Let_def and_then_eq_Inr reject_unsafe_components_ok
        split: if_splits)
  from * have "p = trim_both CHR ''/'' raw"
    by (auto simp: file_or_folder_path_def Let_def and_then_eq_Inr split: if_splits)
  then show "\<exists>a b. raw = a @ p @ b \<and> set (a @ b) \<subseteq> {CHR ''/''}"
    using trim_both_infix by blast
next
  fix raw e assume "file_or_folder_path raw = Inl e"
  then show "\<exists>r. e = InvalidPath r"
    by (auto simp: file_or_folder_path_def Let_def and_then_def reject_unsafe_components_def
        dest: reject_unsafe_400 split: if_splits sum.splits)
qed

section \<open>Properties\<close>

text \<open>
  C12: no accepted path leaves the repository. Whatever bytes a caller sends, a path accepted
  by \<open>file_path\<close>, \<open>folder_path\<close> or \<open>file_or_folder_path\<close>, joined to any directory and
  resolved as the operating system resolves it, names an entry of that directory reached
  through plain names only, none of them \<open>.git\<close>, \<open>.\<close> or \<open>..\<close>.
\<close>

theorem accepted_paths_stay_inside:
  assumes "file_path raw = Inr p \<or> folder_path raw = Inr p \<or> file_or_folder_path raw = Inr p"
  shows "\<exists>ws. path_join root p = root @ ws \<and> list_all safe_name ws"
  using assms file_san.stays_inside folder_san.stays_inside either_san.stays_inside by blast

lemma accepted_paths_stay_inside_witness:
  "file_path ''/docs/intro.md'' = Inr ''docs/intro.md'' \<and>
   (\<exists>ws. path_join [''srv'', ''acme''] ''docs/intro.md'' = [''srv'', ''acme''] @ ws \<and> list_all safe_name ws)"
proof -
  have h: "file_path ''/docs/intro.md'' = Inr ''docs/intro.md''" by code_simp
  show ?thesis using h accepted_paths_stay_inside [OF disjI1 [OF h]] by blast
qed

text \<open>
  C13: a tenant's repository directory is exactly two levels below the repositories root:
  accepted collection and tenant ids are single plain path components, so
  \<open>repos_path.join(collection).join(tenant)\<close> adds these two names and nothing else.
\<close>

theorem tenant_directory_two_levels:
  assumes "collection_id c = Inr c'" and "tenant_id t = Inr t'"
  shows "path_join (path_join root c') t' = root @ [c', t'] \<and> c' = c \<and> t' = t"
proof -
  have "path_components c' = [Normal c']" "path_components t' = [Normal t']"
    using assms collection.one_component tenant.one_component by (auto simp: alphabets)
  then show ?thesis
    using collection.unchanged [OF assms(1)] tenant.unchanged [OF assms(2)]
    by (simp add: path_join_def)
qed

lemma tenant_directory_two_levels_witness:
  "path_join (path_join [''var''] ''crisp'') ''acme-1'' = [''var''] @ [''crisp'', ''acme-1'']"
proof -
  have "collection_id ''crisp'' = Inr ''crisp''" "tenant_id ''acme-1'' = Inr ''acme-1''"
    by code_simp+
  from tenant_directory_two_levels [OF this] show ?thesis by blast
qed

end
