(* ===== verification/Traverse.thy ===== *)
theory Traverse
  imports Prelude "HOL-Library.Sorting_Algorithms"
begin

text \<open>
  \<open>src/traverse.rs\<close>: the order a hook replay delivers its paths in. \<open>Ordering\<close> is the
  library's three-valued \<open>comp\<close>. \<open>slice::sort_by\<close> is the library's stable sort by a
  comparator; building that comparator is the proof that \<open>compare_files\<close> and
  \<open>compare_directories\<close> are total preorders, which \<open>sort_by\<close> relies on.
\<close>

definition components :: "string \<Rightarrow> string list" where
  "components path = filter (\<lambda>w. w \<noteq> []) (split_on CHR ''/'' path)"

definition is_visible :: "string \<Rightarrow> bool" where
  "is_visible name \<longleftrightarrow> \<not> starts_with name ''.''"

definition cmp :: "'a::linorder \<Rightarrow> 'a \<Rightarrow> comp" where
  "cmp a b = (if a < b then Less else if a = b then Equiv else Greater)"

definition then_with :: "comp \<Rightarrow> comp \<Rightarrow> comp" where
  "then_with a b = (if a = Equiv then b else a)"

text \<open>The loop of \<open>compare\<close>, over the two component sequences.\<close>

fun compare_components :: "bool \<Rightarrow> string list \<Rightarrow> string list \<Rightarrow> comp" where
  "compare_components leaf_is_file [] [] = Equiv"
| "compare_components leaf_is_file [] (r # rs) = Less"
| "compare_components leaf_is_file (l # ls) [] = Greater"
| "compare_components leaf_is_file (l # ls) (r # rs) =
     (let left_is_file = leaf_is_file \<and> ls = []; right_is_file = leaf_is_file \<and> rs = [] in
      if left_is_file \<and> \<not> right_is_file then Less
      else if \<not> left_is_file \<and> right_is_file then Greater
      else if l \<noteq> r then then_with (cmp (is_visible l) (is_visible r)) (cmp l r)
      else compare_components leaf_is_file ls rs)"

definition compare :: "string \<Rightarrow> string \<Rightarrow> bool \<Rightarrow> comp" where
  "compare left right leaf_is_file =
     compare_components leaf_is_file (components left) (components right)"

definition compare_files :: "string \<Rightarrow> string \<Rightarrow> comp" where
  "compare_files left right = compare left right True"

definition compare_directories :: "string \<Rightarrow> string \<Rightarrow> comp" where
  "compare_directories left right = compare left right False"

section \<open>The comparison is a total preorder\<close>

text \<open>
  One level of the comparison is a lexicographic key: folders after files, then visibility,
  then the name. The whole comparison is the lexicographic order of these keys.
\<close>

type_synonym level_key = "bool \<times> bool \<times> string"

fun level_keys :: "bool \<Rightarrow> string list \<Rightarrow> level_key list" where
  "level_keys f [] = []"
| "level_keys f (w # ws) = (\<not> (f \<and> ws = []), is_visible w, w) # level_keys f ws"

lemma level_keys_eq_Nil [simp]: "level_keys f ws = [] \<longleftrightarrow> ws = []"
  by (cases ws) simp_all

lemma level_keys_inject: "level_keys f ls = level_keys f rs \<longleftrightarrow> ls = rs"
proof (induction ls arbitrary: rs)
  case (Cons l ls)
  then show ?case by (cases rs) auto
next
  case Nil
  then show ?case by (cases rs) auto
qed

lemma cmp_Pair: "cmp (a, b) (c, d) = then_with (cmp a c) (cmp b d)"
  by (auto simp: cmp_def then_with_def)

lemma cmp_Cons: "cmp (x # xs) (y # ys) = then_with (cmp x y) (cmp xs ys)"
  by (auto simp: cmp_def then_with_def)

lemma cmp_refl [simp]: "cmp a a = Equiv"
  by (simp add: cmp_def)

lemma cmp_eq_Equiv: "cmp a b = Equiv \<longleftrightarrow> a = b"
  by (auto simp: cmp_def)

lemma compare_components_key:
  "compare_components f ls rs = cmp (level_keys f ls) (level_keys f rs)"
proof (induction f ls rs rule: compare_components.induct)
  case (4 f l ls r rs)
  then show ?case
    by (cases "l = r") (auto simp: Let_def cmp_Cons cmp_Pair then_with_def cmp_eq_Equiv cmp_def)
qed (auto simp: cmp_def)

lemma cmp_greater: "cmp a b = Greater \<longleftrightarrow> cmp b a = Less"
  by (auto simp: cmp_def)

definition files_key :: "string \<Rightarrow> level_key list" where
  "files_key p = level_keys True (components p)"

definition directories_key :: "string \<Rightarrow> level_key list" where
  "directories_key p = level_keys False (components p)"

lemma compare_files_key: "compare_files l r = cmp (files_key l) (files_key r)"
  by (simp add: compare_files_def compare_def compare_components_key files_key_def)

lemma compare_directories_key: "compare_directories l r = cmp (directories_key l) (directories_key r)"
  by (simp add: compare_directories_def compare_def compare_components_key directories_key_def)

lemma comparator_cmp_key: "comparator (\<lambda>a b. cmp (k a) (k b))"
  by unfold_locales (auto simp: cmp_def split: if_splits)

lift_definition files_comparator :: "string comparator" is compare_files
  using comparator_cmp_key [of files_key] by (simp add: compare_files_key [abs_def])

lift_definition directories_comparator :: "string comparator" is compare_directories
  using comparator_cmp_key [of directories_key] by (simp add: compare_directories_key [abs_def])

definition sort_files :: "string list \<Rightarrow> string list" where
  "sort_files paths = Sorting_Algorithms.sort files_comparator paths"

definition sort_directories :: "string list \<Rightarrow> string list" where
  "sort_directories directories = Sorting_Algorithms.sort directories_comparator directories"

section \<open>Delivery order\<close>

lemma not_greater_key: "cmp a b \<noteq> Greater \<longleftrightarrow> a \<le> b"
  by (auto simp: cmp_def)

lemma sorted_by_key:
  assumes "\<And>a b. Comparator.compare c a b = cmp (k a) (k b)"
    and "Sorting_Algorithms.sorted c xs"
  shows "List.sorted (map k xs)"
  using assms(2)
proof (induction rule: Sorting_Algorithms.sorted_induct)
  case (Cons x xs)
  then show ?case using not_greater_key by (auto simp: assms(1))
qed simp

lemma sort_files_sorted: "List.sorted (map files_key (sort_files ps))"
  by (rule sorted_by_key [of files_comparator])
    (simp_all add: files_comparator.rep_eq compare_files_key sort_files_def)

lemma sort_directories_sorted: "List.sorted (map directories_key (sort_directories ps))"
  by (rule sorted_by_key [of directories_comparator])
    (simp_all add: directories_comparator.rep_eq compare_directories_key sort_directories_def)

lemma mset_sort_files [simp]: "mset (sort_files ps) = mset ps"
  by (simp add: sort_files_def)

lemma mset_sort_directories [simp]: "mset (sort_directories ps) = mset ps"
  by (simp add: sort_directories_def)

lemma append_le_append: "(p @ a \<le> p @ b) = (a \<le> (b :: 'a::linorder list))"
  by (induction p) auto

lemma append_less_append: "(p @ a < p @ b) = (a < (b :: 'a::linorder list))"
  by (induction p) auto

text \<open>The lists that extend a given prefix are an interval of the lexicographic order.\<close>

lemma prefix_convex:
  fixes y :: "'a::linorder list"
  assumes "p @ a \<le> y" "y \<le> p @ c"
  shows "\<exists>b. y = p @ b"
  using assms
proof (induction p arbitrary: y)
  case (Cons x p)
  show ?case
  proof (cases y)
    case Nil
    with Cons.prems(1) show ?thesis by simp
  next
    case (Cons z zs)
    with Cons.prems have "x \<le> z" "z \<le> x" "x = z \<longrightarrow> p @ a \<le> zs" "z = x \<longrightarrow> zs \<le> p @ c" by auto
    then have "z = x" "p @ a \<le> zs" "zs \<le> p @ c" by auto
    with Cons.IH Cons show ?thesis by auto
  qed
qed simp

definition folder_key :: "string list \<Rightarrow> level_key list" where
  "folder_key ds = map (\<lambda>w. (True, is_visible w, w)) ds"

lemma level_keys_append: "es \<noteq> [] \<Longrightarrow> level_keys f (ds @ es) = folder_key ds @ level_keys f es"
  by (induction ds) (auto simp: folder_key_def)

lemma level_keys_folder_prefix:
  assumes "level_keys True ws = folder_key ds @ ks" and "ks \<noteq> []"
  shows "\<exists>es. es \<noteq> [] \<and> ws = ds @ es"
  using assms
proof (induction ds arbitrary: ws)
  case Nil
  then show ?case by (auto simp: folder_key_def)
next
  case (Cons d ds)
  then obtain w ws' where ws: "ws = w # ws'" by (cases ws) (auto simp: folder_key_def)
  with Cons.prems have "w = d" "level_keys True ws' = folder_key ds @ ks"
    by (auto simp: folder_key_def)
  with Cons.IH Cons.prems(2) ws show ?case by force
qed

lemma sorted_key_order:
  assumes "List.sorted (map k xs)" "i < length xs" "j < length xs" "k (xs ! i) < k (xs ! j)"
  shows "i < j"
proof (rule ccontr)
  assume "\<not> i < j"
  then have "k (xs ! j) \<le> k (xs ! i)"
    using assms(1-3) sorted_nth_mono [of "map k xs" j i] by simp
  with assms(4) show False by simp
qed

text \<open>
  C14: a replay delivers a folder's own files before anything inside its sub-folders.
  \<open>sort_files\<close> rearranges the paths it is given, and whenever one path is a file directly
  in folder \<open>ds\<close> and another lies at least one folder deeper below \<open>ds\<close>, the first comes
  strictly earlier.
\<close>

theorem own_files_before_subfolders:
  assumes "i < length ps" "j < length ps"
    and "components (sort_files ps ! i) = ds @ [f]"
    and "components (sort_files ps ! j) = ds @ g # gs" and "gs \<noteq> []"
  shows "i < j \<and> mset (sort_files ps) = mset ps"
proof -
  have len: "length (sort_files ps) = length ps" by (metis mset_sort_files size_mset)
  have "files_key (sort_files ps ! i) < files_key (sort_files ps ! j)"
    using assms(3-5) by (simp add: files_key_def level_keys_append append_less_append)
  then show ?thesis
    using sorted_key_order [OF sort_files_sorted, of i ps j] assms(1,2) len by simp
qed

lemma own_files_before_subfolders_witness:
  "sort_files [''a/b/c.md'', ''a/x.md''] = [''a/x.md'', ''a/b/c.md'']
   \<and> (0::nat) < 1 \<and> mset (sort_files [''a/b/c.md'', ''a/x.md'']) = mset [''a/b/c.md'', ''a/x.md'']"
proof -
  have s: "sort_files [''a/b/c.md'', ''a/x.md''] = [''a/x.md'', ''a/b/c.md'']"
    by (simp add: sort_files_def files_comparator.rep_eq compare_files_def compare_def
        components_def Let_def)
  have "components ''a/x.md'' = [''a''] @ [''x.md'']"
    and "components ''a/b/c.md'' = [''a''] @ ''b'' # [''c.md'']"
    by (simp_all add: components_def)
  with own_files_before_subfolders [of 0 "[''a/b/c.md'', ''a/x.md'']" 1 "[''a'']" "''x.md''" "''b''" "[''c.md'']"]
  show ?thesis by (simp add: s)
qed

text \<open>
  C13: a replay finishes a folder before it moves on. In the delivery order the files below
  any folder \<open>ds\<close> are consecutive: whatever is delivered between two of them is below
  \<open>ds\<close> as well.
\<close>

theorem folder_delivered_contiguously:
  assumes "i \<le> j" "j \<le> k" "k < length ps"
    and "components (sort_files ps ! i) = ds @ a" "a \<noteq> []"
    and "components (sort_files ps ! k) = ds @ c" "c \<noteq> []"
  shows "\<exists>b. b \<noteq> [] \<and> components (sort_files ps ! j) = ds @ b"
proof -
  let ?k = "\<lambda>i. files_key (sort_files ps ! i)"
  have len: "length (sort_files ps) = length ps" by (metis mset_sort_files size_mset)
  have le: "?k i \<le> ?k j" "?k j \<le> ?k k"
    using sorted_nth_mono [OF sort_files_sorted, of i j ps]
      sorted_nth_mono [OF sort_files_sorted, of j k ps] assms(1-3) len by simp_all
  have ends: "?k i = folder_key ds @ level_keys True a" "?k k = folder_key ds @ level_keys True c"
    using assms by (simp_all add: files_key_def level_keys_append)
  then obtain b where b: "?k j = folder_key ds @ b" using le prefix_convex by metis
  have "b \<noteq> []"
  proof
    assume "b = []"
    with b ends(1) le(1) have "folder_key ds @ level_keys True a \<le> folder_key ds @ []" by simp
    then show False using assms(5) by (simp only: append_le_append) simp
  qed
  with b show ?thesis using level_keys_folder_prefix [of "components (sort_files ps ! j)" ds b]
    by (auto simp: files_key_def)
qed

lemma folder_delivered_contiguously_witness:
  "\<exists>b. b \<noteq> [] \<and> components (sort_files [''z.md'', ''a/y.md'', ''a/.x'', ''a/b/c''] ! 2) = [''a''] @ b"
proof -
  have s: "sort_files [''z.md'', ''a/y.md'', ''a/.x'', ''a/b/c''] = [''z.md'', ''a/.x'', ''a/y.md'', ''a/b/c'']"
    by (simp add: sort_files_def files_comparator.rep_eq compare_files_def compare_def
        components_def Let_def is_visible_def cmp_def then_with_def)
  show ?thesis
    by (rule folder_delivered_contiguously [where i = 1 and k = 3 and a = "[''.x'']" and c = "[''b'', ''c'']"])
      (simp_all add: s components_def)
qed

end
