(* ===== verification/Util.thy ===== *)
theory Util
  imports Errors "HOL-Library.Word"
begin

unbundle bit_operations_syntax

text \<open>
  \<open>src/util.rs\<close>, and UTF-8 validation as \<open>std::str::from_utf8\<close> performs it. A blocking
  task is given by its outcome: the join error's message, or what the closure returned.
\<close>

definition run_blocking :: "string + 'a app_result \<Rightarrow> 'a app_result" where
  "run_blocking joined = (case joined of Inl join_err \<Rightarrow> Inl (TaskFailed join_err) | Inr r \<Rightarrow> r)"

definition run_tenant_read :: "bool \<Rightarrow> string \<Rightarrow> (string + 'a app_result) \<Rightarrow> 'a app_result" where
  "run_tenant_read git_dir_exists tenant joined =
     (case run_blocking joined of
        Inl (GitErr e) \<Rightarrow> if \<not> git_dir_exists then Inl (TenantNotFound tenant) else Inl (GitErr e)
      | Inl (IoErr e) \<Rightarrow> if \<not> git_dir_exists then Inl (TenantNotFound tenant) else Inl (IoErr e)
      | outcome \<Rightarrow> outcome)"

fun fold_difference :: "8 word \<Rightarrow> 8 word list \<Rightarrow> 8 word list \<Rightarrow> 8 word" where
  "fold_difference d (l # ls) (r # rs) = fold_difference (d OR (l XOR r)) ls rs"
| "fold_difference d _ _ = d"

definition constant_time_eq :: "8 word list \<Rightarrow> 8 word list \<Rightarrow> bool" where
  "constant_time_eq left right =
     (if length left \<noteq> length right then False else fold_difference 0 left right = 0)"

lemma word_or_zero_iff: "(a OR b = (0 :: 8 word)) \<longleftrightarrow> a = 0 \<and> b = 0"
  by (metis or.right_neutral or_eq_0_iff)

lemma word_xor_zero_iff: "(a XOR b = (0 :: 8 word)) \<longleftrightarrow> a = b"
  by (metis xor.left_neutral xor.right_neutral xor_self_eq xor.assoc)

lemma fold_difference_zero:
  "length ls = length rs \<Longrightarrow> fold_difference d ls rs = 0 \<longleftrightarrow> d = 0 \<and> ls = rs"
  by (induction ls rs arbitrary: d rule: list_induct2)
    (auto simp: word_or_zero_iff word_xor_zero_iff)

text \<open>
  The comparison of secrets, which folds every byte pair into one accumulator instead of
  stopping at the first difference, decides equality of the two byte strings.
\<close>

theorem constant_time_eq_decides_equality: "constant_time_eq left right \<longleftrightarrow> left = right"
  by (auto simp: constant_time_eq_def fold_difference_zero)

section \<open>UTF-8\<close>

definition byte :: "char \<Rightarrow> nat" where
  "byte c = of_char c"

definition cont :: "char \<Rightarrow> bool" where
  "cont c \<longleftrightarrow> 128 \<le> byte c \<and> byte c \<le> 191"

definition between :: "nat \<Rightarrow> nat \<Rightarrow> char \<Rightarrow> bool" where
  "between lo hi c \<longleftrightarrow> lo \<le> byte c \<and> byte c \<le> hi"

text \<open>The continuation length a lead byte announces, if the bytes after it are well formed.\<close>

definition utf8_step :: "char \<Rightarrow> bytes \<Rightarrow> nat option" where
  "utf8_step c rest =
     (if byte c < 128 then Some 0
      else if between 194 223 c then
        (case rest of a # _ \<Rightarrow> if cont a then Some 1 else None | _ \<Rightarrow> None)
      else if between 224 239 c then
        (case rest of a # b # _ \<Rightarrow>
           if (if byte c = 224 then between 160 191 a
               else if byte c = 237 then between 128 159 a else cont a) \<and> cont b
           then Some 2 else None
         | _ \<Rightarrow> None)
      else if between 240 244 c then
        (case rest of a # b # d # _ \<Rightarrow>
           if (if byte c = 240 then between 144 191 a
               else if byte c = 244 then between 128 143 a else cont a) \<and> cont b \<and> cont d
           then Some 3 else None
         | _ \<Rightarrow> None)
      else None)"

function valid_utf8 :: "bytes \<Rightarrow> bool" where
  "valid_utf8 s =
     (case s of [] \<Rightarrow> True
      | c # cs \<Rightarrow> (case utf8_step c cs of None \<Rightarrow> False | Some n \<Rightarrow> valid_utf8 (drop n cs)))"
  by pat_completeness auto
termination
  by (relation "measure length") auto

declare valid_utf8.simps [simp del]

lemma valid_utf8_Nil [simp]: "valid_utf8 []"
  by (subst valid_utf8.simps) simp

lemma valid_utf8_ascii: "list_all (\<lambda>c. byte c < 128) s \<Longrightarrow> valid_utf8 s"
proof (induction s)
  case (Cons c s)
  then show ?case by (subst valid_utf8.simps) (simp add: utf8_step_def)
qed simp

definition from_utf8 :: "string \<Rightarrow> bytes \<Rightarrow> string app_result" where
  "from_utf8 file_path content =
     (if valid_utf8 content then Inr content else Inl (InvalidUtf8 file_path))"

text \<open>
  \<open>to_string_lossy\<close>: every maximal malformed sequence becomes one replacement character. The
  length below is that of the malformed sequence \<open>c\<close> starts.
\<close>

definition utf8_malformed :: "char \<Rightarrow> bytes \<Rightarrow> nat" where
  "utf8_malformed c rest =
     (let third = (\<lambda>a. if byte c = 224 then between 160 191 a
                     else if byte c = 237 then between 128 159 a else cont a);
          fourth = (\<lambda>a. if byte c = 240 then between 144 191 a
                     else if byte c = 244 then between 128 143 a else cont a)
      in if between 224 239 c then
           (case rest of a # _ \<Rightarrow> if third a then 2 else 1 | [] \<Rightarrow> 1)
         else if between 240 244 c then
           (case rest of
              a # b # _ \<Rightarrow> if \<not> fourth a then 1 else if cont b then 3 else 2
            | [a] \<Rightarrow> if fourth a then 2 else 1
            | [] \<Rightarrow> 1)
         else 1)"

definition replacement_character :: bytes where
  "replacement_character = [CHR 0xEF, CHR 0xBF, CHR 0xBD]"

function to_string_lossy :: "bytes \<Rightarrow> string" where
  "to_string_lossy s =
     (case s of [] \<Rightarrow> []
      | c # cs \<Rightarrow>
          (case utf8_step c cs of
             Some n \<Rightarrow> c # take n cs @ to_string_lossy (drop n cs)
           | None \<Rightarrow> replacement_character @ to_string_lossy (drop (utf8_malformed c cs - 1) cs)))"
  by pat_completeness auto
termination
  by (relation "measure length") auto

declare to_string_lossy.simps [simp del]

lemma to_string_lossy_valid: "valid_utf8 s \<Longrightarrow> to_string_lossy s = s"
proof (induction s rule: valid_utf8.induct)
  case (1 s)
  show ?case
  proof (cases s)
    case Nil
    then show ?thesis by (subst to_string_lossy.simps) simp
  next
    case (Cons c cs)
    then obtain n where n: "utf8_step c cs = Some n" "valid_utf8 (drop n cs)"
      using "1.prems" by (subst (asm) valid_utf8.simps) (auto split: option.splits)
    then have "to_string_lossy (drop n cs) = drop n cs" using "1.IH" Cons by blast
    with n Cons show ?thesis by (subst to_string_lossy.simps) simp
  qed
qed

text \<open>
  \<open>str::trim().is_empty()\<close>: every character is Unicode white space, read off its UTF-8
  encoding.
\<close>

fun is_blank :: "string \<Rightarrow> bool" where
  "is_blank [] = True"
| "is_blank (a # s) =
     (if between 9 13 a \<or> byte a = 32 then is_blank s
      else (case s of
          [] \<Rightarrow> False
        | b # s' \<Rightarrow>
            if byte a = 194 \<and> (byte b = 133 \<or> byte b = 160) then is_blank s'
            else (case s' of
                [] \<Rightarrow> False
              | c # s'' \<Rightarrow>
                  if (byte a = 225 \<and> byte b = 154 \<and> byte c = 128)
                    \<or> (byte a = 226 \<and> byte b = 128 \<and>
                        (between 128 138 c \<or> byte c = 168 \<or> byte c = 169 \<or> byte c = 175))
                    \<or> (byte a = 226 \<and> byte b = 129 \<and> byte c = 159)
                    \<or> (byte a = 227 \<and> byte b = 128 \<and> byte c = 128)
                  then is_blank s'' else False)))"

end
