(* ===== verification/Order_Index.thy ===== *)
theory Order_Index
  imports Errors Rust_Path
begin

text \<open>
  \<open>src/order.rs\<close>: the per-directory order index, its reserved path, its stored form and
  the structural validation of a caller's order. \<open>serde_json\<close> is a parameter: \<open>to_pretty\<close>
  stands for \<open>to_string_pretty\<close> of the document holding an order (\<open>None\<close> its error) and
  \<open>from_str\<close> for reading one back.
\<close>

definition ORDER_FILE_NAME :: string where "ORDER_FILE_NAME = ''.order.json''"

definition UNLISTED_POSITION :: int where "UNLISTED_POSITION = -1"

definition order_file_path :: "string \<Rightarrow> string" where
  "order_file_path directory =
     (if directory = [] then ORDER_FILE_NAME else directory @ ''/'' @ ORDER_FILE_NAME)"

definition split_parent :: "string \<Rightarrow> string \<times> string" where
  "split_parent path =
     (case rsplit_once CHR ''/'' path of
        Some (parent, leaf) \<Rightarrow> (parent, leaf)
      | None \<Rightarrow> ([], path))"

definition is_order_file :: "string \<Rightarrow> bool" where
  "is_order_file path \<longleftrightarrow> snd (split_parent path) = ORDER_FILE_NAME"

definition directory_of_order_file :: "string \<Rightarrow> string option" where
  "directory_of_order_file path =
     (let (parent, leaf) = split_parent path in
      if leaf = ORDER_FILE_NAME then Some parent else None)"

definition entry_name :: "string \<Rightarrow> string" where
  "entry_name entry = (case strip_suffix CHR ''/'' entry of Some e \<Rightarrow> e | None \<Rightarrow> entry)"

definition is_hidden :: "string \<Rightarrow> bool" where
  "is_hidden entry \<longleftrightarrow> starts_with (entry_name entry) ''.''"

definition directory_entry :: "string \<Rightarrow> string" where
  "directory_entry name = name @ ''/''"

definition display_directory :: "string \<Rightarrow> string" where
  "display_directory directory = (if directory = [] then ''/'' else directory)"

definition newline :: string where "newline = [CHR 0x0A]"

definition serialize :: "(string list \<Rightarrow> string option) \<Rightarrow> string list \<Rightarrow> string" where
  "serialize to_pretty order =
     (case to_pretty order of
        Some document \<Rightarrow> document
      | None \<Rightarrow> ''{'' @ newline @ ''  '' @ [CHR 0x22] @ ''order'' @ [CHR 0x22] @ '': []'' @ newline @ ''}'')
     @ newline"

definition parse :: "(string \<Rightarrow> string list option) \<Rightarrow> string \<Rightarrow> string list option" where
  "parse from_str content = from_str content"

text \<open>The per-entry checks of \<open>validate_order\<close>, in the order the loop makes them.\<close>

definition check_entry :: "bool \<Rightarrow> string list \<Rightarrow> string \<Rightarrow> unit app_result" where
  "check_entry allow_hidden_files seen entry =
     (let name = entry_name entry in
      if name = [] then Inl (InvalidOperation ''order entries must not be empty'')
      else if CHR ''/'' \<in> set name then
        Inl (InvalidOperation (''order entries must be leaf names, not paths: '' @ entry))
      else if name = ''.'' \<or> name = ''..'' then
        Inl (InvalidOperation (''order entry must not be a relative reference: '' @ entry))
      else if name = ''.git'' then
        Inl (InvalidOperation ''order entry must not reference .git'')
      else if name = ORDER_FILE_NAME then
        Inl (InvalidOperation (''order entry must not reference the index itself: '' @ entry))
      else if \<not> allow_hidden_files \<and> is_hidden name then
        Inl (InvalidOperation
          (''order entry is a hidden file; set allow_hidden_files to order it: '' @ entry))
      else if name \<in> set seen then
        Inl (InvalidOperation (''order entries must be unique: '' @ [CHR 0x27] @ name @ [CHR 0x27]
          @ '' is listed twice''))
      else Inr ())"

fun validate_entries :: "bool \<Rightarrow> string list \<Rightarrow> string list \<Rightarrow> unit app_result" where
  "validate_entries allow seen [] = Inr ()"
| "validate_entries allow seen (entry # rest) =
     and_then (check_entry allow seen entry)
       (\<lambda>_. validate_entries allow (seen @ [entry_name entry]) rest)"

definition validate_order :: "string list \<Rightarrow> bool \<Rightarrow> unit app_result" where
  "validate_order order allow_hidden_files =
     (if order = [] then
        Inl (InvalidOperation
          ''order must contain at least one entry; delete the index instead of writing an empty order'')
      else validate_entries allow_hidden_files [] order)"

section \<open>Path lemmas\<close>

lemma split_parent_slash: "CHR ''/'' \<notin> set leaf \<Longrightarrow> split_parent (p @ CHR ''/'' # leaf) = (p, leaf)"
  by (simp add: split_parent_def rsplit_once_append)

lemma split_parent_flat: "CHR ''/'' \<notin> set leaf \<Longrightarrow> split_parent leaf = ([], leaf)"
  by (simp add: split_parent_def rsplit_once_None [THEN iffD2])

lemma split_parent_leaf: "split_parent path = (d, n) \<Longrightarrow> CHR ''/'' \<notin> set n"
  by (auto simp: split_parent_def rsplit_once_Some rsplit_once_None split: option.splits)

lemma split_parent_rebuild:
  "split_parent path = (d, n) \<Longrightarrow> d \<noteq> [] \<Longrightarrow> path = d @ CHR ''/'' # n"
  by (auto simp: split_parent_def rsplit_once_Some split: option.splits)

lemma order_name_flat: "CHR ''/'' \<notin> set ORDER_FILE_NAME"
  by (simp add: ORDER_FILE_NAME_def)

lemma order_file_path_split [simp]:
  "split_parent (order_file_path d) = (d, ORDER_FILE_NAME)"
  using order_name_flat
  by (auto simp: order_file_path_def split_parent_flat split_parent_slash)

lemma is_order_file_path [simp]: "is_order_file (order_file_path d)"
  by (simp add: is_order_file_def)

lemma order_file_path_inject [simp]: "order_file_path d = order_file_path e \<longleftrightarrow> d = e"
  by (metis fst_conv order_file_path_split)

lemma directory_of_order_file_path [simp]: "directory_of_order_file (order_file_path d) = Some d"
  by (simp add: directory_of_order_file_def)

lemma directory_of_Some_iff: "directory_of_order_file p = Some d \<longleftrightarrow> split_parent p = (d, ORDER_FILE_NAME)"
  by (auto simp: directory_of_order_file_def split: prod.splits)

lemma directory_of_None_iff: "directory_of_order_file p = None \<longleftrightarrow> \<not> is_order_file p"
  by (auto simp: directory_of_order_file_def is_order_file_def split: prod.splits)

lemma entry_name_directory [simp]: "entry_name (directory_entry n) = n"
  by (simp add: entry_name_def directory_entry_def strip_suffix_def)

lemma entry_name_flat [simp]: "CHR ''/'' \<notin> set n \<Longrightarrow> entry_name n = n"
  by (cases "n = []") (auto simp: entry_name_def strip_suffix_def dest: last_in_set)

section \<open>What a validated order guarantees\<close>

definition well_formed_entry :: "bool \<Rightarrow> string \<Rightarrow> bool" where
  "well_formed_entry allow e \<longleftrightarrow>
     entry_name e \<noteq> [] \<and> CHR ''/'' \<notin> set (entry_name e) \<and>
     entry_name e \<notin> {''.'', ''..'', ''.git'', ORDER_FILE_NAME} \<and>
     (allow \<or> \<not> is_hidden e)"

lemma check_entry_ok:
  "check_entry allow seen e = Inr u \<longleftrightarrow> well_formed_entry allow e \<and> entry_name e \<notin> set seen"
  by (auto simp: check_entry_def Let_def well_formed_entry_def is_hidden_def)

lemma validate_entries_ok:
  "validate_entries allow seen es = Inr u \<longleftrightarrow>
     list_all (well_formed_entry allow) es \<and> distinct (map entry_name es) \<and>
     set (map entry_name es) \<inter> set seen = {}"
proof (induction es arbitrary: seen)
  case (Cons e es)
  have "validate_entries allow seen (e # es) = Inr u \<longleftrightarrow>
      check_entry allow seen e = Inr () \<and> validate_entries allow (seen @ [entry_name e]) es = Inr u"
    by (auto simp: and_then_eq_Inr)
  then show ?case unfolding check_entry_ok Cons.IH by auto
qed simp

lemma validate_entries_error:
  "validate_entries allow seen es = Inl e \<Longrightarrow> \<exists>r. e = InvalidOperation r"
  by (induction es arbitrary: seen)
    (auto simp: and_then_def check_entry_def Let_def split: sum.splits if_splits)

text \<open>
  C13: \<open>validate_order\<close> accepts exactly the non-empty orders of pairwise distinct entries
  (compared without their directory slash), each a leaf name that is neither a relative
  reference, nor \<open>.git\<close>, nor the index itself, nor hidden unless hidden entries are allowed;
  anything else is a \<open>400\<close>.
\<close>

theorem validate_order_accepts_iff:
  "(validate_order order allow = Inr () \<longleftrightarrow>
      order \<noteq> [] \<and> distinct (map entry_name order) \<and> list_all (well_formed_entry allow) order)
   \<and> (validate_order order allow \<noteq> Inr () \<longleftrightarrow>
      (\<exists>e. validate_order order allow = Inl e \<and> status_of e = 400))"
proof -
  have a: "validate_order order allow = Inr () \<longleftrightarrow>
      order \<noteq> [] \<and> distinct (map entry_name order) \<and> list_all (well_formed_entry allow) order"
    by (auto simp: validate_order_def validate_entries_ok)
  have b: "\<exists>r. e = InvalidOperation r" if "validate_order order allow = Inl e" for e
    using that validate_entries_error by (auto simp: validate_order_def split: if_splits)
  show ?thesis
    using a b by (cases "validate_order order allow") auto
qed

end
