(* ===== verification/Seek.thy ===== *)
theory Seek
  imports Util
begin

text \<open>
  \<open>src/seek.rs\<close>: line windows over file content. A reader is the bytes it will deliver and
  the I/O error it ends with, if any (an in-memory cursor never fails, an object-database
  stream may). \<open>serde_json\<close>'s decoding of an array of strings is the parameter
  \<open>parse_strings\<close>.
\<close>

definition SEEK_TO_FROM_META :: string where
  "SEEK_TO_FROM_META = ''$seek_from_line_starts_with''"

record seek_parameter_names =
  name_from :: string
  name_to :: string
  name_maximum :: string

definition QUERY_PARAMETER_NAMES :: seek_parameter_names where
  "QUERY_PARAMETER_NAMES =
     \<lparr>name_from = ''seek_from_line_starts_with'', name_to = ''seek_to_line_starts_with'',
      name_maximum = ''seek_lines_maximum''\<rparr>"

definition BODY_PARAMETER_NAMES :: seek_parameter_names where
  "BODY_PARAMETER_NAMES =
     \<lparr>name_from = ''seek.from_line_starts_with'', name_to = ''seek.to_line_starts_with'',
      name_maximum = ''seek.lines_maximum''\<rparr>"

record seek_options =
  seek_from_line_starts_with :: "string option"
  seek_to_line_starts_with :: "string option"
  seek_lines_maximum :: "nat option"

datatype seek_body_to_prefixes = Value string | Values "string list"

record seek_body =
  from_line_starts_with :: "string list option"
  to_line_starts_with :: "seek_body_to_prefixes option"
  body_lines_maximum :: "nat option"

record seek_filter =
  from_prefixes :: "string list option"
  to_prefixes :: "string list option"
  lines_maximum :: "nat option"

section \<open>Parsing\<close>

definition check_prefixes :: "string list option \<Rightarrow> string \<Rightarrow> unit app_result" where
  "check_prefixes opt parameter =
     (case opt of
        None \<Rightarrow> Inr ()
      | Some ps \<Rightarrow>
          if ps = [] then
            Inl (InvalidOperation (parameter @ '' must contain at least one prefix''))
          else if list_ex (\<lambda>p. p = []) ps then
            Inl (InvalidOperation (parameter @ '' prefixes must not be empty''))
          else Inr ())"

definition seek_build ::
  "string list option \<Rightarrow> string list option \<Rightarrow> nat option \<Rightarrow> seek_parameter_names
   \<Rightarrow> seek_filter app_result" where
  "seek_build from_ps to_ps maximum names =
     and_then (check_prefixes from_ps (name_from names)) (\<lambda>_.
     and_then (check_prefixes to_ps (name_to names)) (\<lambda>_.
       if from_ps = None \<and>
          (case to_ps of None \<Rightarrow> False
           | Some ps \<Rightarrow> list_ex (\<lambda>p. contains_str p SEEK_TO_FROM_META) ps)
       then Inl (InvalidOperation (name_to names @ '' uses '' @ SEEK_TO_FROM_META @ '' but ''
              @ name_from names @ '' is not set''))
       else if maximum = Some 0
       then Inl (InvalidOperation (name_maximum names @ '' must be at least 1''))
       else Inr \<lparr>from_prefixes = from_ps, to_prefixes = to_ps, lines_maximum = maximum\<rparr>))"

definition parse_prefix_array ::
  "(string \<Rightarrow> string list option) \<Rightarrow> string \<Rightarrow> string \<Rightarrow> string list app_result" where
  "parse_prefix_array parse_strings raw parameter =
     (case parse_strings raw of
        Some ps \<Rightarrow> Inr ps
      | None \<Rightarrow> Inl (InvalidOperation (parameter @ '' must be a JSON array of strings, e.g. [''
          @ [CHR 0x22] @ ''## '' @ [CHR 0x22] @ '']'')))"

definition seek_options_parse ::
  "(string \<Rightarrow> string list option) \<Rightarrow> seek_options \<Rightarrow> seek_filter app_result" where
  "seek_options_parse parse_strings opts =
     (let names = QUERY_PARAMETER_NAMES in
      and_then
        (case seek_from_line_starts_with opts of
           None \<Rightarrow> Inr None
         | Some raw \<Rightarrow> and_then (parse_prefix_array parse_strings raw (name_from names))
                        (\<lambda>ps. Inr (Some ps))) (\<lambda>from_ps.
      and_then
        (case seek_to_line_starts_with opts of
           None \<Rightarrow> Inr None
         | Some raw \<Rightarrow>
             if raw = SEEK_TO_FROM_META then Inr (Some [SEEK_TO_FROM_META])
             else and_then (parse_prefix_array parse_strings raw (name_to names))
                    (\<lambda>ps. Inr (Some ps))) (\<lambda>to_ps.
      seek_build from_ps to_ps (seek_lines_maximum opts) names)))"

definition seek_body_parse :: "seek_body \<Rightarrow> seek_filter app_result" where
  "seek_body_parse b =
     (let names = BODY_PARAMETER_NAMES in
      and_then
        (case to_line_starts_with b of
           None \<Rightarrow> Inr None
         | Some (Value v) \<Rightarrow>
             if v = SEEK_TO_FROM_META then Inr (Some [SEEK_TO_FROM_META])
             else Inl (InvalidOperation (name_to names
               @ '' must be a JSON array of strings, or the bare meta value '' @ SEEK_TO_FROM_META))
         | Some (Values vs) \<Rightarrow> Inr (Some vs)) (\<lambda>to_ps.
      seek_build (from_line_starts_with b) to_ps (body_lines_maximum b) names))"

definition is_noop :: "seek_filter \<Rightarrow> bool" where
  "is_noop f \<longleftrightarrow> from_prefixes f = None \<and> to_prefixes f = None \<and> lines_maximum f = None"

section \<open>The scan\<close>

record reader =
  rd_bytes :: bytes
  rd_fail :: "io_error option"

text \<open>\<open>read_until(b'\n')\<close>, repeated: lines keep their terminators.\<close>

definition NL :: char where "NL = CHR 0x0A"

fun lines_of :: "bytes \<Rightarrow> bytes list" where
  "lines_of [] = []"
| "lines_of (c # cs) =
     (if c = NL then [c] # lines_of cs
      else (case lines_of cs of [] \<Rightarrow> [[c]] | l # ls \<Rightarrow> (c # l) # ls))"

definition terminated :: "bytes \<Rightarrow> bool" where
  "terminated l \<longleftrightarrow> l \<noteq> [] \<and> last l = NL"

definition read_lines :: "reader \<Rightarrow> (io_error + bytes) list" where
  "read_lines r =
     (case rd_fail r of
        None \<Rightarrow> map Inr (lines_of (rd_bytes r))
      | Some e \<Rightarrow> map Inr (filter terminated (lines_of (rd_bytes r))) @ [Inl e])"

fun seek_scan ::
  "seek_filter \<Rightarrow> (io_error + bytes) list \<Rightarrow> bool \<Rightarrow> string list option \<Rightarrow> bytes \<Rightarrow> nat
   \<Rightarrow> bytes app_result" where
  "seek_scan f [] in_window tos win taken = Inr win"
| "seek_scan f (Inl e # rest) in_window tos win taken = Inl (IoErr e)"
| "seek_scan f (Inr line # rest) in_window tos win taken =
     (if \<not> in_window then
        (case find (starts_with line) (case from_prefixes f of None \<Rightarrow> [] | Some ps \<Rightarrow> ps) of
           None \<Rightarrow> seek_scan f rest False tos win taken
         | Some matched \<Rightarrow>
             (let tos' = map_option (map (str_replace SEEK_TO_FROM_META matched)) (to_prefixes f)
              in if lines_maximum f = Some (Suc taken) then Inr (win @ line)
                 else seek_scan f rest True tos' (win @ line) (Suc taken)))
      else
        (let closed = (0 < taken \<and>
               (case tos of None \<Rightarrow> False | Some ps \<Rightarrow> list_ex (starts_with line) ps))
         in if closed \<or> lines_maximum f = Some (Suc taken) then Inr (win @ line)
            else seek_scan f rest True tos (win @ line) (Suc taken)))"

definition apply_reader :: "seek_filter \<Rightarrow> reader \<Rightarrow> string \<Rightarrow> string app_result" where
  "apply_reader f r path =
     (let in_window = (from_prefixes f = None);
          tos = (case from_prefixes f of None \<Rightarrow> to_prefixes f | Some _ \<Rightarrow> None)
      in and_then (seek_scan f (read_lines r) in_window tos [] 0) (from_utf8 path))"

section \<open>The window as a slice of the file's lines\<close>

text \<open>
  The specification: the window starts at the first line matching a \<open>from\<close> prefix, ends
  with the first later line matching a resolved \<open>to\<close> prefix, and is capped.
\<close>

definition first_match :: "string list \<Rightarrow> bytes \<Rightarrow> string option" where
  "first_match ps line = find (starts_with line) ps"

definition stop_after :: "string list option \<Rightarrow> bytes list \<Rightarrow> nat" where
  "stop_after tos ls =
     (case tos of None \<Rightarrow> length ls
      | Some ps \<Rightarrow>
          (case position_of (\<lambda>l. list_ex (starts_with l) ps) ls of
             None \<Rightarrow> length ls | Some j \<Rightarrow> Suc j))"

definition capped :: "nat option \<Rightarrow> nat \<Rightarrow> nat" where
  "capped m n = (case m of None \<Rightarrow> n | Some k \<Rightarrow> min k n)"

text \<open>The window opened at a line: that line, then the lines up to the stop.\<close>

fun window_from :: "string list option \<Rightarrow> nat option \<Rightarrow> bytes list \<Rightarrow> bytes list" where
  "window_from tos m [] = []"
| "window_from tos m (l # ls) = take (capped m (Suc (stop_after tos ls))) (l # ls)"

definition window_spec :: "seek_filter \<Rightarrow> bytes list \<Rightarrow> bytes list" where
  "window_spec f ls =
     (case from_prefixes f of
        None \<Rightarrow> window_from (to_prefixes f) (lines_maximum f) ls
      | Some ps \<Rightarrow>
          (case dropWhile (\<lambda>l. first_match ps l = None) ls of
             [] \<Rightarrow> []
           | l # rest \<Rightarrow>
               window_from
                 (map_option (map (str_replace SEEK_TO_FROM_META (the (first_match ps l))))
                   (to_prefixes f))
                 (lines_maximum f) (l # rest)))"

lemma concat_lines_of [simp]: "concat (lines_of s) = s"
proof (induction s)
  case (Cons c s)
  then show ?case by (cases "lines_of s") auto
qed simp

lemma stop_after_Nil [simp]: "stop_after tos [] = 0"
  by (simp add: stop_after_def split: option.split)

lemma stop_after_Cons:
  "stop_after tos (l # ls) =
     (if (case tos of None \<Rightarrow> False | Some ps \<Rightarrow> list_ex (starts_with l) ps) then 1
      else Suc (stop_after tos ls))"
  by (auto simp: stop_after_def split: option.splits)

lemma take_min_Suc:
  "k < x \<Longrightarrow> take (min (x - k) (Suc n)) (l # ls) = l # take (min (x - Suc k) n) ls"
  by (simp flip: Suc_diff_Suc)

text \<open>The loop once the window holds at least one line.\<close>

lemma seek_scan_open:
  assumes "0 < taken" and "\<forall>k. lines_maximum f = Some k \<longrightarrow> taken < k"
  shows "seek_scan f (map Inr ls) True tos win taken =
    Inr (win @ concat (take (case lines_maximum f of None \<Rightarrow> stop_after tos ls
                                | Some k \<Rightarrow> min (k - taken) (stop_after tos ls)) ls))"
  using assms
proof (induction ls arbitrary: win taken)
  case (Cons l ls)
  show ?case
  proof (cases "(case tos of None \<Rightarrow> False | Some ps \<Rightarrow> list_ex (starts_with l) ps)
      \<or> lines_maximum f = Some (Suc taken)")
    case True
    then show ?thesis using Cons.prems
      by (auto simp: stop_after_Cons Let_def split: option.splits)
  next
    case False
    then have "\<forall>k. lines_maximum f = Some k \<longrightarrow> Suc taken < k"
      using Cons.prems(2) by (metis Suc_lessI)
    with False Cons.IH [of "Suc taken" "win @ l"] show ?thesis
      using Cons.prems(2)
      by (auto simp: stop_after_Cons Let_def take_min_Suc split: option.splits)
  qed
qed simp

lemma seek_scan_first:
  assumes "lines_maximum f \<noteq> Some 0"
  shows "(if lines_maximum f = Some (Suc 0) then Inr l
          else seek_scan f (map Inr ls) True tos l (Suc 0)) =
         Inr (concat (window_from tos (lines_maximum f) (l # ls)))"
proof (cases "lines_maximum f = Some (Suc 0)")
  case True
  then show ?thesis by (simp add: capped_def)
next
  case False
  with assms have "\<forall>k. lines_maximum f = Some k \<longrightarrow> Suc 0 < k"
    by (metis One_nat_def less_one linorder_neqE_nat)
  then show ?thesis
    using False seek_scan_open [of "Suc 0" f ls tos l]
    by (auto simp: capped_def take_min_Suc [of 0, simplified] split: option.splits)
qed

lemma seek_scan_from:
  assumes "from_prefixes f = Some ps" and "lines_maximum f \<noteq> Some 0"
  shows "seek_scan f (map Inr ls) False tos [] 0 = Inr (concat (window_spec f ls))"
proof (induction ls)
  case Nil
  then show ?case by (simp add: window_spec_def assms(1))
next
  case (Cons l ls)
  show ?case
  proof (cases "find (starts_with l) ps")
    case None
    with Cons show ?thesis using assms(1) by (simp add: window_spec_def first_match_def)
  next
    case (Some matched)
    let ?tos = "map_option (map (str_replace SEEK_TO_FROM_META matched)) (to_prefixes f)"
    have "seek_scan f (map Inr (l # ls)) False tos [] 0 =
        (if lines_maximum f = Some (Suc 0) then Inr l
         else seek_scan f (map Inr ls) True ?tos l (Suc 0))"
      using Some assms(1) by (simp add: Let_def)
    also have "\<dots> = Inr (concat (window_from ?tos (lines_maximum f) (l # ls)))"
      by (rule seek_scan_first [OF assms(2)])
    also have "window_from ?tos (lines_maximum f) (l # ls) = window_spec f (l # ls)"
      using Some assms(1) by (simp add: window_spec_def first_match_def)
    finally show ?thesis .
  qed
qed

lemma seek_scan_spec:
  assumes "lines_maximum f \<noteq> Some 0"
  shows "seek_scan f (map Inr ls) (from_prefixes f = None)
      (case from_prefixes f of None \<Rightarrow> to_prefixes f | Some _ \<Rightarrow> None) [] 0
     = Inr (concat (window_spec f ls))"
proof (cases "from_prefixes f")
  case None
  show ?thesis
  proof (cases ls)
    case Nil
    with None show ?thesis by (simp add: window_spec_def)
  next
    case (Cons l rest)
    with None seek_scan_first [OF assms, of l rest "to_prefixes f"] show ?thesis
      by (simp add: window_spec_def Let_def del: window_from.simps split: if_splits)
  qed
qed (use seek_scan_from [OF _ assms] in simp)

lemma seek_build_Inr:
  "seek_build a b m n = Inr f \<Longrightarrow>
     f = \<lparr>from_prefixes = a, to_prefixes = b, lines_maximum = m\<rparr> \<and> m \<noteq> Some 0"
  by (auto simp: seek_build_def and_then_eq_Inr split: if_splits)

text \<open>
  C11: for every accepted filter the single-pass scan returns exactly the specified slice of
  the file's lines, byte for byte: from the first line starting with a \<open>from\<close> prefix, up to
  and including the first later line starting with a \<open>to\<close> prefix (the meta value replaced by
  the prefix that matched), capped at the maximum; and it answers the UTF-8 error exactly when
  that slice is not valid UTF-8, whatever lies outside it.
\<close>

theorem seek_window_correct:
  assumes "seek_build from_ps to_ps maximum names = Inr f"
  shows "apply_reader f \<lparr>rd_bytes = content, rd_fail = None\<rparr> path =
    (let win = concat (window_spec f (lines_of content)) in
     if valid_utf8 win then Inr win else Inl (InvalidUtf8 path))"
proof -
  have "lines_maximum f \<noteq> Some 0" using seek_build_Inr [OF assms] by auto
  then show ?thesis
    by (simp add: apply_reader_def read_lines_def seek_scan_spec from_utf8_def Let_def)
qed

lemma seek_window_correct_witness:
  "apply_reader \<lparr>from_prefixes = Some [''---''], to_prefixes = Some [''---''], lines_maximum = None\<rparr>
     \<lparr>rd_bytes = ''a'' @ [NL] @ ''---'' @ [NL] @ ''t'' @ [NL] @ ''---'' @ [NL] @ ''b'', rd_fail = None\<rparr> ''p''
   = Inr (''---'' @ [NL] @ ''t'' @ [NL] @ ''---'' @ [NL])"
proof -
  have "seek_build (Some [''---'']) (Some [''---'']) None QUERY_PARAMETER_NAMES =
      Inr \<lparr>from_prefixes = Some [''---''], to_prefixes = Some [''---''], lines_maximum = None\<rparr>"
    by code_simp
  from seek_window_correct [OF this, of "''a'' @ [NL] @ ''---'' @ [NL] @ ''t'' @ [NL] @ ''---'' @ [NL] @ ''b''" "''p''"]
  show ?thesis by code_simp
qed

end
