(* ===== verification/Git_Model.thy ===== *)
theory Git_Model
  imports Order_Index Seek
begin

text \<open>
  The repository a tenant's directory holds, the parameters that stand for \<open>git2\<close> (libgit2)
  and \<open>serde_json\<close>, and the low-level helpers of \<open>src/git.rs\<close>: \<open>GitUtils\<close> and
  \<open>WorkingTree\<close>. Object ids are a type parameter: the program only compares them and prints
  them.

  A repository is git's data: its HEAD, and the commits, trees and blobs of its object
  database. Looking an object up is a map lookup, a missing object an error of \<open>git2\<close>. What
  \<open>git2\<close> computes (path lookup, tree walks, tree updates, hashing, committing) is a field of
  \<open>libs\<close>; the documented behaviour the proofs use is the predicate \<open>git2_ok\<close> of
  \<open>Git_Laws\<close>.
\<close>

section \<open>Repositories\<close>

datatype object_kind = Blob | Tree | OtherKind

record 'o tree_entry =
  te_name :: "string option" \<comment> \<open>\<open>None\<close>: not valid UTF-8\<close>
  te_kind :: object_kind
  te_id :: 'o
  te_mode :: int

record signature =
  sig_name :: string
  sig_email :: string
  sig_time :: int

record 'o commit =
  c_tree :: 'o
  c_parents :: "'o list"
  c_message :: string
  c_signature :: signature

record 'o repo =
  r_head :: "git_error + 'o"
  r_commits :: "'o \<rightharpoonup> 'o commit"
  r_trees :: "'o \<rightharpoonup> 'o tree_entry list"
  r_blobs :: "'o \<rightharpoonup> bytes"

datatype 'o tree_update = Upsert string 'o | Remove string

datatype fs_node = FsFile bytes | FsDir

type_synonym worktree = "string list \<rightharpoonup> fs_node"

text \<open>
  A tenant's directory: whether \<open>repo_path\<close> exists, the repository in its \<open>.git\<close>, and the
  files beside it, keyed by their path below \<open>repo_path\<close>.
\<close>

record 'o disk =
  dk_exists :: bool
  dk_git :: "'o repo option"
  dk_work :: worktree

type_synonym ('o, 'a) git_action = "('o disk, app_error, 'a) action"

text \<open>
  The third-party parameters. The last two stand for failures of the operating system
  (permissions, a full disk): of one working-tree operation, and of the staging directory's
  creation and rename.
\<close>

record 'o libs =
  g_open :: "'o disk \<Rightarrow> git_error + 'o repo"
  g_init :: "'o disk \<Rightarrow> git_error + 'o repo"
  g_empty_tree :: "'o repo \<Rightarrow> git_error + 'o \<times> 'o repo"
  g_get_path :: "'o repo \<Rightarrow> 'o \<Rightarrow> string \<Rightarrow> 'o tree_entry option"
  g_walk :: "'o repo \<Rightarrow> 'o \<Rightarrow> git_error + (string \<times> 'o tree_entry) list"
  g_hash_blob :: "bytes \<Rightarrow> git_error + 'o"
  g_blob :: "bytes \<Rightarrow> 'o repo \<Rightarrow> git_error + 'o \<times> 'o repo"
  g_create_updated :: "'o \<Rightarrow> 'o tree_update list \<Rightarrow> 'o repo \<Rightarrow> git_error + 'o \<times> 'o repo"
  g_signature_now :: "string \<Rightarrow> string \<Rightarrow> git_error + signature"
  g_commit :: "signature \<Rightarrow> string \<Rightarrow> 'o \<Rightarrow> 'o list \<Rightarrow> 'o repo \<Rightarrow> git_error + 'o \<times> 'o repo"
  g_odb :: "'o repo \<Rightarrow> git_error option"
  g_odb_reader :: "'o repo \<Rightarrow> 'o \<Rightarrow> git_error + reader"
  g_oid_string :: "'o \<Rightarrow> string"
  json_pretty_order :: "string list \<Rightarrow> string option"
  json_parse_order :: "string \<Rightarrow> string list option"
  os_fault :: "worktree \<Rightarrow> string list \<Rightarrow> (io_error \<times> worktree) option" \<comment> \<open>and the files it leaves\<close>
  os_stage_fault :: "io_error option"
  os_rename_fault :: "io_error option"

section \<open>Object lookups\<close>

definition missing_object :: git_error where
  "missing_object = GitError GitNotFound ''object not found''"

definition git_result :: "git_error + 'a \<Rightarrow> 'a app_result" where
  "git_result r = (case r of Inl e \<Rightarrow> Inl (GitErr e) | Inr a \<Rightarrow> Inr a)"

definition find_blob :: "'o repo \<Rightarrow> 'o \<Rightarrow> bytes app_result" where
  "find_blob r oid = (case r_blobs r oid of None \<Rightarrow> Inl (GitErr missing_object) | Some c \<Rightarrow> Inr c)"

definition find_tree :: "'o repo \<Rightarrow> 'o \<Rightarrow> 'o tree_entry list app_result" where
  "find_tree r oid = (case r_trees r oid of None \<Rightarrow> Inl (GitErr missing_object) | Some es \<Rightarrow> Inr es)"

text \<open>\<open>repo.head()?.peel_to_commit()?\<close>, and the tree of that commit.\<close>

definition head_commit :: "'o repo \<Rightarrow> ('o \<times> 'o commit) app_result" where
  "head_commit r =
     (case r_head r of
        Inl e \<Rightarrow> Inl (GitErr e)
      | Inr h \<Rightarrow> (case r_commits r h of None \<Rightarrow> Inl (GitErr missing_object) | Some c \<Rightarrow> Inr (h, c)))"

definition commit_tree :: "'o repo \<Rightarrow> 'o commit \<Rightarrow> 'o app_result" where
  "commit_tree r c = and_then (find_tree r (c_tree c)) (\<lambda>_. Inr (c_tree c))"

definition head_tree :: "'o repo \<Rightarrow> ('o \<times> 'o) app_result" where
  "head_tree r =
     and_then (head_commit r) (\<lambda>(h, c). and_then (commit_tree r c) (\<lambda>t. Inr (h, t)))"

definition odb_step :: "('o repo \<Rightarrow> git_error + 'a \<times> 'o repo) \<Rightarrow> ('o, 'a) git_action" where
  "odb_step f d =
     (case dk_git d of
        None \<Rightarrow> (Inl (GitErr missing_object), d)
      | Some r \<Rightarrow>
          (case f r of
             Inl e \<Rightarrow> (Inl (GitErr e), d)
           | Inr (a, r') \<Rightarrow> (Inr a, d\<lparr>dk_git := Some r'\<rparr>)))"

definition odb_read :: "('o repo \<Rightarrow> 'a app_result) \<Rightarrow> ('o, 'a) git_action" where
  "odb_read f d =
     (case dk_git d of None \<Rightarrow> (Inl (GitErr missing_object), d) | Some r \<Rightarrow> (f r, d))"

section \<open>GitUtils\<close>

definition git_signature :: "'o libs \<Rightarrow> string \<Rightarrow> string \<Rightarrow> signature app_result" where
  "git_signature L author_name author_email =
     (if is_blank author_name then Inl (InvalidOperation ''author.name must not be empty'')
      else if is_blank author_email then Inl (InvalidOperation ''author.email must not be empty'')
      else git_result (g_signature_now L author_name author_email))"

definition open_tenant_repo :: "'o libs \<Rightarrow> string \<Rightarrow> 'o disk \<Rightarrow> 'o repo app_result" where
  "open_tenant_repo L tenant d =
     (if \<not> dk_exists d then Inl (TenantNotFound tenant)
      else (case g_open L d of
          Inl (GitError code m) \<Rightarrow>
            if code = GitNotFound then Inl (TenantNotFound tenant)
            else Inl (GitErr (GitError code m))
        | Inr r \<Rightarrow>
            (case r_head r of
               Inl (GitError code m) \<Rightarrow>
                 if code = GitUnbornBranch then Inl (TenantNotFound tenant) else Inr r
             | Inr _ \<Rightarrow> Inr r)))"

definition init_with_root_commit :: "'o libs \<Rightarrow> signature \<Rightarrow> ('o, unit) git_action" where
  "init_with_root_commit L sg =
     bind_act (\<lambda>d. (case g_init L d of
                       Inl e \<Rightarrow> (Inl (GitErr e), d)
                     | Inr r \<Rightarrow> (Inr (), d\<lparr>dk_exists := True, dk_git := Some r\<rparr>))) (\<lambda>_.
     bind_act (odb_step (g_empty_tree L)) (\<lambda>empty_tree.
     bind_act (odb_read (\<lambda>r. find_tree r empty_tree)) (\<lambda>_.
     bind_act (odb_step (g_commit L sg ''chore: initialize'' empty_tree [])) (\<lambda>_.
     act_ok ()))))"

text \<open>
  \<open>GitStaging::create\<close> as the tenant's path sees it: the build runs in a fresh directory,
  which replaces the (absent) tenant directory only once it is complete.
\<close>

definition empty_disk :: "'o disk" where
  "empty_disk = \<lparr>dk_exists = True, dk_git = None, dk_work = (\<lambda>_. None)\<rparr>"

definition staging_create :: "'o libs \<Rightarrow> ('o, 'a) git_action \<Rightarrow> ('o, 'a) git_action" where
  "staging_create L build d =
     (case os_stage_fault L of
        Some e \<Rightarrow> (Inl (IoErr e), d)
      | None \<Rightarrow>
          (case build empty_disk of
             (Inl e, _) \<Rightarrow> (Inl e, d)
           | (Inr v, staged) \<Rightarrow>
               (case os_rename_fault L of
                  Some e \<Rightarrow> (Inl (IoErr e), d)
                | None \<Rightarrow> (Inr v, staged))))"

definition open_or_init_repo :: "'o libs \<Rightarrow> string \<Rightarrow> string \<Rightarrow> ('o, 'o repo) git_action" where
  "open_or_init_repo L author_name author_email d =
     (case dk_git d of
        Some _ \<Rightarrow> (git_result (g_open L d), d)
      | None \<Rightarrow>
          bind_act (act_lift (git_signature L author_name author_email)) (\<lambda>sg.
          bind_act (\<lambda>d. if dk_exists d then init_with_root_commit L sg d
                         else staging_create L (init_with_root_commit L sg) d) (\<lambda>_.
          (\<lambda>d. (git_result (g_open L d), d)))) d)"

lemma open_or_init_existing:
  "dk_git d \<noteq> None \<Longrightarrow> open_or_init_repo L an ae d = (git_result (g_open L d), d)"
  by (auto simp: open_or_init_repo_def)

definition blob_content_from_tree :: "'o libs \<Rightarrow> 'o repo \<Rightarrow> 'o \<Rightarrow> string \<Rightarrow> string app_result" where
  "blob_content_from_tree L r tree file_path =
     (case g_get_path L r tree file_path of
        None \<Rightarrow> Inl (FileNotFound file_path)
      | Some e \<Rightarrow> and_then (find_blob r (te_id e)) (from_utf8 file_path))"

definition blob_oid_in_tree :: "'o libs \<Rightarrow> 'o repo \<Rightarrow> 'o \<Rightarrow> string \<Rightarrow> 'o option" where
  "blob_oid_in_tree L r tree file_path =
     (case g_get_path L r tree file_path of
        None \<Rightarrow> None
      | Some e \<Rightarrow> if te_kind e \<noteq> Blob then None else Some (te_id e))"

definition windowed_blob_content ::
  "'o libs \<Rightarrow> 'o repo \<Rightarrow> 'o \<Rightarrow> string \<Rightarrow> seek_filter \<Rightarrow> string app_result" where
  "windowed_blob_content L r oid file_path seek =
     (if is_noop seek then and_then (find_blob r oid) (from_utf8 file_path)
      else (case g_odb L r of
          Some e \<Rightarrow> Inl (GitErr e)
        | None \<Rightarrow>
            (case g_odb_reader L r oid of
               Inr stream \<Rightarrow> apply_reader seek stream file_path
             | Inl _ \<Rightarrow>
                 and_then (find_blob r oid)
                   (\<lambda>content. apply_reader seek \<lparr>rd_bytes = content, rd_fail = None\<rparr> file_path))))"

definition subtree_blob_paths ::
  "'o libs \<Rightarrow> 'o repo \<Rightarrow> 'o \<Rightarrow> string \<Rightarrow> (string \<times> 'o) list app_result" where
  "subtree_blob_paths L r tree dir_path =
     (case g_get_path L r tree dir_path of
        None \<Rightarrow> Inl (FileNotFound dir_path)
      | Some e \<Rightarrow>
          (case find_tree r (te_id e) of
             Inl _ \<Rightarrow> Inl (FileNotFound dir_path)
           | Inr _ \<Rightarrow>
               and_then (git_result (g_walk L r (te_id e))) (\<lambda>visits.
                 Inr (List.concat (map (\<lambda>(root, entry).
                   if te_kind entry = Blob then
                     (case te_name entry of
                        Some name \<Rightarrow> [(dir_path @ ''/'' @ root @ name, te_id entry)]
                      | None \<Rightarrow> [])
                   else []) visits)))))"

section \<open>WorkingTree\<close>

text \<open>
  The standard library's file operations on the tree below \<open>repo_path\<close>. A path spelled with
  a trailing slash names a directory to the operating system.
\<close>

definition fs_key :: "string \<Rightarrow> string list" where
  "fs_key path = path_join [] path"

definition proper_ancestors :: "string list \<Rightarrow> string list list" where
  "proper_ancestors k = map (\<lambda>n. take n k) [1..<length k]"

definition through_file :: "worktree \<Rightarrow> string list \<Rightarrow> bool" where
  "through_file w k \<longleftrightarrow> list_ex (\<lambda>a. case w a of Some (FsFile _) \<Rightarrow> True | _ \<Rightarrow> False) (proper_ancestors k)"

definition trailing_slash :: "string \<Rightarrow> bool" where
  "trailing_slash path \<longleftrightarrow> path \<noteq> [] \<and> last path = CHR ''/''"

definition fs_write :: "worktree \<Rightarrow> string \<Rightarrow> bytes \<Rightarrow> io_error + worktree" where
  "fs_write w path content =
     (let k = fs_key path in
      if through_file w k then Inl (IoError IoNotADirectory ''Not a directory (os error 20)'')
      else if k = [] \<or> trailing_slash path \<or> w k = Some FsDir
      then Inl (IoError IoIsADirectory ''Is a directory (os error 21)'')
      else Inr ((override_on w (\<lambda>_. Some FsDir) (set (proper_ancestors k)))(k \<mapsto> FsFile content)))"

definition fs_remove_file :: "worktree \<Rightarrow> string \<Rightarrow> io_error + worktree" where
  "fs_remove_file w path =
     (let k = fs_key path in
      if through_file w k then Inl (IoError IoNotADirectory ''Not a directory (os error 20)'')
      else (case w k of
          None \<Rightarrow> Inl (IoError IoNotFound ''No such file or directory (os error 2)'')
        | Some FsDir \<Rightarrow> Inl (IoError IoIsADirectory ''Is a directory (os error 21)'')
        | Some (FsFile _) \<Rightarrow>
            if trailing_slash path then Inl (IoError IoNotADirectory ''Not a directory (os error 20)'')
            else Inr (w(k := None))))"

definition fs_remove_dir_all :: "worktree \<Rightarrow> string \<Rightarrow> io_error + worktree" where
  "fs_remove_dir_all w path =
     (let k = fs_key path in
      if through_file w k then Inl (IoError IoNotADirectory ''Not a directory (os error 20)'')
      else (case w k of
          None \<Rightarrow> Inl (IoError IoNotFound ''No such file or directory (os error 2)'')
        | Some (FsFile _) \<Rightarrow> Inl (IoError IoNotADirectory ''Not a directory (os error 20)'')
        | Some FsDir \<Rightarrow> Inr (\<lambda>j. if prefix k j then None else w j)))"

definition wt_write :: "'o libs \<Rightarrow> bool \<Rightarrow> string \<Rightarrow> bytes \<Rightarrow> ('o, unit) git_action" where
  "wt_write L enabled path content d =
     (if \<not> enabled then (Inr (), d)
      else (case os_fault L (dk_work d) (fs_key path) of
          Some (e, w) \<Rightarrow> (Inl (IoErr e), d\<lparr>dk_work := w\<rparr>)
        | None \<Rightarrow>
            (case fs_write (dk_work d) path content of
               Inl e \<Rightarrow> (Inl (IoErr e), d)
             | Inr w \<Rightarrow> (Inr (), d\<lparr>dk_work := w\<rparr>))))"

fun tolerate_absent :: "io_error + worktree \<Rightarrow> ('o, unit) git_action" where
  "tolerate_absent (Inr w) d = (Inr (), d\<lparr>dk_work := w\<rparr>)"
| "tolerate_absent (Inl (IoError kind m)) d =
     (if kind = IoNotFound then (Inr (), d) else (Inl (IoErr (IoError kind m)), d))"

definition wt_remove_file :: "'o libs \<Rightarrow> bool \<Rightarrow> string \<Rightarrow> ('o, unit) git_action" where
  "wt_remove_file L enabled path d =
     (if \<not> enabled then (Inr (), d)
      else (case os_fault L (dk_work d) (fs_key path) of
          Some (e, w) \<Rightarrow> tolerate_absent (Inl e) (d\<lparr>dk_work := w\<rparr>)
        | None \<Rightarrow> tolerate_absent (fs_remove_file (dk_work d) path) d))"

definition wt_remove_directory :: "'o libs \<Rightarrow> bool \<Rightarrow> string \<Rightarrow> ('o, unit) git_action" where
  "wt_remove_directory L enabled path d =
     (if \<not> enabled then (Inr (), d)
      else (case os_fault L (dk_work d) (fs_key path) of
          Some (e, w) \<Rightarrow> tolerate_absent (Inl e) (d\<lparr>dk_work := w\<rparr>)
        | None \<Rightarrow> tolerate_absent (fs_remove_dir_all (dk_work d) path) d))"

section \<open>Changes and commits\<close>

datatype file_change =
    Created string string
  | Updated string string
  | Deleted string
  | Moved string string string

text \<open>
  The tail every mutating operation ends with: graft the updates onto HEAD's tree, sign, and
  commit on top of the parent.
\<close>

definition commit_updates ::
  "'o libs \<Rightarrow> 'o \<Rightarrow> 'o \<Rightarrow> 'o tree_update list \<Rightarrow> string \<Rightarrow> string \<Rightarrow> string \<Rightarrow> ('o, 'o) git_action"
where
  "commit_updates L parent tree updates message author_name author_email =
     bind_act (odb_step (g_create_updated L tree updates)) (\<lambda>tree_id.
     bind_act (odb_read (\<lambda>r. find_tree r tree_id)) (\<lambda>_.
     bind_act (act_lift (git_signature L author_name author_email)) (\<lambda>sg.
     odb_step (g_commit L sg message tree_id [parent]))))"

definition message_or :: "string option \<Rightarrow> string \<Rightarrow> string" where
  "message_or commit_message auto = (case commit_message of None \<Rightarrow> auto | Some m \<Rightarrow> m)"

text \<open>The UTF-8 bytes of the arrow in a move's commit message.\<close>

definition arrow :: string where
  "arrow = '' '' @ [CHR 0xE2, CHR 0x86, CHR 0x92] @ '' ''"

end
