(* ===== verification/Git_Order.thy ===== *)
theory Git_Order
  imports Git_Model
begin

text \<open>
  \<open>GitOrder\<close> of \<open>src/git.rs\<close> and the ranking of \<open>GitFiles\<close> it shares with the listing: reading
  a stored order, materialising the order a directory is rendered in, the upkeep that keeps an
  index honest across file operations, and the operations of the order routes.
\<close>

section \<open>Ranking\<close>

record order_options =
  implicit_default_index :: "int option"

datatype order_position = At nat | Unlisted

definition I64_MAX :: int where "I64_MAX = 2 ^ 63 - 1"

fun rank_entries :: "int \<Rightarrow> string list \<Rightarrow> (string \<rightharpoonup> int) \<Rightarrow> (string \<rightharpoonup> int)" where
  "rank_entries position [] ranks = ranks"
| "rank_entries position (entry # rest) ranks =
     rank_entries (position + 1) rest
       (if ranks (entry_name entry) = None then ranks(entry_name entry \<mapsto> position) else ranks)"

definition order_ranks :: "string list \<Rightarrow> (string \<rightharpoonup> int)" where
  "order_ranks order = rank_entries 0 order (\<lambda>_. None)"

definition order_rank :: "(string \<rightharpoonup> int) \<Rightarrow> string \<Rightarrow> order_options \<Rightarrow> int \<times> bool" where
  "order_rank ranks name options =
     (case ranks name of
        Some position \<Rightarrow> (position, True)
      | None \<Rightarrow>
          ((case implicit_default_index options of None \<Rightarrow> I64_MAX | Some i \<Rightarrow> i), False))"

section \<open>Reading the index\<close>

definition stored_order :: "'o libs \<Rightarrow> 'o repo \<Rightarrow> 'o \<Rightarrow> string \<Rightarrow> string list option" where
  "stored_order L r tree directory =
     (case blob_oid_in_tree L r tree (order_file_path directory) of
        None \<Rightarrow> None
      | Some index_oid \<Rightarrow>
          (case find_blob r index_oid of
             Inl _ \<Rightarrow> None
           | Inr content \<Rightarrow>
               if valid_utf8 content then parse (json_parse_order L) content else None))"

text \<open>The directory's own entries, sorted directories first.\<close>

definition directory_entries ::
  "'o libs \<Rightarrow> 'o repo \<Rightarrow> 'o \<Rightarrow> string \<Rightarrow> string list app_result" where
  "directory_entries L r htree directory =
     and_then
       (if directory = [] then and_then (find_tree r htree) (\<lambda>es. Inr (Some es))
        else (case g_get_path L r htree directory of
            None \<Rightarrow> Inr None
          | Some e \<Rightarrow>
              if te_kind e = Tree then and_then (find_tree r (te_id e)) (\<lambda>es. Inr (Some es))
              else Inr None))
       (\<lambda>found. case found of
            None \<Rightarrow> Inr []
          | Some es \<Rightarrow>
              (let named = List.map_filter
                     (\<lambda>e. case te_name e of
                            None \<Rightarrow> None
                          | Some n \<Rightarrow> if n = ORDER_FILE_NAME then None else Some (n, te_kind e)) es;
                   directories = map (\<lambda>(n, _). directory_entry n)
                     (filter (\<lambda>(_, k). k = Tree) named);
                   files = map fst (filter (\<lambda>(_, k). k = Blob) named)
               in Inr (sort directories @ sort files)))"

definition materialized_order ::
  "'o libs \<Rightarrow> 'o repo \<Rightarrow> 'o \<Rightarrow> string \<Rightarrow> string list \<Rightarrow> int option \<Rightarrow> bool
   \<Rightarrow> string list app_result" where
  "materialized_order L r htree directory stored default_index allow_hidden_files =
     and_then (directory_entries L r htree directory) (\<lambda>entries.
       (let ranks = order_ranks stored;
            options = \<lparr>implicit_default_index = default_index\<rparr>;
            kept = (if allow_hidden_files then entries
                    else filter (\<lambda>e. \<not> is_hidden e \<or> ranks (entry_name e) \<noteq> None) entries)
        in Inr (sort_key (\<lambda>e. order_rank ranks (entry_name e) options) kept)))"

definition entry_position :: "'o libs \<Rightarrow> 'o repo \<Rightarrow> 'o \<Rightarrow> string \<Rightarrow> string \<Rightarrow> int" where
  "entry_position L r tree directory name =
     (case Option.bind (stored_order L r tree directory)
             (position_of (\<lambda>e. entry_name e = name)) of
        None \<Rightarrow> UNLISTED_POSITION
      | Some position \<Rightarrow> int position)"

section \<open>Staging index changes\<close>

text \<open>
  \<open>tree_update\<close> is the builder the caller will commit: the staging functions return it with
  their own update added.
\<close>

definition stage_index ::
  "'o libs \<Rightarrow> 'o tree_update list \<Rightarrow> string \<Rightarrow> string list \<Rightarrow> bool \<Rightarrow> bool
   \<Rightarrow> ('o, file_change \<times> 'o tree_update list) git_action" where
  "stage_index L tree_update directory order_entries index_existed checkout_files =
     (let index_path = order_file_path directory in
      if order_entries = [] then
        bind_act (wt_remove_file L checkout_files index_path) (\<lambda>_.
          act_ok (Deleted index_path, tree_update @ [Remove index_path]))
      else
        (let content = serialize (json_pretty_order L) order_entries in
         bind_act (wt_write L checkout_files index_path content) (\<lambda>_.
         bind_act (odb_step (g_blob L content)) (\<lambda>blob_oid.
           act_ok
             (if index_existed then Updated index_path content else Created index_path content,
              tree_update @ [Upsert index_path blob_oid])))))"

definition stage_some ::
  "('o, file_change \<times> 'o tree_update list) git_action
   \<Rightarrow> ('o, file_change option \<times> 'o tree_update list) git_action" where
  "stage_some m = bind_act m (\<lambda>(change, us). act_ok (Some change, us))"

definition stage_entry_removed ::
  "'o libs \<Rightarrow> 'o repo \<Rightarrow> 'o \<Rightarrow> 'o tree_update list \<Rightarrow> string \<Rightarrow> string \<Rightarrow> bool
   \<Rightarrow> ('o, file_change option \<times> 'o tree_update list) git_action" where
  "stage_entry_removed L r htree tree_update directory name checkout_files =
     (case stored_order L r htree directory of
        None \<Rightarrow> act_ok (None, tree_update)
      | Some stored \<Rightarrow>
          (let retained = filter (\<lambda>e. entry_name e \<noteq> name) stored in
           if length retained = length stored then act_ok (None, tree_update)
           else stage_some (stage_index L tree_update directory retained True checkout_files)))"

definition stage_entry_appended ::
  "'o libs \<Rightarrow> 'o repo \<Rightarrow> 'o \<Rightarrow> 'o tree_update list \<Rightarrow> string \<Rightarrow> string \<Rightarrow> bool
   \<Rightarrow> ('o, file_change option \<times> 'o tree_update list) git_action" where
  "stage_entry_appended L r htree tree_update directory canonical_entry checkout_files =
     (case stored_order L r htree directory of
        None \<Rightarrow> act_ok (None, tree_update)
      | Some stored \<Rightarrow>
          (let name = entry_name canonical_entry in
           if list_ex (\<lambda>e. entry_name e = name) stored then act_ok (None, tree_update)
           else stage_some
                  (stage_index L tree_update directory (stored @ [canonical_entry]) True
                     checkout_files)))"

definition stage_entry_renamed ::
  "'o libs \<Rightarrow> 'o repo \<Rightarrow> 'o \<Rightarrow> 'o tree_update list \<Rightarrow> string \<Rightarrow> string \<Rightarrow> string \<Rightarrow> bool
   \<Rightarrow> ('o, file_change option \<times> 'o tree_update list) git_action" where
  "stage_entry_renamed L r htree tree_update directory from_name canonical_entry checkout_files =
     (case stored_order L r htree directory of
        None \<Rightarrow> act_ok (None, tree_update)
      | Some stored \<Rightarrow>
          (case position_of (\<lambda>e. entry_name e = from_name) stored of
             None \<Rightarrow> act_ok (None, tree_update)
           | Some position \<Rightarrow>
               stage_some
                 (stage_index L tree_update directory (stored[position := canonical_entry]) True
                    checkout_files)))"

section \<open>Operations\<close>

definition opened :: "'o libs \<Rightarrow> string \<Rightarrow> ('o, 'o repo) git_action" where
  "opened L tenant d = (open_tenant_repo L tenant d, d)"

definition read_order :: "'o libs \<Rightarrow> 'o disk \<Rightarrow> string \<Rightarrow> string \<Rightarrow> string list app_result" where
  "read_order L d tenant directory =
     and_then (open_tenant_repo L tenant d) (\<lambda>r.
     and_then (head_tree r) (\<lambda>(_, tree).
       (case stored_order L r tree directory of
          None \<Rightarrow> Inl (OrderNotFound (display_directory directory))
        | Some order \<Rightarrow> Inr order)))"

definition replay_read_orders ::
  "'o libs \<Rightarrow> 'o disk \<Rightarrow> string \<Rightarrow> string list \<Rightarrow> string list option list app_result" where
  "replay_read_orders L d tenant directories =
     and_then (open_tenant_repo L tenant d) (\<lambda>r.
     and_then (head_tree r) (\<lambda>(_, tree).
       Inr (map (stored_order L r tree) directories)))"

definition canonical_entry_of ::
  "'o libs \<Rightarrow> 'o repo \<Rightarrow> 'o \<Rightarrow> string \<Rightarrow> string \<Rightarrow> string app_result" where
  "canonical_entry_of L r tree directory entry =
     (let name = entry_name entry;
          entry_path = (if directory = [] then name else directory @ ''/'' @ name);
          absent = Inl (InvalidOperation (''order entry does not exist in '' @ [CHR 0x27]
            @ display_directory directory @ [CHR 0x27] @ '': '' @ name))
      in (case g_get_path L r tree entry_path of
            Some e \<Rightarrow>
              (if te_kind e = Blob then Inr name
               else if te_kind e = Tree then Inr (directory_entry name)
               else absent)
          | None \<Rightarrow> absent))"

definition directory_present :: "'o libs \<Rightarrow> 'o repo \<Rightarrow> 'o \<Rightarrow> string \<Rightarrow> bool" where
  "directory_present L r tree directory \<longleftrightarrow>
     directory = [] \<or>
     (case g_get_path L r tree directory of Some e \<Rightarrow> te_kind e = Tree | None \<Rightarrow> False)"

definition write_order ::
  "'o libs \<Rightarrow> string \<Rightarrow> string \<Rightarrow> string list \<Rightarrow> string option \<Rightarrow> string \<Rightarrow> string \<Rightarrow> bool
   \<Rightarrow> ('o, string \<times> file_change option) git_action" where
  "write_order L tenant directory order_entries commit_message author_name author_email checkout_files =
     bind_act (opened L tenant) (\<lambda>r.
     bind_act (act_lift (head_tree r)) (\<lambda>(parent, tree).
     bind_act (act_lift (guard (directory_present L r tree directory) (FileNotFound directory))) (\<lambda>_.
     bind_act (act_lift (map_results (canonical_entry_of L r tree directory) order_entries)) (\<lambda>canonical.
       (let existing_oid = blob_oid_in_tree L r tree (order_file_path directory) in
        bind_act (act_lift (git_result (g_hash_blob L (serialize (json_pretty_order L) canonical))))
          (\<lambda>incoming_oid.
            if existing_oid = Some incoming_oid then act_ok (g_oid_string L parent, None)
            else
              bind_act (stage_index L [] directory canonical (existing_oid \<noteq> None) checkout_files)
                (\<lambda>(change, us).
              bind_act (commit_updates L parent tree us
                  (message_or commit_message (''reorder: '' @ display_directory directory))
                  author_name author_email) (\<lambda>commit_oid.
                act_ok (g_oid_string L commit_oid, Some change)))))))))"

definition reorder_entry ::
  "'o libs \<Rightarrow> string \<Rightarrow> string \<Rightarrow> order_position \<Rightarrow> int option \<Rightarrow> bool \<Rightarrow> bool
   \<Rightarrow> string option \<Rightarrow> string \<Rightarrow> string \<Rightarrow> bool
   \<Rightarrow> ('o, string \<times> file_change option) git_action" where
  "reorder_entry L tenant entry_path position default_index implicit_allow_hidden_files
     allow_prefix_path commit_message author_name author_email checkout_files =
     (if is_order_file entry_path then act_err (FileNotFound entry_path)
      else
      bind_act (opened L tenant) (\<lambda>r.
      bind_act (act_lift (head_tree r)) (\<lambda>(parent, tree).
       (let (directory, name) = split_parent entry_path in
        bind_act (act_lift
          (case g_get_path L r tree entry_path of
             Some e \<Rightarrow>
               (if te_kind e = Blob then Inr name
                else if te_kind e = Tree \<and> allow_prefix_path then Inr (directory_entry name)
                else Inl (FileNotFound entry_path))
           | None \<Rightarrow> Inl (FileNotFound entry_path))) (\<lambda>canonical_entry.
        (let existing_oid = blob_oid_in_tree L r tree (order_file_path directory);
             stored = (case stored_order L r tree directory of None \<Rightarrow> [] | Some o' \<Rightarrow> o')
         in bind_act (act_lift
              (case position of
                 At _ \<Rightarrow> materialized_order L r tree directory stored default_index
                           implicit_allow_hidden_files
               | Unlisted \<Rightarrow> Inr stored)) (\<lambda>rendered.
            (let others = filter (\<lambda>e. entry_name e \<noteq> name) rendered;
                 entries = (case position of
                              At p \<Rightarrow> insert_at (min p (length others)) canonical_entry others
                            | Unlisted \<Rightarrow> others)
             in bind_act (act_lift
                  (if entries = [] then Inr (existing_oid = None)
                   else and_then (git_result (g_hash_blob L (serialize (json_pretty_order L) entries)))
                          (\<lambda>incoming_oid. Inr (existing_oid = Some incoming_oid)))) (\<lambda>unchanged.
                if unchanged then act_ok (g_oid_string L parent, None)
                else
                  bind_act (stage_index L [] directory entries (existing_oid \<noteq> None) checkout_files)
                    (\<lambda>(change, us).
                  bind_act (commit_updates L parent tree us
                      (message_or commit_message (''reorder: '' @ entry_path))
                      author_name author_email) (\<lambda>commit_oid.
                    act_ok (g_oid_string L commit_oid, Some change))))))))))))"

definition delete_order ::
  "'o libs \<Rightarrow> string \<Rightarrow> string \<Rightarrow> string option \<Rightarrow> string \<Rightarrow> string \<Rightarrow> bool
   \<Rightarrow> ('o, string \<times> file_change) git_action" where
  "delete_order L tenant directory commit_message author_name author_email checkout_files =
     bind_act (opened L tenant) (\<lambda>r.
     bind_act (act_lift (head_tree r)) (\<lambda>(parent, tree).
       (if blob_oid_in_tree L r tree (order_file_path directory) = None
        then act_err (OrderNotFound (display_directory directory))
        else
          bind_act (stage_index L [] directory [] True checkout_files) (\<lambda>(change, us).
          bind_act (commit_updates L parent tree us
              (message_or commit_message (''reorder: '' @ display_directory directory))
              author_name author_email) (\<lambda>commit_oid.
            act_ok (g_oid_string L commit_oid, change))))))"

section \<open>Lemmas on ranking\<close>

lemma rank_entries_eq:
  "rank_entries p es m n =
     (case m n of Some q \<Rightarrow> Some q
      | None \<Rightarrow> map_option (\<lambda>i. p + int i) (position_of (\<lambda>e. entry_name e = n) es))"
proof (induction es arbitrary: p m)
  case Nil
  then show ?case by (simp split: option.split)
next
  case (Cons e es)
  show ?case
    by (cases "m n"; cases "entry_name e = n")
      (auto simp: Cons.IH option.map_comp comp_def algebra_simps split: option.split)
qed

lemma order_ranks_eq:
  "order_ranks es n = map_option int (position_of (\<lambda>e. entry_name e = n) es)"
  by (simp add: order_ranks_def rank_entries_eq)

lemma order_ranks_None: "order_ranks es n = None \<longleftrightarrow> n \<notin> entry_name ` set es"
  by (auto simp: order_ranks_eq position_of_None)

text \<open>
  The contract of ranking by a stored order, for the three places that sort by it (the paged
  root of a listing, a rendered directory and a materialised index): a stable rearrangement,
  listed entries in index order, unlisted ones in their ordinary order and all on one side of
  any given index.
\<close>

locale ranked_by_order =
  fixes rank :: "'a \<Rightarrow> int \<times> bool" and name_of :: "'a \<Rightarrow> string"
    and ranks :: "string \<rightharpoonup> int" and default :: int
  assumes rank_listed: "ranks (name_of x) = Some i \<Longrightarrow> rank x = (i, True)"
    and rank_unlisted: "ranks (name_of x) = None \<Longrightarrow> rank x = (default, False)"
begin

lemma rearranges: "mset (sort_key rank xs) = mset xs"
  by simp

lemma unlisted_keep_order:
  "filter (\<lambda>x. ranks (name_of x) = None) (sort_key rank xs) =
   filter (\<lambda>x. ranks (name_of x) = None) xs"
proof -
  have "(ranks (name_of x) = None) = (rank x = (default, False))" for x
    using rank_listed rank_unlisted by (cases "ranks (name_of x)") auto
  then show ?thesis by (simp add: sort_key_stable)
qed

lemma sorted_ranks: "i \<le> j \<Longrightarrow> j < length xs \<Longrightarrow>
    rank (sort_key rank xs ! i) \<le> rank (sort_key rank xs ! j)"
  using sorted_nth_mono [OF sorted_sort_key [of rank xs], of i j] by simp

lemma listed_in_index_order:
  assumes "i < length xs" "j < length xs"
    and "ranks (name_of (sort_key rank xs ! i)) = Some a"
    and "ranks (name_of (sort_key rank xs ! j)) = Some b" "a < b"
  shows "i < j"
proof (rule ccontr)
  assume "\<not> i < j"
  then have "rank (sort_key rank xs ! j) \<le> rank (sort_key rank xs ! i)"
    using sorted_ranks assms(1) by simp
  then show False using assms by (simp add: rank_listed)
qed

lemma unlisted_before_listed_iff:
  assumes "i < length xs" "j < length xs"
    and "ranks (name_of (sort_key rank xs ! i)) = None"
    and "ranks (name_of (sort_key rank xs ! j)) = Some b"
  shows "i < j \<longleftrightarrow> default \<le> b"
proof
  assume "i < j"
  then have "rank (sort_key rank xs ! i) \<le> rank (sort_key rank xs ! j)"
    using sorted_ranks assms(2) by simp
  then show "default \<le> b" using assms by (auto simp: rank_listed rank_unlisted)
next
  assume "default \<le> b"
  show "i < j"
  proof (rule ccontr)
    assume "\<not> i < j"
    then have "rank (sort_key rank xs ! j) \<le> rank (sort_key rank xs ! i)"
      using sorted_ranks assms(1) by simp
    then show False using assms \<open>default \<le> b\<close> by (auto simp: rank_listed rank_unlisted)
  qed
qed

end

definition default_rank :: "order_options \<Rightarrow> int" where
  "default_rank options = (case implicit_default_index options of None \<Rightarrow> I64_MAX | Some i \<Rightarrow> i)"

interpretation by_name: ranked_by_order "\<lambda>n. order_rank ranks n options" "\<lambda>n. n" ranks
  "default_rank options" for ranks options
  by unfold_locales (simp_all add: order_rank_def default_rank_def)

interpretation by_entry: ranked_by_order "\<lambda>e. order_rank ranks (entry_name e) options" entry_name
  ranks "default_rank options" for ranks options
  by unfold_locales (simp_all add: order_rank_def default_rank_def)

end
