(* ===== verification/Git_Files.thy ===== *)
theory Git_Files
  imports Git_Order
begin

text \<open>
  \<open>GitFiles\<close> of \<open>src/git.rs\<close>: the operations on one file or one folder. Reading operations
  are functions of the disk, mutating ones actions on it. Existence and content always come
  from HEAD's tree; the working tree is only written.
\<close>

section \<open>Reads\<close>

datatype path_kind = FileKind | DirectoryKind | MissingKind

record file_read =
  fr_content :: string
  fr_position :: int

definition path_kind :: "'o libs \<Rightarrow> 'o disk \<Rightarrow> string \<Rightarrow> string \<Rightarrow> path_kind app_result" where
  "path_kind L d tenant path =
     (if is_order_file path then Inr MissingKind
      else
        and_then (open_tenant_repo L tenant d) (\<lambda>r.
        and_then (head_tree r) (\<lambda>(_, tree).
          Inr (case g_get_path L r tree path of
                 Some e \<Rightarrow>
                   (case te_kind e of Blob \<Rightarrow> FileKind | Tree \<Rightarrow> DirectoryKind | _ \<Rightarrow> MissingKind)
               | None \<Rightarrow> MissingKind))))"

definition read_file ::
  "'o libs \<Rightarrow> 'o disk \<Rightarrow> string \<Rightarrow> string \<Rightarrow> seek_filter \<Rightarrow> file_read app_result" where
  "read_file L d tenant file_path seek =
     (if is_order_file file_path then Inl (FileNotFound file_path)
      else
        and_then (open_tenant_repo L tenant d) (\<lambda>r.
        and_then (head_tree r) (\<lambda>(_, tree).
          (case blob_oid_in_tree L r tree file_path of
             None \<Rightarrow> Inl (FileNotFound file_path)
           | Some blob_oid \<Rightarrow>
               and_then (windowed_blob_content L r blob_oid file_path seek) (\<lambda>content.
                 (let (directory, name) = split_parent file_path in
                  Inr \<lparr>fr_content = content, fr_position = entry_position L r tree directory name\<rparr>))))))"

definition batch_read_files ::
  "'o libs \<Rightarrow> 'o disk \<Rightarrow> string \<Rightarrow> (string \<times> seek_filter) list \<Rightarrow> string option list app_result"
where
  "batch_read_files L d tenant file_reads =
     and_then (open_tenant_repo L tenant d) (\<lambda>r.
     and_then (head_tree r) (\<lambda>(_, tree).
       map_results (\<lambda>(file_path, seek).
         if is_order_file file_path then Inr None
         else (case blob_oid_in_tree L r tree file_path of
             None \<Rightarrow> Inr None
           | Some blob_oid \<Rightarrow>
               and_then (windowed_blob_content L r blob_oid file_path seek) (\<lambda>c. Inr (Some c))))
         file_reads))"

definition replay_read_files ::
  "'o libs \<Rightarrow> 'o disk \<Rightarrow> string \<Rightarrow> string list \<Rightarrow> string option list app_result" where
  "replay_read_files L d tenant paths =
     and_then (open_tenant_repo L tenant d) (\<lambda>r.
     and_then (head_tree r) (\<lambda>(_, tree).
       Inr (map (\<lambda>file_path.
         if is_order_file file_path then None
         else (case blob_oid_in_tree L r tree file_path of
             None \<Rightarrow> None
           | Some blob_oid \<Rightarrow>
               (case find_blob r blob_oid of
                  Inl _ \<Rightarrow> None
                | Inr content \<Rightarrow> if valid_utf8 content then Some content else None))) paths)))"

section \<open>Writing one file\<close>

definition write_file ::
  "'o libs \<Rightarrow> string \<Rightarrow> string \<Rightarrow> string option \<Rightarrow> string \<Rightarrow> string \<Rightarrow> bool
   \<Rightarrow> ('o, string \<times> file_change option) git_action" where
  "write_file L file_path content commit_message author_name author_email checkout_files =
     (if is_order_file file_path then
        act_err (InvalidOperation
          (''path is reserved for the file order index, write it through /order instead: '' @ file_path))
      else
        bind_act (open_or_init_repo L author_name author_email) (\<lambda>r.
        bind_act (act_lift (head_tree r)) (\<lambda>(parent, tree).
        bind_act (act_lift
          (case g_get_path L r tree file_path of
             Some e \<Rightarrow>
               (if te_kind e = Blob then
                  and_then (git_result (g_hash_blob L content)) (\<lambda>incoming_oid.
                    Inr (if te_id e = incoming_oid then None else Some False))
                else Inl (InvalidOperation (''path is a folder: '' @ file_path)))
           | None \<Rightarrow> Inr (Some True))) (\<lambda>decision.
          (case decision of
             None \<Rightarrow> act_ok (g_oid_string L parent, None)
           | Some is_new_file \<Rightarrow>
               bind_act (wt_write L checkout_files file_path content) (\<lambda>_.
               bind_act (odb_step (g_blob L content)) (\<lambda>blob_oid.
               bind_act (commit_updates L parent tree [Upsert file_path blob_oid]
                   (message_or commit_message
                     ((if is_new_file then ''create: '' else ''update: '') @ file_path))
                   author_name author_email) (\<lambda>commit_oid.
                 act_ok (g_oid_string L commit_oid,
                   Some (if is_new_file then Created file_path content
                         else Updated file_path content))))))))))"

section \<open>Deleting\<close>

definition delete_file ::
  "'o libs \<Rightarrow> string \<Rightarrow> string \<Rightarrow> string option \<Rightarrow> string \<Rightarrow> string \<Rightarrow> bool
   \<Rightarrow> ('o, string \<times> file_change list) git_action" where
  "delete_file L tenant file_path commit_message author_name author_email checkout_files =
     (if is_order_file file_path then act_err (FileNotFound file_path)
      else
        bind_act (opened L tenant) (\<lambda>r.
        bind_act (act_lift (head_tree r)) (\<lambda>(parent, tree).
        bind_act (act_lift
          (case g_get_path L r tree file_path of
             Some e \<Rightarrow> guard (te_kind e = Blob) (FileNotFound file_path)
           | None \<Rightarrow> Inl (FileNotFound file_path))) (\<lambda>_.
        bind_act (wt_remove_file L checkout_files file_path) (\<lambda>_.
          (let (parent_directory, leaf_name) = split_parent file_path in
           bind_act (stage_entry_removed L r tree [Remove file_path] parent_directory leaf_name
               checkout_files) (\<lambda>(upkeep, us).
           bind_act (commit_updates L parent tree us
               (message_or commit_message (''delete: '' @ file_path))
               author_name author_email) (\<lambda>commit_oid.
             act_ok (g_oid_string L commit_oid,
               [Deleted file_path] @ (case upkeep of None \<Rightarrow> [] | Some c \<Rightarrow> [c]))))))))))"

definition delete_directory ::
  "'o libs \<Rightarrow> string \<Rightarrow> string \<Rightarrow> string option \<Rightarrow> string \<Rightarrow> string \<Rightarrow> bool
   \<Rightarrow> ('o, string \<times> file_change list) git_action" where
  "delete_directory L tenant dir_path commit_message author_name author_email checkout_files =
     bind_act (opened L tenant) (\<lambda>r.
     bind_act (act_lift (head_tree r)) (\<lambda>(parent, tree).
     bind_act (act_lift
       (case g_get_path L r tree dir_path of
          Some e \<Rightarrow> guard (te_kind e = Tree) (FileNotFound dir_path)
        | None \<Rightarrow> Inl (FileNotFound dir_path))) (\<lambda>_.
     bind_act (act_lift (subtree_blob_paths L r tree dir_path)) (\<lambda>blobs.
       (if blobs = [] then act_ok (g_oid_string L parent, [])
        else
          bind_act (wt_remove_directory L checkout_files dir_path) (\<lambda>_.
            (let (parent_directory, dir_name) = split_parent dir_path in
             bind_act (stage_entry_removed L r tree [Remove dir_path] parent_directory dir_name
                 checkout_files) (\<lambda>(upkeep, us).
             bind_act (commit_updates L parent tree us
                 (message_or commit_message (''delete: '' @ dir_path @ ''/''))
                 author_name author_email) (\<lambda>commit_oid.
               act_ok (g_oid_string L commit_oid,
                 map (\<lambda>(path, _). Deleted path) blobs
                 @ (case upkeep of None \<Rightarrow> [] | Some c \<Rightarrow> [c]))))))))))) "

section \<open>Moving\<close>

text \<open>
  The upkeep a move owes to the two parent indexes: a rename in place keeps the entry's
  position, a move across directories drops it from one index and appends it to the other.
\<close>

definition stage_move_upkeep ::
  "'o libs \<Rightarrow> 'o repo \<Rightarrow> 'o \<Rightarrow> 'o tree_update list \<Rightarrow> string \<Rightarrow> string \<Rightarrow> string \<Rightarrow> string \<Rightarrow> bool
   \<Rightarrow> ('o, file_change list \<times> 'o tree_update list) git_action" where
  "stage_move_upkeep L r tree us from_directory from_name to_directory to_entry checkout_files =
     (if from_directory = to_directory then
        bind_act (stage_entry_renamed L r tree us from_directory from_name to_entry checkout_files)
          (\<lambda>(c, us'). act_ok (case c of None \<Rightarrow> [] | Some x \<Rightarrow> [x], us'))
      else
        bind_act (stage_entry_removed L r tree us from_directory from_name checkout_files)
          (\<lambda>(c, us').
        bind_act (stage_entry_appended L r tree us' to_directory to_entry checkout_files)
          (\<lambda>(c', us'').
            act_ok ((case c of None \<Rightarrow> [] | Some x \<Rightarrow> [x])
              @ (case c' of None \<Rightarrow> [] | Some x \<Rightarrow> [x]), us''))))"

definition move_file ::
  "'o libs \<Rightarrow> string \<Rightarrow> string \<Rightarrow> string \<Rightarrow> string option \<Rightarrow> string \<Rightarrow> string \<Rightarrow> bool
   \<Rightarrow> ('o, string \<times> file_change list) git_action" where
  "move_file L tenant from_path to_path commit_message author_name author_email checkout_files =
     (if is_order_file from_path then act_err (FileNotFound from_path)
      else if is_order_file to_path then
        act_err (InvalidOperation
          (''destination is reserved for the file order index, write it through /order instead: '' @ to_path))
      else
        bind_act (opened L tenant) (\<lambda>r.
        bind_act (act_lift (guard (from_path \<noteq> to_path)
          (InvalidOperation ''destination must differ from source path''))) (\<lambda>_.
        bind_act (act_lift (head_tree r)) (\<lambda>(parent, tree).
        bind_act (act_lift
          (case g_get_path L r tree from_path of
             Some e \<Rightarrow> if te_kind e = Blob then Inr (te_id e) else Inl (FileNotFound from_path)
           | None \<Rightarrow> Inl (FileNotFound from_path))) (\<lambda>source_blob_oid.
        bind_act (act_lift (guard (g_get_path L r tree to_path = None)
          (InvalidOperation (''destination already exists: '' @ to_path)))) (\<lambda>_.
        bind_act (act_lift (blob_content_from_tree L r tree from_path)) (\<lambda>content.
        bind_act (wt_remove_file L checkout_files from_path) (\<lambda>_.
        bind_act (wt_write L checkout_files to_path content) (\<lambda>_.
          (let (from_directory, from_name) = split_parent from_path;
               (to_directory, to_name) = split_parent to_path
           in bind_act (stage_move_upkeep L r tree
                  [Remove from_path, Upsert to_path source_blob_oid]
                  from_directory from_name to_directory to_name checkout_files) (\<lambda>(upkeep, us).
              bind_act (commit_updates L parent tree us
                  (message_or commit_message (''move: '' @ from_path @ arrow @ to_path))
                  author_name author_email) (\<lambda>commit_oid.
                act_ok (g_oid_string L commit_oid,
                  [Moved from_path to_path content] @ upkeep)))))))))))))"

text \<open>\<open>source_path.strip_prefix(from_path).and_then(|rest| rest.strip_prefix('/'))\<close>.\<close>

definition relative_to :: "string \<Rightarrow> string \<Rightarrow> string" where
  "relative_to from_path source_path =
     (if starts_with source_path from_path then
        (case drop (length from_path) source_path of
           c # rest \<Rightarrow> if c = CHR ''/'' then rest else source_path
         | [] \<Rightarrow> source_path)
      else source_path)"

text \<open>The loop over the folder's files: each is written at its destination and re-attached.\<close>

fun stage_moved_blobs ::
  "'o libs \<Rightarrow> 'o repo \<Rightarrow> 'o \<Rightarrow> string \<Rightarrow> string \<Rightarrow> bool \<Rightarrow> (string \<times> 'o) list
   \<Rightarrow> ('o, file_change list \<times> 'o tree_update list) git_action" where
  "stage_moved_blobs L r tree from_path to_path checkout_files [] = act_ok ([], [])"
| "stage_moved_blobs L r tree from_path to_path checkout_files ((source_path, blob_oid) # rest) =
     (let destination_path = to_path @ ''/'' @ relative_to from_path source_path in
      bind_act (act_lift (blob_content_from_tree L r tree source_path)) (\<lambda>content.
      bind_act (wt_write L checkout_files destination_path content) (\<lambda>_.
      bind_act (stage_moved_blobs L r tree from_path to_path checkout_files rest)
        (\<lambda>(changes, us).
          act_ok (Moved source_path destination_path content # changes,
                  Upsert destination_path blob_oid # us)))))"

definition move_directory ::
  "'o libs \<Rightarrow> string \<Rightarrow> string \<Rightarrow> string \<Rightarrow> string option \<Rightarrow> string \<Rightarrow> string \<Rightarrow> bool
   \<Rightarrow> ('o, string \<times> file_change list) git_action" where
  "move_directory L tenant from_path to_path commit_message author_name author_email checkout_files =
     bind_act (opened L tenant) (\<lambda>r.
     bind_act (act_lift (guard (from_path \<noteq> to_path)
       (InvalidOperation ''destination must differ from source path''))) (\<lambda>_.
     bind_act (act_lift (guard (\<not> starts_with to_path (from_path @ ''/''))
       (InvalidOperation (''destination must not be inside the source directory: '' @ to_path)))) (\<lambda>_.
     bind_act (act_lift (head_tree r)) (\<lambda>(parent, tree).
     bind_act (act_lift
       (case g_get_path L r tree from_path of
          Some e \<Rightarrow> guard (te_kind e = Tree) (FileNotFound from_path)
        | None \<Rightarrow> Inl (FileNotFound from_path))) (\<lambda>_.
     bind_act (act_lift (guard (g_get_path L r tree to_path = None)
       (InvalidOperation (''destination already exists: '' @ to_path)))) (\<lambda>_.
     bind_act (act_lift (subtree_blob_paths L r tree from_path)) (\<lambda>blobs.
       (if blobs = [] then act_ok (g_oid_string L parent, [])
        else
          bind_act (stage_moved_blobs L r tree from_path to_path checkout_files blobs)
            (\<lambda>(moves, upserts).
          bind_act (wt_remove_directory L checkout_files from_path) (\<lambda>_.
            (let (from_parent, from_name) = split_parent from_path;
                 (to_parent, to_name) = split_parent to_path
             in bind_act (stage_move_upkeep L r tree (Remove from_path # upserts)
                    from_parent from_name to_parent (directory_entry to_name) checkout_files)
                  (\<lambda>(upkeep, us).
                bind_act (commit_updates L parent tree us
                    (message_or commit_message
                      (''move: '' @ from_path @ ''/'' @ arrow @ to_path @ ''/''))
                    author_name author_email) (\<lambda>commit_oid.
                  act_ok (g_oid_string L commit_oid, moves @ upkeep))))))))))))))"

end
