(* ===== verification/Git_Reverts.thy ===== *)
theory Git_Reverts
  imports Git_Files
begin

text \<open>
  \<open>GitCommits::revert_commit\<close> and \<open>GitCommits::rollback_commit\<close> of \<open>src/git.rs\<close>: undoing what a
  commit did, and bringing the files it touched back to the state it left them in.

  Resolving a sha and the rename-detecting diff of two trees are parameters. A path of a diff is
  the bytes git stores; the program spells it with \<open>to_string_lossy\<close> wherever it needs a string.
\<close>

section \<open>Diffs\<close>

datatype delta_status = AddedDelta | DeletedDelta | ModifiedDelta | RenamedDelta | OtherDelta

record 'o delta_record =
  dr_status :: delta_status
  dr_old_oid :: 'o
  dr_new_oid :: 'o
  dr_old_path :: "string option"
  dr_new_path :: "string option"

record commit_statistics =
  cs_insertions :: nat
  cs_deletions :: nat
  cs_files_changed :: nat

text \<open>
  \<open>q_diff\<close> is \<open>diff_tree_to_tree\<close> followed by \<open>find_similar\<close> with renames on, read off delta by
  delta; \<open>q_statistics\<close> and \<open>q_patch\<close> are \<open>stats\<close> and \<open>print\<close> of the same diff, a line of the
  patch being the object ids of its delta, its origin marker and its content.
\<close>

record 'o commit_libs =
  q_revparse :: "'o repo \<Rightarrow> string \<Rightarrow> git_error + 'o"
  q_peel :: "'o repo \<Rightarrow> 'o \<Rightarrow> git_error + 'o"
  q_diff :: "'o repo \<Rightarrow> 'o option \<Rightarrow> 'o \<Rightarrow> git_error + 'o delta_record list"
  q_statistics :: "'o repo \<Rightarrow> 'o option \<Rightarrow> 'o \<Rightarrow> git_error + commit_statistics"
  q_patch :: "'o repo \<Rightarrow> 'o option \<Rightarrow> 'o \<Rightarrow> git_error + (('o \<times> 'o) \<times> char \<times> bytes) list"

definition path_string :: "string option \<Rightarrow> string" where
  "path_string path = (case path of None \<Rightarrow> [] | Some p \<Rightarrow> to_string_lossy p)"

text \<open>\<open>revparse_single(sha)\<close> and \<open>peel_to_commit()\<close>, both failing as \<open>CommitNotFound\<close>.\<close>

definition resolve_commit :: "'o commit_libs \<Rightarrow> 'o repo \<Rightarrow> string \<Rightarrow> ('o \<times> 'o commit) app_result" where
  "resolve_commit Q r sha =
     (case q_revparse Q r sha of
        Inl _ \<Rightarrow> Inl (CommitNotFound sha)
      | Inr object \<Rightarrow>
          (case q_peel Q r object of
             Inl _ \<Rightarrow> Inl (CommitNotFound sha)
           | Inr oid \<Rightarrow>
               (case r_commits r oid of
                  None \<Rightarrow> Inl (CommitNotFound sha)
                | Some c \<Rightarrow> Inr (oid, c))))"

text \<open>\<open>commit.parent(0)?\<close>.\<close>

definition first_parent_of :: "'o repo \<Rightarrow> 'o commit \<Rightarrow> 'o commit app_result" where
  "first_parent_of r c =
     (case c_parents c of
        [] \<Rightarrow> Inl (GitErr missing_object)
      | p # _ \<Rightarrow>
          (case r_commits r p of None \<Rightarrow> Inl (GitErr missing_object) | Some pc \<Rightarrow> Inr pc))"

text \<open>The first parent's tree, \<open>None\<close> for a root commit.\<close>

definition tree_before :: "'o repo \<Rightarrow> 'o commit \<Rightarrow> 'o option app_result" where
  "tree_before r c =
     (if c_parents c = [] then Inr None
      else and_then (first_parent_of r c) (\<lambda>pc. and_then (commit_tree r pc) (\<lambda>t. Inr (Some t))))"

definition message_text :: "'o commit \<Rightarrow> string \<Rightarrow> string" where
  "message_text c fallback = (if valid_utf8 (c_message c) then c_message c else fallback)"

text \<open>What one delta contributes, and the loop over the deltas.\<close>

type_synonym 'o staged = "'o tree_update list \<times> file_change list"

fun stage_deltas ::
  "('o delta_record \<Rightarrow> ('o, 'o staged) git_action) \<Rightarrow> 'o delta_record list \<Rightarrow> ('o, 'o staged) git_action"
where
  "stage_deltas f [] = act_ok ([], [])"
| "stage_deltas f (raw_delta # raw_deltas) =
     bind_act (f raw_delta) (\<lambda>(us, changes).
     bind_act (stage_deltas f raw_deltas) (\<lambda>(us', changes').
       act_ok (us @ us', changes @ changes')))"

section \<open>Revert\<close>

text \<open>The inverse of one delta of the commit, read from the tree before it.\<close>

definition revert_delta ::
  "'o libs \<Rightarrow> 'o repo \<Rightarrow> 'o \<Rightarrow> bool \<Rightarrow> 'o delta_record \<Rightarrow> ('o, 'o staged) git_action" where
  "revert_delta L r parent_tree checkout_files raw_delta =
     (case dr_status raw_delta of
        AddedDelta \<Rightarrow>
          (case dr_new_path raw_delta of
             Some new_path \<Rightarrow>
               bind_act (wt_remove_file L checkout_files new_path) (\<lambda>_.
                 act_ok ([Remove new_path], [Deleted (to_string_lossy new_path)]))
           | None \<Rightarrow> act_ok ([], []))
      | DeletedDelta \<Rightarrow>
          (case dr_old_path raw_delta of
             Some old_path \<Rightarrow>
               bind_act (act_lift (blob_content_from_tree L r parent_tree (to_string_lossy old_path)))
                 (\<lambda>content.
               bind_act (wt_write L checkout_files old_path content) (\<lambda>_.
                 act_ok ([Upsert old_path (dr_old_oid raw_delta)],
                   [Created (to_string_lossy old_path) content])))
           | None \<Rightarrow> act_ok ([], []))
      | ModifiedDelta \<Rightarrow>
          (case dr_old_path raw_delta of
             Some old_path \<Rightarrow>
               bind_act (act_lift (blob_content_from_tree L r parent_tree (to_string_lossy old_path)))
                 (\<lambda>content.
               bind_act (wt_write L checkout_files old_path content) (\<lambda>_.
                 act_ok ([Upsert old_path (dr_old_oid raw_delta)],
                   [Updated (to_string_lossy old_path) content])))
           | None \<Rightarrow> act_ok ([], []))
      | RenamedDelta \<Rightarrow>
          (case (dr_old_path raw_delta, dr_new_path raw_delta) of
             (Some old_path, Some new_path) \<Rightarrow>
               bind_act (act_lift (blob_content_from_tree L r parent_tree (to_string_lossy old_path)))
                 (\<lambda>content.
               bind_act (wt_remove_file L checkout_files new_path) (\<lambda>_.
               bind_act (wt_write L checkout_files old_path content) (\<lambda>_.
                 act_ok ([Remove new_path, Upsert old_path (dr_old_oid raw_delta)],
                   [Moved (to_string_lossy new_path) (to_string_lossy old_path) content]))))
           | _ \<Rightarrow> act_ok ([], []))
      | OtherDelta \<Rightarrow> act_ok ([], []))"

definition revert_commit ::
  "'o libs \<Rightarrow> 'o commit_libs \<Rightarrow> string \<Rightarrow> string \<Rightarrow> string option \<Rightarrow> string \<Rightarrow> string \<Rightarrow> bool
   \<Rightarrow> ('o, string \<times> file_change list) git_action" where
  "revert_commit L Q tenant sha commit_message author_name author_email checkout_files =
     bind_act (opened L tenant) (\<lambda>r.
     bind_act (act_lift (resolve_commit Q r sha)) (\<lambda>(_, target_commit).
     bind_act (act_lift (guard (c_parents target_commit \<noteq> [])
       (InvalidOperation ''cannot revert the initial commit''))) (\<lambda>_.
     bind_act (act_lift (first_parent_of r target_commit)) (\<lambda>parent_commit.
     bind_act (act_lift (commit_tree r target_commit)) (\<lambda>tree_after.
     bind_act (act_lift (commit_tree r parent_commit)) (\<lambda>parent_tree.
     bind_act (act_lift (git_result (q_diff Q r (Some parent_tree) tree_after))) (\<lambda>raw_deltas.
     bind_act (act_lift (head_tree r)) (\<lambda>(head, tree).
     bind_act (stage_deltas (revert_delta L r parent_tree checkout_files) raw_deltas)
       (\<lambda>(tree_update, file_changes).
     bind_act (commit_updates L head tree tree_update
         (message_or commit_message (''revert: '' @ message_text target_commit ''unknown''))
         author_name author_email) (\<lambda>new_commit_oid.
       act_ok (g_oid_string L new_commit_oid, file_changes)))))))))))"

section \<open>Rollback\<close>

text \<open>
  \<open>restore_path\<close> and \<open>remove_path\<close>: \<open>None\<close> when HEAD already holds the state asked for.
\<close>

definition restore_path ::
  "'o libs \<Rightarrow> 'o repo \<Rightarrow> bool \<Rightarrow> 'o \<Rightarrow> 'o \<Rightarrow> string \<Rightarrow> 'o \<Rightarrow> ('o, 'o staged) git_action" where
  "restore_path L r checkout_files tree target_tree path oid =
     (let head_oid = blob_oid_in_tree L r tree (to_string_lossy path) in
      if head_oid = Some oid then act_ok ([], [])
      else
        bind_act (act_lift (blob_content_from_tree L r target_tree (to_string_lossy path))) (\<lambda>content.
        bind_act (wt_write L checkout_files path content) (\<lambda>_.
          act_ok ([Upsert path oid],
            [if head_oid \<noteq> None then Updated (to_string_lossy path) content
             else Created (to_string_lossy path) content]))))"

definition remove_path ::
  "'o libs \<Rightarrow> 'o repo \<Rightarrow> bool \<Rightarrow> 'o \<Rightarrow> string \<Rightarrow> ('o, 'o staged) git_action" where
  "remove_path L r checkout_files tree path =
     (if blob_oid_in_tree L r tree (to_string_lossy path) = None then act_ok ([], [])
      else
        bind_act (wt_remove_file L checkout_files path) (\<lambda>_.
          act_ok ([Remove path], [Deleted (to_string_lossy path)])))"

text \<open>
  The move of a rename that is applied again goes through \<open>std::fs\<close> directly, whether or not the
  tenant keeps a checkout.
\<close>

definition reapply_rename ::
  "'o libs \<Rightarrow> 'o repo \<Rightarrow> 'o \<Rightarrow> string \<Rightarrow> string \<Rightarrow> 'o \<Rightarrow> ('o, 'o staged) git_action" where
  "reapply_rename L r target_tree old_path new_path new_oid =
     bind_act (act_lift (blob_content_from_tree L r target_tree (to_string_lossy new_path))) (\<lambda>content.
     bind_act (wt_remove_file L True old_path) (\<lambda>_.
     bind_act (wt_write L True new_path content) (\<lambda>_.
       act_ok ([Remove old_path, Upsert new_path new_oid],
         [Moved (to_string_lossy old_path) (to_string_lossy new_path) content]))))"

definition rollback_delta ::
  "'o libs \<Rightarrow> 'o repo \<Rightarrow> bool \<Rightarrow> 'o \<Rightarrow> 'o \<Rightarrow> 'o delta_record \<Rightarrow> ('o, 'o staged) git_action" where
  "rollback_delta L r checkout_files tree target_tree raw_delta =
     (if dr_status raw_delta = AddedDelta \<or> dr_status raw_delta = ModifiedDelta then
        (case dr_new_path raw_delta of
           Some new_path \<Rightarrow>
             restore_path L r checkout_files tree target_tree new_path (dr_new_oid raw_delta)
         | None \<Rightarrow> act_ok ([], []))
      else if dr_status raw_delta = DeletedDelta then
        (case dr_old_path raw_delta of
           Some old_path \<Rightarrow> remove_path L r checkout_files tree old_path
         | None \<Rightarrow> act_ok ([], []))
      else if dr_status raw_delta = RenamedDelta then
        (case (dr_old_path raw_delta, dr_new_path raw_delta) of
           (Some old_path, Some new_path) \<Rightarrow>
             (let old_in_head = blob_oid_in_tree L r tree (to_string_lossy old_path) \<noteq> None;
                  new_in_head = blob_oid_in_tree L r tree (to_string_lossy new_path) \<noteq> None
              in if old_in_head \<and> \<not> new_in_head
                 then reapply_rename L r target_tree old_path new_path (dr_new_oid raw_delta)
                 else
                   bind_act (restore_path L r checkout_files tree target_tree new_path
                       (dr_new_oid raw_delta)) (\<lambda>(us, restored).
                   bind_act (remove_path L r checkout_files tree old_path) (\<lambda>(us', removed).
                     act_ok (us @ us', restored @ removed))))
         | _ \<Rightarrow> act_ok ([], []))
      else act_ok ([], []))"

definition rollback_commit ::
  "'o libs \<Rightarrow> 'o commit_libs \<Rightarrow> string \<Rightarrow> string \<Rightarrow> string option \<Rightarrow> string \<Rightarrow> string \<Rightarrow> bool
   \<Rightarrow> ('o, string \<times> file_change list) git_action" where
  "rollback_commit L Q tenant sha commit_message author_name author_email checkout_files =
     bind_act (opened L tenant) (\<lambda>r.
     bind_act (act_lift (resolve_commit Q r sha)) (\<lambda>(_, target_commit).
     bind_act (act_lift (commit_tree r target_commit)) (\<lambda>target_tree.
     bind_act (act_lift (tree_before r target_commit)) (\<lambda>parent_tree.
     bind_act (act_lift (git_result (q_diff Q r parent_tree target_tree))) (\<lambda>raw_deltas.
     bind_act (act_lift (head_tree r)) (\<lambda>(head, tree).
     bind_act (stage_deltas (rollback_delta L r checkout_files tree target_tree) raw_deltas)
       (\<lambda>(tree_update, file_changes).
       if file_changes = [] then act_ok (g_oid_string L head, file_changes)
       else
         bind_act (commit_updates L head tree tree_update
             (message_or commit_message (''rollback: '' @ message_text target_commit ''unknown''))
             author_name author_email) (\<lambda>new_commit_oid.
           act_ok (g_oid_string L new_commit_oid, file_changes)))))))))"

end
