(* ===== verification/Git_Laws.thy ===== *)
theory Git_Laws
  imports Git_Files
begin

text \<open>
  What the program relies on from \<open>git2\<close>, as a predicate on the library parameters, and the
  lemmas on HEAD's content that every operation's proof uses. \<open>I\<close> is the soundness of the
  stored repository (no missing or corrupt objects), which \<open>git2\<close> maintains.
\<close>

section \<open>Tree updates on file maps\<close>

definition clean :: "string \<Rightarrow> bool" where
  "clean p \<longleftrightarrow> list_all (\<lambda>w. w \<noteq> [] \<and> w \<noteq> ''.'' \<and> w \<noteq> ''..'') (split_on CHR ''/'' p)"

definition under :: "string \<Rightarrow> string \<Rightarrow> bool" where
  "under dir p \<longleftrightarrow> p = dir \<or> starts_with p (dir @ ''/'')"

fun update_path :: "'o tree_update \<Rightarrow> string" where
  "update_path (Upsert p oid) = p"
| "update_path (Remove p) = p"

fun apply_update :: "'o tree_update \<Rightarrow> (string \<Rightarrow> 'o option) \<Rightarrow> (string \<Rightarrow> 'o option)" where
  "apply_update (Upsert p oid) m = m(p := Some oid)"
| "apply_update (Remove p) m = (\<lambda>q. if under p q then None else m q)"

fun apply_updates :: "'o tree_update list \<Rightarrow> (string \<Rightarrow> 'o option) \<Rightarrow> (string \<Rightarrow> 'o option)" where
  "apply_updates [] m = m"
| "apply_updates (u # us) m = apply_updates us (apply_update u m)"

definition unrelated :: "'o tree_update \<Rightarrow> 'o tree_update \<Rightarrow> bool" where
  "unrelated u v \<longleftrightarrow>
     \<not> under (update_path u) (update_path v) \<and> \<not> under (update_path v) (update_path u)"

definition well_formed_updates :: "'o tree_update list \<Rightarrow> bool" where
  "well_formed_updates us \<longleftrightarrow>
     list_all (\<lambda>u. clean (update_path u)) us \<and> sorted_wrt unrelated us"

section \<open>The laws of git2\<close>

definition extends :: "'o repo \<Rightarrow> 'o repo \<Rightarrow> bool" where
  "extends r r' \<longleftrightarrow>
     r_commits r \<subseteq>\<^sub>m r_commits r' \<and> r_trees r \<subseteq>\<^sub>m r_trees r' \<and> r_blobs r \<subseteq>\<^sub>m r_blobs r'"

definition open_law :: "'o libs \<Rightarrow> bool" where
  "open_law L \<longleftrightarrow> (\<forall>d r. g_open L d = Inr r \<longrightarrow> dk_git d = Some r)"

definition init_law :: "'o libs \<Rightarrow> ('o repo \<Rightarrow> bool) \<Rightarrow> bool" where
  "init_law L I \<longleftrightarrow>
     (\<forall>d r. g_init L d = Inr r \<and> dk_git d = None \<longrightarrow>
        I r \<and> (\<exists>m. r_head r = Inl (GitError GitUnbornBranch m)))
   \<and> (\<forall>r t r'. I r \<and> g_empty_tree L r = Inr (t, r') \<longrightarrow>
        I r' \<and> extends r r' \<and> r_head r' = r_head r \<and> r_trees r' t = Some [] \<and>
        (\<forall>p. g_get_path L r' t p = None))"

definition blob_law :: "'o libs \<Rightarrow> ('o repo \<Rightarrow> bool) \<Rightarrow> bool" where
  "blob_law L I \<longleftrightarrow>
     (\<forall>r c oid r'. I r \<and> g_blob L c r = Inr (oid, r') \<longrightarrow>
        I r' \<and> extends r r' \<and> r_head r' = r_head r \<and> r_blobs r' oid = Some c)
   \<and> (\<forall>r oid c. I r \<and> r_blobs r oid = Some c \<longrightarrow> g_hash_blob L c = Inr oid)
   \<and> (\<forall>c c' oid. g_hash_blob L c = Inr oid \<and> g_hash_blob L c' = Inr oid \<longrightarrow> c = c')"

definition tree_law :: "'o libs \<Rightarrow> ('o repo \<Rightarrow> bool) \<Rightarrow> bool" where
  "tree_law L I \<longleftrightarrow>
     (\<forall>r r' t p. I r \<and> I r' \<and> extends r r' \<and> r_trees r t \<noteq> None \<longrightarrow>
        g_get_path L r' t p = g_get_path L r t p)
   \<and> (\<forall>r t p e. I r \<and> g_get_path L r t p = Some e \<and> te_kind e = Blob \<longrightarrow>
        r_blobs r (te_id e) \<noteq> None)
   \<and> (\<forall>r t us t' r'. I r \<and> g_create_updated L t us r = Inr (t', r') \<longrightarrow>
        I r' \<and> extends r r' \<and> r_head r' = r_head r \<and>
        (r_trees r t \<noteq> None \<and> well_formed_updates us \<longrightarrow>
          (\<forall>p. clean p \<longrightarrow>
             blob_oid_in_tree L r' t' p = apply_updates us (blob_oid_in_tree L r t) p)))
   \<and> (\<forall>r t p q e. I r \<and> r_trees r t \<noteq> None \<and> clean p \<and> clean q \<and> g_get_path L r t q = Some e \<and>
        starts_with q (p @ ''/'') \<longrightarrow> (\<exists>e'. g_get_path L r t p = Some e' \<and> te_kind e' = Tree))"

text \<open>A walk visits the files below the walked folder, each once, by its path in that folder.\<close>

definition visited_file :: "string \<times> 'o tree_entry \<Rightarrow> (string \<times> 'o) option" where
  "visited_file v =
     (case te_name (snd v) of
        Some name \<Rightarrow> if te_kind (snd v) = Blob then Some (fst v @ name, te_id (snd v)) else None
      | None \<Rightarrow> None)"

definition visited_files :: "(string \<times> 'o tree_entry) list \<Rightarrow> (string \<times> 'o) list" where
  "visited_files visits = List.map_filter visited_file visits"

definition walk_law :: "'o libs \<Rightarrow> ('o repo \<Rightarrow> bool) \<Rightarrow> bool" where
  "walk_law L I \<longleftrightarrow>
     (\<forall>r t visits. I r \<and> r_trees r t \<noteq> None \<and> g_walk L r t = Inr visits \<longrightarrow>
        distinct (map fst (visited_files visits)) \<and>
        (\<forall>(p, oid) \<in> set (visited_files visits). clean p \<and> blob_oid_in_tree L r t p = Some oid) \<and>
        (\<forall>p oid. clean p \<and> valid_utf8 p \<and> blob_oid_in_tree L r t p = Some oid \<longrightarrow>
           (p, oid) \<in> set (visited_files visits)))
   \<and> (\<forall>r t dir e. I r \<and> r_trees r t \<noteq> None \<and> clean dir \<and> g_get_path L r t dir = Some e \<longrightarrow>
        (te_kind e = Tree \<longleftrightarrow> r_trees r (te_id e) \<noteq> None))
   \<and> (\<forall>r t dir e p. I r \<and> r_trees r t \<noteq> None \<and> clean dir \<and> clean p \<and>
        g_get_path L r t dir = Some e \<and> te_kind e = Tree \<longrightarrow>
        g_get_path L r t (dir @ ''/'' @ p) = g_get_path L r (te_id e) p)"

definition commit_law :: "'o libs \<Rightarrow> ('o repo \<Rightarrow> bool) \<Rightarrow> bool" where
  "commit_law L I \<longleftrightarrow>
     (\<forall>r h. I r \<and> r_head r = Inr h \<longrightarrow>
        (\<exists>c. r_commits r h = Some c \<and> r_trees r (c_tree c) \<noteq> None))
   \<and> (\<forall>r sg m t ps oid r'. I r \<and> r_trees r t \<noteq> None \<and> g_commit L sg m t ps r = Inr (oid, r') \<longrightarrow>
        I r' \<and> extends r r' \<and> r_head r' = Inr oid \<and>
        r_commits r' oid = Some \<lparr>c_tree = t, c_parents = ps, c_message = m, c_signature = sg\<rparr>)"

definition git2_ok :: "'o libs \<Rightarrow> ('o repo \<Rightarrow> bool) \<Rightarrow> bool" where
  "git2_ok L I \<longleftrightarrow>
     open_law L \<and> init_law L I \<and> blob_law L I \<and> tree_law L I \<and> walk_law L I \<and> commit_law L I"

text \<open>The laws as rules.\<close>

lemma open_rule: "git2_ok L I \<Longrightarrow> g_open L d = Inr r \<Longrightarrow> dk_git d = Some r"
  unfolding git2_ok_def open_law_def by blast

lemma blob_rule:
  assumes "git2_ok L I" "I r" "g_blob L c r = Inr (oid, r')"
  shows "I r'" "extends r r'" "r_head r' = r_head r" "r_blobs r' oid = Some c"
  using assms unfolding git2_ok_def blob_law_def by blast+

lemma hash_rule:
  assumes "git2_ok L I" "I r" "r_blobs r oid = Some c"
  shows "g_hash_blob L c = Inr oid"
  using assms unfolding git2_ok_def blob_law_def by blast

lemma hash_inj_rule:
  assumes "git2_ok L I" "g_hash_blob L c = Inr oid" "g_hash_blob L c' = Inr oid"
  shows "c = c'"
  using assms unfolding git2_ok_def blob_law_def by blast

lemma get_path_rule:
  assumes "git2_ok L I" "I r" "I r'" "extends r r'" "r_trees r t \<noteq> None"
  shows "g_get_path L r' t p = g_get_path L r t p"
  using assms unfolding git2_ok_def tree_law_def by blast

lemma blob_present_rule:
  assumes "git2_ok L I" "I r" "g_get_path L r t p = Some e" "te_kind e = Blob"
  shows "r_blobs r (te_id e) \<noteq> None"
  using assms unfolding git2_ok_def tree_law_def by blast

lemma create_updated_rule:
  assumes "git2_ok L I" "I r" "g_create_updated L t us r = Inr (t', r')"
  shows "I r'" "extends r r'" "r_head r' = r_head r"
    and "r_trees r t \<noteq> None \<Longrightarrow> well_formed_updates us \<Longrightarrow> clean p \<Longrightarrow>
      blob_oid_in_tree L r' t' p = apply_updates us (blob_oid_in_tree L r t) p"
  using assms unfolding git2_ok_def tree_law_def by blast+

lemma parent_rule:
  assumes "git2_ok L I" "I r" "r_trees r t \<noteq> None" "clean p" "clean q" "g_get_path L r t q = Some e"
    "starts_with q (p @ ''/'')"
  shows "\<exists>e'. g_get_path L r t p = Some e' \<and> te_kind e' = Tree"
  using assms unfolding git2_ok_def tree_law_def by blast

lemma walk_rule:
  assumes "git2_ok L I" "I r" "r_trees r t \<noteq> None" "g_walk L r t = Inr visits"
  shows "distinct (map fst (visited_files visits))"
    and "(p, oid) \<in> set (visited_files visits) \<Longrightarrow> clean p \<and> blob_oid_in_tree L r t p = Some oid"
    and "clean p \<Longrightarrow> valid_utf8 p \<Longrightarrow> blob_oid_in_tree L r t p = Some oid
      \<Longrightarrow> (p, oid) \<in> set (visited_files visits)"
  using assms unfolding git2_ok_def walk_law_def by blast+

lemma entry_tree_rule:
  assumes "git2_ok L I" "I r" "r_trees r t \<noteq> None" "clean dir" "g_get_path L r t dir = Some e"
  shows "te_kind e = Tree \<longleftrightarrow> r_trees r (te_id e) \<noteq> None"
  using assms unfolding git2_ok_def walk_law_def by blast

lemma subfolder_rule:
  assumes "git2_ok L I" "I r" "r_trees r t \<noteq> None" "clean dir" "clean p"
    "g_get_path L r t dir = Some e" "te_kind e = Tree"
  shows "g_get_path L r t (dir @ ''/'' @ p) = g_get_path L r (te_id e) p"
  using assms unfolding git2_ok_def walk_law_def by blast

lemma head_rule:
  assumes "git2_ok L I" "I r" "r_head r = Inr h"
  shows "\<exists>c. r_commits r h = Some c \<and> r_trees r (c_tree c) \<noteq> None"
  using assms unfolding git2_ok_def commit_law_def by blast

lemma commit_rule:
  assumes "git2_ok L I" "I r" "r_trees r t \<noteq> None" "g_commit L sg m t ps r = Inr (oid, r')"
  shows "I r'" "extends r r'" "r_head r' = Inr oid"
    "r_commits r' oid = Some \<lparr>c_tree = t, c_parents = ps, c_message = m, c_signature = sg\<rparr>"
  using assms unfolding git2_ok_def commit_law_def by blast+

section \<open>HEAD's content\<close>

definition head_blob :: "'o libs \<Rightarrow> 'o disk \<Rightarrow> string \<Rightarrow> 'o option" where
  "head_blob L d p =
     (case dk_git d of
        None \<Rightarrow> None
      | Some r \<Rightarrow> (case head_tree r of Inl _ \<Rightarrow> None | Inr (_, t) \<Rightarrow> blob_oid_in_tree L r t p))"

definition head_content :: "'o libs \<Rightarrow> 'o disk \<Rightarrow> string \<Rightarrow> bytes option" where
  "head_content L d p =
     (case dk_git d of None \<Rightarrow> None | Some r \<Rightarrow> Option.bind (head_blob L d p) (r_blobs r))"

definition disk_sound :: "('o repo \<Rightarrow> bool) \<Rightarrow> 'o disk \<Rightarrow> bool" where
  "disk_sound I d \<longleftrightarrow> (\<forall>r. dk_git d = Some r \<longrightarrow> I r)"

lemma extends_refl [simp]: "extends r r"
  by (simp add: extends_def)

lemma extends_trans: "extends r s \<Longrightarrow> extends s t \<Longrightarrow> extends r t"
  unfolding extends_def by (auto intro: map_le_trans)

lemma extends_blob: "extends r r' \<Longrightarrow> r_blobs r oid = Some c \<Longrightarrow> r_blobs r' oid = Some c"
  by (auto simp: extends_def map_le_def dom_def)

lemma extends_tree: "extends r r' \<Longrightarrow> r_trees r t = Some es \<Longrightarrow> r_trees r' t = Some es"
  by (auto simp: extends_def map_le_def dom_def)

lemma extends_commit: "extends r r' \<Longrightarrow> r_commits r h = Some c \<Longrightarrow> r_commits r' h = Some c"
  by (auto simp: extends_def map_le_def dom_def)

lemma head_tree_Inr:
  "head_tree r = Inr (h, t) \<longleftrightarrow>
     (\<exists>c. r_head r = Inr h \<and> r_commits r h = Some c \<and> t = c_tree c \<and> r_trees r t \<noteq> None)"
  by (auto simp: head_tree_def head_commit_def commit_tree_def find_tree_def and_then_eq_Inr
      split: sum.splits option.splits)

lemma head_blob_eq:
  "dk_git d = Some r \<Longrightarrow> head_tree r = Inr (h, t) \<Longrightarrow> head_blob L d p = blob_oid_in_tree L r t p"
  by (simp add: head_blob_def)

section \<open>Growth of the object database\<close>

text \<open>
  Everything an operation does before it commits only adds objects: HEAD and all existing
  objects stay.
\<close>

definition grows :: "('o repo \<Rightarrow> bool) \<Rightarrow> 'o disk \<Rightarrow> 'o disk \<Rightarrow> bool" where
  "grows I d d' \<longleftrightarrow>
     dk_exists d' = dk_exists d \<and> (dk_git d = None \<longrightarrow> dk_git d' = None) \<and>
     (\<forall>r. dk_git d = Some r \<and> I r \<longrightarrow>
        (\<exists>r'. dk_git d' = Some r' \<and> I r' \<and> extends r r' \<and> r_head r' = r_head r))"

lemma grows_refl: "reflp (grows I)"
  by (auto simp: grows_def intro: reflpI)

lemma grows_trans: "transp (grows I)"
proof (rule transpI)
  fix a b c assume "grows I a b" "grows I b c"
  then show "grows I a c" unfolding grows_def by (force intro: extends_trans)
qed

lemmas keeps_grows_bind = keeps_bind [OF _ _ grows_trans]
  and keeps_grows_pure = keeps_pure [OF grows_refl]

lemma grows_same_git: "dk_git d' = dk_git d \<Longrightarrow> dk_exists d' = dk_exists d \<Longrightarrow> grows I d d'"
  by (auto simp: grows_def)

lemma grows_wt_write: "keeps (grows I) (wt_write L en p c)"
  by (rule keepsI, rule grows_same_git)
    (auto simp: wt_write_def split: if_splits option.splits sum.splits prod.splits)

lemma tolerate_absent_git: "tolerate_absent q d = (x, d') \<Longrightarrow> dk_git d' = dk_git d \<and> dk_exists d' = dk_exists d"
  by (induction q d rule: tolerate_absent.induct) (auto split: if_splits)

lemma grows_wt_remove_file: "keeps (grows I) (wt_remove_file L en p)"
  by (rule keepsI, rule grows_same_git)
    (auto simp: wt_remove_file_def split: if_splits option.splits prod.splits dest!: tolerate_absent_git)

lemma grows_wt_remove_directory: "keeps (grows I) (wt_remove_directory L en p)"
  by (rule keepsI, rule grows_same_git)
    (auto simp: wt_remove_directory_def split: if_splits option.splits prod.splits dest!: tolerate_absent_git)

lemma grows_odb_read: "keeps (grows I) (odb_read f)"
  by (rule keepsI, rule grows_same_git) (auto simp: odb_read_def split: option.splits)

lemma grows_odb_step:
  assumes "\<And>r a r'. I r \<Longrightarrow> f r = Inr (a, r') \<Longrightarrow> I r' \<and> extends r r' \<and> r_head r' = r_head r"
  shows "keeps (grows I) (odb_step f)"
  by (rule keepsI)
    (auto simp: odb_step_def grows_def dest: assms split: option.splits sum.splits)

lemma grows_g_blob: "git2_ok L I \<Longrightarrow> keeps (grows I) (odb_step (g_blob L c))"
  by (rule grows_odb_step) (auto simp: git2_ok_def blob_law_def)

lemma grows_g_create_updated: "git2_ok L I \<Longrightarrow> keeps (grows I) (odb_step (g_create_updated L t us))"
  by (rule grows_odb_step) (auto simp: git2_ok_def tree_law_def)

lemma grows_opened: "keeps (grows I) (opened L tenant)"
  by (rule keepsI, rule grows_same_git) (auto simp: opened_def)

lemmas grows_intros = keeps_grows_pure grows_wt_write grows_wt_remove_file
  grows_wt_remove_directory grows_odb_read grows_g_blob grows_g_create_updated grows_opened

lemma grows_stage_index:
  assumes "git2_ok L I"
  shows "keeps (grows I) (stage_index L us dir es existed en)"
  unfolding stage_index_def Let_def
  by (auto intro!: keeps_grows_bind grows_intros assms)

lemma grows_stage_some:
  "keeps (grows I) m \<Longrightarrow> keeps (grows I) (stage_some m)"
  unfolding stage_some_def by (auto intro!: keeps_grows_bind grows_intros split: prod.splits)

lemma grows_stage_entries:
  assumes "git2_ok L I"
  shows "keeps (grows I) (stage_entry_removed L r t us dir n en)"
    and "keeps (grows I) (stage_entry_appended L r t us dir n en)"
    and "keeps (grows I) (stage_entry_renamed L r t us dir n n' en)"
  unfolding stage_entry_removed_def stage_entry_appended_def stage_entry_renamed_def Let_def
  by (auto intro!: grows_stage_some grows_stage_index grows_intros assms split: option.splits)

lemma grows_stage_move_upkeep:
  "git2_ok L I \<Longrightarrow> keeps (grows I) (stage_move_upkeep L r t us fd fn td te en)"
  unfolding stage_move_upkeep_def
  by (auto intro!: keeps_grows_bind grows_stage_entries grows_intros split: prod.splits)

lemma grows_stage_moved_blobs:
  "git2_ok L I \<Longrightarrow> keeps (grows I) (stage_moved_blobs L r t f p en bs)"
  by (induction bs)
    (auto intro!: keeps_grows_bind grows_intros simp: Let_def split: prod.splits)

section \<open>The committing tail\<close>

text \<open>What a commit on top of HEAD \<open>h\<close> leaves on the disk.\<close>

definition commits_on :: "('o repo \<Rightarrow> bool) \<Rightarrow> 'o \<Rightarrow> 'o disk \<Rightarrow> 'o disk \<Rightarrow> bool" where
  "commits_on I h d d' \<longleftrightarrow>
     (\<exists>r r' oid c. dk_git d = Some r \<and> dk_git d' = Some r' \<and> I r' \<and> extends r r' \<and>
        r_head r' = Inr oid \<and> r_commits r' oid = Some c \<and> c_parents c = [h])"

lemma commit_updates_cases:
  assumes run: "commit_updates L h tree us m an ae d = (q, e)" and d: "dk_git d = Some r"
  obtains (failed) err where "q = Inl err" "e = d"
  | (tree_only) err t1 r1 where "q = Inl err" "g_create_updated L tree us r = Inr (t1, r1)"
      "e = d\<lparr>dk_git := Some r1\<rparr>"
  | (committed) t1 r1 sg oid r2 where "q = Inr oid" "g_create_updated L tree us r = Inr (t1, r1)"
      "r_trees r1 t1 \<noteq> None" "git_signature L an ae = Inr sg"
      "g_commit L sg m t1 [h] r1 = Inr (oid, r2)" "e = d\<lparr>dk_git := Some r2\<rparr>"
proof (cases "g_create_updated L tree us r")
  case (Inl err)
  with run d show ?thesis by (auto simp: commit_updates_def bind_act_def odb_step_def intro: that(1))
next
  case (Inr tr)
  obtain t1 r1 where tr: "tr = (t1, r1)" by (cases tr)
  note steps = commit_updates_def bind_act_def odb_step_def odb_read_def find_tree_def
  show ?thesis
  proof (cases "r_trees r1 t1 = None \<or> (\<exists>e. git_signature L an ae = Inl e)")
    case True
    with run d Inr tr show ?thesis
      by (cases "r_trees r1 t1"; cases "git_signature L an ae")
        (auto simp: steps intro: that(2) [OF _ Inr [unfolded tr]])
  next
    case False
    then obtain es sg where *: "r_trees r1 t1 = Some es" "git_signature L an ae = Inr sg"
      by (cases "git_signature L an ae") auto
    show ?thesis
    proof (cases "g_commit L sg m t1 [h] r1")
      case (Inl err)
      with run d Inr tr * have "q = Inl (GitErr err)" "e = d\<lparr>dk_git := Some r1\<rparr>"
        by (auto simp: steps)
      then show ?thesis using that(2) Inr tr by blast
    next
      case (Inr p2)
      obtain oid r2 where p2: "p2 = (oid, r2)" by (cases p2)
      with run d \<open>g_create_updated L tree us r = Inr tr\<close> tr * Inr
      have "q = Inr oid" "e = d\<lparr>dk_git := Some r2\<rparr>" by (auto simp: steps)
      then show ?thesis
        using that(3) [of oid t1 r1 sg r2] \<open>g_create_updated L tree us r = Inr tr\<close> tr * Inr p2
        by simp
    qed
  qed
qed

lemma commit_updates_ok:
  assumes L: "git2_ok L I" and d: "dk_git d = Some r" "I r" and t: "r_trees r tree \<noteq> None"
    and run: "commit_updates L parent tree us m an ae d = (Inr oid, d')"
  shows "\<exists>r' c. dk_git d' = Some r' \<and> I r' \<and> extends r r' \<and> r_head r' = Inr oid \<and>
      r_commits r' oid = Some c \<and> c_parents c = [parent] \<and> c_message c = m \<and>
      dk_exists d' = dk_exists d \<and> dk_work d' = dk_work d \<and>
      (well_formed_updates us \<longrightarrow>
        (\<forall>p. clean p \<longrightarrow> head_blob L d' p = apply_updates us (blob_oid_in_tree L r tree) p))"
proof -
  obtain t1 r1 sg r2 where
    cu: "g_create_updated L tree us r = Inr (t1, r1)" and
    ft: "r_trees r1 t1 \<noteq> None" and
    cm: "g_commit L sg m t1 [parent] r1 = Inr (oid, r2)" and
    d': "d' = d\<lparr>dk_git := Some r2\<rparr>"
    using run d(1) by (cases rule: commit_updates_cases) auto
  note r1 = create_updated_rule(1-3) [OF L d(2) cu] and up = create_updated_rule(4) [OF L d(2) cu t]
  note r2 = commit_rule(1-3) [OF L r1(1) ft cm] and c = commit_rule(4) [OF L r1(1) ft cm]
  have gp: "g_get_path L r2 t1 p = g_get_path L r1 t1 p" for p
    by (rule get_path_rule [OF L r1(1) r2(1,2) ft])
  have "r_trees r2 t1 \<noteq> None" using ft r2(2) extends_tree by fastforce
  then have "head_tree r2 = Inr (oid, t1)" using r2(3) c by (auto simp: head_tree_Inr)
  then have "head_blob L d' p = blob_oid_in_tree L r1 t1 p" for p
    by (simp add: head_blob_def d' blob_oid_in_tree_def gp)
  with up r1 r2 c d' show ?thesis by (auto intro: extends_trans)
qed

lemma head_content_eq:
  assumes "head_blob L d' p = head_blob L d p" "disk_sound I d" "git2_ok L I"
    and "dk_git d = Some r" "dk_git d' = Some r'" "extends r r'"
  shows "head_content L d' p = head_content L d p"
proof (cases "head_blob L d p")
  case None
  with assms show ?thesis by (simp add: head_content_def)
next
  case (Some oid)
  then obtain h t where t: "head_tree r = Inr (h, t)" "blob_oid_in_tree L r t p = Some oid"
    using assms(4) by (auto simp: head_blob_def split: sum.splits)
  then obtain e where "g_get_path L r t p = Some e" "te_kind e = Blob" "te_id e = oid"
    by (auto simp: blob_oid_in_tree_def split: option.splits if_splits)
  moreover have "I r" using assms(2,4) by (simp add: disk_sound_def)
  ultimately have "r_blobs r oid \<noteq> None"
    using blob_present_rule [OF assms(3)] by blast
  with Some assms show ?thesis by (auto simp: head_content_def dest: extends_blob)
qed

lemma grows_head:
  assumes L: "git2_ok L I" and g: "grows I e d" and r: "dk_git e = Some r" "I r" "head_tree r = Inr (h, t)"
  shows "head_blob L d p = head_blob L e p" and "head_content L d p = head_content L e p"
proof -
  obtain r' where r': "dk_git d = Some r'" "I r'" "extends r r'" "r_head r' = r_head r"
    using g r(1,2) unfolding grows_def by blast
  have t: "head_tree r' = Inr (h, t)" "r_trees r t \<noteq> None"
    using r(3) r' by (auto simp: head_tree_Inr dest: extends_commit extends_tree)
  show *: "head_blob L d p = head_blob L e p"
    using get_path_rule [OF L r(2) r'(2,3) t(2)] r r' t(1)
    by (simp add: head_blob_def blob_oid_in_tree_def)
  show "head_content L d p = head_content L e p"
    by (rule head_content_eq [OF * _ L r(1) r'(1,3)]) (simp add: disk_sound_def r)
qed

end
