(* ===== verification/Git_Instance.thy ===== *)
theory Git_Instance
  imports Git_Laws "HOL-Library.AList"
begin

text \<open>
  A small git, with objects that are their own ids, on which the laws of \<open>Git_Laws\<close> hold: the
  laws are consistent, and the properties that rest on them are applied to concrete
  repositories here. Its database holds every well-formed object; its trees are nested lists of
  named entries; its updates fail where those of \<open>git2\<close> do (an invalid path, a file where a
  folder is needed, a path to remove that is absent).
\<close>

section \<open>Objects\<close>

datatype gobj =
    GBlob string
  | GTree "(string \<times> gobj) list"
  | GCommit gobj "gobj list" string string string int

definition good_name :: "string \<Rightarrow> bool" where
  "good_name n \<longleftrightarrow> n \<noteq> [] \<and> n \<noteq> ''.'' \<and> n \<noteq> ''..'' \<and> CHR ''/'' \<notin> set n"

fun valid :: "gobj \<Rightarrow> bool" where
  "valid (GTree es) \<longleftrightarrow> distinct (map fst es) \<and> (\<forall>(n, k) \<in> set es. good_name n \<and> valid k)"
| "valid _ \<longleftrightarrow> True"

fun lookup :: "(string \<times> gobj) list \<Rightarrow> string list \<Rightarrow> gobj option" where
  "lookup es [] = None"
| "lookup es [n] = map_of es n"
| "lookup es (n # ns) = (case map_of es n of Some (GTree sub) \<Rightarrow> lookup sub ns | _ \<Rightarrow> None)"

fun put :: "string list \<Rightarrow> gobj \<Rightarrow> (string \<times> gobj) list \<Rightarrow> (string \<times> gobj) list option" where
  "put [] b es = None"
| "put [n] b es =
     (case map_of es n of
        None \<Rightarrow> Some (AList.update n b es)
      | Some (GBlob _) \<Rightarrow> Some (AList.update n b es)
      | _ \<Rightarrow> None)"
| "put (n # ns) b es =
     (case map_of es n of
        None \<Rightarrow> map_option (\<lambda>sub. AList.update n (GTree sub) es) (put ns b [])
      | Some (GTree sub) \<Rightarrow> map_option (\<lambda>sub. AList.update n (GTree sub) es) (put ns b sub)
      | _ \<Rightarrow> None)"

fun cut :: "string list \<Rightarrow> (string \<times> gobj) list \<Rightarrow> (string \<times> gobj) list option" where
  "cut [] es = None"
| "cut [n] es = (if map_of es n = None then None else Some (AList.delete n es))"
| "cut (n # ns) es =
     (case map_of es n of
        Some (GTree sub) \<Rightarrow>
          (case cut ns sub of
             None \<Rightarrow> None
           | Some [] \<Rightarrow> Some (AList.delete n es)
           | Some sub' \<Rightarrow> Some (AList.update n (GTree sub') es))
      | _ \<Rightarrow> None)"

definition entry_of :: "string \<Rightarrow> gobj \<Rightarrow> gobj tree_entry" where
  "entry_of n k =
     \<lparr>te_name = Some n,
      te_kind = (case k of GBlob _ \<Rightarrow> Blob | GTree _ \<Rightarrow> Tree | GCommit _ _ _ _ _ _ \<Rightarrow> OtherKind),
      te_id = k,
      te_mode = (case k of GBlob _ \<Rightarrow> 33188 | GTree _ \<Rightarrow> 16384 | GCommit _ _ _ _ _ _ \<Rightarrow> 57344)\<rparr>"

fun walk :: "string \<Rightarrow> gobj \<Rightarrow> (string \<times> gobj tree_entry) list" where
  "walk root (GTree es) =
     List.concat (map (\<lambda>(n, k). (root, entry_of n k) # walk (root @ n @ ''/'') k) es)"
| "walk root _ = []"

definition file_at :: "(string \<times> gobj) list \<Rightarrow> string list \<Rightarrow> gobj option" where
  "file_at es ns = (case lookup es ns of Some (GBlob c) \<Rightarrow> Some (GBlob c) | _ \<Rightarrow> None)"

section \<open>Lookups after updates\<close>

lemma lookup_Cons:
  "lookup es (n # ns) =
     (if ns = [] then map_of es n
      else (case map_of es n of Some (GTree sub) \<Rightarrow> lookup sub ns | _ \<Rightarrow> None))"
  by (cases ns) (auto split: option.split gobj.split)

lemma file_at_Cons:
  "file_at es (n # ns) =
     (case map_of es n of
        Some (GTree sub) \<Rightarrow> file_at sub ns
      | Some (GBlob c) \<Rightarrow> if ns = [] then Some (GBlob c) else None
      | _ \<Rightarrow> None)"
  by (cases ns) (auto simp: file_at_def split: option.split gobj.split)

lemma file_at_Nil [simp]: "file_at es [] = None"
  by (simp add: file_at_def)

lemma file_at_empty [simp]: "file_at [] ns = None"
  by (cases ns) (simp_all add: file_at_Cons)

lemma file_at_put:
  "put ns (GBlob c) es = Some es' \<Longrightarrow> file_at es' q = (if q = ns then Some (GBlob c) else file_at es q)"
proof (induction ns "GBlob c" es arbitrary: es' q rule: put.induct)
  case (2 n es)
  then have "es' = AList.update n (GBlob c) es" "map_of es n = None \<or> (\<exists>b. map_of es n = Some (GBlob b))"
    by (auto split: option.splits gobj.splits)
  then show ?case by (cases q) (auto simp: file_at_Cons update_conv')
next
  case (3 n m ns es)
  obtain sub sub' where sub: "map_of es n = None \<and> sub = [] \<or> map_of es n = Some (GTree sub)"
    "put (m # ns) (GBlob c) sub = Some sub'" "es' = AList.update n (GTree sub') es"
    using "3.prems" by (auto split: option.splits gobj.splits)
  then have IH: "file_at sub' q = (if q = m # ns then Some (GBlob c) else file_at sub q)" for q
    using "3.hyps" by blast
  show ?case
  proof (cases q)
    case (Cons k q')
    show ?thesis
      unfolding Cons file_at_Cons [of es' k] file_at_Cons [of es k]
      using sub(1,3) IH [of q'] by (auto simp: update_conv' split: option.split gobj.split)
  qed simp
qed simp

lemma file_at_cut:
  "cut ns es = Some es' \<Longrightarrow> file_at es' q = (if prefix ns q then None else file_at es q)"
proof (induction ns es arbitrary: es' q rule: cut.induct)
  case (2 n es)
  then show ?case by (cases q) (auto simp: file_at_Cons delete_conv' split: if_splits)
next
  case (3 n m ns es)
  obtain sub sub' where sub: "map_of es n = Some (GTree sub)" "cut (m # ns) sub = Some sub'"
    and es': "es' = (case sub' of [] \<Rightarrow> AList.delete n es | _ \<Rightarrow> AList.update n (GTree sub') es)"
    using "3.prems" by (auto split: option.splits gobj.splits list.splits)
  have IH: "file_at sub' q = (if prefix (m # ns) q then None else file_at sub q)" for q
    using "3.IH" sub by blast
  show ?case
  proof (cases q)
    case (Cons k q')
    show ?thesis
    proof (cases sub')
      case Nil
      with IH [of q'] sub es' show ?thesis
        unfolding \<open>q = k # q'\<close> file_at_Cons [of es' k] file_at_Cons [of es k]
        by (auto simp: delete_conv' split: option.split gobj.split)
    next
      case (Cons x xs)
      with IH [of q'] sub es' show ?thesis
        unfolding \<open>q = k # q'\<close> file_at_Cons [of es' k] file_at_Cons [of es k]
        by (auto simp: update_conv' split: option.split gobj.split)
    qed
  qed simp
qed simp

section \<open>Well-formed trees\<close>

lemma valid_iff:
  "valid (GTree es) \<longleftrightarrow>
     distinct (map fst es) \<and> (\<forall>n k. map_of es n = Some k \<longrightarrow> good_name n \<and> valid k)"
  by (auto simp: map_of_eq_Some_iff split: prod.splits)

declare valid.simps(1) [simp del]

lemma valid_entry: "valid (GTree es) \<Longrightarrow> map_of es n = Some k \<Longrightarrow> good_name n \<and> valid k"
  unfolding valid_iff by blast

lemma valid_empty [simp]: "valid (GTree [])"
  by (simp add: valid_iff)

lemma valid_update:
  "valid (GTree es) \<Longrightarrow> good_name n \<Longrightarrow> valid k \<Longrightarrow> valid (GTree (AList.update n k es))"
  by (auto simp: valid_iff update_conv' distinct_update)

lemma valid_delete: "valid (GTree es) \<Longrightarrow> valid (GTree (AList.delete n es))"
  by (auto simp: valid_iff delete_conv' distinct_delete split: if_splits)

lemma valid_put:
  "put ns b es = Some es' \<Longrightarrow> list_all good_name ns \<Longrightarrow> valid b \<Longrightarrow> valid (GTree es) \<Longrightarrow> valid (GTree es')"
  by (induction ns b es arbitrary: es' rule: put.induct)
    (auto intro!: valid_update dest: valid_entry split: option.splits gobj.splits)

lemma valid_cut: "cut ns es = Some es' \<Longrightarrow> valid (GTree es) \<Longrightarrow> valid (GTree es')"
proof (induction ns es arbitrary: es' rule: cut.induct)
  case (2 n es)
  then show ?case by (auto intro: valid_delete split: if_splits)
next
  case (3 n m ns es)
  obtain sub sub' where sub: "map_of es n = Some (GTree sub)" "cut (m # ns) sub = Some sub'"
    and es': "es' = (case sub' of [] \<Rightarrow> AList.delete n es | _ \<Rightarrow> AList.update n (GTree sub') es)"
    using "3.prems"(1) by (auto split: option.splits gobj.splits list.splits)
  then have "valid (GTree sub)" "good_name n"
    using valid_entry [OF "3.prems"(2)] by blast+
  moreover have "valid (GTree sub')" using "3.IH" sub \<open>valid (GTree sub)\<close> by blast
  ultimately show ?case
    using es' "3.prems"(2) by (auto intro: valid_delete valid_update split: list.split)
qed simp

lemma lookup_valid: "lookup es ns = Some k \<Longrightarrow> valid (GTree es) \<Longrightarrow> valid k \<and> list_all good_name ns"
  by (induction es ns rule: lookup.induct)
    (auto dest: valid_entry split: option.splits gobj.splits)

lemma lookup_append:
  "ns \<noteq> [] \<Longrightarrow> ms \<noteq> [] \<Longrightarrow>
     lookup es (ns @ ms) = (case lookup es ns of Some (GTree sub) \<Rightarrow> lookup sub ms | _ \<Rightarrow> None)"
  by (induction es ns rule: lookup.induct)
    (auto simp: lookup_Cons split: option.splits gobj.splits)

section \<open>Walks\<close>

lemma visited_files_simps [simp]:
  "visited_files [] = []"
  "visited_files (v # vs) = (case visited_file v of Some f \<Rightarrow> [f] | None \<Rightarrow> []) @ visited_files vs"
  "visited_files (vs @ ws) = visited_files vs @ visited_files ws"
  by (simp_all add: visited_files_def List.map_filter_def split: option.split)

lemma visited_entry:
  "visited_file (root, entry_of n k) = (case k of GBlob c \<Rightarrow> Some (root @ n, k) | _ \<Rightarrow> None)"
  by (simp add: visited_file_def entry_of_def split: gobj.split)

lemma set_visited_concat:
  "set (visited_files (List.concat xss)) = (\<Union>xs \<in> set xss. set (visited_files xs))"
  by (induction xss) auto

lemma visited_walk:
  "valid (GTree es) \<Longrightarrow>
     (p, b) \<in> set (visited_files (walk root (GTree es))) \<longleftrightarrow>
     (\<exists>ns. file_at es ns = Some b \<and> p = root @ join_with CHR ''/'' ns)"
proof (induction root "GTree es" arbitrary: es p rule: walk.induct)
  case (1 root es)
  have dist: "distinct (map fst es)" using "1.prems" by (simp add: valid_iff)
  have below: "(p, b) \<in> set (visited_files ((root, entry_of n k) # walk (root @ n @ ''/'') k)) \<longleftrightarrow>
      (\<exists>ns. file_at es (n # ns) = Some b \<and> p = root @ join_with CHR ''/'' (n # ns))"
    if nk: "(n, k) \<in> set es" for n k
  proof (cases k)
    case (GTree sub)
    have m: "map_of es n = Some (GTree sub)" using nk dist GTree by simp
    then have "valid (GTree sub)" using valid_entry [OF "1.prems"] by blast
    then have "(p, b) \<in> set (visited_files (walk (root @ n @ ''/'') (GTree sub))) \<longleftrightarrow>
        (\<exists>ns. file_at sub ns = Some b \<and> p = (root @ n @ ''/'') @ join_with CHR ''/'' ns)"
      using "1.hyps" nk GTree by blast
    moreover have "file_at sub ns = Some b \<Longrightarrow> join_with CHR ''/'' (n # ns) = n @ ''/'' @ join_with CHR ''/'' ns" for ns
      by (cases ns) auto
    ultimately show ?thesis using m GTree by (auto simp: visited_entry file_at_Cons)
  next
    case (GBlob c)
    then have "map_of es n = Some (GBlob c)" using nk dist by simp
    then show ?thesis using GBlob by (auto simp: visited_entry file_at_Cons)
  next
    case GCommit
    then have "map_of es n = Some k" using nk dist by simp
    then show ?thesis using GCommit by (auto simp: visited_entry file_at_Cons)
  qed
  have "(p, b) \<in> set (visited_files (walk root (GTree es))) \<longleftrightarrow>
      (\<exists>(n, k) \<in> set es. (p, b) \<in> set (visited_files ((root, entry_of n k) # walk (root @ n @ ''/'') k)))"
    by (simp add: set_visited_concat split_def del: visited_files_simps)
  also have "\<dots> \<longleftrightarrow> (\<exists>(n, k) \<in> set es. \<exists>ns. file_at es (n # ns) = Some b \<and>
      p = root @ join_with CHR ''/'' (n # ns))"
    using below by blast
  also have "\<dots> \<longleftrightarrow> (\<exists>ns. file_at es ns = Some b \<and> p = root @ join_with CHR ''/'' ns)"
  proof
    assume "\<exists>ns. file_at es ns = Some b \<and> p = root @ join_with CHR ''/'' ns"
    then obtain ns where ns: "file_at es ns = Some b" "p = root @ join_with CHR ''/'' ns" by blast
    then obtain n ms where "ns = n # ms" by (cases ns) auto
    moreover from this ns obtain k where "map_of es n = Some k" by (auto simp: file_at_Cons split: option.splits)
    ultimately show "\<exists>(n, k) \<in> set es. \<exists>ns. file_at es (n # ns) = Some b \<and>
        p = root @ join_with CHR ''/'' (n # ns)"
      using ns dist by (fastforce dest: map_of_SomeD)
  qed blast
  finally show ?case .
qed

lemma distinct_visited_concat:
  assumes "\<And>x. x \<in> set xs \<Longrightarrow> distinct (map fst (visited_files (f x)))" and "distinct (map g xs)"
    and "\<And>x y p. x \<in> set xs \<Longrightarrow> y \<in> set xs \<Longrightarrow> g x \<noteq> g y \<Longrightarrow>
      p \<in> fst ` set (visited_files (f x)) \<Longrightarrow> p \<notin> fst ` set (visited_files (f y))"
  shows "distinct (map fst (visited_files (List.concat (map f xs))))"
  using assms
proof (induction xs)
  case (Cons x xs)
  have "distinct (map fst (visited_files (List.concat (map f xs))))"
  proof (rule Cons.IH)
    show "distinct (map fst (visited_files (f y)))" if "y \<in> set xs" for y
      using Cons.prems(1) that by simp
    show "distinct (map g xs)" using Cons.prems(2) by simp
    show "p \<notin> fst ` set (visited_files (f z))"
      if "y \<in> set xs" "z \<in> set xs" "g y \<noteq> g z" "p \<in> fst ` set (visited_files (f y))" for y z p
      using Cons.prems(3) [of y z p] that by simp
  qed
  moreover have "p \<notin> fst ` set (visited_files (List.concat (map f xs)))"
    if "p \<in> fst ` set (visited_files (f x))" for p
  proof
    assume "p \<in> fst ` set (visited_files (List.concat (map f xs)))"
    then obtain y where y: "y \<in> set xs" "p \<in> fst ` set (visited_files (f y))"
      by (auto simp: set_visited_concat image_iff)
    then have "g x \<noteq> g y" using Cons.prems(2) by force
    with Cons.prems(3) [of x y p] y that show False by simp
  qed
  ultimately show ?case using Cons.prems(1) by (force simp: disjoint_iff)
qed simp

lemma visited_subtree_path:
  assumes "valid (GTree es)" "(n, k) \<in> set es"
    and "p \<in> fst ` set (visited_files ((root, entry_of n k) # walk (root @ n @ ''/'') k))"
  shows "\<exists>ms. p = root @ join_with CHR ''/'' (n # ms)"
proof (cases k)
  case (GTree sub)
  then have "valid (GTree sub)" using assms(1,2) valid_entry valid_iff by (metis map_of_eq_Some_iff)
  then obtain ms b where ms: "file_at sub ms = Some b" "p = (root @ n @ ''/'') @ join_with CHR ''/'' ms"
    using assms(3) GTree by (auto simp: visited_entry visited_walk simp del: walk.simps)
  then have "ms \<noteq> []" by auto
  then have "p = root @ join_with CHR ''/'' (n # ms)" using ms by (cases ms) auto
  then show ?thesis by blast
next
  case (GBlob c)
  then have "p = root @ join_with CHR ''/'' [n]" using assms(3) by (simp add: visited_entry)
  then show ?thesis by blast
next
  case GCommit
  then show ?thesis using assms(3) by (simp add: visited_entry)
qed

lemma join_heads_eq:
  assumes "good_name n" "good_name m" "join_with CHR ''/'' (n # ns) = join_with CHR ''/'' (m # ms)"
  shows "n = m"
proof -
  have hd_split: "hd (split_on CHR ''/'' (join_with CHR ''/'' (k # ks))) = k" if "good_name k" for k ks
  proof (cases ks)
    case Nil
    then show ?thesis using that by (simp add: good_name_def split_on_free)
  next
    case (Cons x xs)
    then show ?thesis using that
      by (simp add: good_name_def split_on_append_sep split_on_free)
  qed
  show ?thesis using hd_split [OF assms(1)] hd_split [OF assms(2)] assms(3) by metis
qed

lemma distinct_walk: "valid (GTree es) \<Longrightarrow> distinct (map fst (visited_files (walk root (GTree es))))"
proof (induction root "GTree es" arbitrary: es rule: walk.induct)
  case (1 root es)
  have dist: "distinct (map fst es)" using "1.prems" by (simp add: valid_iff)
  have good: "good_name n \<and> valid k" if "(n, k) \<in> set es" for n k
    using that dist valid_entry [OF "1.prems"] by (metis map_of_eq_Some_iff)
  show ?case
    unfolding walk.simps
  proof (rule distinct_visited_concat [where g = fst])
    fix x assume x: "x \<in> set es"
    obtain n k where [simp]: "x = (n, k)" by (cases x)
    show "distinct (map fst (visited_files (case x of (n, k) \<Rightarrow> (root, entry_of n k) # walk (root @ n @ ''/'') k)))"
    proof (cases k)
      case (GTree sub)
      then have "distinct (map fst (visited_files (walk (root @ n @ ''/'') (GTree sub))))"
        using "1.hyps" x good by fastforce
      then show ?thesis using GTree by (simp add: visited_entry del: walk.simps)
    qed (simp_all add: visited_entry)
  next
    fix x y p assume xy: "x \<in> set es" "y \<in> set es" "fst x \<noteq> fst y"
      and p: "p \<in> fst ` set (visited_files (case x of (n, k) \<Rightarrow> (root, entry_of n k) # walk (root @ n @ ''/'') k))"
    show "p \<notin> fst ` set (visited_files (case y of (n, k) \<Rightarrow> (root, entry_of n k) # walk (root @ n @ ''/'') k))"
    proof
      assume q: "p \<in> fst ` set (visited_files (case y of (n, k) \<Rightarrow> (root, entry_of n k) # walk (root @ n @ ''/'') k))"
      have mem: "(fst x, snd x) \<in> set es" "(fst y, snd y) \<in> set es" using xy by simp_all
      obtain ms where "p = root @ join_with CHR ''/'' (fst x # ms)"
        using visited_subtree_path [OF "1.prems" mem(1) p [unfolded split_def]] by blast
      moreover obtain ms' where "p = root @ join_with CHR ''/'' (fst y # ms')"
        using visited_subtree_path [OF "1.prems" mem(2) q [unfolded split_def]] by blast
      ultimately show False using xy good join_heads_eq by (metis append_same_eq prod.collapse same_append_eq)
    qed
  qed (fact dist)
qed

section \<open>The library parameters\<close>

definition all_blobs :: "gobj \<rightharpoonup> bytes" where
  "all_blobs k = (case k of GBlob c \<Rightarrow> Some c | _ \<Rightarrow> None)"

definition all_trees :: "gobj \<rightharpoonup> gobj tree_entry list" where
  "all_trees k =
     (case k of GTree es \<Rightarrow> if valid k then Some (map (\<lambda>(n, k). entry_of n k) es) else None
      | _ \<Rightarrow> None)"

definition all_commits :: "gobj \<rightharpoonup> gobj commit" where
  "all_commits k =
     (case k of
        GCommit t ps m name email time \<Rightarrow>
          Some \<lparr>c_tree = t, c_parents = ps, c_message = m,
            c_signature = \<lparr>sig_name = name, sig_email = email, sig_time = time\<rparr>\<rparr>
      | _ \<Rightarrow> None)"

definition sample_repo :: "git_error + gobj \<Rightarrow> gobj repo" where
  "sample_repo head =
     \<lparr>r_head = head, r_commits = all_commits, r_trees = all_trees, r_blobs = all_blobs\<rparr>"

definition sample_inv :: "gobj repo \<Rightarrow> bool" where
  "sample_inv r \<longleftrightarrow>
     r = sample_repo (r_head r) \<and>
     (\<forall>h. r_head r = Inr h \<longrightarrow> (\<exists>c. all_commits h = Some c \<and> all_trees (c_tree c) \<noteq> None))"

definition git_failure :: "string \<Rightarrow> git_error" where
  "git_failure m = GitError GitOther m"

fun apply_all :: "gobj tree_update list \<Rightarrow> (string \<times> gobj) list \<Rightarrow> (string \<times> gobj) list option" where
  "apply_all [] es = Some es"
| "apply_all (Upsert p b # us) es =
     (case b of
        GBlob c \<Rightarrow>
          if clean p then Option.bind (put (split_on CHR ''/'' p) b es) (apply_all us) else None
      | _ \<Rightarrow> None)"
| "apply_all (Remove p # us) es = Option.bind (cut (split_on CHR ''/'' p) es) (apply_all us)"

definition sample_get_path :: "gobj \<Rightarrow> string \<Rightarrow> gobj tree_entry option" where
  "sample_get_path t p =
     (case t of
        GTree es \<Rightarrow>
          map_option (entry_of (last (split_on CHR ''/'' p))) (lookup es (split_on CHR ''/'' p))
      | _ \<Rightarrow> None)"

text \<open>Orders are stored with each character quoted and each entry closed.\<close>

fun encode_entry :: "string \<Rightarrow> string" where
  "encode_entry [] = [CHR '',''] "
| "encode_entry (c # cs) = [CHR ''='', c] @ encode_entry cs"

fun decode_order :: "string \<Rightarrow> string \<Rightarrow> string list option" where
  "decode_order acc [] = None"
| "decode_order acc (c # s) =
     (if c = CHR '','' then map_option ((#) (rev acc)) (decode_order [] s)
      else if c = CHR ''='' then
        (case s of [] \<Rightarrow> None | d # s' \<Rightarrow> decode_order (d # acc) s')
      else if c = CHR ''.'' then Some [] else None)"

definition sample_libs :: "gobj libs" where
  "sample_libs =
     \<lparr>g_open = (\<lambda>d. case dk_git d of None \<Rightarrow> Inl (GitError GitNotFound ''not found'') | Some r \<Rightarrow> Inr r),
      g_init = (\<lambda>d. case dk_git d of
                  None \<Rightarrow> Inr (sample_repo (Inl (GitError GitUnbornBranch ''unborn'')))
                | Some r \<Rightarrow> Inr r),
      g_empty_tree = (\<lambda>r. Inr (GTree [], r)),
      g_get_path = (\<lambda>r. sample_get_path),
      g_walk = (\<lambda>r t. Inr (walk [] t)),
      g_hash_blob = (\<lambda>c. Inr (GBlob c)),
      g_blob = (\<lambda>c r. Inr (GBlob c, r)),
      g_create_updated = (\<lambda>t us r. case t of
           GTree es \<Rightarrow>
             (case (if valid t then apply_all us es else None) of
                Some es' \<Rightarrow> Inr (GTree es', r)
              | None \<Rightarrow> Inl (git_failure ''invalid update''))
         | _ \<Rightarrow> Inl (git_failure ''not a tree'')),
      g_signature_now = (\<lambda>name email.
         Inr \<lparr>sig_name = name, sig_email = email, sig_time = 1700000000\<rparr>),
      g_commit = (\<lambda>sg m t ps r.
         (let c = GCommit t ps m (sig_name sg) (sig_email sg) (sig_time sg) in
          if all_trees t = None then Inl (git_failure ''not a tree'')
          else if (case r_head r of Inr h \<Rightarrow> ps = [] \<or> hd ps \<noteq> h | Inl _ \<Rightarrow> False)
          then Inl (git_failure ''current tip is not the first parent'')
          else Inr (c, r\<lparr>r_head := Inr c\<rparr>))),
      g_odb = (\<lambda>r. None),
      g_odb_reader = (\<lambda>r k. case k of
           GBlob c \<Rightarrow> Inr \<lparr>rd_bytes = c, rd_fail = None\<rparr>
         | _ \<Rightarrow> Inl missing_object),
      g_oid_string = (\<lambda>k. case k of
           GBlob c \<Rightarrow> ''blob'' | GTree es \<Rightarrow> ''tree'' | GCommit t ps m n e i \<Rightarrow> ''commit '' @ m),
      json_pretty_order = (\<lambda>es. Some (List.concat (map encode_entry es) @ ''.'')),
      json_parse_order = decode_order [],
      os_fault = (\<lambda>w k. None),
      os_stage_fault = None,
      os_rename_fault = None\<rparr>"

section \<open>The laws hold\<close>

lemma clean_good: "clean p \<longleftrightarrow> list_all good_name (split_on CHR ''/'' p)"
  by (auto simp: clean_def good_name_def list_all_iff dest: split_on_no_sep)

lemma blob_oid_sample:
  "blob_oid_in_tree sample_libs r t p =
     (case t of GTree es \<Rightarrow> file_at es (split_on CHR ''/'' p) | _ \<Rightarrow> None)"
  by (auto simp: blob_oid_in_tree_def sample_libs_def sample_get_path_def file_at_def entry_of_def
      split: gobj.split option.split)

lemma file_at_apply_all:
  "apply_all us es = Some es' \<Longrightarrow>
     file_at es' (split_on CHR ''/'' p) = apply_updates us (\<lambda>q. file_at es (split_on CHR ''/'' q)) p"
proof (induction us es arbitrary: es' rule: apply_all.induct)
  case (2 q b us es)
  obtain c es1 where b: "b = GBlob c" "put (split_on CHR ''/'' q) b es = Some es1" "apply_all us es1 = Some es'"
    using "2.prems" by (auto split: gobj.splits if_splits bind_splits)
  have "split_on CHR ''/'' x = split_on CHR ''/'' q \<longleftrightarrow> x = q" for x
    by (metis join_split)
  then have "(\<lambda>x. file_at es1 (split_on CHR ''/'' x)) = (\<lambda>x. file_at es (split_on CHR ''/'' x))(q := Some b)"
    using b file_at_put by auto
  then show ?case using "2.IH" b "2.prems" by (auto split: if_splits)
next
  case (3 q us es)
  obtain es1 where b: "cut (split_on CHR ''/'' q) es = Some es1" "apply_all us es1 = Some es'"
    using "3.prems" by (auto split: bind_splits)
  then have "(\<lambda>x. file_at es1 (split_on CHR ''/'' x)) =
      (\<lambda>x. if under q x then None else file_at es (split_on CHR ''/'' x))"
    using file_at_cut by (auto simp: split_on_prefix_iff under_def)
  then show ?case using "3.IH" b by simp
qed simp

lemma valid_apply_all: "apply_all us es = Some es' \<Longrightarrow> valid (GTree es) \<Longrightarrow> valid (GTree es')"
proof (induction us es arbitrary: es' rule: apply_all.induct)
  case (2 q b us es)
  then obtain c es1 where b: "b = GBlob c" "clean q" "put (split_on CHR ''/'' q) b es = Some es1"
    "apply_all us es1 = Some es'"
    by (auto split: gobj.splits if_splits bind_splits)
  then have "valid (GTree es1)" using "2.prems"(2) by (auto simp: clean_good intro: valid_put)
  then show ?case using "2.IH" b by blast
next
  case (3 q us es)
  then show ?case using valid_cut by (fastforce split: bind_splits)
qed simp

lemma sample_invD: "sample_inv r \<Longrightarrow> r_commits r = all_commits \<and> r_trees r = all_trees \<and> r_blobs r = all_blobs"
  unfolding sample_inv_def by (metis repo.select_convs(2-4) sample_repo_def)

lemma sample_extends: "sample_inv r \<Longrightarrow> sample_inv r' \<Longrightarrow> extends r r'"
  by (simp add: extends_def sample_invD)

lemma all_trees_present: "all_trees t \<noteq> None \<longleftrightarrow> (\<exists>es. t = GTree es \<and> valid t)"
  by (auto simp: all_trees_def split: gobj.splits)

lemma sample_get_path_entry:
  "sample_get_path t p = Some e \<Longrightarrow>
     \<exists>es k. t = GTree es \<and> lookup es (split_on CHR ''/'' p) = Some k \<and> e = entry_of (last (split_on CHR ''/'' p)) k"
  by (auto simp: sample_get_path_def split: gobj.splits)

lemma entry_of_simps [simp]:
  "te_name (entry_of n k) = Some n" "te_id (entry_of n k) = k"
  "te_kind (entry_of n k) = Blob \<longleftrightarrow> (\<exists>c. k = GBlob c)"
  "te_kind (entry_of n k) = Tree \<longleftrightarrow> (\<exists>es. k = GTree es)"
  by (simp_all add: entry_of_def split: gobj.split)

lemma sample_open: "open_law sample_libs"
  by (simp add: open_law_def sample_libs_def split: option.split)

lemma sample_repo_inv: "sample_inv (sample_repo (Inl e))"
  by (simp add: sample_inv_def sample_repo_def)

lemma sample_init: "init_law sample_libs sample_inv"
proof -
  have "sample_get_path (GTree []) p = None" for p
    by (cases "split_on CHR ''/'' p") (simp_all add: sample_get_path_def lookup_Cons)
  then have "g_get_path sample_libs r (GTree []) p = None" for r p
    by (simp add: sample_libs_def)
  moreover have "all_trees (GTree []) = Some []" by (simp add: all_trees_def)
  ultimately show ?thesis
    unfolding init_law_def
    by (auto simp: sample_libs_def sample_repo_inv sample_invD)
      (simp_all add: sample_repo_def)
qed

lemma sample_blob: "blob_law sample_libs sample_inv"
  unfolding blob_law_def
  by (auto simp: sample_libs_def all_blobs_def dest!: sample_invD split: gobj.splits)

lemma sample_tree: "tree_law sample_libs sample_inv"
proof -
  have get: "g_get_path sample_libs r = sample_get_path" for r by (simp add: sample_libs_def)
  have one: "sample_inv r \<Longrightarrow> sample_get_path t p = Some e \<Longrightarrow> te_kind e = Blob \<Longrightarrow> r_blobs r (te_id e) \<noteq> None"
    for r t p e
    by (auto dest!: sample_get_path_entry sample_invD simp: all_blobs_def)
  have two: "r' = r \<and> (\<forall>p. blob_oid_in_tree sample_libs r' t' p = apply_updates us (blob_oid_in_tree sample_libs r t) p)"
    if run: "g_create_updated sample_libs t us r = Inr (t', r')" for r t us t' r'
  proof -
    obtain es es' where "t = GTree es" "apply_all us es = Some es'" "t' = GTree es'" "r' = r"
      using run by (cases t; cases "valid t") (auto simp: sample_libs_def split: option.splits)
    moreover have "blob_oid_in_tree sample_libs r (GTree es) = (\<lambda>q. file_at es (split_on CHR ''/'' q))"
      by (rule ext) (simp add: blob_oid_sample)
    ultimately show ?thesis using file_at_apply_all by (simp add: blob_oid_sample)
  qed
  have three: "\<exists>e'. sample_get_path t p = Some e' \<and> te_kind e' = Tree"
    if q: "sample_get_path t q = Some e" and q': "starts_with q (p @ ''/'')" for t p q e
  proof -
    obtain x where x: "q = p @ CHR ''/'' # x" using q' by (auto simp: starts_with_iff)
    obtain es k where es: "t = GTree es" "lookup es (split_on CHR ''/'' p @ split_on CHR ''/'' x) = Some k"
      using q by (auto simp: x split_on_append_sep dest!: sample_get_path_entry)
    then obtain sub where "lookup es (split_on CHR ''/'' p) = Some (GTree sub)"
      by (auto simp: lookup_append split: option.splits gobj.splits)
    then show ?thesis by (simp add: sample_get_path_def es(1))
  qed
  show ?thesis
    unfolding tree_law_def get
  proof (intro conjI allI impI; elim conjE)
    show "sample_get_path t p = sample_get_path t p" for t p ..
    show "r_blobs r (te_id e) \<noteq> None"
      if "sample_inv r" "sample_get_path t p = Some e" "te_kind e = Blob" for r t p e
      using that by (rule one)
    show "sample_inv r'" "extends r r'" "r_head r' = r_head r"
      if "sample_inv r" "g_create_updated sample_libs t us r = Inr (t', r')" for r t us t' r'
      using two [OF that(2)] that(1) by simp_all
    show "blob_oid_in_tree sample_libs r' t' p = apply_updates us (blob_oid_in_tree sample_libs r t) p"
      if "g_create_updated sample_libs t us r = Inr (t', r')" for r t us t' r' p
      using two [OF that] by blast
    show "\<exists>e'. sample_get_path t p = Some e' \<and> te_kind e' = Tree"
      if "sample_get_path t q = Some e" "starts_with q (p @ ''/'')" for t p q e
      using that by (rule three)
  qed
qed

lemma sample_walk: "walk_law sample_libs sample_inv"
proof -
  have files: "distinct (map fst (visited_files visits)) \<and>
      (\<forall>(p, oid) \<in> set (visited_files visits). clean p \<and> blob_oid_in_tree sample_libs r t p = Some oid) \<and>
      (\<forall>p oid. clean p \<and> valid_utf8 p \<and> blob_oid_in_tree sample_libs r t p = Some oid \<longrightarrow>
         (p, oid) \<in> set (visited_files visits))"
    if r: "sample_inv r" "r_trees r t \<noteq> None" and w: "g_walk sample_libs r t = Inr visits" for r t visits
  proof -
    obtain es where t: "t = GTree es" "valid (GTree es)"
      using r by (auto simp: sample_invD all_trees_def split: gobj.splits if_splits)
    have v: "visits = walk [] (GTree es)" using w t by (simp add: sample_libs_def)
    have good: "list_all good_name ns \<and> ns \<noteq> []" if at: "file_at es ns = Some b" for ns b
    proof -
      obtain k where "lookup es ns = Some k"
        using at by (auto simp: file_at_def split: option.splits)
      then show ?thesis using lookup_valid t(2) at by fastforce
    qed
    have split: "split_on CHR ''/'' (join_with CHR ''/'' ns) = ns" if at: "file_at es ns = Some b" for ns b
      using good [OF at] by (intro split_join) (auto simp: list_all_iff good_name_def)
    show ?thesis
      using distinct_walk [OF t(2)] good split
      by (auto simp: v visited_walk [OF t(2)] blob_oid_sample t(1) clean_good simp del: walk.simps)
  qed
  have kind: "te_kind e = Tree \<longleftrightarrow> r_trees r (te_id e) \<noteq> None"
    if r: "sample_inv r" "r_trees r t \<noteq> None" "g_get_path sample_libs r t dir = Some e" for r t dir e
  proof -
    obtain es k where t: "t = GTree es" "valid (GTree es)"
      "lookup es (split_on CHR ''/'' dir) = Some k" "e = entry_of (last (split_on CHR ''/'' dir)) k"
      using r by (auto dest!: sample_get_path_entry
          simp: sample_invD sample_libs_def all_trees_def split: gobj.splits if_splits)
    then have "valid k" using lookup_valid by blast
    then show ?thesis using r(1) t(4) by (auto simp: sample_invD all_trees_def split: gobj.split)
  qed
  have sub: "g_get_path sample_libs r t (dir @ ''/'' @ p) = g_get_path sample_libs r (te_id e) p"
    if r: "g_get_path sample_libs r t dir = Some e" "te_kind e = Tree" for r t dir p e
  proof -
    obtain es sub where t: "t = GTree es"
      "lookup es (split_on CHR ''/'' dir) = Some (GTree sub)" "te_id e = GTree sub"
      using r by (auto dest!: sample_get_path_entry simp: sample_libs_def)
    then show ?thesis
      by (auto simp: sample_libs_def sample_get_path_def split_on_append_sep lookup_append)
  qed
  show ?thesis unfolding walk_law_def using files kind sub by blast
qed

lemma sample_commit: "commit_law sample_libs sample_inv"
proof -
  have head: "\<exists>c. r_commits r h = Some c \<and> r_trees r (c_tree c) \<noteq> None"
    if "sample_inv r" "r_head r = Inr h" for r h
    using that sample_invD [OF that(1)] by (simp add: sample_inv_def)
  have made: "sample_inv r' \<and> extends r r' \<and> r_head r' = Inr oid \<and>
      r_commits r' oid = Some \<lparr>c_tree = t, c_parents = ps, c_message = m, c_signature = sg\<rparr>"
    if r: "sample_inv r" and run: "g_commit sample_libs sg m t ps r = Inr (oid, r')" for r sg m t ps oid r'
  proof -
    have o': "oid = GCommit t ps m (sig_name sg) (sig_email sg) (sig_time sg)" "r' = r\<lparr>r_head := Inr oid\<rparr>"
      "all_trees t \<noteq> None"
      using run by (auto simp: sample_libs_def Let_def split: if_splits)
    have r_eq: "r = sample_repo (r_head r)" using r by (simp add: sample_inv_def)
    then have "r' = sample_repo (Inr oid)" using o'(2) by (metis repo.update_convs(1) sample_repo_def)
    moreover have "all_commits oid = Some \<lparr>c_tree = t, c_parents = ps, c_message = m, c_signature = sg\<rparr>"
      by (simp add: o'(1) all_commits_def)
    ultimately have "sample_inv r'" using o'(3) by (simp add: sample_inv_def sample_repo_def)
    then show ?thesis
      using sample_extends [OF r] sample_invD o'(2) \<open>all_commits oid = _\<close> by simp
  qed
  show ?thesis unfolding commit_law_def using head made by blast
qed

theorem sample_ok: "git2_ok sample_libs sample_inv"
  unfolding git2_ok_def
  using sample_open sample_init sample_blob sample_tree sample_walk sample_commit by blast

text \<open>A tenant whose HEAD holds the given tree, with nothing checked out.\<close>

definition sample_disk :: "(string \<times> gobj) list \<Rightarrow> gobj disk" where
  "sample_disk es =
     \<lparr>dk_exists = True,
      dk_git = Some (sample_repo (Inr (GCommit (GTree es) [] ''init'' ''a'' ''b'' 0))),
      dk_work = (\<lambda>_. None)\<rparr>"

lemma sample_disk_sound: "valid (GTree es) \<Longrightarrow> disk_sound sample_inv (sample_disk es)"
  by (auto simp: disk_sound_def sample_disk_def sample_inv_def sample_repo_def all_commits_def
      all_trees_def split: gobj.splits)

lemma sample_disk_git [simp]: "dk_git (sample_disk es) \<noteq> None"
  by (simp add: sample_disk_def)

text \<open>The tenant the properties are applied to: an ordered folder, a plain one, a root file.\<close>

definition demo_disk :: "gobj disk" where
  "demo_disk = sample_disk
     [(''docs'', GTree
         [(''.order.json'', GBlob (serialize (json_pretty_order sample_libs) [''b.md'', ''a.md''])),
          (''a.md'', GBlob ''one''), (''b.md'', GBlob ''two'')]),
      (''notes'', GTree [(''n.md'', GBlob ''note'')]),
      (''top.md'', GBlob ''top'')]"

lemma demo_disk_sound: "disk_sound sample_inv demo_disk"
  unfolding demo_disk_def
  by (rule sample_disk_sound) (simp add: valid.simps good_name_def)

lemma demo_disk_git [simp]: "dk_git demo_disk \<noteq> None"
  by (simp add: demo_disk_def)

end
