(* ===== verification/Git_Diffs.thy ===== *)
theory Git_Diffs
  imports Git_Reverts Git_Instance
begin

text \<open>
  What revert and rollback rely on from the diff of two trees, and a diff of the sample trees of
  \<open>Git_Instance\<close> that keeps it.
\<close>

section \<open>The law of diffs\<close>

text \<open>The paths of files a delta says something of.\<close>

definition delta_paths :: "'o delta_record \<Rightarrow> string list" where
  "delta_paths dl =
     (case dr_status dl of
        AddedDelta \<Rightarrow> option_list (dr_new_path dl)
      | DeletedDelta \<Rightarrow> option_list (dr_old_path dl)
      | ModifiedDelta \<Rightarrow> option_list (dr_new_path dl)
      | RenamedDelta \<Rightarrow> option_list (dr_new_path dl) @ option_list (dr_old_path dl)
      | OtherDelta \<Rightarrow> [])"

definition touched :: "'o delta_record list \<Rightarrow> string list" where
  "touched ds = List.concat (map delta_paths ds)"

lemma touched_simps [simp]: "touched [] = []" "touched (dl # ds) = delta_paths dl @ touched ds"
  "touched (ds @ es) = touched ds @ touched es"
  by (simp_all add: touched_def)

text \<open>What a delta says, read over the files of the two trees.\<close>

definition describes ::
  "(string \<Rightarrow> 'o option) \<Rightarrow> (string \<Rightarrow> 'o option) \<Rightarrow> 'o delta_record \<Rightarrow> bool" where
  "describes old new dl =
     (case dr_status dl of
        AddedDelta \<Rightarrow>
          (case dr_new_path dl of
             Some p \<Rightarrow> clean p \<and> old p = None \<and> new p = Some (dr_new_oid dl)
           | None \<Rightarrow> False)
      | DeletedDelta \<Rightarrow>
          (case dr_old_path dl of
             Some p \<Rightarrow> clean p \<and> old p = Some (dr_old_oid dl) \<and> new p = None
           | None \<Rightarrow> False)
      | ModifiedDelta \<Rightarrow>
          (case dr_new_path dl of
             Some p \<Rightarrow> dr_old_path dl = Some p \<and> clean p \<and> old p = Some (dr_old_oid dl) \<and>
               new p = Some (dr_new_oid dl)
           | None \<Rightarrow> False)
      | RenamedDelta \<Rightarrow>
          (case (dr_old_path dl, dr_new_path dl) of
             (Some p, Some q) \<Rightarrow> clean p \<and> clean q \<and> old p = Some (dr_old_oid dl) \<and> new p = None \<and>
               old q = None \<and> new q = Some (dr_new_oid dl)
           | _ \<Rightarrow> False)
      | OtherDelta \<Rightarrow> True)"

definition tree_files :: "'o libs \<Rightarrow> 'o repo \<Rightarrow> 'o option \<Rightarrow> string \<Rightarrow> 'o option" where
  "tree_files L r t p = (case t of None \<Rightarrow> None | Some t \<Rightarrow> blob_oid_in_tree L r t p)"

text \<open>
  Every delta is true of the two trees, no path is named twice, and every file that differs is
  named.
\<close>

definition diff_law :: "'o libs \<Rightarrow> 'o commit_libs \<Rightarrow> ('o repo \<Rightarrow> bool) \<Rightarrow> bool" where
  "diff_law L Q I \<longleftrightarrow>
     (\<forall>r before after ds. I r \<and> r_trees r after \<noteq> None \<and>
        (case before of None \<Rightarrow> True | Some t \<Rightarrow> r_trees r t \<noteq> None) \<and>
        q_diff Q r before after = Inr ds \<longrightarrow>
        list_all (describes (tree_files L r before) (tree_files L r (Some after))) ds \<and>
        distinct (touched ds) \<and>
        (\<forall>p. clean p \<and> tree_files L r before p \<noteq> tree_files L r (Some after) p \<longrightarrow>
           p \<in> set (touched ds)))"

lemma diff_rule:
  assumes "diff_law L Q I" "I r" "r_trees r after \<noteq> None"
    "case before of None \<Rightarrow> True | Some t \<Rightarrow> r_trees r t \<noteq> None"
    "q_diff Q r before after = Inr ds"
  shows "list_all (describes (tree_files L r before) (tree_files L r (Some after))) ds"
    and "distinct (touched ds)"
    and "clean p \<Longrightarrow> tree_files L r before p \<noteq> tree_files L r (Some after) p \<Longrightarrow> p \<in> set (touched ds)"
  using assms unfolding diff_law_def by blast+

section \<open>Diffs of sample trees\<close>

definition files_of :: "gobj option \<Rightarrow> (string \<times> gobj) list" where
  "files_of t = (case t of Some (GTree es) \<Rightarrow> visited_files (walk [] (GTree es)) | _ \<Rightarrow> [])"

definition sample_delta ::
  "delta_status \<Rightarrow> string option \<Rightarrow> string option \<Rightarrow> gobj \<Rightarrow> gobj \<Rightarrow> gobj delta_record" where
  "sample_delta st p q b c =
     \<lparr>dr_status = st, dr_old_oid = b, dr_new_oid = c, dr_old_path = p, dr_new_path = q\<rparr>"

text \<open>A single deletion with a single addition of the same content is a rename.\<close>

definition sample_moves ::
  "(string \<times> gobj) list \<Rightarrow> (string \<times> gobj) list \<Rightarrow> gobj delta_record list" where
  "sample_moves gone come =
     (if length gone = 1 \<and> length come = 1 \<and> snd (hd gone) = snd (hd come)
      then [sample_delta RenamedDelta (Some (fst (hd gone))) (Some (fst (hd come)))
              (snd (hd gone)) (snd (hd come))]
      else map (\<lambda>(p, b). sample_delta DeletedDelta (Some p) None b (GBlob [])) gone
        @ map (\<lambda>(p, b). sample_delta AddedDelta None (Some p) (GBlob []) b) come)"

definition sample_deltas ::
  "(string \<times> gobj) list \<Rightarrow> (string \<times> gobj) list \<Rightarrow> gobj delta_record list" where
  "sample_deltas olds news =
     sample_moves (filter (\<lambda>(p, b). map_of news p = None) olds)
       (filter (\<lambda>(p, b). map_of olds p = None) news)
     @ map (\<lambda>(p, b). sample_delta ModifiedDelta (Some p) (Some p) b (the (map_of news p)))
         (filter (\<lambda>(p, b). map_of news p \<noteq> None \<and> map_of news p \<noteq> Some b) olds)"

fun chain :: "gobj \<Rightarrow> gobj list" where
  "chain (GCommit t (p # ps) m n e i) = GCommit t (p # ps) m n e i # chain p"
| "chain (GCommit t [] m n e i) = [GCommit t [] m n e i]"
| "chain k = []"

text \<open>A patch of whole blobs: the old content as one removed line, the new one as one added.\<close>

definition sample_patch :: "gobj delta_record \<Rightarrow> ((gobj \<times> gobj) \<times> char \<times> bytes) list" where
  "sample_patch dl =
     (let key = (dr_old_oid dl, dr_new_oid dl);
          line = (\<lambda>c k. case k of GBlob s \<Rightarrow> [(key, c, s)] | _ \<Rightarrow> [])
      in if dr_old_oid dl = dr_new_oid dl then [(key, CHR ''F'', ''same'')]
         else line CHR ''-'' (dr_old_oid dl) @ line CHR ''+'' (dr_new_oid dl))"

definition sample_commit_libs :: "gobj commit_libs" where
  "sample_commit_libs =
     \<lparr>q_revparse = (\<lambda>r sha. case r_head r of
          Inl e \<Rightarrow> Inl e
        | Inr h \<Rightarrow>
            (case find (\<lambda>k. g_oid_string sample_libs k = sha) (chain h) of
               None \<Rightarrow> Inl missing_object
             | Some k \<Rightarrow> Inr k)),
      q_peel = (\<lambda>r k. case k of GCommit t ps m n e i \<Rightarrow> Inr k | _ \<Rightarrow> Inl missing_object),
      q_diff = (\<lambda>r before after. Inr (sample_deltas (files_of before) (files_of (Some after)))),
      q_statistics = (\<lambda>r before after.
         (let ds = sample_deltas (files_of before) (files_of (Some after)) in
          Inr \<lparr>cs_insertions = length (filter (\<lambda>dl. dr_status dl \<noteq> DeletedDelta) ds),
               cs_deletions = length (filter (\<lambda>dl. dr_status dl \<noteq> AddedDelta) ds),
               cs_files_changed = length ds\<rparr>)),
      q_patch = (\<lambda>r before after.
         Inr (List.concat (map sample_patch (sample_deltas (files_of before) (files_of (Some after))))))\<rparr>"

section \<open>The law holds\<close>

lemma set_files_of:
  assumes "valid (GTree es)"
  shows "(p, b) \<in> set (files_of (Some (GTree es))) \<longleftrightarrow> file_at es (split_on CHR ''/'' p) = Some b"
    and "(p, b) \<in> set (files_of (Some (GTree es))) \<Longrightarrow> clean p"
proof -
  have good: "list_all good_name ns \<and> ns \<noteq> []" if at: "file_at es ns = Some b" for ns b
  proof -
    obtain k where "lookup es ns = Some k" using at by (auto simp: file_at_def split: option.splits)
    then show ?thesis using lookup_valid assms at by fastforce
  qed
  have split: "split_on CHR ''/'' (join_with CHR ''/'' ns) = ns" if "file_at es ns = Some b" for ns b
    using good [OF that] by (intro split_join) (auto simp: list_all_iff good_name_def)
  show *: "(p, b) \<in> set (files_of (Some (GTree es))) \<longleftrightarrow> file_at es (split_on CHR ''/'' p) = Some b"
    using split by (auto simp: files_of_def visited_walk [OF assms] simp del: walk.simps
        intro!: exI [of _ "split_on CHR ''/'' p"])
  show "(p, b) \<in> set (files_of (Some (GTree es))) \<Longrightarrow> clean p"
    using good * by (auto simp: clean_good)
qed

lemma map_of_files_of:
  assumes "case t of None \<Rightarrow> True | Some k \<Rightarrow> all_trees k \<noteq> None"
  shows "map_of (files_of t) p = tree_files sample_libs r t p"
    and "distinct (map fst (files_of t))" and "list_all (clean \<circ> fst) (files_of t)"
proof -
  have "map_of (files_of t) p = tree_files sample_libs r t p \<and> distinct (map fst (files_of t)) \<and>
      list_all (clean \<circ> fst) (files_of t)"
  proof (cases t)
    case None
    then show ?thesis by (simp add: files_of_def tree_files_def)
  next
    case (Some k)
    then have "all_trees k \<noteq> None" using assms by simp
    then obtain es where k: "k = GTree es" "valid (GTree es)" unfolding all_trees_present by blast
    have d: "distinct (map fst (files_of t))"
      using distinct_walk [OF k(2), of "[]"] by (simp add: files_of_def Some k(1) del: walk.simps)
    have "map_of (files_of t) p = Some c \<longleftrightarrow> tree_files sample_libs r t p = Some c" for c
      unfolding map_of_eq_Some_iff [OF d]
      using set_files_of(1) [OF k(2)] by (simp add: Some k tree_files_def blob_oid_sample)
    then have "map_of (files_of t) p = tree_files sample_libs r t p" by (metis option.exhaust)
    with d show ?thesis using set_files_of(2) [OF k(2)] by (auto simp: list_all_iff Some k(1))
  qed
  then show "map_of (files_of t) p = tree_files sample_libs r t p" "distinct (map fst (files_of t))"
    "list_all (clean \<circ> fst) (files_of t)" by blast+
qed

text \<open>The paths of each group of deltas, in order.\<close>

lemma touched_maps:
  "touched (map (\<lambda>(p, b). sample_delta DeletedDelta (Some p) None b c) fs) = map fst fs"
  "touched (map (\<lambda>(p, b). sample_delta AddedDelta None (Some p) c b) fs) = map fst fs"
  "touched (map (\<lambda>(p, b). sample_delta ModifiedDelta (Some p) (Some p) b (g p)) fs) = map fst fs"
  by (induction fs) (auto simp: delta_paths_def sample_delta_def)

lemma one_element: "length xs = 1 \<longleftrightarrow> (\<exists>x. xs = [x])"
  by (cases xs) auto

lemma touched_moves: "mset (touched (sample_moves gone come)) = mset (map fst (gone @ come))"
proof (cases "length gone = 1 \<and> length come = 1 \<and> snd (hd gone) = snd (hd come)")
  case True
  then obtain x y where "gone = [x]" "come = [y]" unfolding one_element by blast
  then show ?thesis using True by (simp add: sample_moves_def delta_paths_def sample_delta_def)
next
  case False
  then show ?thesis unfolding sample_moves_def if_not_P [OF False] by (simp only: touched_simps touched_maps) simp
qed

lemma describes_sample:
  "clean p \<Longrightarrow> old p = Some b \<Longrightarrow> new p = None \<Longrightarrow>
     describes old new (sample_delta DeletedDelta (Some p) None b c)"
  "clean p \<Longrightarrow> old p = None \<Longrightarrow> new p = Some b \<Longrightarrow>
     describes old new (sample_delta AddedDelta None (Some p) c b)"
  "clean p \<Longrightarrow> old p = Some b \<Longrightarrow> new p = Some c \<Longrightarrow>
     describes old new (sample_delta ModifiedDelta (Some p) (Some p) b c)"
  "clean p \<Longrightarrow> clean q \<Longrightarrow> old p = Some b \<Longrightarrow> new p = None \<Longrightarrow> old q = None \<Longrightarrow> new q = Some c \<Longrightarrow>
     describes old new (sample_delta RenamedDelta (Some p) (Some q) b c)"
  by (simp_all add: describes_def sample_delta_def)

lemma list_all_moves:
  assumes "\<And>p b. (p, b) \<in> set gone \<Longrightarrow> clean p \<and> old p = Some b \<and> new p = None"
    and "\<And>p b. (p, b) \<in> set come \<Longrightarrow> clean p \<and> old p = None \<and> new p = Some b"
  shows "list_all (describes old new) (sample_moves gone come)"
proof (cases "length gone = 1 \<and> length come = 1 \<and> snd (hd gone) = snd (hd come)")
  case True
  then obtain x y where g: "gone = [x]" "come = [y]" unfolding one_element by blast
  then show ?thesis using True assms(1) [of "fst x" "snd x"] assms(2) [of "fst y" "snd y"]
    by (cases x; cases y) (simp add: sample_moves_def describes_sample)
next
  case False
  then show ?thesis
    unfolding sample_moves_def if_not_P [OF False] list_all_iff
    using assms by (auto intro: describes_sample)
qed

lemma distinct_three:
  "distinct xs \<Longrightarrow> distinct ys \<Longrightarrow> distinct zs \<Longrightarrow> set xs \<inter> set ys = {} \<Longrightarrow> set xs \<inter> set zs = {} \<Longrightarrow>
     set ys \<inter> set zs = {} \<Longrightarrow> distinct (xs @ ys @ zs)"
  by auto

lemma sample_deltas_ok:
  assumes d: "distinct (map fst olds)" "distinct (map fst news)"
    and c: "list_all (clean \<circ> fst) olds" "list_all (clean \<circ> fst) news"
  shows "list_all (describes (map_of olds) (map_of news)) (sample_deltas olds news)"
    and "distinct (touched (sample_deltas olds news))"
    and "map_of olds p \<noteq> map_of news p \<Longrightarrow> p \<in> set (touched (sample_deltas olds news))"
proof -
  let ?gone = "filter (\<lambda>(p, b). map_of news p = None) olds"
    and ?come = "filter (\<lambda>(p, b). map_of olds p = None) news"
    and ?kept = "filter (\<lambda>(p, b). map_of news p \<noteq> None \<and> map_of news p \<noteq> Some b) olds"
  have m: "mset (touched (sample_deltas olds news)) = mset (map fst (?gone @ ?come @ ?kept))"
    unfolding sample_deltas_def touched_simps touched_maps mset_append touched_moves map_append
    by (simp only: add.assoc)
  have "(p, b) \<in> set olds \<longleftrightarrow> map_of olds p = Some b" "(p, b) \<in> set news \<longleftrightarrow> map_of news p = Some b" for p b
    using d by simp_all
  note mem = this
  have c: "map_of olds p = Some b \<Longrightarrow> clean p" "map_of news p = Some b \<Longrightarrow> clean p" for p b
    using c by (fastforce simp: list_all_iff dest: map_of_SomeD)+
  have "list_all (describes (map_of olds) (map_of news)) (sample_moves ?gone ?come)"
    by (rule list_all_moves) (use c mem in auto)
  moreover have "list_all (describes (map_of olds) (map_of news))
      (map (\<lambda>(p, b). sample_delta ModifiedDelta (Some p) (Some p) b (the (map_of news p))) ?kept)"
  proof (unfold list_all_iff, rule ballI)
    fix dl assume "dl \<in> set (map (\<lambda>(p, b). sample_delta ModifiedDelta (Some p) (Some p) b (the (map_of news p))) ?kept)"
    then obtain p b where dl: "dl = sample_delta ModifiedDelta (Some p) (Some p) b (the (map_of news p))"
      and kept: "(p, b) \<in> set ?kept" by fastforce
    from kept have old: "map_of olds p = Some b" using mem(1) by simp
    moreover from kept have "map_of news p = Some (the (map_of news p))" by simp
    ultimately show "describes (map_of olds) (map_of news) dl"
      unfolding dl using c(1) [OF old] by (intro describes_sample(3))
  qed
  ultimately show "list_all (describes (map_of olds) (map_of news)) (sample_deltas olds news)"
    by (simp add: sample_deltas_def)
  have "distinct (map fst (?gone @ ?come @ ?kept))"
  proof -
    have "map_of olds p \<noteq> None \<and> map_of news p = None" if "p \<in> fst ` set ?gone" for p
      using that mem by auto
    moreover have "map_of olds p = None" if "p \<in> fst ` set ?come" for p using that by auto
    moreover have "map_of olds p \<noteq> None \<and> map_of news p \<noteq> None" if "p \<in> fst ` set ?kept" for p
      using that mem by auto
    ultimately have "fst ` set ?gone \<inter> fst ` set ?come = {}"
      "fst ` set ?gone \<inter> fst ` set ?kept = {}" "fst ` set ?come \<inter> fst ` set ?kept = {}"
      by blast+
    then show ?thesis
      unfolding map_append
      by (intro distinct_three distinct_map_filter d) (simp_all only: set_map)
  qed
  then show "distinct (touched (sample_deltas olds news))"
    unfolding mset_eq_imp_distinct_iff [OF m] .
  assume neq: "map_of olds p \<noteq> map_of news p"
  have "p \<in> set (map fst (?gone @ ?come @ ?kept))"
  proof (cases "map_of olds p")
    case None
    then obtain b where "map_of news p = Some b" using neq by (cases "map_of news p") auto
    then have "(p, b) \<in> set news" unfolding mem(2) .
    then have "(p, b) \<in> set ?come" using None by simp
    then show ?thesis unfolding set_map set_append by force
  next
    case (Some b)
    then have "(p, b) \<in> set olds" unfolding mem(1) .
    then have "(p, b) \<in> set ?gone \<or> (p, b) \<in> set ?kept"
      using neq Some by (cases "map_of news p") simp_all
    then show ?thesis unfolding set_map set_append by force
  qed
  then show "p \<in> set (touched (sample_deltas olds news))"
    using mset_eq_setD [OF m] by blast
qed

lemma sample_diff: "diff_law sample_libs sample_commit_libs sample_inv"
  unfolding diff_law_def
proof (intro allI impI; elim conjE)
  fix r before after ds
  assume r: "sample_inv r" "r_trees r after \<noteq> None"
    "case before of None \<Rightarrow> True | Some t \<Rightarrow> r_trees r t \<noteq> None"
    and ds: "q_diff sample_commit_libs r before after = Inr ds"
  have trees: "r_trees r = all_trees" using sample_invD [OF r(1)] by simp
  have ok: "case before of None \<Rightarrow> True | Some t \<Rightarrow> all_trees t \<noteq> None"
    "case Some after of None \<Rightarrow> True | Some t \<Rightarrow> all_trees t \<noteq> None"
    using r(2,3) unfolding trees option.case by blast+
  have ds: "ds = sample_deltas (files_of before) (files_of (Some after))"
    using ds by (simp add: sample_commit_libs_def)
  have maps: "tree_files sample_libs r before = map_of (files_of before)"
    "tree_files sample_libs r (Some after) = map_of (files_of (Some after))"
    using map_of_files_of(1) [OF ok(1), of _ r] map_of_files_of(1) [OF ok(2), of _ r] by auto
  note ok = sample_deltas_ok [OF map_of_files_of(2) [OF ok(1)] map_of_files_of(2) [OF ok(2)]
    map_of_files_of(3) [OF ok(1)] map_of_files_of(3) [OF ok(2)]]
  show "list_all (describes (tree_files sample_libs r before) (tree_files sample_libs r (Some after))) ds \<and>
      distinct (touched ds) \<and>
      (\<forall>p. clean p \<and> tree_files sample_libs r before p \<noteq> tree_files sample_libs r (Some after) p \<longrightarrow>
         p \<in> set (touched ds))"
    unfolding maps ds using ok by simp
qed

end
