(* ===== verification/Git_History.thy ===== *)
theory Git_History
  imports Git_Diffs
begin

text \<open>
  Every mutating operation is a single commit: it ends with HEAD where it was, or on one new
  commit whose only parent is the previous HEAD, and it never drops an object. The locale
  \<open>single_commit_writer\<close> is that contract, interpreted for each operation on an existing
  tenant; runs of operations over it only ever extend the history.
\<close>

definition single_commit :: "('o repo \<Rightarrow> bool) \<Rightarrow> 'o disk \<Rightarrow> 'o disk \<Rightarrow> bool" where
  "single_commit I d d' \<longleftrightarrow> grows I d d' \<or> (\<exists>r h. dk_git d = Some r \<and> r_head r = Inr h \<and> commits_on I h d d')"

text \<open>The same, for an operation whose commit goes on top of \<open>h\<close>.\<close>

definition advances :: "('o repo \<Rightarrow> bool) \<Rightarrow> 'o \<Rightarrow> 'o disk \<Rightarrow> 'o disk \<Rightarrow> bool" where
  "advances I h d d' \<longleftrightarrow>
     (\<forall>r. dk_git d = Some r \<and> I r \<and> (\<exists>t. head_tree r = Inr (h, t)) \<longrightarrow> grows I d d' \<or> commits_on I h d d')"

lemma grows_head_tree:
  assumes "grows I d d'" "dk_git d = Some r" "I r" "head_tree r = Inr (h, t)"
  shows "\<exists>r'. dk_git d' = Some r' \<and> I r' \<and> extends r r' \<and> head_tree r' = Inr (h, t)"
proof -
  obtain r' where r': "dk_git d' = Some r'" "I r'" "extends r r'" "r_head r' = r_head r"
    using assms(1-3) by (auto simp: grows_def)
  moreover have "head_tree r' = Inr (h, t)"
    using assms(4) r' by (auto simp: head_tree_Inr dest: extends_commit extends_tree)
  ultimately show ?thesis by blast
qed

lemma grows_commits_on: "grows I d e \<Longrightarrow> commits_on I h e d' \<Longrightarrow> dk_git d = Some r \<Longrightarrow> I r \<Longrightarrow> commits_on I h d d'"
  unfolding grows_def commits_on_def by (force intro: extends_trans)

lemma advances_bind:
  assumes "keeps (grows I) m" and "\<And>a. keeps (advances I h) (k a)"
  shows "keeps (advances I h) (bind_act m k)"
proof (rule keepsI)
  fix d x d' assume run: "bind_act m k d = (x, d')"
  obtain q e where m: "m d = (q, e)" by (cases "m d")
  have g: "grows I d e" using keepsD [OF assms(1) m] .
  show "advances I h d d'"
  proof (cases q)
    case (Inl err)
    with run m g show ?thesis by (auto simp: bind_act_def advances_def)
  next
    case (Inr a)
    with run m have "k a e = (x, d')" by (simp add: bind_act_def)
    then have adv: "advances I h e d'" by (rule keepsD [OF assms(2)])
    show ?thesis
      unfolding advances_def
    proof (intro allI impI, elim conjE exE)
      fix r t assume r: "dk_git d = Some r" "I r" "head_tree r = Inr (h, t)"
      obtain r' where r': "dk_git e = Some r'" "I r'" "head_tree r' = Inr (h, t)"
        using grows_head_tree [OF g r] by (elim exE conjE)
      have "(\<exists>t. head_tree r' = Inr (h, t))" using r'(3) by (rule exI)
      with adv r'(1,2) have "grows I e d' \<or> commits_on I h e d'" unfolding advances_def by simp
      then show "grows I d d' \<or> commits_on I h d d'"
      proof
        assume "grows I e d'"
        then show ?thesis using transpD [OF grows_trans g] by simp
      next
        assume "commits_on I h e d'"
        then show ?thesis using grows_commits_on [OF g _ r(1,2)] by simp
      qed
    qed
  qed
qed

lemma advances_grows: "keeps (grows I) m \<Longrightarrow> keeps (advances I h) m"
  by (auto simp: keeps_def advances_def)

lemma advances_commit:
  assumes L: "git2_ok L I" and k: "\<And>oid e. snd (k oid e) = e"
  shows "keeps (advances I h) (bind_act (commit_updates L h tree us m an ae) k)"
proof (rule keepsI)
  fix d x d' assume run: "bind_act (commit_updates L h tree us m an ae) k d = (x, d')"
  obtain q e where cu: "commit_updates L h tree us m an ae d = (q, e)"
    by (cases "commit_updates L h tree us m an ae d")
  with run have "d' = e" using k
    by (cases q) (auto simp: bind_act_def, metis snd_conv)
  note d' = this
  show "advances I h d d'"
    unfolding advances_def
  proof (intro allI impI, elim conjE exE)
    fix r t assume r: "dk_git d = Some r" "I r" "head_tree r = Inr (h, t)"
    from cu r(1) show "grows I d d' \<or> commits_on I h d d'"
    proof (cases rule: commit_updates_cases)
      case failed
      then show ?thesis using d' grows_refl by (auto dest: reflpD)
    next
      case (tree_only err t1 r1)
      note r1 = create_updated_rule(1-3) [OF L r(2) tree_only(2)]
      with tree_only r d' show ?thesis by (auto simp: grows_def)
    next
      case (committed t1 r1 sg oid r2)
      note r1 = create_updated_rule(1-3) [OF L r(2) committed(2)]
      note r2 = commit_rule [OF L r1(1) committed(3,5)]
      from committed r1 r2 r(1) d' show ?thesis by (auto simp: commits_on_def intro: extends_trans)
    qed
  qed
qed

text \<open>From the opened repository to the operation.\<close>

lemma open_tenant_git: "git2_ok L I \<Longrightarrow> open_tenant_repo L tenant d = Inr r \<Longrightarrow> dk_git d = Some r"
  by (auto simp: open_tenant_repo_def dest: open_rule split: if_splits sum.splits git_error.splits)

lemma single_commit_refl: "single_commit I d d"
  using grows_refl by (auto simp: single_commit_def dest: reflpD)

text \<open>Inside an opened repository \<open>r\<close>, before its HEAD is read.\<close>

definition follows :: "('o repo \<Rightarrow> bool) \<Rightarrow> 'o repo \<Rightarrow> 'o disk \<Rightarrow> 'o disk \<Rightarrow> bool" where
  "follows I r d d' \<longleftrightarrow> (dk_git d = Some r \<and> I r \<longrightarrow> single_commit I d d')"

lemma follows_refl: "reflp (follows I r)"
  by (auto simp: follows_def single_commit_refl intro: reflpI)

lemma follows_lift:
  "(\<And>a. keeps (follows I r) (k a)) \<Longrightarrow> keeps (follows I r) (bind_act (act_lift q) k)"
  by (auto simp: keeps_def bind_act_def follows_def single_commit_refl split: sum.split)

lemma follows_resolved:
  "(\<And>a b. keeps (follows I r) (k a b)) \<Longrightarrow>
     keeps (follows I r) (bind_act (act_lift (resolve_commit Q r' sha)) (\<lambda>(a, b). k a b))"
  by (rule follows_lift) (simp add: split_def)

lemma follows_head:
  assumes body: "\<And>h t. keeps (advances I h) (body h t)"
  shows "keeps (follows I r) (bind_act (act_lift (head_tree r)) (\<lambda>(h, t). body h t))"
proof (rule keepsI)
  fix d x d' assume run: "bind_act (act_lift (head_tree r)) (\<lambda>(h, t). body h t) d = (x, d')"
  show "follows I r d d'"
  proof (cases "head_tree r")
    case (Inl e)
    with run show ?thesis by (auto simp: bind_act_def follows_def single_commit_refl)
  next
    case (Inr ht)
    obtain h t where ht: "ht = (h, t)" by (cases ht)
    with Inr run have "body h t d = (x, d')" by (simp add: bind_act_def)
    then have "advances I h d d'" by (rule keepsD [OF body])
    moreover have "r_head r = Inr h" using Inr ht by (auto simp: head_tree_Inr)
    ultimately show ?thesis using Inr ht unfolding advances_def follows_def single_commit_def by blast
  qed
qed

lemma opened_single_commit:
  assumes "git2_ok L I" "disk_sound I d"
    and body: "\<And>r. keeps (follows I r) (body r)"
    and run: "bind_act (opened L tenant) body d = (x, d')"
  shows "single_commit I d d'"
proof (cases "open_tenant_repo L tenant d")
  case (Inl e)
  with run show ?thesis by (auto simp: bind_act_def opened_def single_commit_refl)
next
  case (Inr r)
  with run have "body r d = (x, d')" by (simp add: bind_act_def opened_def)
  then have "follows I r d d'" by (rule keepsD [OF body])
  moreover have "dk_git d = Some r" using assms(1) Inr by (rule open_tenant_git)
  ultimately show ?thesis using assms(2) by (simp add: follows_def disk_sound_def)
qed

section \<open>The operations on an existing tenant\<close>

text \<open>
  One pass over an operation's body: its commit is \<open>advances_commit\<close>, everything before it only
  grows the object database.
\<close>

lemmas advances_pure = keeps_grows_pure [THEN advances_grows]

lemma upkeep_commit_body:
  assumes L: "git2_ok L I" and "keeps (grows I) m"
  shows "keeps (advances I parent) (bind_act m (\<lambda>(upkeep, us).
    bind_act (commit_updates L parent tree us msg an ae) (\<lambda>coid. act_ok (k coid upkeep))))"
  by (rule advances_bind [OF assms(2)]) (auto intro!: advances_commit [OF L])

lemma delete_file_single_commit:
  assumes L: "git2_ok L I" and sound: "disk_sound I d"
    and run: "delete_file L tenant p m an ae co d = (x, d')"
  shows "single_commit I d d'"
proof (cases "is_order_file p")
  case True
  with run show ?thesis by (simp add: delete_file_def single_commit_refl)
next
  case False
  show ?thesis
    by (rule opened_single_commit [OF L sound _ run [unfolded delete_file_def if_not_P [OF False]]],
        intro follows_head advances_bind [OF keeps_grows_pure(3)]
          advances_bind [OF grows_wt_remove_file])
      (auto simp: Let_def split: prod.split
        intro!: upkeep_commit_body [OF L] grows_stage_entries [OF L])
qed

lemma delete_directory_single_commit:
  assumes L: "git2_ok L I" and sound: "disk_sound I d"
    and run: "delete_directory L tenant p m an ae co d = (x, d')"
  shows "single_commit I d d'"
  by (rule opened_single_commit [OF L sound _ run [unfolded delete_directory_def]],
      intro follows_head advances_bind [OF keeps_grows_pure(3)])
    (auto simp: Let_def split: prod.split
      intro!: advances_pure upkeep_commit_body [OF L] grows_stage_entries [OF L]
        advances_bind [OF grows_wt_remove_directory])

lemma move_file_single_commit:
  assumes L: "git2_ok L I" and sound: "disk_sound I d"
    and run: "move_file L tenant p q m an ae co d = (x, d')"
  shows "single_commit I d d'"
proof (cases "is_order_file p \<or> is_order_file q")
  case True
  with run show ?thesis by (auto simp: move_file_def single_commit_refl split: if_splits)
next
  case False
  then have *: "\<not> is_order_file p" "\<not> is_order_file q" by auto
  show ?thesis
    by (rule opened_single_commit
          [OF L sound _ run [unfolded move_file_def if_not_P [OF *(1)] if_not_P [OF *(2)]]],
        intro follows_lift follows_head advances_bind [OF keeps_grows_pure(3)]
          advances_bind [OF grows_wt_remove_file] advances_bind [OF grows_wt_write])
      (auto simp: Let_def split: prod.split
        intro!: upkeep_commit_body [OF L] grows_stage_move_upkeep [OF L])
qed

lemma move_directory_single_commit:
  assumes L: "git2_ok L I" and sound: "disk_sound I d"
    and run: "move_directory L tenant p q m an ae co d = (x, d')"
  shows "single_commit I d d'"
  by (rule opened_single_commit [OF L sound _ run [unfolded move_directory_def]],
      intro follows_lift follows_head advances_bind [OF keeps_grows_pure(3)])
    (auto simp: Let_def split: prod.split
      intro!: advances_pure upkeep_commit_body [OF L] grows_stage_move_upkeep [OF L]
        advances_bind [OF grows_stage_moved_blobs [OF L]]
        advances_bind [OF grows_wt_remove_directory])

lemma write_order_single_commit:
  assumes L: "git2_ok L I" and sound: "disk_sound I d"
    and run: "write_order L tenant dir es m an ae co d = (x, d')"
  shows "single_commit I d d'"
  by (rule opened_single_commit [OF L sound _ run [unfolded write_order_def]],
      intro follows_lift follows_head advances_bind [OF keeps_grows_pure(3)])
    (auto simp: Let_def split: prod.split
      intro!: advances_pure upkeep_commit_body [OF L] grows_stage_index [OF L]
        advances_bind [OF keeps_grows_pure(3)])

lemma delete_order_single_commit:
  assumes L: "git2_ok L I" and sound: "disk_sound I d"
    and run: "delete_order L tenant dir m an ae co d = (x, d')"
  shows "single_commit I d d'"
  by (rule opened_single_commit [OF L sound _ run [unfolded delete_order_def]],
      intro follows_lift follows_head advances_bind [OF keeps_grows_pure(3)])
    (auto simp: Let_def split: prod.split
      intro!: advances_pure upkeep_commit_body [OF L] grows_stage_index [OF L])

lemma reorder_entry_single_commit:
  assumes L: "git2_ok L I" and sound: "disk_sound I d"
    and run: "reorder_entry L tenant p pos di hid pre m an ae co d = (x, d')"
  shows "single_commit I d d'"
proof (cases "is_order_file p")
  case True
  with run show ?thesis by (simp add: reorder_entry_def single_commit_refl)
next
  case False
  show ?thesis
    by (rule opened_single_commit [OF L sound _ run [unfolded reorder_entry_def if_not_P [OF False]]],
        intro follows_head)
      (auto simp: Let_def split: prod.split
        intro!: advances_pure upkeep_commit_body [OF L] grows_stage_index [OF L]
          advances_bind [OF keeps_grows_pure(3)])
qed

lemma write_file_single_commit:
  assumes L: "git2_ok L I" and sound: "disk_sound I d" and tenant: "dk_git d \<noteq> None"
    and run: "write_file L p c m an ae co d = (x, d')"
  shows "single_commit I d d'"
proof (cases "is_order_file p")
  case True
  with run show ?thesis by (simp add: write_file_def single_commit_refl)
next
  case False
  note run = run [unfolded write_file_def if_not_P [OF False]]
  show ?thesis
  proof (cases "g_open L d")
    case (Inl e)
    with run tenant show ?thesis
      by (simp add: bind_act_def open_or_init_existing git_result_def single_commit_refl)
  next
    case (Inr r)
    then have r: "dk_git d = Some r" by (rule open_rule [OF L])
    have body: "keeps (follows I r) (bind_act (act_lift (head_tree r)) (\<lambda>(parent, tree). k parent tree))"
      if "\<And>h t. keeps (advances I h) (k h t)" for k :: "'a \<Rightarrow> 'a \<Rightarrow> ('a, string \<times> file_change option) git_action"
      by (rule follows_head [OF that])
    have "follows I r d d'"
      by (rule keepsD [OF body, where s = d and r = x])
        (use run Inr tenant in \<open>auto simp: open_or_init_existing git_result_def bind_act_def [of "open_or_init_repo L an ae"]
          intro!: advances_bind [OF keeps_grows_pure(3)] advances_pure advances_bind [OF grows_wt_write]
            advances_bind [OF grows_g_blob [OF L]] advances_commit [OF L] split: option.split\<close>)
    then show ?thesis using r sound by (simp add: follows_def disk_sound_def)
  qed
qed

section \<open>Revert and rollback\<close>

lemma keeps_stage_deltas:
  assumes "\<And>dl. keeps R (f dl)" "reflp R" "transp R"
  shows "keeps R (stage_deltas f dls)"
  by (induction dls) (auto intro!: keeps_bind assms keeps_pure [OF assms(2)] simp: split_def simp del: action_simps)

lemma grows_deltas:
  "keeps (grows I) (revert_delta L r t co dl)" "keeps (grows I) (rollback_delta L r co t t' dl)"
  unfolding revert_delta_def rollback_delta_def restore_path_def remove_path_def reapply_rename_def
    Let_def split_def
  by (auto intro!: keeps_grows_bind grows_intros split: delta_status.split option.split)

lemmas grows_stage_deltas = keeps_stage_deltas [OF _ grows_refl grows_trans]

lemma revert_commit_single_commit:
  assumes L: "git2_ok L I" and sound: "disk_sound I d"
    and run: "revert_commit L Q tenant sha m an ae co d = (x, d')"
  shows "single_commit I d d'"
  by (rule opened_single_commit [OF L sound _ run [unfolded revert_commit_def]],
      rule follows_resolved, (rule follows_head follows_lift advances_bind [OF grows_stage_deltas] grows_deltas)+)
    (auto intro!: advances_commit [OF L])

lemma rollback_commit_single_commit:
  assumes L: "git2_ok L I" and sound: "disk_sound I d"
    and run: "rollback_commit L Q tenant sha m an ae co d = (x, d')"
  shows "single_commit I d d'"
  by (rule opened_single_commit [OF L sound _ run [unfolded rollback_commit_def]],
      rule follows_resolved, (rule follows_head follows_lift advances_bind [OF grows_stage_deltas] grows_deltas)+)
    (auto intro!: advances_pure advances_commit [OF L])

section \<open>Failed operations\<close>

lemma fails_commit:
  assumes L: "git2_ok L I"
  shows "fails (grows I) (bind_act (commit_updates L h tree us msg an ae) (\<lambda>oid. act_ok (k oid)))"
proof (rule fails_last, rule failsI)
  fix d e d' assume run: "commit_updates L h tree us msg an ae d = (Inl e, d')"
  show "grows I d d'"
  proof (cases "dk_git d")
    case None
    with run show ?thesis
      by (auto simp: commit_updates_def bind_act_def odb_step_def intro: grows_same_git)
  next
    case (Some r)
    from run Some show ?thesis
    proof (cases rule: commit_updates_cases)
      case failed
      then show ?thesis by (simp add: grows_same_git)
    next
      case (tree_only err t1 r1)
      have "grows I d (d\<lparr>dk_git := Some r1\<rparr>)"
        using create_updated_rule(1-3) [OF L _ tree_only(2)] Some by (auto simp: grows_def)
      with tree_only show ?thesis by simp
    qed simp
  qed
qed

lemmas fails_grows_bind = fails_bind [OF _ _ grows_trans]
  and fails_grows_pure = fails_pure [OF grows_refl]

lemma fails_writes:
  assumes L: "git2_ok L I"
  shows "fails (grows I) (delete_file L tenant p m an ae co)"
    and "fails (grows I) (delete_directory L tenant p m an ae co)"
    and "fails (grows I) (move_file L tenant p q m an ae co)"
    and "fails (grows I) (move_directory L tenant p q m an ae co)"
    and "fails (grows I) (write_order L tenant p es m an ae co)"
    and "fails (grows I) (reorder_entry L tenant p pos di hid pre m an ae co)"
    and "fails (grows I) (delete_order L tenant p m an ae co)"
  unfolding delete_file_def delete_directory_def move_file_def move_directory_def
    write_order_def reorder_entry_def delete_order_def Let_def split_def
  by (auto intro!: fails_commit [OF L] fails_grows_pure fails_grows_bind grows_intros
      grows_stage_entries [OF L] grows_stage_move_upkeep [OF L] grows_stage_moved_blobs [OF L]
      grows_stage_index [OF L])

lemma fails_history:
  assumes L: "git2_ok L I"
  shows "fails (grows I) (revert_commit L Q tenant sha m an ae co)"
    and "fails (grows I) (rollback_commit L Q tenant sha m an ae co)"
  unfolding revert_commit_def rollback_commit_def split_def
  by (auto intro!: fails_commit [OF L] fails_grows_pure fails_grows_bind grows_intros
      grows_stage_deltas grows_deltas)

lemma write_file_fails:
  assumes L: "git2_ok L I" and d: "dk_git d \<noteq> None"
    and run: "write_file L p c m an ae co d = (Inl e, d')"
  shows "grows I d d'"
proof (cases "is_order_file p")
  case True
  with run show ?thesis by (auto simp: write_file_def grows_same_git)
next
  case False
  note run = run [unfolded write_file_def if_not_P [OF False]]
  show ?thesis
  proof (cases "g_open L d")
    case (Inl err)
    with run d show ?thesis
      by (auto simp: bind_act_def open_or_init_existing git_result_def grows_same_git)
  next
    case (Inr r)
    have body: "fails (grows I) (bind_act (act_lift q) k)" if "\<And>a. fails (grows I) (k a)"
      for q :: "app_error + ('a \<times> 'a)" and k :: "'a \<times> 'a \<Rightarrow> ('a, string \<times> file_change option) git_action"
      by (intro fails_grows_bind keeps_grows_pure that)
    show ?thesis
      by (rule failsD [OF body, where s = d and e = e])
        (use run Inr d in \<open>auto simp: open_or_init_existing git_result_def split_def
          bind_act_def [of "open_or_init_repo L an ae"]
          intro!: fails_commit [OF L] fails_grows_pure fails_grows_bind grows_intros L split: option.split\<close>)
  qed
qed

section \<open>Tenants without a checkout\<close>

definition same_work :: "'o disk \<Rightarrow> 'o disk \<Rightarrow> bool" where
  "same_work d d' \<longleftrightarrow> dk_work d' = dk_work d"

lemma same_work_order: "reflp same_work" "transp same_work"
  by (auto simp: same_work_def intro: reflpI transpI)

lemma same_work_steps:
  "keeps same_work (wt_write L False p c)" "keeps same_work (wt_remove_file L False p)"
  "keeps same_work (wt_remove_directory L False p)"
  "keeps same_work (odb_read f)" "keeps same_work (odb_step g)" "keeps same_work (opened L tenant)"
  by (auto simp: keeps_def same_work_def wt_write_def wt_remove_file_def wt_remove_directory_def
      odb_read_def odb_step_def opened_def split: option.split sum.split prod.split)

lemmas same_work_intros = same_work_steps keeps_pure [OF same_work_order(1)]
  keeps_bind [OF _ _ same_work_order(2)]

lemma same_work_commit: "keeps same_work (commit_updates L h t us m an ae)"
  unfolding commit_updates_def by (intro same_work_intros)

lemma same_work_stage:
  "keeps same_work (stage_index L us dir es ex False)"
  "keeps same_work (stage_entry_removed L r t us dir n False)"
  "keeps same_work (stage_entry_appended L r t us dir n False)"
  "keeps same_work (stage_entry_renamed L r t us dir n n' False)"
  unfolding stage_index_def stage_entry_removed_def stage_entry_appended_def
    stage_entry_renamed_def stage_some_def Let_def split_def
  by (auto intro!: same_work_intros split: option.split)

lemma same_work_upkeep: "keeps same_work (stage_move_upkeep L r t us fd fn td te False)"
  unfolding stage_move_upkeep_def split_def
  by (auto intro!: same_work_intros same_work_stage)

lemma same_work_blobs: "keeps same_work (stage_moved_blobs L r t f p False bs)"
  by (induction bs) (auto intro!: same_work_intros simp: Let_def split_def simp del: action_simps)

lemmas same_work_moves = same_work_upkeep same_work_blobs

lemma same_work_operations:
  "keeps same_work (delete_file L tenant p m an ae False)"
  "keeps same_work (delete_directory L tenant p m an ae False)"
  "keeps same_work (move_file L tenant p q m an ae False)"
  "keeps same_work (move_directory L tenant p q m an ae False)"
  "keeps same_work (write_order L tenant p es m an ae False)"
  "keeps same_work (reorder_entry L tenant p pos di hid pre m an ae False)"
  "keeps same_work (delete_order L tenant p m an ae False)"
  unfolding delete_file_def delete_directory_def move_file_def move_directory_def
    write_order_def reorder_entry_def delete_order_def Let_def split_def
  by (auto intro!: same_work_intros same_work_commit same_work_stage same_work_moves)

lemma same_work_revert: "keeps same_work (revert_commit L Q tenant sha m an ae False)"
proof -
  have "keeps same_work (revert_delta L r t False dl)" for r t dl
    unfolding revert_delta_def
    by (auto intro!: same_work_intros split: delta_status.split option.split)
  then show ?thesis
    unfolding revert_commit_def split_def
    by (auto intro!: same_work_intros same_work_commit keeps_stage_deltas same_work_order)
qed

lemma same_work_write_file:
  assumes "dk_git d \<noteq> None" and run: "write_file L p c m an ae False d = (x, d')"
  shows "same_work d d'"
proof (cases "is_order_file p \<or> (\<exists>e. g_open L d = Inl e)")
  case True
  with assms show ?thesis
    by (auto simp: write_file_def bind_act_def open_or_init_existing git_result_def same_work_def
        split: if_splits)
next
  case False
  then obtain r where no: "\<not> is_order_file p" and r: "g_open L d = Inr r"
    by (cases "g_open L d") auto
  have body: "keeps same_work (bind_act (act_lift q) k)" if "\<And>a. keeps same_work (k a)"
    for q :: "app_error + ('a \<times> 'a)" and k :: "'a \<times> 'a \<Rightarrow> ('a, string \<times> file_change option) git_action"
    by (intro same_work_intros that)
  show ?thesis
    by (rule keepsD [OF body, where s = d and r = x])
      (use run [unfolded write_file_def if_not_P [OF no]] r assms(1) in
       \<open>auto simp: open_or_init_existing git_result_def split_def bind_act_def [of "open_or_init_repo L an ae"]
          intro!: same_work_intros same_work_commit split: option.split\<close>)
qed

section \<open>The contract of a writer\<close>

inductive first_parent :: "'o repo \<Rightarrow> 'o \<Rightarrow> 'o \<Rightarrow> bool" for r :: "'o repo" where
  here: "first_parent r h h"
| step: "r_commits r k = Some c \<Longrightarrow> c_parents c = p # ps \<Longrightarrow> first_parent r h p \<Longrightarrow> first_parent r h k"

lemma first_parent_trans: "first_parent r j k \<Longrightarrow> first_parent r h j \<Longrightarrow> first_parent r h k"
  by (induction rule: first_parent.induct) (auto intro: first_parent.intros)

lemma first_parent_extends: "first_parent r h k \<Longrightarrow> extends r r' \<Longrightarrow> first_parent r' h k"
  by (induction rule: first_parent.induct) (auto intro: first_parent.intros extends_commit)

text \<open>
  What a client of the history may count on: the objects stay, and the old HEAD is on the new
  HEAD's first-parent chain.
\<close>

definition history_kept :: "'o disk \<Rightarrow> 'o disk \<Rightarrow> bool" where
  "history_kept d d' \<longleftrightarrow>
     (\<exists>r r'. dk_git d = Some r \<and> dk_git d' = Some r' \<and> extends r r' \<and>
        (case r_head r of
           Inl _ \<Rightarrow> r_head r' = r_head r
         | Inr h \<Rightarrow> (\<exists>h'. r_head r' = Inr h' \<and> first_parent r' h h')))"

locale committing_writer =
  fixes operation :: "'o libs \<Rightarrow> bool \<Rightarrow> ('o, 'a) git_action"
  assumes commits_once: "git2_ok L I \<Longrightarrow> disk_sound I d \<Longrightarrow> dk_git d \<noteq> None
      \<Longrightarrow> operation L co d = (x, d') \<Longrightarrow> single_commit I d d'"
    and failure_grows: "git2_ok L I \<Longrightarrow> dk_git d \<noteq> None \<Longrightarrow> operation L co d = (Inl e, d')
      \<Longrightarrow> grows I d d'"
begin

lemma failure_keeps_content:
  assumes "git2_ok L I" "disk_sound I d" "dk_git d \<noteq> None" "operation L co d = (Inl e, d')"
    and "dk_git d = Some r" "head_tree r = Inr (h, t)"
  shows "head_content L d' p = head_content L d p"
  using grows_head(2) [OF assms(1) failure_grows [OF assms(1,3,4)] assms(5) _ assms(6)] assms(2,5)
  by (simp add: disk_sound_def)

lemma stays_sound:
  assumes "git2_ok L I" "disk_sound I d" "dk_git d \<noteq> None" "operation L co d = (x, d')"
  shows "disk_sound I d'" "dk_git d' \<noteq> None"
  using commits_once [OF assms] assms(2,3)
  by (auto simp: single_commit_def grows_def commits_on_def disk_sound_def)

lemma keeps_history:
  assumes "git2_ok L I" "disk_sound I d" "dk_git d \<noteq> None" "operation L co d = (x, d')"
  shows "history_kept d d'"
proof -
  obtain r where r: "dk_git d = Some r" "I r" using assms(2,3) by (auto simp: disk_sound_def)
  from commits_once [OF assms] consider "grows I d d'"
    | h where "r_head r = Inr h" "commits_on I h d d'"
    using r by (auto simp: single_commit_def)
  then show ?thesis
  proof cases
    case 1
    then show ?thesis using r
      by (fastforce simp: grows_def history_kept_def intro: first_parent.here split: sum.split)
  next
    case 2
    then show ?thesis using r
      by (fastforce simp: commits_on_def history_kept_def
          intro: first_parent.step first_parent.here)
  qed
qed

end

text \<open>One that, moreover, touches the working tree only when checkouts are on.\<close>

locale single_commit_writer = committing_writer +
  assumes no_checkout: "dk_git d \<noteq> None \<Longrightarrow> operation L False d = (x, d') \<Longrightarrow> same_work d d'"

interpretation write_file: single_commit_writer "\<lambda>L co. write_file L p c m an ae co"
  for p c m an ae
  by unfold_locales (rule write_file_single_commit write_file_fails same_work_write_file, assumption+)+

interpretation delete_file: single_commit_writer "\<lambda>L co. delete_file L tenant p m an ae co"
  for tenant p m an ae
  by unfold_locales
    (rule delete_file_single_commit, assumption+, erule (1) failsD [OF fails_writes(1)],
      erule keepsD [OF same_work_operations(1)])

interpretation delete_directory: single_commit_writer "\<lambda>L co. delete_directory L tenant p m an ae co"
  for tenant p m an ae
  by unfold_locales
    (rule delete_directory_single_commit, assumption+, erule (1) failsD [OF fails_writes(2)],
      erule keepsD [OF same_work_operations(2)])

interpretation move_file: single_commit_writer "\<lambda>L co. move_file L tenant p q m an ae co"
  for tenant p q m an ae
  by unfold_locales
    (rule move_file_single_commit, assumption+, erule (1) failsD [OF fails_writes(3)],
      erule keepsD [OF same_work_operations(3)])

interpretation move_directory: single_commit_writer "\<lambda>L co. move_directory L tenant p q m an ae co"
  for tenant p q m an ae
  by unfold_locales
    (rule move_directory_single_commit, assumption+, erule (1) failsD [OF fails_writes(4)],
      erule keepsD [OF same_work_operations(4)])

interpretation write_order: single_commit_writer "\<lambda>L co. write_order L tenant dir es m an ae co"
  for tenant dir es m an ae
  by unfold_locales
    (rule write_order_single_commit, assumption+, erule (1) failsD [OF fails_writes(5)],
      erule keepsD [OF same_work_operations(5)])

interpretation reorder_entry: single_commit_writer "\<lambda>L co. reorder_entry L tenant p pos di hid pre m an ae co"
  for tenant p pos di hid pre m an ae
  by unfold_locales
    (rule reorder_entry_single_commit, assumption+, erule (1) failsD [OF fails_writes(6)],
      erule keepsD [OF same_work_operations(6)])

interpretation delete_order: single_commit_writer "\<lambda>L co. delete_order L tenant dir m an ae co"
  for tenant dir m an ae
  by unfold_locales
    (rule delete_order_single_commit, assumption+, erule (1) failsD [OF fails_writes(7)],
      erule keepsD [OF same_work_operations(7)])

interpretation revert_commit: single_commit_writer "\<lambda>L co. revert_commit L Q tenant sha m an ae co"
  for Q tenant sha m an ae
  by unfold_locales
    (rule revert_commit_single_commit, assumption+, erule (1) failsD [OF fails_history(1)],
      erule keepsD [OF same_work_revert])

interpretation rollback_commit: committing_writer "\<lambda>L co. rollback_commit L Q tenant sha m an ae co"
  for Q tenant sha m an ae
  by unfold_locales
    (rule rollback_commit_single_commit, assumption+, erule (1) failsD [OF fails_history(2)])

section \<open>Runs of operations\<close>

text \<open>
  The mutating requests of one tenant. The tenant lock serialises them, so a tenant's directory
  goes through a sequence of whole operations, successful or failed.
\<close>

datatype mutation =
    WriteFile string string "string option" string string
  | DeleteFile string "string option" string string
  | DeleteDirectory string "string option" string string
  | MoveFile string string "string option" string string
  | MoveDirectory string string "string option" string string
  | WriteOrder string "string list" "string option" string string
  | ReorderEntry string order_position "int option" bool bool "string option" string string
  | DeleteOrder string "string option" string string
  | RevertCommit string "string option" string string
  | RollbackCommit string "string option" string string

definition ignore_result :: "('s, 'e, 'a) action \<Rightarrow> ('s, 'e, unit) action" where
  "ignore_result m = bind_act m (\<lambda>_. act_ok ())"

fun perform :: "'o libs \<Rightarrow> 'o commit_libs \<Rightarrow> string \<Rightarrow> mutation \<Rightarrow> bool \<Rightarrow> ('o, unit) git_action" where
  "perform L Q tenant (WriteFile p c m an ae) co = ignore_result (write_file L p c m an ae co)"
| "perform L Q tenant (DeleteFile p m an ae) co = ignore_result (delete_file L tenant p m an ae co)"
| "perform L Q tenant (DeleteDirectory p m an ae) co =
     ignore_result (delete_directory L tenant p m an ae co)"
| "perform L Q tenant (MoveFile p q m an ae) co = ignore_result (move_file L tenant p q m an ae co)"
| "perform L Q tenant (MoveDirectory p q m an ae) co =
     ignore_result (move_directory L tenant p q m an ae co)"
| "perform L Q tenant (WriteOrder dir es m an ae) co =
     ignore_result (write_order L tenant dir es m an ae co)"
| "perform L Q tenant (ReorderEntry p pos di hid pre m an ae) co =
     ignore_result (reorder_entry L tenant p pos di hid pre m an ae co)"
| "perform L Q tenant (DeleteOrder dir m an ae) co =
     ignore_result (delete_order L tenant dir m an ae co)"
| "perform L Q tenant (RevertCommit sha m an ae) co =
     ignore_result (revert_commit L Q tenant sha m an ae co)"
| "perform L Q tenant (RollbackCommit sha m an ae) co =
     ignore_result (rollback_commit L Q tenant sha m an ae co)"

definition is_rollback :: "mutation \<Rightarrow> bool" where
  "is_rollback mu = (case mu of RollbackCommit _ _ _ _ \<Rightarrow> True | _ \<Rightarrow> False)"

lemma ignore_result_run:
  "ignore_result m d = (x, d') \<Longrightarrow> \<exists>y. m d = (y, d') \<and> (\<forall>e. x = Inl e \<longleftrightarrow> y = Inl e)"
  by (auto simp: ignore_result_def bind_act_def split: prod.splits sum.splits)

lemma ignore_result_committing:
  assumes "committing_writer operation"
  shows "committing_writer (\<lambda>L co. ignore_result (operation L co))"
proof -
  note laws = committing_writer.commits_once [OF assms] committing_writer.failure_grows [OF assms]
  show ?thesis
  proof (unfold_locales, goal_cases)
    case (1 L I d co x d')
    obtain y where "operation L co d = (y, d')" using ignore_result_run [OF 1(4)] by blast
    with 1(1-3) show ?case by (rule laws(1))
  next
    case (2 L I d co e d')
    have "operation L co d = (Inl e, d')" using ignore_result_run [OF 2(3)] by auto
    with 2(1,2) show ?case by (rule laws(2))
  qed
qed

lemmas writers = write_file.single_commit_writer_axioms delete_file.single_commit_writer_axioms
  delete_directory.single_commit_writer_axioms move_file.single_commit_writer_axioms
  move_directory.single_commit_writer_axioms write_order.single_commit_writer_axioms
  reorder_entry.single_commit_writer_axioms delete_order.single_commit_writer_axioms
  revert_commit.single_commit_writer_axioms

lemmas committing_writers = writers [THEN single_commit_writer.axioms(1)]
  rollback_commit.committing_writer_axioms

lemma perform_writer: "committing_writer (\<lambda>L co. perform L Q tenant mu co)"
  by (cases mu; simp only: perform.simps)
    (rule ignore_result_committing, rule committing_writers)+

interpretation perform: committing_writer "\<lambda>L co. perform L Q tenant mu co" for Q tenant mu
  by (rule perform_writer)

lemma ignore_result_no_checkout:
  assumes "single_commit_writer operation" "dk_git d \<noteq> None" "ignore_result (operation L False) d = (x, d')"
  shows "dk_work d' = dk_work d"
proof -
  obtain y where "operation L False d = (y, d')" using ignore_result_run [OF assms(3)] by blast
  then show ?thesis
    using single_commit_writer.no_checkout [OF assms(1,2)] by (simp add: same_work_def)
qed

lemma perform_no_checkout:
  assumes "dk_git d \<noteq> None" "\<not> is_rollback mu" "perform L Q tenant mu False d = (x, d')"
  shows "dk_work d' = dk_work d"
  using assms(2,3)
  by (cases mu; simp only: perform.simps is_rollback_def mutation.case simp_thms)
    (rule ignore_result_no_checkout [OF _ assms(1)], rule writers, assumption)+

inductive tenant_run :: "'o libs \<Rightarrow> 'o commit_libs \<Rightarrow> string \<Rightarrow> 'o disk \<Rightarrow> 'o disk \<Rightarrow> bool"
  for L Q tenant where
  idle: "tenant_run L Q tenant d d"
| request: "tenant_run L Q tenant d e \<Longrightarrow> perform L Q tenant mu co e = (x, d') \<Longrightarrow> tenant_run L Q tenant d d'"

inductive_cases tenant_runE: "tenant_run L Q tenant d d'"

lemma history_kept_refl: "dk_git d \<noteq> None \<Longrightarrow> history_kept d d"
  using extends_refl first_parent.here by (fastforce simp: history_kept_def split: sum.split)

lemma history_kept_trans: "history_kept a b \<Longrightarrow> history_kept b c \<Longrightarrow> history_kept a c"
  unfolding history_kept_def
  by (force intro: extends_trans first_parent_trans first_parent_extends split: sum.splits)

lemma tenant_run_sound:
  assumes "tenant_run L Q tenant d d'" "git2_ok L I" "disk_sound I d" "dk_git d \<noteq> None"
  shows "disk_sound I d' \<and> dk_git d' \<noteq> None \<and> history_kept d d'"
  using assms
proof (induction rule: tenant_run.induct)
  case (idle d)
  then show ?case using history_kept_refl by blast
next
  case (request d e mu co x d')
  then have e: "disk_sound I e" "dk_git e \<noteq> None" "history_kept d e" by blast+
  then show ?case
    using perform.stays_sound [OF request.prems(1) e(1,2) request.hyps(2)] history_kept_trans [OF e(3)]
      perform.keeps_history [OF request.prems(1) e(1,2) request.hyps(2)] by blast
qed

section \<open>Properties\<close>

definition demo_write :: mutation where
  "demo_write = WriteFile ''docs/new.md'' ''hi'' None ''Ann'' ''a@x''"

text \<open>
  C2: history is append-only. After any sequence of requests on a tenant, successful or failed,
  the HEAD it started from is on the first-parent chain of the HEAD it ends with, and every
  commit and blob that was readable still is, unchanged.
\<close>

theorem history_append_only:
  assumes "git2_ok L I" "disk_sound I d" "dk_git d = Some r" "r_head r = Inr h"
    and "tenant_run L Q tenant d d'"
  shows "\<exists>r' h'. dk_git d' = Some r' \<and> r_head r' = Inr h' \<and> first_parent r' h h' \<and>
      (\<forall>oid c. r_commits r oid = Some c \<longrightarrow> r_commits r' oid = Some c) \<and>
      (\<forall>oid c. r_blobs r oid = Some c \<longrightarrow> r_blobs r' oid = Some c)"
proof -
  have "history_kept d d'" using tenant_run_sound [OF assms(5,1,2)] assms(3) by simp
  then obtain r' h' where "dk_git d' = Some r'" "extends r r'" "r_head r' = Inr h'" "first_parent r' h h'"
    using assms(3,4) by (auto simp: history_kept_def)
  then show ?thesis by (auto intro: extends_commit extends_blob)
qed

theorem history_append_only_witness:
  "\<exists>r' h'. dk_git (snd (perform sample_libs sample_commit_libs ''t'' demo_write True demo_disk)) = Some r' \<and>
     r_head r' = Inr h' \<and> first_parent r' (projr (r_head (the (dk_git demo_disk)))) h'"
proof -
  let ?m = "perform sample_libs sample_commit_libs ''t'' demo_write True demo_disk"
  have run: "tenant_run sample_libs sample_commit_libs ''t'' demo_disk (snd ?m)"
    by (rule tenant_run.request [OF tenant_run.idle, where x = "fst ?m"]) simp
  have "r_head (the (dk_git demo_disk)) = Inr (projr (r_head (the (dk_git demo_disk))))"
    and "dk_git demo_disk = Some (the (dk_git demo_disk))"
    by (simp_all add: demo_disk_def sample_disk_def sample_repo_def)
  from history_append_only [OF sample_ok demo_disk_sound this(2,1) run] show ?thesis by blast
qed

text \<open>
  C9: a request is at most one commit. Whatever it answers, HEAD is afterwards where it was, or
  on a new commit whose only parent is the HEAD before.
\<close>

theorem request_commits_at_most_once:
  assumes "git2_ok L I" "disk_sound I d" "dk_git d = Some r"
    and "perform L Q tenant mu co d = (x, d')"
  shows "\<exists>r'. dk_git d' = Some r' \<and>
      (r_head r' = r_head r \<or>
       (\<exists>h oid c. r_head r = Inr h \<and> r_head r' = Inr oid \<and> r_commits r' oid = Some c \<and>
          c_parents c = [h]))"
proof -
  have "single_commit I d d'" by (rule perform.commits_once [OF assms(1,2) _ assms(4)]) (simp add: assms(3))
  moreover have "I r" using assms(2,3) by (simp add: disk_sound_def)
  ultimately show ?thesis
    using assms(3) by (auto simp: single_commit_def grows_def commits_on_def)
qed

theorem request_commits_at_most_once_witness:
  "\<exists>r'. dk_git (snd (perform sample_libs sample_commit_libs ''t'' demo_write True demo_disk)) = Some r' \<and>
      (r_head r' = r_head (the (dk_git demo_disk)) \<or>
       (\<exists>h oid c. r_head (the (dk_git demo_disk)) = Inr h \<and> r_head r' = Inr oid \<and>
          r_commits r' oid = Some c \<and> c_parents c = [h]))"
proof -
  have "dk_git demo_disk = Some (the (dk_git demo_disk))"
    by (simp add: demo_disk_def sample_disk_def)
  from request_commits_at_most_once [OF sample_ok demo_disk_sound this surjective_pairing]
  show ?thesis .
qed

text \<open>
  C8: a request that answers an error leaves HEAD and every file HEAD holds as they were, even
  where it had already staged blobs or an index update.
\<close>

theorem failed_request_keeps_content:
  assumes "git2_ok L I" "disk_sound I d" "dk_git d = Some r" "head_tree r = Inr (h, t)"
    and "perform L Q tenant mu co d = (Inl e, d')"
  shows "(\<exists>r'. dk_git d' = Some r' \<and> r_head r' = r_head r) \<and>
      (\<forall>p. head_content L d' p = head_content L d p)"
proof -
  have git: "dk_git d \<noteq> None" by (simp add: assms(3))
  have "I r" using assms(2,3) by (simp add: disk_sound_def)
  then have "\<exists>r'. dk_git d' = Some r' \<and> r_head r' = r_head r"
    using perform.failure_grows [OF assms(1) git assms(5)] assms(3) by (auto simp: grows_def)
  then show ?thesis
    using perform.failure_keeps_content [OF assms(1,2) git assms(5,3,4)] by blast
qed

theorem failed_request_keeps_content_witness:
  "head_content sample_libs
     (snd (perform sample_libs sample_commit_libs ''t'' (MoveFile ''docs/a.md'' ''docs/b.md'' None ''Ann'' ''a@x'') True demo_disk))
     ''docs/a.md'' = head_content sample_libs demo_disk ''docs/a.md''"
proof -
  let ?m = "perform sample_libs sample_commit_libs ''t'' (MoveFile ''docs/a.md'' ''docs/b.md'' None ''Ann'' ''a@x'') True demo_disk"
  have run: "?m = (Inl (InvalidOperation ''destination already exists: docs/b.md''), snd ?m)"
    by (rule prod_eqI, simp_all only: fst_conv snd_conv, code_simp)
  obtain h t where ht: "head_tree (the (dk_git demo_disk)) = Inr (h, t)"
    by (auto simp: demo_disk_def sample_disk_def sample_repo_def head_tree_def head_commit_def
        commit_tree_def find_tree_def all_commits_def all_trees_def valid.simps good_name_def)
  have "dk_git demo_disk = Some (the (dk_git demo_disk))"
    by (simp add: demo_disk_def sample_disk_def)
  from failed_request_keeps_content [OF sample_ok demo_disk_sound this ht run] show ?thesis by blast
qed

text \<open>
  C10: with checkouts off, no request but a rollback touches a file of the tenant's working tree.
\<close>

theorem no_checkout_keeps_work:
  assumes "dk_git d \<noteq> None" "\<not> is_rollback mu" "perform L Q tenant mu False d = (x, d')"
  shows "dk_work d' = dk_work d"
  using perform_no_checkout [OF assms] .

theorem no_checkout_keeps_work_witness:
  "dk_work (snd (perform sample_libs sample_commit_libs ''t'' demo_write False demo_disk)) = dk_work demo_disk"
  by (rule no_checkout_keeps_work [OF demo_disk_git _ surjective_pairing])
    (simp add: demo_write_def is_rollback_def)

end
