(* ===== verification/Git_Writes.thy ===== *)
theory Git_Writes
  imports Git_Laws Git_Instance
begin

text \<open>
  What the mutating operations do to HEAD's content, on every path: the operation's own change
  and nothing else, in one commit, whose change event says what happened.
\<close>

section \<open>Successful steps\<close>

lemma odb_step_Inr:
  "odb_step f d = (Inr a, d') \<longleftrightarrow>
     (\<exists>r r'. dk_git d = Some r \<and> f r = Inr (a, r') \<and> d' = d\<lparr>dk_git := Some r'\<rparr>)"
  by (auto simp: odb_step_def split: option.split sum.split)

lemma odb_read_Inr: "odb_read f d = (Inr a, d') \<longleftrightarrow> (\<exists>r. dk_git d = Some r \<and> f r = Inr a \<and> d' = d)"
  by (auto simp: odb_read_def split: option.split)

lemma find_tree_Inr: "find_tree r t = Inr es \<longleftrightarrow> r_trees r t = Some es"
  by (auto simp: find_tree_def split: option.split)

text \<open>Taking a successful run of an operation apart, one \<open>?\<close> at a time.\<close>

lemma bind_act_elims:
  "bind_act (act_lift q) (\<lambda>(x, y). k2 x y) s = (Inr b, s'') \<Longrightarrow>
     (\<And>x y. q = Inr (x, y) \<Longrightarrow> k2 x y s = (Inr b, s'') \<Longrightarrow> P) \<Longrightarrow> P"
  "bind_act (act_lift q') k s = (Inr b, s'') \<Longrightarrow>
     (\<And>a. q' = Inr a \<Longrightarrow> k a s = (Inr b, s'') \<Longrightarrow> P) \<Longrightarrow> P"
  "bind_act m (\<lambda>(x, y). k2 x y) s = (Inr b, s'') \<Longrightarrow>
     (\<And>x y s'. m s = (Inr (x, y), s') \<Longrightarrow> k2 x y s' = (Inr b, s'') \<Longrightarrow> P) \<Longrightarrow> P"
  "bind_act m' k s = (Inr b, s'') \<Longrightarrow>
     (\<And>a s'. m' s = (Inr a, s') \<Longrightarrow> k a s' = (Inr b, s'') \<Longrightarrow> P) \<Longrightarrow> P"
  by (auto simp: bind_act_eq_Inr)

lemmas step_simps = bind_act_eq_Inr odb_step_Inr odb_read_Inr find_tree_Inr

section \<open>Commits by their content\<close>

text \<open>
  \<open>d'\<close> is \<open>d\<close> with one more commit, on top of HEAD, whose tree is HEAD's with the updates \<open>us\<close>.
\<close>

definition committed ::
  "'o libs \<Rightarrow> ('o repo \<Rightarrow> bool) \<Rightarrow> 'o tree_update list \<Rightarrow> string \<Rightarrow> 'o disk \<Rightarrow> 'o disk \<Rightarrow> bool" where
  "committed L I us msg d d' \<longleftrightarrow>
     (\<exists>r r' h oid c. dk_git d = Some r \<and> dk_git d' = Some r' \<and> I r \<and> I r' \<and> extends r r' \<and>
        r_head r = Inr h \<and> r_head r' = Inr oid \<and> r_commits r' oid = Some c \<and>
        c_parents c = [h] \<and> c_message c = msg) \<and>
     dk_work d' = dk_work d \<and>
     (\<forall>p. clean p \<longrightarrow> head_blob L d' p = apply_updates us (head_blob L d) p)"

lemma commit_updates_committed:
  assumes L: "git2_ok L I" and g: "grows I e d"
    and r: "dk_git e = Some r" "I r" "head_tree r = Inr (h, t)"
    and us: "well_formed_updates us"
    and run: "commit_updates L h t us msg an ae d = (Inr oid, d')"
  shows "committed L I us msg d d'"
proof -
  obtain r1 where r1: "dk_git d = Some r1" "I r1" "extends r r1" "r_head r1 = r_head r"
    using g r(1,2) unfolding grows_def by blast
  have t: "head_tree r1 = Inr (h, t)" using r(3) r1
    by (auto simp: head_tree_Inr dest: extends_commit extends_tree)
  then have "r_trees r1 t \<noteq> None" and h: "r_head r1 = Inr h" by (auto simp: head_tree_Inr)
  from commit_updates_ok [OF L r1(1,2) this(1) run] obtain r2 c where
    r2: "dk_git d' = Some r2" "I r2" "extends r1 r2" "r_head r2 = Inr oid"
      "r_commits r2 oid = Some c" "c_parents c = [h]" "c_message c = msg" "dk_work d' = dk_work d"
    and up: "\<And>p. clean p \<Longrightarrow> head_blob L d' p = apply_updates us (blob_oid_in_tree L r1 t) p"
    using us by blast
  have "head_blob L d = blob_oid_in_tree L r1 t" using head_blob_eq [OF r1(1) t] by (rule ext)
  with r1 r2 up h show ?thesis by (auto simp: committed_def)
qed

lemma committed_keeps:
  assumes "git2_ok L I" "committed L I us msg d d'" "clean p"
    and "apply_updates us (head_blob L d) p = head_blob L d p"
  shows "head_content L d' p = head_content L d p"
proof -
  obtain r r' where r: "dk_git d = Some r" "dk_git d' = Some r'" "I r" "extends r r'"
    using assms(2) unfolding committed_def by blast
  show ?thesis
    by (rule head_content_eq [OF _ _ assms(1) r(1,2,4)])
      (use assms r in \<open>auto simp: committed_def disk_sound_def\<close>)
qed

lemma committed_sets:
  assumes "committed L I us msg d d'" "clean p" "dk_git d = Some r"
    and "apply_updates us (head_blob L d) p = Some oid" "r_blobs r oid = Some c"
  shows "head_content L d' p = Some c"
  using assms by (auto simp: committed_def head_content_def dest: extends_blob)

lemma committed_removes:
  assumes "committed L I us msg d d'" "clean p" "apply_updates us (head_blob L d) p = None"
  shows "head_content L d' p = None"
  using assms by (auto simp: committed_def head_content_def)

lemma head_content_None:
  assumes "git2_ok L I" "dk_git d = Some r" "I r"
  shows "head_content L d p = None \<longleftrightarrow> head_blob L d p = None"
  using assms blob_present_rule [OF assms(1,3)]
  by (fastforce simp: head_content_def head_blob_def blob_oid_in_tree_def
      split: sum.splits option.splits if_splits)

section \<open>Opening or creating the tenant\<close>

lemma init_with_root_commit_ok:
  assumes L: "git2_ok L I" and d: "dk_git d = None"
    and run: "init_with_root_commit L sg d = (Inr u, e)"
  shows "\<exists>r. dk_git e = Some r \<and> I r \<and> (\<forall>p. head_blob L e p = None)"
proof -
  obtain r0 t r1 oid r2 where
    i: "g_init L d = Inr r0" and t: "g_empty_tree L r0 = Inr (t, r1)"
    and c: "g_commit L sg ''chore: initialize'' t [] r1 = Inr (oid, r2)"
    and e: "dk_git e = Some r2"
    using run by (auto simp: init_with_root_commit_def step_simps split: sum.splits)
  have init: "init_law L I" using L unfolding git2_ok_def by blast
  have r0: "I r0" using init i d unfolding init_law_def by blast
  then have r1: "I r1" "r_trees r1 t = Some []" "\<forall>p. g_get_path L r1 t p = None"
    using init t unfolding init_law_def by blast+
  note r2 = commit_rule [OF L r1(1) _ c]
  have t2: "head_tree r2 = Inr (oid, t)"
    using r2 r1(2) by (auto simp: head_tree_Inr dest: extends_tree)
  have "g_get_path L r2 t p = g_get_path L r1 t p" for p
    using get_path_rule [OF L r1(1)] r2 r1(2) by simp
  then have "head_blob L e p = None" for p
    using r1(3) t2 e by (simp add: head_blob_def blob_oid_in_tree_def)
  with e r2 r1(2) show ?thesis by auto
qed

lemma open_or_init_ok:
  assumes L: "git2_ok L I" and sound: "disk_sound I d"
    and run: "open_or_init_repo L an ae d = (Inr r, e)"
  shows "dk_git e = Some r" "I r" "dk_git d \<noteq> None \<Longrightarrow> e = d"
    "head_content L e p = head_content L d p" "head_blob L e p = head_blob L d p"
proof -
  have *: "dk_git e = Some r \<and> I r \<and> (dk_git d \<noteq> None \<longrightarrow> e = d) \<and>
      head_content L e p = head_content L d p \<and> head_blob L e p = head_blob L d p"
  proof (cases "dk_git d = None")
    case False
    with run have "g_open L d = Inr r" "e = d"
      by (auto simp: open_or_init_existing git_result_def split: sum.splits)
    then show ?thesis using open_rule [OF L] sound by (auto simp: disk_sound_def)
  next
    case True
    then obtain sg where "(if dk_exists d then init_with_root_commit L sg d
        else staging_create L (init_with_root_commit L sg) d) = (Inr (), e)" and o': "g_open L e = Inr r"
      using run by (auto simp: open_or_init_repo_def bind_act_eq_Inr git_result_def split: sum.splits)
    then have "init_with_root_commit L sg d = (Inr (), e) \<or> init_with_root_commit L sg empty_disk = (Inr (), e)"
      by (auto simp: staging_create_def split: if_splits option.splits sum.splits prod.splits)
    then obtain d0 where "dk_git d0 = None" "init_with_root_commit L sg d0 = (Inr (), e)"
      using True by (metis disk.select_convs(2) empty_disk_def)
    from init_with_root_commit_ok [OF L this] o' True show ?thesis
      using open_rule [OF L o'] by (auto simp: head_content_def head_blob_def)
  qed
  then show "dk_git e = Some r" "I r" "dk_git d \<noteq> None \<Longrightarrow> e = d"
    "head_content L e p = head_content L d p" "head_blob L e p = head_blob L d p"
    by blast+
qed

section \<open>Working-tree steps\<close>

lemma wt_write_Inr:
  "wt_write L co p c d = (Inr u, d') \<longleftrightarrow>
     (if co then os_fault L (dk_work d) (fs_key p) = None \<and>
        (\<exists>w. fs_write (dk_work d) p c = Inr w \<and> d' = d\<lparr>dk_work := w\<rparr>)
      else d' = d)"
  by (auto simp: wt_write_def split: option.split sum.split prod.split)

lemma fs_write_file: "fs_write w p c = Inr w' \<Longrightarrow> w' (fs_key p) = Some (FsFile c)"
  by (auto simp: fs_write_def Let_def split: if_splits)

lemma wt_remove_file_git: "wt_remove_file L co p d = (x, d') \<Longrightarrow> dk_git d' = dk_git d"
  by (auto simp: wt_remove_file_def dest!: tolerate_absent_git split: if_splits option.splits prod.splits)

lemma wt_write_git: "wt_write L co p c d = (x, d') \<Longrightarrow> dk_git d' = dk_git d"
  by (auto simp: wt_write_def split: if_splits option.splits sum.splits prod.splits)

section \<open>write_file\<close>

lemma write_file_committed:
  assumes "write_file L p c m an ae co d = (Inr (s, Some ch), d')"
  obtains r e h t boid d1 d2 coid where
    "open_or_init_repo L an ae d = (Inr r, e)" "head_tree r = Inr (h, t)"
    "g_get_path L r t p = None \<and> ch = Created p c \<or>
     (\<exists>en. g_get_path L r t p = Some en \<and> te_kind en = Blob \<and> ch = Updated p c \<and>
        g_hash_blob L c \<noteq> Inr (te_id en))"
    "wt_write L co p c e = (Inr (), d1)" "odb_step (g_blob L c) d1 = (Inr boid, d2)"
    "commit_updates L h t [Upsert p boid] (message_or m
       ((case ch of Created _ _ \<Rightarrow> ''create: '' | _ \<Rightarrow> ''update: '') @ p)) an ae d2 = (Inr coid, d')"
    "s = g_oid_string L coid"
proof -
  have no: "\<not> is_order_file p" using assms by (auto simp: write_file_def)
  show ?thesis
    using assms [unfolded write_file_def if_not_P [OF no]]
  proof (elim bind_act_elims, goal_cases)
    case (1 r e h t dec)
    then obtain new where dec: "dec = Some new" by (cases dec) simp_all
    have "g_get_path L r t p = None \<and> new \<or>
        (\<exists>en. g_get_path L r t p = Some en \<and> te_kind en = Blob \<and> \<not> new \<and>
          g_hash_blob L c \<noteq> Inr (te_id en))"
      using 1(3) dec
      by (auto simp: and_then_eq_Inr git_result_def split: option.splits if_splits sum.splits)
    with 1(4) show ?case
      unfolding dec option.case
      by (elim bind_act_elims) (auto intro!: that [OF 1(1,2)])
  qed
qed

lemma head_tree_blob:
  assumes "git2_ok L I" "dk_git e = Some r" "I r" "head_tree r = Inr (h, t)"
  shows "head_blob L e p = blob_oid_in_tree L r t p"
    and "head_content L e p = None \<longleftrightarrow> blob_oid_in_tree L r t p = None"
  using head_blob_eq [OF assms(2,4)] head_content_None [OF assms(1-3)] by simp_all

lemma grows_committed_keeps:
  assumes L: "git2_ok L I" and g: "grows I e d" and r: "dk_git e = Some r" "I r" "head_tree r = Inr (h, t)"
    and c: "committed L I us msg d d'" and q: "clean q" "apply_updates us (head_blob L e) q = head_blob L e q"
  shows "head_content L d' q = head_content L e q"
proof -
  have eq: "head_blob L d = head_blob L e" using grows_head(1) [OF L g r] by (rule ext)
  show ?thesis
    using committed_keeps [OF L c q(1)] grows_head(2) [OF L g r, of q] q(2) by (simp add: eq)
qed

definition write_message :: "string option \<Rightarrow> file_change \<Rightarrow> string \<Rightarrow> string" where
  "write_message m ch p =
     message_or m ((case ch of Created _ _ \<Rightarrow> ''create: '' | _ \<Rightarrow> ''update: '') @ p)"

lemma single_upsert_well_formed: "clean p \<Longrightarrow> well_formed_updates [Upsert p oid]"
  by (simp add: well_formed_updates_def)

lemma write_file_effect:
  assumes L: "git2_ok L I" and sound: "disk_sound I d" and p: "clean p"
    and run: "write_file L p c m an ae co d = (Inr (s, Some ch), d')"
  shows "head_content L d' p = Some c"
    and "clean q \<Longrightarrow> q \<noteq> p \<Longrightarrow> head_content L d' q = head_content L d q"
    and "ch = (if head_content L d p = None then Created p c else Updated p c)"
    and "\<exists>d2 us. dk_git d \<noteq> None \<longrightarrow> committed L I us (write_message m ch p) d2 d' \<and> grows I d d2"
    and "co \<Longrightarrow> dk_work d' (fs_key p) = Some (FsFile c)"
    and "\<not> co \<Longrightarrow> dk_git d \<noteq> None \<Longrightarrow> dk_work d' = dk_work d"
proof -
  obtain r e h t boid d1 d2 coid where
    o1: "open_or_init_repo L an ae d = (Inr r, e)" and t: "head_tree r = Inr (h, t)" and
    kind: "g_get_path L r t p = None \<and> ch = Created p c \<or>
     (\<exists>en. g_get_path L r t p = Some en \<and> te_kind en = Blob \<and> ch = Updated p c \<and>
        g_hash_blob L c \<noteq> Inr (te_id en))" and
    w: "wt_write L co p c e = (Inr (), d1)" and b: "odb_step (g_blob L c) d1 = (Inr boid, d2)" and
    cu: "commit_updates L h t [Upsert p boid] (write_message m ch p) an ae d2 = (Inr coid, d')"
    using run unfolding write_message_def by (elim write_file_committed) blast
  note o1 = open_or_init_ok [OF L sound o1]
  have g: "grows I e d2"
    using transpD [OF grows_trans keepsD [OF grows_wt_write w] keepsD [OF grows_g_blob [OF L] b]] .
  have com: "committed L I [Upsert p boid] (write_message m ch p) d2 d'"
    by (rule commit_updates_committed [OF L g o1(1,2) t single_upsert_well_formed [OF p] cu])
  obtain r1 r2 where r2: "dk_git d1 = Some r1" "I r1" "g_blob L c r1 = Inr (boid, r2)" "dk_git d2 = Some r2"
    "dk_work d2 = dk_work d1"
    using b keepsD [OF grows_wt_write w, of I] o1(1,2) by (auto simp: odb_step_Inr grows_def)
  show "head_content L d' p = Some c"
    by (rule committed_sets [OF com p r2(4) _ blob_rule(4) [OF L r2(2,3)]]) simp
  show "head_content L d' q = head_content L d q" if "clean q" "q \<noteq> p"
    using grows_committed_keeps [OF L g o1(1,2) t com that(1)] that(2) o1(4) by simp
  show "ch = (if head_content L d p = None then Created p c else Updated p c)"
    using kind head_tree_blob(2) [OF L o1(1,2) t, of p] o1(4) [of p]
    by (auto simp: blob_oid_in_tree_def)
  show "\<exists>d2 us. dk_git d \<noteq> None \<longrightarrow> committed L I us (write_message m ch p) d2 d' \<and> grows I d d2"
    using com g o1(3) by blast
  show "dk_work d' (fs_key p) = Some (FsFile c)" if co
    using w that com r2(5) by (auto simp: committed_def wt_write_Inr fs_write_file)
  show "dk_work d' = dk_work d" if "\<not> co" "dk_git d \<noteq> None"
    using w that com r2(5) o1(3) by (simp add: committed_def wt_write_Inr)
qed

lemma write_file_unchanged_run:
  assumes "write_file L p c m an ae co d = (Inr (s, None), d')"
  obtains r h t en where "open_or_init_repo L an ae d = (Inr r, d')" "head_tree r = Inr (h, t)"
    "g_get_path L r t p = Some en" "te_kind en = Blob" "g_hash_blob L c = Inr (te_id en)"
    "s = g_oid_string L h"
proof -
  have no: "\<not> is_order_file p" using assms by (auto simp: write_file_def)
  show ?thesis
    using assms [unfolded write_file_def if_not_P [OF no]]
  proof (elim bind_act_elims, goal_cases)
    case (1 r e h t dec)
    show ?case
    proof (cases dec)
      case None
      with 1 show ?thesis
        by (auto simp: and_then_eq_Inr git_result_def intro!: that
            split: option.splits if_splits sum.splits)
    next
      case (Some new)
      with 1(4) show ?thesis by (auto simp: bind_act_eq_Inr)
    qed
  qed
qed



section \<open>Index paths\<close>

definition dir_pieces :: "string \<Rightarrow> string list" where
  "dir_pieces dir = (if dir = [] then [] else split_on CHR ''/'' dir)"

lemma split_order_file_path:
  "split_on CHR ''/'' (order_file_path dir) = dir_pieces dir @ [ORDER_FILE_NAME]"
  using split_on_append_sep [of "CHR ''/''" dir ORDER_FILE_NAME]
  by (simp add: order_file_path_def dir_pieces_def split_on_free [OF order_name_flat])

lemma clean_order_file_path: "dir = [] \<or> clean dir \<Longrightarrow> clean (order_file_path dir)"
  by (auto simp: clean_def split_order_file_path dir_pieces_def ORDER_FILE_NAME_def)

lemma split_clean_parent:
  assumes "clean p" "split_parent p = (dir, name)"
  shows "split_on CHR ''/'' p = dir_pieces dir @ [name]" and "dir = [] \<or> clean dir"
proof -
  have flat: "CHR ''/'' \<notin> set name" using assms(2) by (rule split_parent_leaf)
  have *: "split_on CHR ''/'' p = dir_pieces dir @ [name] \<and> (dir = [] \<or> clean dir)"
  proof (cases "CHR ''/'' \<in> set p")
    case True
    then obtain "p = dir @ CHR ''/'' # name"
      using assms(2) by (auto simp: split_parent_def rsplit_once_Some rsplit_once_None split: option.splits)
    moreover from this have "dir \<noteq> []" using assms(1) by (auto simp: clean_def)
    ultimately show ?thesis using assms(1) flat
      by (auto simp: dir_pieces_def split_on_append_sep split_on_free clean_def)
  next
    case False
    then show ?thesis using assms(2) by (auto simp: split_parent_flat dir_pieces_def split_on_free)
  qed
  then show "split_on CHR ''/'' p = dir_pieces dir @ [name]" "dir = [] \<or> clean dir" by blast+
qed

lemma under_prefix: "under p q \<longleftrightarrow> prefix (split_on CHR ''/'' p) (split_on CHR ''/'' q)"
  by (simp add: under_def split_on_prefix_iff)

lemma under_refl [simp]: "under p p"
  by (simp add: under_def)

lemma under_trans: "under p q \<Longrightarrow> under q s \<Longrightarrow> under p s"
  by (auto simp: under_prefix)

text \<open>Paths a file can have without standing in the way of an index.\<close>

definition plain :: "string \<Rightarrow> bool" where
  "plain p \<longleftrightarrow> clean p \<and> ORDER_FILE_NAME \<notin> set (split_on CHR ''/'' p)"

lemma plain_not_under_index: "plain p \<Longrightarrow> \<not> under (order_file_path dir) p"
  unfolding plain_def under_prefix split_order_file_path by (auto simp: prefix_def)

lemma plain_not_index: "plain p \<Longrightarrow> p \<noteq> order_file_path dir"
  using plain_not_under_index under_refl by blast

lemma index_under_sibling:
  assumes "clean p" "split_parent p = (dir, name)" "name \<noteq> ORDER_FILE_NAME"
  shows "\<not> under p (order_file_path dir)" "\<not> under (order_file_path dir) p"
  using assms(3) by (simp_all add: under_prefix split_order_file_path split_clean_parent(1) [OF assms(1,2)])

text \<open>A path above another's index is above the other path itself.\<close>

lemma under_index_under:
  assumes "under q (order_file_path dir)" "q \<noteq> order_file_path dir" "clean p" "split_parent p = (dir, name)"
  shows "under q p"
proof -
  have "split_on CHR ''/'' q \<noteq> dir_pieces dir @ [ORDER_FILE_NAME]"
    using assms(2) by (metis join_split split_order_file_path)
  then have "prefix (split_on CHR ''/'' q) (dir_pieces dir)"
    using assms(1) by (simp add: under_prefix split_order_file_path)
  then show ?thesis by (simp add: under_prefix split_clean_parent(1) [OF assms(3,4)])
qed

section \<open>Index upkeep\<close>

text \<open>
  The upkeep as functions on the stored order, \<open>None\<close> where the index is left alone.
\<close>

definition order_removed :: "string list option \<Rightarrow> string \<Rightarrow> string list option" where
  "order_removed stored name =
     (case stored of
        None \<Rightarrow> None
      | Some es \<Rightarrow>
          if \<exists>e \<in> set es. entry_name e = name then Some (filter (\<lambda>e. entry_name e \<noteq> name) es)
          else None)"

definition order_appended :: "string list option \<Rightarrow> string \<Rightarrow> string list option" where
  "order_appended stored entry =
     (case stored of
        None \<Rightarrow> None
      | Some es \<Rightarrow>
          if \<exists>e \<in> set es. entry_name e = entry_name entry then None else Some (es @ [entry]))"

definition order_renamed :: "string list option \<Rightarrow> string \<Rightarrow> string \<Rightarrow> string list option" where
  "order_renamed stored name entry =
     (case stored of
        None \<Rightarrow> None
      | Some es \<Rightarrow> map_option (\<lambda>i. es[i := entry]) (position_of (\<lambda>e. entry_name e = name) es))"

definition index_content :: "'o libs \<Rightarrow> string list \<Rightarrow> bytes option" where
  "index_content L es = (if es = [] then None else Some (serialize (json_pretty_order L) es))"

definition index_change :: "'o libs \<Rightarrow> string \<Rightarrow> bool \<Rightarrow> string list \<Rightarrow> file_change" where
  "index_change L dir existed es =
     (case index_content L es of
        None \<Rightarrow> Deleted (order_file_path dir)
      | Some c \<Rightarrow> if existed then Updated (order_file_path dir) c else Created (order_file_path dir) c)"

text \<open>\<open>us'\<close> is \<open>us\<close> with the update that makes \<open>es\<close> the index of \<open>dir\<close>, its blob stored in \<open>d\<close>.\<close>

definition stages ::
  "'o libs \<Rightarrow> string \<Rightarrow> string list option \<Rightarrow> 'o tree_update list \<Rightarrow> 'o tree_update list \<Rightarrow> 'o disk \<Rightarrow> bool"
where
  "stages L dir change us us' d \<longleftrightarrow>
     (case change of
        None \<Rightarrow> us' = us
      | Some es \<Rightarrow>
          (case index_content L es of
             None \<Rightarrow> us' = us @ [Remove (order_file_path dir)]
           | Some c \<Rightarrow>
               (\<exists>oid r. us' = us @ [Upsert (order_file_path dir) oid] \<and> dk_git d = Some r \<and>
                  r_blobs r oid = Some c)))"

lemma stage_index_stages:
  assumes L: "git2_ok L I" and sound: "disk_sound I d"
    and run: "stage_index L us dir es existed co d = (Inr (ch, us'), d')"
  shows "stages L dir (Some es) us us' d'" and "ch = index_change L dir existed es"
proof -
  have *: "stages L dir (Some es) us us' d' \<and> ch = index_change L dir existed es"
  proof (cases "es = []")
    case True
    with run show ?thesis
      by (auto simp: stage_index_def Let_def bind_act_eq_Inr stages_def index_content_def index_change_def)
  next
    case False
    then obtain oid d1 where w: "wt_write L co (order_file_path dir) (serialize (json_pretty_order L) es) d = (Inr (), d1)"
      and b: "odb_step (g_blob L (serialize (json_pretty_order L) es)) d1 = (Inr oid, d')"
      and us': "us' = us @ [Upsert (order_file_path dir) oid]"
      and ch: "ch = index_change L dir existed es"
      using run by (auto simp: stage_index_def Let_def bind_act_eq_Inr index_content_def index_change_def)
    obtain r1 r2 where r: "dk_git d1 = Some r1" "g_blob L (serialize (json_pretty_order L) es) r1 = Inr (oid, r2)"
      "dk_git d' = Some r2"
      using b by (auto simp: odb_step_Inr)
    have "I r1" using wt_write_git [OF w] r(1) sound by (simp add: disk_sound_def)
    from blob_rule(4) [OF L this r(2)] r(3) us' ch False show ?thesis
      by (simp add: stages_def index_content_def)
  qed
  then show "stages L dir (Some es) us us' d'" "ch = index_change L dir existed es" by blast+
qed

lemma filter_length_neq: "length (filter P xs) = length xs \<longleftrightarrow> (\<forall>x \<in> set xs. P x)"
proof
  assume eq: "length (filter P xs) = length xs"
  show "\<forall>x \<in> set xs. P x"
  proof (rule ccontr)
    assume "\<not> (\<forall>x \<in> set xs. P x)"
    then have "length (filter P xs) < length xs" by (auto intro: length_filter_less)
    with eq show False by simp
  qed
qed simp

lemma stage_entry_removed_stages:
  assumes L: "git2_ok L I" and sound: "disk_sound I d"
    and run: "stage_entry_removed L r t us dir name co d = (Inr (up, us'), d')"
  shows "stages L dir (order_removed (stored_order L r t dir) name) us us' d'"
    and "up = map_option (index_change L dir True) (order_removed (stored_order L r t dir) name)"
  using run stage_index_stages [OF L sound]
  by (auto simp: stage_entry_removed_def order_removed_def stages_def [of _ _ None] Let_def stage_some_def
      bind_act_eq_Inr filter_length_neq split: option.splits if_splits)

lemma stage_entry_appended_stages:
  assumes L: "git2_ok L I" and sound: "disk_sound I d"
    and run: "stage_entry_appended L r t us dir entry co d = (Inr (up, us'), d')"
  shows "stages L dir (order_appended (stored_order L r t dir) entry) us us' d'"
    and "up = map_option (index_change L dir True) (order_appended (stored_order L r t dir) entry)"
  using run stage_index_stages [OF L sound]
  by (auto simp: stage_entry_appended_def order_appended_def stages_def [of _ _ None] Let_def stage_some_def
      bind_act_eq_Inr list_ex_iff split: option.splits if_splits)

lemma stage_entry_renamed_stages:
  assumes L: "git2_ok L I" and sound: "disk_sound I d"
    and run: "stage_entry_renamed L r t us dir name entry co d = (Inr (up, us'), d')"
  shows "stages L dir (order_renamed (stored_order L r t dir) name entry) us us' d'"
    and "up = map_option (index_change L dir True) (order_renamed (stored_order L r t dir) name entry)"
  using run stage_index_stages [OF L sound]
  by (auto simp: stage_entry_renamed_def order_renamed_def stages_def [of _ _ None] Let_def stage_some_def
      bind_act_eq_Inr split: option.splits if_splits)

end
