(* ===== verification/Git_Deletes.thy ===== *)
theory Git_Deletes
  imports Git_Writes Git_History
begin

text \<open>Deleting a file.\<close>

section \<open>Stored orders by HEAD's content\<close>

definition stored_in :: "'o libs \<Rightarrow> 'o disk \<Rightarrow> string \<Rightarrow> string list option" where
  "stored_in L d dir =
     Option.bind (head_content L d (order_file_path dir))
       (\<lambda>c. if valid_utf8 c then parse (json_parse_order L) c else None)"

lemma stored_order_head:
  assumes "dk_git d = Some r" "head_tree r = Inr (h, t)"
  shows "stored_order L r t dir = stored_in L d dir"
  using assms
  by (simp add: stored_order_def stored_in_def head_content_def head_blob_def find_blob_def
      split: option.split)

section \<open>Commits with upkeep\<close>

lemma apply_updates_append: "apply_updates (us @ vs) m = apply_updates vs (apply_updates us m)"
  by (induction us arbitrary: m) simp_all

lemma stages_elsewhere:
  "stages L dir change us us' d \<Longrightarrow> \<not> under (order_file_path dir) q
     \<Longrightarrow> apply_updates us' m q = apply_updates us m q"
  by (auto simp: stages_def apply_updates_append split: option.splits)

lemma stages_well_formed:
  assumes "stages L dir change us us' d" "well_formed_updates us" "dir = [] \<or> clean dir"
    and "change \<noteq> None \<Longrightarrow> list_all (\<lambda>u. \<not> under (update_path u) (order_file_path dir) \<and>
           \<not> under (order_file_path dir) (update_path u)) us"
  shows "well_formed_updates us'"
  using assms clean_order_file_path [OF assms(3)]
  by (auto simp: stages_def well_formed_updates_def sorted_wrt_append list_all_iff unrelated_def
      split: option.splits)

lemma stages_index_value:
  assumes "committed L I vs msg d d'" "stages L dir (Some es) us us' d" "dir = [] \<or> clean dir"
    and "\<And>m. apply_updates vs m (order_file_path dir) = apply_updates us' m (order_file_path dir)"
  shows "head_content L d' (order_file_path dir) = index_content L es"
proof (cases "index_content L es")
  case None
  then show ?thesis
    using assms clean_order_file_path [OF assms(3)]
    by (auto simp: stages_def apply_updates_append intro: committed_removes)
next
  case (Some c)
  then obtain oid r where "us' = us @ [Upsert (order_file_path dir) oid]" "dk_git d = Some r" "r_blobs r oid = Some c"
    using assms(2) by (auto simp: stages_def)
  then show ?thesis
    using assms(1,4) clean_order_file_path [OF assms(3)] Some
    by (auto simp: apply_updates_append intro: committed_sets)
qed

lemmas stages_index = stages_index_value [OF _ _ _ refl]

section \<open>delete_file\<close>

lemma opened_Inr: "opened L tenant d = (Inr r, e) \<longleftrightarrow> open_tenant_repo L tenant d = Inr r \<and> e = d"
  by (auto simp: opened_def)

lemma delete_file_committed:
  assumes "delete_file L tenant p m an ae co d = (Inr (s, chs), d')"
  obtains r h t dir name d1 up us d2 coid where
    "open_tenant_repo L tenant d = Inr r" "head_tree r = Inr (h, t)" "\<not> is_order_file p"
    "blob_oid_in_tree L r t p \<noteq> None" "split_parent p = (dir, name)"
    "wt_remove_file L co p d = (Inr (), d1)"
    "stage_entry_removed L r t [Remove p] dir name co d1 = (Inr (up, us), d2)"
    "commit_updates L h t us (message_or m (''delete: '' @ p)) an ae d2 = (Inr coid, d')"
    "chs = Deleted p # (case up of None \<Rightarrow> [] | Some c \<Rightarrow> [c])"
proof -
  have no: "\<not> is_order_file p" using assms by (auto simp: delete_file_def)
  obtain dir name where sp: "split_parent p = (dir, name)" by (cases "split_parent p")
  show ?thesis
    using assms [unfolded delete_file_def if_not_P [OF no] sp Let_def prod.case]
  proof (elim bind_act_elims, goal_cases)
    case (1 r e h t u v d1 up us d2 coid)
    then show ?case
      by (intro that [of r h t dir name d1 up us d2 coid])
        (auto simp: opened_Inr no sp blob_oid_in_tree_def split: option.splits)
  qed
qed

lemma sound_open:
  assumes "git2_ok L I" "disk_sound I d" "open_tenant_repo L tenant d = Inr r"
  shows "dk_git d = Some r" "I r"
  using open_tenant_git [OF assms(1,3)] assms(2) by (simp_all add: disk_sound_def)

lemma delete_file_effect:
  assumes L: "git2_ok L I" and sound: "disk_sound I d" and p: "clean p" "split_parent p = (dir, name)"
    and run: "delete_file L tenant p m an ae co d = (Inr (s, chs), d')"
  shows "head_content L d p \<noteq> None" and "head_content L d' p = None"
    and "clean q \<Longrightarrow> \<not> under p q \<Longrightarrow> \<not> under (order_file_path dir) q
      \<Longrightarrow> head_content L d' q = head_content L d q"
    and "head_content L d' (order_file_path dir) =
      (case order_removed (stored_in L d dir) name of
         None \<Rightarrow> head_content L d (order_file_path dir)
       | Some es \<Rightarrow> index_content L es)"
    and "chs = Deleted p #
      (case order_removed (stored_in L d dir) name of
         None \<Rightarrow> [] | Some es \<Rightarrow> [index_change L dir True es])"
    and "clean q \<Longrightarrow> under p q \<Longrightarrow> \<not> under (order_file_path dir) q \<Longrightarrow> head_content L d' q = None"
proof -
  obtain r h t d1 up us d2 coid where
    r: "open_tenant_repo L tenant d = Inr r" and t: "head_tree r = Inr (h, t)" and
    no: "\<not> is_order_file p" and at: "blob_oid_in_tree L r t p \<noteq> None" and
    rm: "wt_remove_file L co p d = (Inr (), d1)" and
    st: "stage_entry_removed L r t [Remove p] dir name co d1 = (Inr (up, us), d2)" and
    cu: "commit_updates L h t us (message_or m (''delete: '' @ p)) an ae d2 = (Inr coid, d')" and
    chs: "chs = Deleted p # (case up of None \<Rightarrow> [] | Some c \<Rightarrow> [c])"
    using run p(2) by (elim delete_file_committed) simp
  note r = sound_open [OF L sound r]
  have sound1: "disk_sound I d1" using wt_remove_file_git [OF rm] sound by (simp add: disk_sound_def)
  note stages = stage_entry_removed_stages [OF L sound1 st]
  have stored: "stored_order L r t dir = stored_in L d dir" by (rule stored_order_head [OF r(1) t])
  have g: "grows I d d2"
    using transpD [OF grows_trans keepsD [OF grows_wt_remove_file rm]
        keepsD [OF grows_stage_entries(1) [OF L] st]] .
  have name: "name \<noteq> ORDER_FILE_NAME" using no p(2) by (simp add: is_order_file_def)
  note dir = split_clean_parent(2) [OF p]
  have wf: "well_formed_updates us"
    by (rule stages_well_formed [OF stages(1) _ dir])
      (use p index_under_sibling [OF p name] in \<open>simp_all add: well_formed_updates_def\<close>)
  note com = commit_updates_committed [OF L g r t wf cu]
  have keep: "head_content L d' q = head_content L d q"
    if "clean q" "apply_updates us (head_blob L d) q = head_blob L d q" for q
    by (rule grows_committed_keeps [OF L g r t com that])
  have gone: "apply_updates us m p = None" for m
    using stages_elsewhere [OF stages(1) index_under_sibling(2) [OF p name]] by simp
  show "head_content L d p \<noteq> None" using at head_tree_blob(2) [OF L r t] by simp
  show "head_content L d' p = None" by (rule committed_removes [OF com p(1) gone])
  show "head_content L d' q = head_content L d q"
    if "clean q" "\<not> under p q" "\<not> under (order_file_path dir) q"
    using keep [OF that(1)] stages_elsewhere [OF stages(1) that(3)] that(2) by simp
  show "head_content L d' (order_file_path dir) =
      (case order_removed (stored_in L d dir) name of
         None \<Rightarrow> head_content L d (order_file_path dir)
       | Some es \<Rightarrow> index_content L es)"
  proof (cases "order_removed (stored_in L d dir) name")
    case None
    then have "us = [Remove p]" using stages(1) by (simp add: stages_def stored)
    then show ?thesis
      using keep [OF clean_order_file_path [OF dir]] index_under_sibling(1) [OF p name] None by simp
  next
    case (Some es)
    then show ?thesis using stages_index [OF com _ dir] stages(1) by (simp add: stored)
  qed
  show "chs = Deleted p # (case order_removed (stored_in L d dir) name of
         None \<Rightarrow> [] | Some es \<Rightarrow> [index_change L dir True es])"
    using chs stages(2) by (simp add: stored split: option.split)
  show "head_content L d' q = None" if "clean q" "under p q" "\<not> under (order_file_path dir) q"
    by (rule committed_removes [OF com that(1)])
      (use stages_elsewhere [OF stages(1) that(3)] that(2) in simp)
qed

text \<open>HEAD holds nothing below a file.\<close>

lemma nothing_below_file:
  assumes L: "git2_ok L I" and sound: "disk_sound I d" and clean: "clean p" "clean x"
    and held: "head_content L d p \<noteq> None" and below: "under p x" "x \<noteq> p"
  shows "head_content L d x = None"
proof (cases "head_content L d x")
  case (Some c)
  obtain r h t where r: "dk_git d = Some r" "head_tree r = Inr (h, t)"
    and at: "blob_oid_in_tree L r t p \<noteq> None" "blob_oid_in_tree L r t x \<noteq> None"
    using held Some by (auto simp: head_content_def head_blob_def split: option.splits sum.splits bind_splits)
  have "I r" using sound r(1) by (simp add: disk_sound_def)
  moreover have "r_trees r t \<noteq> None" using r(2) by (auto simp: head_tree_Inr)
  moreover obtain e where "g_get_path L r t x = Some e"
    using at(2) by (auto simp: blob_oid_in_tree_def split: option.splits)
  ultimately obtain e' where "g_get_path L r t p = Some e'" "te_kind e' = Tree"
    using parent_rule [OF L _ _ clean, of r t e] below by (auto simp: under_def)
  then show ?thesis using at(1) by (simp add: blob_oid_in_tree_def)
qed

text \<open>
  C5: a successful delete removes the file from HEAD and leaves every other path alone, but for
  the index of its folder when that index named the file: the index then holds the same order
  without the file's entries, and is removed when nothing is left of it. The reported changes
  are the deletion, followed by the index's own.
\<close>

theorem delete_file_removes:
  assumes "git2_ok L I" "disk_sound I d" "clean p" "split_parent p = (dir, name)"
    and "delete_file L tenant p m an ae co d = (Inr (s, chs), d')"
  shows "head_content L d p \<noteq> None \<and> head_content L d' p = None \<and>
      (\<forall>q. clean q \<and> \<not> under p q \<and> \<not> under (order_file_path dir) q \<longrightarrow>
         head_content L d' q = head_content L d q) \<and>
      (case order_removed (stored_in L d dir) name of
         None \<Rightarrow>
           chs = [Deleted p] \<and>
           head_content L d' (order_file_path dir) = head_content L d (order_file_path dir)
       | Some es \<Rightarrow>
           chs = [Deleted p, index_change L dir True es] \<and>
           head_content L d' (order_file_path dir) = index_content L es)"
  using delete_file_effect(1,2,4,5) [OF assms] delete_file_effect(3) [OF assms]
  by (cases "order_removed (stored_in L d dir) name") simp_all

theorem delete_file_removes_witness:
  "head_content sample_libs
     (snd (delete_file sample_libs ''t'' ''docs/a.md'' None ''Ann'' ''a@x'' True demo_disk)) ''docs/a.md''
   = None \<and>
   head_content sample_libs
     (snd (delete_file sample_libs ''t'' ''docs/a.md'' None ''Ann'' ''a@x'' True demo_disk)) ''docs/.order.json''
   = index_content sample_libs [''b.md'']"
proof -
  let ?m = "delete_file sample_libs ''t'' ''docs/a.md'' None ''Ann'' ''a@x'' True demo_disk"
  have run: "?m = (Inr (''commit delete: docs/a.md'', [Deleted ''docs/a.md'',
      index_change sample_libs ''docs'' True [''b.md'']]), snd ?m)"
    by (rule prod_eqI, simp_all only: fst_conv snd_conv, code_simp)
  have clean: "clean ''docs/a.md''" and sp: "split_parent ''docs/a.md'' = (''docs'', ''a.md'')"
    by code_simp+
  have "order_removed (stored_in sample_libs demo_disk ''docs'') ''a.md'' = Some [''b.md'']" by code_simp
  moreover have "order_file_path ''docs'' = ''docs/.order.json''" by code_simp
  ultimately show ?thesis
    using delete_file_removes [OF sample_ok demo_disk_sound clean sp run] by simp
qed

end
