(* ===== verification/Git_Moves.thy ===== *)
theory Git_Moves
  imports Git_Deletes
begin

text \<open>Moving a file, with the upkeep of the two directories' indexes.\<close>

section \<open>Upkeep of a move\<close>

text \<open>What a move does to the index of the folder left and of the folder entered.\<close>

definition order_left ::
  "'o libs \<Rightarrow> 'o disk \<Rightarrow> string \<Rightarrow> string \<Rightarrow> string \<Rightarrow> string \<Rightarrow> string list option" where
  "order_left L d from_dir from_name to_dir to_entry =
     (if from_dir = to_dir then order_renamed (stored_in L d from_dir) from_name to_entry
      else order_removed (stored_in L d from_dir) from_name)"

definition order_entered :: "'o libs \<Rightarrow> 'o disk \<Rightarrow> string \<Rightarrow> string \<Rightarrow> string \<Rightarrow> string list option" where
  "order_entered L d from_dir to_dir to_entry =
     (if from_dir = to_dir then None else order_appended (stored_in L d to_dir) to_entry)"

definition index_changes :: "'o libs \<Rightarrow> string \<Rightarrow> string list option \<Rightarrow> file_change list" where
  "index_changes L dir change = (case change of None \<Rightarrow> [] | Some es \<Rightarrow> [index_change L dir True es])"

lemma stages_grows:
  assumes "stages L dir change us us' e" "grows I e d" "disk_sound I e"
  shows "stages L dir change us us' d"
proof -
  have "\<exists>r'. dk_git d = Some r' \<and> r_blobs r' oid = Some c" if "dk_git e = Some r" "r_blobs r oid = Some c" for r oid c
    using assms(2,3) that unfolding grows_def disk_sound_def by (meson extends_blob)
  then show ?thesis using assms(1) by (auto simp: stages_def split: option.splits)
qed

lemma grows_sound: "grows I d e \<Longrightarrow> disk_sound I d \<Longrightarrow> disk_sound I e"
  unfolding grows_def disk_sound_def by (cases "dk_git d") auto

lemma stage_move_upkeep_stages:
  assumes L: "git2_ok L I" and sound: "disk_sound I d1"
    and r: "dk_git d = Some r" "head_tree r = Inr (h, t)"
    and run: "stage_move_upkeep L r t us fd fn td te co d1 = (Inr (ups, us'), d2)"
  obtains us1 where
    "stages L fd (order_left L d fd fn td te) us us1 d2"
    "stages L td (order_entered L d fd td te) us1 us' d2"
    "ups = index_changes L fd (order_left L d fd fn td te) @ index_changes L td (order_entered L d fd td te)"
proof (cases "fd = td")
  case True
  with run obtain c where "stage_entry_renamed L r t us fd fn te co d1 = (Inr (c, us'), d2)"
    and ups: "ups = (case c of None \<Rightarrow> [] | Some x \<Rightarrow> [x])"
    by (auto simp: stage_move_upkeep_def bind_act_eq_Inr)
  note stages = stage_entry_renamed_stages [OF L sound this(1), unfolded stored_order_head [OF r]]
  show ?thesis
    by (rule that [of us'])
      (use True stages ups in \<open>auto simp: order_left_def order_entered_def index_changes_def
        stages_def [of _ _ None] split: option.split\<close>)
next
  case False
  with run obtain c us1 e c' where
    rm: "stage_entry_removed L r t us fd fn co d1 = (Inr (c, us1), e)" and
    ap: "stage_entry_appended L r t us1 td te co e = (Inr (c', us'), d2)" and
    ups: "ups = (case c of None \<Rightarrow> [] | Some x \<Rightarrow> [x]) @ (case c' of None \<Rightarrow> [] | Some x \<Rightarrow> [x])"
    by (auto simp: stage_move_upkeep_def bind_act_eq_Inr)
  have sound': "disk_sound I e"
    by (rule grows_sound [OF keepsD [OF grows_stage_entries(1) [OF L] rm] sound])
  note removed = stage_entry_removed_stages [OF L sound rm, unfolded stored_order_head [OF r]]
  note appended = stage_entry_appended_stages [OF L sound' ap, unfolded stored_order_head [OF r]]
  have "stages L fd (order_removed (stored_in L d fd) fn) us us1 d2"
    by (rule stages_grows [OF removed(1) keepsD [OF grows_stage_entries(2) [OF L] ap] sound'])
  then show ?thesis
    by (intro that [of us1])
      (use False removed(2) appended ups in \<open>auto simp: order_left_def order_entered_def
        index_changes_def split: option.split\<close>)
qed

lemma plain_split_parent:
  "plain p \<Longrightarrow> split_parent p = (dir, name) \<Longrightarrow> ORDER_FILE_NAME \<notin> set (dir_pieces dir)"
  unfolding plain_def by (auto dest: split_clean_parent(1))

lemma plain_name: "plain p \<Longrightarrow> split_parent p = (dir, name) \<Longrightarrow> name \<noteq> ORDER_FILE_NAME"
  unfolding plain_def by (auto dest: split_clean_parent(1))

lemma not_above_index:
  assumes "plain p" "clean q" "split_parent q = (dir, name)" "\<not> under p q"
  shows "\<not> under p (order_file_path dir)"
  using under_index_under [OF _ plain_not_index [OF assms(1)] assms(2,3)] assms(4) by blast

lemma indexes_unrelated:
  "ORDER_FILE_NAME \<notin> set (dir_pieces dir') \<Longrightarrow> under (order_file_path dir) (order_file_path dir') \<Longrightarrow> dir = dir'"
proof -
  assume "ORDER_FILE_NAME \<notin> set (dir_pieces dir')" "under (order_file_path dir) (order_file_path dir')"
  then have "dir_pieces dir = dir_pieces dir'"
    unfolding under_prefix split_order_file_path by (auto simp: prefix_def append_eq_append_conv2 Cons_eq_append_conv)
      (metis append_Nil hd_append2 hd_in_set list.sel(1))
  then show "dir = dir'"
    by (metis dir_pieces_def join_split split_on_nonempty)
qed

lemma move_upkeep_well_formed:
  assumes us: "well_formed_updates us"
    and st1: "stages L fd (order_left L d fd fn td te) us us1 d2"
    and st2: "stages L td (order_entered L d fd td te) us1 us' d2"
    and fd: "fd = [] \<or> clean fd" "ORDER_FILE_NAME \<notin> set (dir_pieces fd)"
    and td: "td = [] \<or> clean td" "ORDER_FILE_NAME \<notin> set (dir_pieces td)"
    and indep: "\<And>u dir. u \<in> set us \<Longrightarrow> dir = fd \<or> dir = td \<Longrightarrow>
      \<not> under (update_path u) (order_file_path dir) \<and> \<not> under (order_file_path dir) (update_path u)"
  shows "well_formed_updates us'"
proof (rule stages_well_formed [OF st2 _ td(1)])
  show "well_formed_updates us1"
    by (rule stages_well_formed [OF st1 us fd(1)]) (use indep in \<open>auto simp: list_all_iff\<close>)
  assume "order_entered L d fd td te \<noteq> None"
  then have ne: "fd \<noteq> td" by (auto simp: order_entered_def)
  have "u \<in> set us \<or> update_path u = order_file_path fd" if "u \<in> set us1" for u
    using st1 that by (auto simp: stages_def split: option.splits)
  then show "list_all (\<lambda>u. \<not> under (update_path u) (order_file_path td) \<and>
      \<not> under (order_file_path td) (update_path u)) us1"
    using indep ne indexes_unrelated [OF td(2)] indexes_unrelated [OF fd(2)]
    by (fastforce simp: list_all_iff)
qed

section \<open>move_file\<close>

lemma move_file_committed:
  assumes "move_file L tenant p q m an ae co d = (Inr (s, chs), d')"
    and sp: "split_parent p = (fd, fn)" "split_parent q = (td, tn)"
  obtains r h t oid content d1 d2 ups us d3 coid where
    "open_tenant_repo L tenant d = Inr r" "head_tree r = Inr (h, t)"
    "blob_oid_in_tree L r t p = Some oid" "g_get_path L r t q = None"
    "r_blobs r oid = Some content"
    "wt_remove_file L co p d = (Inr (), d1)" "wt_write L co q content d1 = (Inr (), d2)"
    "stage_move_upkeep L r t [Remove p, Upsert q oid] fd fn td tn co d2 = (Inr (ups, us), d3)"
    "commit_updates L h t us (message_or m (''move: '' @ p @ arrow @ q)) an ae d3 = (Inr coid, d')"
    "chs = Moved p q content # ups"
proof -
  have no: "\<not> is_order_file p" "\<not> is_order_file q"
    using assms by (auto simp: move_file_def split: if_splits)
  show ?thesis
    using assms(1) [unfolded move_file_def if_not_P [OF no(1)] if_not_P [OF no(2)] sp Let_def prod.case]
  proof (elim bind_act_elims, goal_cases)
    case (1 r e u h t oid v content w d1 x d2 ups us d3 coid)
    then show ?case
      by (intro that [of r h t oid content d1 d2 ups us d3 coid])
        (auto simp: opened_Inr blob_oid_in_tree_def blob_content_from_tree_def find_blob_def
          from_utf8_def split: option.splits if_splits)
  qed
qed

lemma move_upkeep_elsewhere:
  assumes "stages L fd c1 us us1 d" "stages L td c2 us1 us' d"
    and "\<not> under (order_file_path fd) q" "\<not> under (order_file_path td) q"
  shows "apply_updates us' m q = apply_updates us m q"
  using stages_elsewhere [OF assms(1,3)] stages_elsewhere [OF assms(2,4)] by simp

text \<open>The indexes after a move with upkeep, on top of any updates that leave them alone.\<close>

lemma move_upkeep_indexes:
  assumes L: "git2_ok L I" and g: "grows I d d2" and r: "dk_git d = Some r" "I r" "head_tree r = Inr (h, t)"
    and com: "committed L I us' msg d2 d'"
    and st1: "stages L fd (order_left L d fd fn td te) us us1 d2"
    and st2: "stages L td (order_entered L d fd td te) us1 us' d2"
    and fd: "fd = [] \<or> clean fd" "ORDER_FILE_NAME \<notin> set (dir_pieces fd)"
    and td: "td = [] \<or> clean td" "ORDER_FILE_NAME \<notin> set (dir_pieces td)"
    and indep: "\<And>m dir. dir = fd \<or> dir = td \<Longrightarrow> apply_updates us m (order_file_path dir) = m (order_file_path dir)"
  shows "head_content L d' (order_file_path fd) =
      (case order_left L d fd fn td te of
         None \<Rightarrow> head_content L d (order_file_path fd) | Some es \<Rightarrow> index_content L es)"
    and "fd \<noteq> td \<Longrightarrow> head_content L d' (order_file_path td) =
      (case order_entered L d fd td te of
         None \<Rightarrow> head_content L d (order_file_path td) | Some es \<Rightarrow> index_content L es)"
proof -
  have keep: "head_content L d' q = head_content L d q"
    if "clean q" "apply_updates us' (head_blob L d) q = head_blob L d q" for q
    by (rule grows_committed_keeps [OF L g r com that])
  have fd_after: "apply_updates us' m (order_file_path fd) = apply_updates us1 m (order_file_path fd)" for m
  proof (cases "fd = td")
    case True
    then show ?thesis using st2 by (simp add: stages_def order_entered_def)
  next
    case False
    then have "\<not> under (order_file_path td) (order_file_path fd)" using indexes_unrelated [OF fd(2)] by blast
    then show ?thesis by (rule stages_elsewhere [OF st2])
  qed
  show "head_content L d' (order_file_path fd) =
      (case order_left L d fd fn td te of
         None \<Rightarrow> head_content L d (order_file_path fd) | Some es \<Rightarrow> index_content L es)"
  proof (cases "order_left L d fd fn td te")
    case None
    then have "us1 = us" using st1 by (simp add: stages_def)
    then have "apply_updates us' (head_blob L d) (order_file_path fd) = head_blob L d (order_file_path fd)"
      using fd_after indep by simp
    then show ?thesis using keep [OF clean_order_file_path [OF fd(1)]] None by simp
  next
    case (Some es)
    then show ?thesis
      using stages_index_value [OF com st1 [unfolded Some] fd(1) fd_after] by simp
  qed
  assume ne: "fd \<noteq> td"
  show "head_content L d' (order_file_path td) =
      (case order_entered L d fd td te of
         None \<Rightarrow> head_content L d (order_file_path td) | Some es \<Rightarrow> index_content L es)"
  proof (cases "order_entered L d fd td te")
    case None
    have "\<not> under (order_file_path fd) (order_file_path td)" using indexes_unrelated [OF td(2)] ne by blast
    moreover have "us' = us1" using None st2 by (simp add: stages_def)
    ultimately have "apply_updates us' (head_blob L d) (order_file_path td) = head_blob L d (order_file_path td)"
      using stages_elsewhere [OF st1] indep by simp
    then show ?thesis using keep [OF clean_order_file_path [OF td(1)]] None by simp
  next
    case (Some es)
    then show ?thesis using stages_index [OF com st2 [unfolded Some] td(1)] by simp
  qed
qed

lemma move_file_effect:
  assumes L: "git2_ok L I" and sound: "disk_sound I d"
    and p: "plain p" "split_parent p = (fd, fn)" and q: "plain q" "split_parent q = (td, tn)"
    and apart: "\<not> under p q" "\<not> under q p"
    and run: "move_file L tenant p q m an ae co d = (Inr (s, chs), d')"
  shows "head_content L d q = None" and "head_content L d' p = None"
    and "head_content L d' q = head_content L d p"
    and "clean x \<Longrightarrow> \<forall>y \<in> {p, q, order_file_path fd, order_file_path td}. \<not> under y x
      \<Longrightarrow> head_content L d' x = head_content L d x"
    and "head_content L d' (order_file_path fd) =
      (case order_left L d fd fn td tn of
         None \<Rightarrow> head_content L d (order_file_path fd) | Some es \<Rightarrow> index_content L es)"
    and "fd \<noteq> td \<Longrightarrow> head_content L d' (order_file_path td) =
      (case order_entered L d fd td tn of
         None \<Rightarrow> head_content L d (order_file_path td) | Some es \<Rightarrow> index_content L es)"
    and "\<exists>content. head_content L d p = Some content \<and>
      chs = Moved p q content # index_changes L fd (order_left L d fd fn td tn)
        @ index_changes L td (order_entered L d fd td tn)"
    and "clean x \<Longrightarrow> \<forall>y \<in> {order_file_path fd, order_file_path td}. \<not> under y x \<Longrightarrow> x \<noteq> q
      \<Longrightarrow> head_content L d' x = (if under p x then None else head_content L d x)"
proof -
  obtain r h t oid content d1 d2 ups us d3 coid where
    r: "open_tenant_repo L tenant d = Inr r" and t: "head_tree r = Inr (h, t)" and
    at: "blob_oid_in_tree L r t p = Some oid" "g_get_path L r t q = None" "r_blobs r oid = Some content" and
    rm: "wt_remove_file L co p d = (Inr (), d1)" and w: "wt_write L co q content d1 = (Inr (), d2)" and
    up: "stage_move_upkeep L r t [Remove p, Upsert q oid] fd fn td tn co d2 = (Inr (ups, us), d3)" and
    cu: "commit_updates L h t us (message_or m (''move: '' @ p @ arrow @ q)) an ae d3 = (Inr coid, d')" and
    chs: "chs = Moved p q content # ups"
    using run p(2) q(2) by (elim move_file_committed)
  note r = sound_open [OF L sound r]
  have g2: "grows I d d2"
    using transpD [OF grows_trans keepsD [OF grows_wt_remove_file rm] keepsD [OF grows_wt_write w]] .
  note g = transpD [OF grows_trans g2 keepsD [OF grows_stage_move_upkeep [OF L] up]]
  obtain us1 where st: "stages L fd (order_left L d fd fn td tn) [Remove p, Upsert q oid] us1 d3"
    "stages L td (order_entered L d fd td tn) us1 us d3"
    and ups: "ups = index_changes L fd (order_left L d fd fn td tn) @ index_changes L td (order_entered L d fd td tn)"
    using stage_move_upkeep_stages [OF L grows_sound [OF g2 sound] r(1) t up] by blast
  have clean: "clean p" "clean q" using p q by (simp_all add: plain_def)
  note dirs = split_clean_parent(2) [OF clean(1) p(2)] plain_split_parent [OF p]
    split_clean_parent(2) [OF clean(2) q(2)] plain_split_parent [OF q]
  have above: "\<not> under p (order_file_path dir) \<and> \<not> under q (order_file_path dir) \<and>
      \<not> under (order_file_path dir) p \<and> \<not> under (order_file_path dir) q"
    if "dir = fd \<or> dir = td" for dir
    using that plain_not_under_index [OF p(1)] plain_not_under_index [OF q(1)]
      index_under_sibling(1) [OF clean(1) p(2) plain_name [OF p]]
      index_under_sibling(1) [OF clean(2) q(2) plain_name [OF q]]
      not_above_index [OF p(1) clean(2) q(2) apart(1)] not_above_index [OF q(1) clean(1) p(2) apart(2)]
    by blast
  have base: "well_formed_updates [Remove p, Upsert q oid]"
    using apart clean by (simp add: well_formed_updates_def unrelated_def)
  have wf: "well_formed_updates us"
  proof (rule move_upkeep_well_formed [OF base st dirs])
    fix u dir assume "u \<in> set [Remove p, Upsert q oid]" and dir: "dir = fd \<or> dir = td"
    then have "update_path u = p \<or> update_path u = q" by auto
    then show "\<not> under (update_path u) (order_file_path dir) \<and> \<not> under (order_file_path dir) (update_path u)"
      using above [OF dir] by (elim disjE) simp_all
  qed
  note com = commit_updates_committed [OF L g r t wf cu]
  note elsewhere = move_upkeep_elsewhere [OF st]
  show "head_content L d q = None"
    using at(2) head_tree_blob(2) [OF L r t] by (simp add: blob_oid_in_tree_def)
  show "head_content L d' p = None"
    by (rule committed_removes [OF com clean(1)]) (use elsewhere above apart in auto)
  have content: "head_content L d p = Some content"
    using at r(1) t by (simp add: head_content_def head_blob_eq)
  obtain r3 where r3: "dk_git d3 = Some r3" "r_blobs r3 oid = Some content"
    using g r at(3) unfolding grows_def by (meson extends_blob)
  show "head_content L d' q = head_content L d p"
    unfolding content
    by (rule committed_sets [OF com clean(2) r3(1) _ r3(2)]) (use elsewhere above in auto)
  show "head_content L d' x = head_content L d x"
    if "clean x" "\<forall>y \<in> {p, q, order_file_path fd, order_file_path td}. \<not> under y x" for x
    by (rule grows_committed_keeps [OF L g r t com that(1)])
      (use that(2) elsewhere under_refl in auto)
  have indep: "apply_updates [Remove p, Upsert q oid] m (order_file_path dir) = m (order_file_path dir)"
    if "dir = fd \<or> dir = td" for m dir
    using above [OF that] under_refl by auto
  note indexes = move_upkeep_indexes [OF L g r t com st dirs indep]
  show "head_content L d' (order_file_path fd) =
      (case order_left L d fd fn td tn of
         None \<Rightarrow> head_content L d (order_file_path fd) | Some es \<Rightarrow> index_content L es)"
    by (rule indexes(1))
  show "fd \<noteq> td \<Longrightarrow> head_content L d' (order_file_path td) =
      (case order_entered L d fd td tn of
         None \<Rightarrow> head_content L d (order_file_path td) | Some es \<Rightarrow> index_content L es)"
    by (rule indexes(2))
  show "\<exists>content. head_content L d p = Some content \<and>
      chs = Moved p q content # index_changes L fd (order_left L d fd fn td tn)
        @ index_changes L td (order_entered L d fd td tn)"
    using content chs ups by simp
  show "head_content L d' x = (if under p x then None else head_content L d x)"
    if x: "clean x" "\<forall>y \<in> {order_file_path fd, order_file_path td}. \<not> under y x" "x \<noteq> q" for x
  proof (cases "under p x")
    case True
    then show ?thesis using committed_removes [OF com x(1)] elsewhere x(2,3) by auto
  next
    case False
    then show ?thesis using grows_committed_keeps [OF L g r t com x(1)] elsewhere x(2,3) by auto
  qed
qed



end
