(* ===== verification/Git_Ordering.thy ===== *)
theory Git_Ordering
  imports Git_Moves
begin

text \<open>
  What the order routes do: writing, repositioning and deleting a folder's index. The stored
  form is \<open>serde_json\<close>'s, a parameter: \<open>json_stores\<close> is its round trip on one order.
\<close>

definition json_stores :: "'o libs \<Rightarrow> string list \<Rightarrow> bool" where
  "json_stores L es \<longleftrightarrow>
     valid_utf8 (serialize (json_pretty_order L) es) \<and>
     parse (json_parse_order L) (serialize (json_pretty_order L) es) = Some es"

lemma stored_in_index_content:
  "head_content L d (order_file_path dir) = index_content L es \<Longrightarrow> es \<noteq> [] \<Longrightarrow> json_stores L es
     \<Longrightarrow> stored_in L d dir = Some es"
  by (simp add: stored_in_def index_content_def json_stores_def)

text \<open>One index staged and committed, the tail of the three operations.\<close>

definition index_written ::
  "'o libs \<Rightarrow> 'o \<Rightarrow> 'o \<Rightarrow> string \<Rightarrow> bool \<Rightarrow> string list \<Rightarrow> bool \<Rightarrow> 'o disk \<Rightarrow> file_change \<Rightarrow> 'o disk \<Rightarrow> bool"
where
  "index_written L h t dir existed es co d ch d' \<longleftrightarrow>
     (\<exists>us d1 msg an ae coid. stage_index L [] dir es existed co d = (Inr (ch, us), d1) \<and>
        commit_updates L h t us msg an ae d1 = (Inr coid, d'))"

lemma index_written_run:
  assumes "bind_act (stage_index L [] dir es existed co)
      (\<lambda>(change, us). bind_act (commit_updates L h t us msg an ae) (\<lambda>oid. act_ok (f oid change))) d = (Inr x, d')"
  shows "\<exists>ch oid. x = f oid ch \<and> index_written L h t dir existed es co d ch d'"
  using assms unfolding index_written_def
  by (elim bind_act_elims) (simp, blast)

lemma index_written_effect:
  assumes L: "git2_ok L I" and sound: "disk_sound I d"
    and r: "dk_git d = Some r" "I r" "head_tree r = Inr (h, t)" and dir: "dir = [] \<or> clean dir"
    and w: "index_written L h t dir existed es co d ch d'"
  shows "head_content L d' (order_file_path dir) = index_content L es"
    and "clean q \<Longrightarrow> \<not> under (order_file_path dir) q \<Longrightarrow> head_content L d' q = head_content L d q"
    and "ch = index_change L dir existed es"
proof -
  obtain us d1 msg an ae coid where
    st: "stage_index L [] dir es existed co d = (Inr (ch, us), d1)" and
    cu: "commit_updates L h t us msg an ae d1 = (Inr coid, d')"
    using w unfolding index_written_def by blast
  note stages = stage_index_stages [OF L sound st]
  have wf: "well_formed_updates us"
    by (rule stages_well_formed [OF stages(1) _ dir]) (simp_all add: well_formed_updates_def)
  have g: "grows I d d1" by (rule keepsD [OF grows_stage_index [OF L] st])
  note com = commit_updates_committed [OF L g r wf cu]
  show "head_content L d' (order_file_path dir) = index_content L es"
    by (rule stages_index [OF com stages(1) dir])
  show "head_content L d' q = head_content L d q" if "clean q" "\<not> under (order_file_path dir) q"
    by (rule grows_committed_keeps [OF L g r com that(1)])
      (use stages_elsewhere [OF stages(1) that(2)] in simp)
  show "ch = index_change L dir existed es" by (rule stages(2))
qed

lemma head_index:
  assumes "git2_ok L I" "dk_git d = Some r" "I r" "head_tree r = Inr (h, t)"
    "blob_oid_in_tree L r t p = Some oid" "g_hash_blob L c = Inr oid"
  shows "head_content L d p = Some c"
proof -
  obtain c' where c': "r_blobs r oid = Some c'"
    using assms(5) blob_present_rule [OF assms(1,3)]
    by (fastforce simp: blob_oid_in_tree_def split: option.splits if_splits)
  then have "c' = c" using hash_inj_rule [OF assms(1)] hash_rule [OF assms(1,3) c'] assms(6) by blast
  with c' show ?thesis using assms(2,4,5) by (simp add: head_content_def head_blob_def)
qed

section \<open>write_order\<close>

lemma write_order_run:
  assumes "write_order L tenant dir es m an ae co d = (Inr (s, change), d')"
  obtains r h t canonical where "open_tenant_repo L tenant d = Inr r" "head_tree r = Inr (h, t)"
    "directory_present L r t dir" "map_results (canonical_entry_of L r t dir) es = Inr canonical"
    "change = None \<and> d' = d \<and> (\<exists>oid. blob_oid_in_tree L r t (order_file_path dir) = Some oid \<and>
        g_hash_blob L (serialize (json_pretty_order L) canonical) = Inr oid) \<or>
     (\<exists>ch. change = Some ch \<and>
        index_written L h t dir (blob_oid_in_tree L r t (order_file_path dir) \<noteq> None) canonical co d ch d')"
  using assms [unfolded write_order_def Let_def]
proof (elim bind_act_elims, goal_cases)
  case (1 r e h t u canonical oid)
  have "change = None \<and> d' = d \<and> blob_oid_in_tree L r t (order_file_path dir) = Some oid \<or>
      (\<exists>ch. change = Some ch \<and>
        index_written L h t dir (blob_oid_in_tree L r t (order_file_path dir) \<noteq> None) canonical co d ch d')"
    using 1(2,7) by (auto simp: opened_Inr dest!: index_written_run split: if_splits)
  moreover have "g_hash_blob L (serialize (json_pretty_order L) canonical) = Inr oid"
    using 1(6) by (auto simp: git_result_def split: sum.splits)
  ultimately show ?case
    using 1(2-5) by (intro that [of r h t canonical]) (auto simp: opened_Inr)
qed

text \<open>The canonical spelling of an entry names the same thing, with a slash exactly on folders.\<close>

lemma canonical_entry_of_Inr:
  assumes "canonical_entry_of L r t dir entry = Inr c"
  shows "c = entry_name entry \<or> c = directory_entry (entry_name entry)"
  using assms by (auto simp: canonical_entry_of_def Let_def split: option.splits if_splits)

lemma map_results_names:
  assumes "map_results f xs = Inr ys" "\<And>x y. x \<in> set xs \<Longrightarrow> f x = Inr y \<Longrightarrow> g y = g x"
  shows "map g ys = map g xs"
  using assms by (induction xs arbitrary: ys) (auto simp: and_then_eq_Inr)

lemma canonical_names:
  assumes "map_results (canonical_entry_of L r t dir) es = Inr canonical"
    and "list_all (\<lambda>e. CHR ''/'' \<notin> set (entry_name e)) es"
  shows "map entry_name canonical = map entry_name es"
  by (rule map_results_names [OF assms(1)])
    (use assms(2) in \<open>auto dest!: canonical_entry_of_Inr simp: list_all_iff entry_name_flat\<close>)

text \<open>
  C13: writing an order for a folder stores exactly the submitted sequence: the index read back
  names the same entries in the same order (spelled canonically), no other path changes, and
  submitting the order already stored changes nothing.
\<close>

theorem write_order_stores:
  assumes L: "git2_ok L I" and sound: "disk_sound I d" and dir: "dir = [] \<or> clean dir"
    and valid: "validate_order es allow = Inr ()"
    and run: "write_order L tenant dir es m an ae co d = (Inr (s, change), d')"
  shows "\<exists>canonical.
      map entry_name canonical = map entry_name es \<and>
      head_content L d' (order_file_path dir) = Some (serialize (json_pretty_order L) canonical) \<and>
      (json_stores L canonical \<longrightarrow> stored_in L d' dir = Some canonical) \<and>
      (\<forall>q. clean q \<and> \<not> under (order_file_path dir) q \<longrightarrow> head_content L d' q = head_content L d q) \<and>
      (change = None \<longrightarrow> d' = d)"
proof -
  obtain r h t canonical where
    r: "open_tenant_repo L tenant d = Inr r" and t: "head_tree r = Inr (h, t)" and
    canonical: "map_results (canonical_entry_of L r t dir) es = Inr canonical" and
    outcome: "change = None \<and> d' = d \<and> (\<exists>oid. blob_oid_in_tree L r t (order_file_path dir) = Some oid \<and>
        g_hash_blob L (serialize (json_pretty_order L) canonical) = Inr oid) \<or>
      (\<exists>ch. change = Some ch \<and>
        index_written L h t dir (blob_oid_in_tree L r t (order_file_path dir) \<noteq> None) canonical co d ch d')"
    using run by (rule write_order_run)
  note r = sound_open [OF L sound r]
  have valid': "es \<noteq> []" "list_all (\<lambda>e. CHR ''/'' \<notin> set (entry_name e)) es"
    using valid by (auto simp: validate_order_def validate_entries_ok list_all_iff well_formed_entry_def
        split: if_splits)
  have names: "map entry_name canonical = map entry_name es"
    by (rule canonical_names [OF canonical valid'(2)])
  then have ne: "canonical \<noteq> []" using valid'(1) by auto
  have content: "head_content L d' (order_file_path dir) = Some (serialize (json_pretty_order L) canonical) \<and>
      (\<forall>q. clean q \<and> \<not> under (order_file_path dir) q \<longrightarrow> head_content L d' q = head_content L d q) \<and>
      (change = None \<longrightarrow> d' = d)"
    using outcome
  proof (elim disjE exE conjE)
    fix oid assume "change = None" "d' = d" "blob_oid_in_tree L r t (order_file_path dir) = Some oid"
      "g_hash_blob L (serialize (json_pretty_order L) canonical) = Inr oid"
    with head_index [OF L r t this(3,4)] show ?thesis by simp
  next
    fix ch assume ch: "change = Some ch" and
      w: "index_written L h t dir (blob_oid_in_tree L r t (order_file_path dir) \<noteq> None) canonical co d ch d'"
    note effect = index_written_effect [OF L sound r t dir w]
    show ?thesis using effect(1) effect(2) ch ne by (simp add: index_content_def)
  qed
  then have "json_stores L canonical \<longrightarrow> stored_in L d' dir = Some canonical"
    by (simp add: stored_in_def json_stores_def)
  with names content show ?thesis by blast
qed

theorem write_order_stores_witness:
  "\<exists>canonical. map entry_name canonical = [''n.md''] \<and>
     head_content sample_libs
       (snd (write_order sample_libs ''t'' ''notes'' [''n.md''] None ''Ann'' ''a@x'' True demo_disk))
       ''notes/.order.json'' = Some (serialize (json_pretty_order sample_libs) canonical)"
proof -
  let ?m = "write_order sample_libs ''t'' ''notes'' [''n.md''] None ''Ann'' ''a@x'' True demo_disk"
  have run: "?m = (Inr (''commit reorder: notes'',
      Some (index_change sample_libs ''notes'' False [''n.md''])), snd ?m)"
    by (rule prod_eqI, simp_all only: fst_conv snd_conv, code_simp)
  have dir: "''notes'' = [] \<or> clean ''notes''" and valid: "validate_order [''n.md''] False = Inr ()"
    and path: "order_file_path ''notes'' = ''notes/.order.json''"
    and name: "entry_name ''n.md'' = ''n.md''" by code_simp+
  from write_order_stores [OF sample_ok demo_disk_sound dir valid run] show ?thesis
    unfolding path list.map name by (elim exE conjE, intro exI conjI)
qed

section \<open>delete_order\<close>

text \<open>
  C17: deleting a folder's order removes its index and nothing else, and answers \<open>404\<close> with the
  tenant untouched when HEAD holds no index there.
\<close>

theorem delete_order_removes:
  assumes L: "git2_ok L I" and sound: "disk_sound I d" and dir: "dir = [] \<or> clean dir"
    and run: "delete_order L tenant dir m an ae co d = (x, d')"
  shows "case x of
      Inr (s, ch) \<Rightarrow>
        head_content L d (order_file_path dir) \<noteq> None \<and>
        head_content L d' (order_file_path dir) = None \<and> stored_in L d' dir = None \<and>
        (\<forall>q. clean q \<and> \<not> under (order_file_path dir) q \<longrightarrow> head_content L d' q = head_content L d q) \<and>
        ch = Deleted (order_file_path dir)
    | Inl e \<Rightarrow>
        (\<forall>r h t. open_tenant_repo L tenant d = Inr r \<and> head_tree r = Inr (h, t) \<and>
           head_content L d (order_file_path dir) = None \<longrightarrow>
           d' = d \<and> status_of e = 404)"
proof (cases x)
  case (Inr y)
  obtain s ch where y: "y = (s, ch)" by (cases y)
  obtain r h t where r: "open_tenant_repo L tenant d = Inr r" and t: "head_tree r = Inr (h, t)"
    and at: "blob_oid_in_tree L r t (order_file_path dir) \<noteq> None"
    and w: "index_written L h t dir True [] co d ch d'"
    using run [unfolded delete_order_def Inr y]
    by (elim bind_act_elims) (auto simp: opened_Inr dest!: index_written_run split: if_splits)
  note r = sound_open [OF L sound r]
  note effect = index_written_effect [OF L sound r t dir w]
  have "head_content L d (order_file_path dir) \<noteq> None"
    using at head_tree_blob(2) [OF L r t] by simp
  then show ?thesis
    using effect(1,3) effect(2) Inr y
    by (simp add: index_content_def index_change_def stored_in_def)
next
  case (Inl e)
  have "d' = d \<and> status_of e = 404"
    if r: "open_tenant_repo L tenant d = Inr r" and t: "head_tree r = Inr (h, t)"
      and none: "head_content L d (order_file_path dir) = None" for r h t
  proof -
    have "blob_oid_in_tree L r t (order_file_path dir) = None"
      using none head_tree_blob(2) [OF L sound_open [OF L sound r] t] by simp
    with run r t Inl show ?thesis
      by (auto simp: delete_order_def bind_act_def opened_def)
  qed
  with Inl show ?thesis by simp
qed

theorem delete_order_removes_witness:
  "head_content sample_libs
     (snd (delete_order sample_libs ''t'' ''docs'' None ''Ann'' ''a@x'' True demo_disk))
     ''docs/.order.json'' = None"
proof -
  let ?m = "delete_order sample_libs ''t'' ''docs'' None ''Ann'' ''a@x'' True demo_disk"
  have run: "?m = (Inr (''commit reorder: docs'', Deleted ''docs/.order.json''), snd ?m)"
    by (rule prod_eqI, simp_all only: fst_conv snd_conv, code_simp)
  have dir: "''docs'' = [] \<or> clean ''docs''"
    and path: "order_file_path ''docs'' = ''docs/.order.json''" by code_simp+
  from delete_order_removes [OF sample_ok demo_disk_sound dir run] show ?thesis
    unfolding path by simp
qed

section \<open>reorder_entry\<close>

lemma reorder_entry_run:
  assumes "reorder_entry L tenant p pos di hid pre m an ae co d = (Inr (s, change), d')"
    and sp: "split_parent p = (dir, name)"
  obtains r h t entry rendered entries where
    "open_tenant_repo L tenant d = Inr r" "head_tree r = Inr (h, t)"
    "entry = name \<or> entry = directory_entry name"
    "(case pos of
        At _ \<Rightarrow> materialized_order L r t dir (case stored_order L r t dir of None \<Rightarrow> [] | Some es \<Rightarrow> es) di hid
      | Unlisted \<Rightarrow> Inr (case stored_order L r t dir of None \<Rightarrow> [] | Some es \<Rightarrow> es)) = Inr rendered"
    "entries = (case pos of
        At i \<Rightarrow> insert_at (min i (length (filter (\<lambda>e. entry_name e \<noteq> name) rendered))) entry
          (filter (\<lambda>e. entry_name e \<noteq> name) rendered)
      | Unlisted \<Rightarrow> filter (\<lambda>e. entry_name e \<noteq> name) rendered)"
    "change = None \<and> d' = d \<and>
       (if entries = [] then blob_oid_in_tree L r t (order_file_path dir) = None
        else \<exists>oid. blob_oid_in_tree L r t (order_file_path dir) = Some oid \<and>
               g_hash_blob L (serialize (json_pretty_order L) entries) = Inr oid) \<or>
     (\<exists>ch. change = Some ch \<and>
        index_written L h t dir (blob_oid_in_tree L r t (order_file_path dir) \<noteq> None) entries co d ch d')"
proof -
  have no: "\<not> is_order_file p" using assms by (auto simp: reorder_entry_def)
  show ?thesis
    using assms(1) [unfolded reorder_entry_def if_not_P [OF no] sp Let_def prod.case]
  proof (elim bind_act_elims, goal_cases)
    case (1 r e h t entry rendered unchanged)
    let ?others = "filter (\<lambda>e. entry_name e \<noteq> name) rendered"
    let ?entries = "case pos of At i \<Rightarrow> insert_at (min i (length ?others)) entry ?others | Unlisted \<Rightarrow> ?others"
    have e: "e = d" "open_tenant_repo L tenant d = Inr r" using 1(1) by (auto simp: opened_Inr)
    have entry: "entry = name \<or> entry = directory_entry name"
      using 1(3) by (auto split: option.splits if_splits)
    have tail: "change = None \<and> d' = d \<and> unchanged \<or>
        (\<exists>ch. change = Some ch \<and>
          index_written L h t dir (blob_oid_in_tree L r t (order_file_path dir) \<noteq> None) ?entries co d ch d')"
      using 1(6) e by (auto dest!: index_written_run split: if_splits)
    have same: "(if ?entries = [] then blob_oid_in_tree L r t (order_file_path dir) = None
        else \<exists>oid. blob_oid_in_tree L r t (order_file_path dir) = Some oid \<and>
               g_hash_blob L (serialize (json_pretty_order L) ?entries) = Inr oid)" if unchanged
      using 1(5) that by (auto simp: and_then_eq_Inr git_result_def split: if_splits sum.splits)
    show ?case
    proof (rule that [OF e(2) 1(2) entry 1(4) refl])
      show "change = None \<and> d' = d \<and>
          (if ?entries = [] then blob_oid_in_tree L r t (order_file_path dir) = None
           else \<exists>oid. blob_oid_in_tree L r t (order_file_path dir) = Some oid \<and>
                  g_hash_blob L (serialize (json_pretty_order L) ?entries) = Inr oid) \<or>
        (\<exists>ch. change = Some ch \<and>
          index_written L h t dir (blob_oid_in_tree L r t (order_file_path dir) \<noteq> None) ?entries co d ch d')"
        using tail same by (elim disjE conjE) (intro disjI1 conjI, assumption+, intro disjI2)
    qed
  qed
qed

lemma position_of_insert_at:
  assumes "P x" "\<forall>y \<in> set xs. \<not> P y" "i \<le> length xs"
  shows "position_of P (insert_at i x xs) = Some i"
  using assms by (auto simp: position_of_Some insert_at_def nth_append)

lemma length_insert_at: "length (insert_at i x xs) = Suc (length xs)"
  by (simp add: insert_at_def)

definition stored_or_empty :: "'o libs \<Rightarrow> 'o disk \<Rightarrow> string \<Rightarrow> string list" where
  "stored_or_empty L d dir = (case stored_in L d dir of None \<Rightarrow> [] | Some es \<Rightarrow> es)"

text \<open>
  After a reposition the folder's index is the sequence the caller was shown, with the entry
  taken out of it and put back at the requested slot, clamped to the tail; the other entries keep
  their relative order. Asked to be unlisted, the entry is dropped from the stored order and
  nothing is materialised. No other path changes, and asking for the state the index is already
  in changes nothing.
\<close>

theorem reorder_entry_positions:
  assumes L: "git2_ok L I" and sound: "disk_sound I d" and p: "clean p" "split_parent p = (dir, name)"
    and run: "reorder_entry L tenant p pos di hid pre m an ae co d = (Inr (s, change), d')"
  shows "\<exists>order.
      head_content L d' (order_file_path dir) = index_content L order \<and>
      (case pos of
         At i \<Rightarrow>
           position_of (\<lambda>e. entry_name e = name) order = Some (min i (length order - 1)) \<and>
           (\<exists>r h t rendered. dk_git d = Some r \<and> head_tree r = Inr (h, t) \<and>
              materialized_order L r t dir (stored_or_empty L d dir) di hid = Inr rendered \<and>
              filter (\<lambda>e. entry_name e \<noteq> name) order = filter (\<lambda>e. entry_name e \<noteq> name) rendered)
       | Unlisted \<Rightarrow> order = filter (\<lambda>e. entry_name e \<noteq> name) (stored_or_empty L d dir)) \<and>
      (\<forall>q. clean q \<and> \<not> under (order_file_path dir) q \<longrightarrow> head_content L d' q = head_content L d q) \<and>
      (change = None \<longrightarrow> d' = d)"
proof -
  obtain r h t entry rendered entries where
    r: "open_tenant_repo L tenant d = Inr r" and t: "head_tree r = Inr (h, t)" and
    entry: "entry = name \<or> entry = directory_entry name" and
    rendered: "(case pos of
        At _ \<Rightarrow> materialized_order L r t dir (case stored_order L r t dir of None \<Rightarrow> [] | Some es \<Rightarrow> es) di hid
      | Unlisted \<Rightarrow> Inr (case stored_order L r t dir of None \<Rightarrow> [] | Some es \<Rightarrow> es)) = Inr rendered" and
    entries: "entries = (case pos of
        At i \<Rightarrow> insert_at (min i (length (filter (\<lambda>e. entry_name e \<noteq> name) rendered))) entry
          (filter (\<lambda>e. entry_name e \<noteq> name) rendered)
      | Unlisted \<Rightarrow> filter (\<lambda>e. entry_name e \<noteq> name) rendered)" and
    outcome: "change = None \<and> d' = d \<and>
       (if entries = [] then blob_oid_in_tree L r t (order_file_path dir) = None
        else \<exists>oid. blob_oid_in_tree L r t (order_file_path dir) = Some oid \<and>
               g_hash_blob L (serialize (json_pretty_order L) entries) = Inr oid) \<or>
     (\<exists>ch. change = Some ch \<and>
        index_written L h t dir (blob_oid_in_tree L r t (order_file_path dir) \<noteq> None) entries co d ch d')"
    using run p(2) by (rule reorder_entry_run)
  note r = sound_open [OF L sound r]
  have stored: "(case stored_order L r t dir of None \<Rightarrow> [] | Some es \<Rightarrow> es) = stored_or_empty L d dir"
    by (simp add: stored_or_empty_def stored_order_head [OF r(1) t])
  note dir = split_clean_parent(2) [OF p]
  have content: "head_content L d' (order_file_path dir) = index_content L entries \<and>
      (\<forall>q. clean q \<and> \<not> under (order_file_path dir) q \<longrightarrow> head_content L d' q = head_content L d q) \<and>
      (change = None \<longrightarrow> d' = d)"
    using outcome
  proof (elim disjE exE conjE)
    assume "change = None" "d' = d" and
      same: "if entries = [] then blob_oid_in_tree L r t (order_file_path dir) = None
        else \<exists>oid. blob_oid_in_tree L r t (order_file_path dir) = Some oid \<and>
               g_hash_blob L (serialize (json_pretty_order L) entries) = Inr oid"
    have "head_content L d (order_file_path dir) = index_content L entries"
    proof (cases "entries = []")
      case True
      then show ?thesis using same head_tree_blob(2) [OF L r t] by (simp add: index_content_def)
    next
      case False
      then show ?thesis using same head_index [OF L r t] by (auto simp: index_content_def)
    qed
    with \<open>d' = d\<close> show ?thesis by simp
  next
    fix ch assume ch: "change = Some ch" and
      w: "index_written L h t dir (blob_oid_in_tree L r t (order_file_path dir) \<noteq> None) entries co d ch d'"
    note effect = index_written_effect [OF L sound r t dir w]
    show ?thesis using effect(1) effect(2) ch by simp
  qed
  moreover have "case pos of
         At i \<Rightarrow>
           position_of (\<lambda>e. entry_name e = name) entries = Some (min i (length entries - 1)) \<and>
           (\<exists>r h t rendered. dk_git d = Some r \<and> head_tree r = Inr (h, t) \<and>
              materialized_order L r t dir (stored_or_empty L d dir) di hid = Inr rendered \<and>
              filter (\<lambda>e. entry_name e \<noteq> name) entries = filter (\<lambda>e. entry_name e \<noteq> name) rendered)
       | Unlisted \<Rightarrow> entries = filter (\<lambda>e. entry_name e \<noteq> name) (stored_or_empty L d dir)"
  proof (cases pos)
    case (At i)
    let ?others = "filter (\<lambda>e. entry_name e \<noteq> name) rendered"
    have name: "entry_name entry = name"
      using entry split_parent_leaf [OF p(2)] by (auto simp: entry_name_flat)
    have es: "entries = insert_at (min i (length ?others)) entry ?others" using entries At by simp
    have "position_of (\<lambda>e. entry_name e = name) entries = Some (min i (length entries - 1))"
      unfolding es by (subst position_of_insert_at) (auto simp: name length_insert_at)
    moreover have "filter (\<lambda>e. entry_name e \<noteq> name) entries = filter (\<lambda>e. entry_name e \<noteq> name) rendered"
      unfolding es by (subst filter_insert_at) (simp_all add: name)
    moreover have "materialized_order L r t dir (stored_or_empty L d dir) di hid = Inr rendered"
      using rendered At by (simp add: stored)
    ultimately show ?thesis using r(1) t At by simp
  next
    case Unlisted
    then show ?thesis using rendered entries by (simp add: stored)
  qed
  ultimately show ?thesis by blast
qed

theorem reorder_entry_positions_witness:
  "\<exists>order. head_content sample_libs
       (snd (reorder_entry sample_libs ''t'' ''docs/a.md'' (At 0) None False False None ''Ann'' ''a@x'' True demo_disk))
       ''docs/.order.json'' = index_content sample_libs order \<and>
     position_of (\<lambda>e. entry_name e = ''a.md'') order = Some (min 0 (length order - 1))"
proof -
  let ?m = "reorder_entry sample_libs ''t'' ''docs/a.md'' (At 0) None False False None ''Ann'' ''a@x'' True demo_disk"
  have run: "?m = (Inr (''commit reorder: docs/a.md'',
      Some (index_change sample_libs ''docs'' True [''a.md'', ''b.md''])), snd ?m)"
    by (rule prod_eqI, simp_all only: fst_conv snd_conv, code_simp)
  have p: "clean ''docs/a.md''" "split_parent ''docs/a.md'' = (''docs'', ''a.md'')"
    and path: "order_file_path ''docs'' = ''docs/.order.json''" by code_simp+
  from reorder_entry_positions [OF sample_ok demo_disk_sound p run] show ?thesis
    unfolding path order_position.case by (elim exE conjE, intro exI conjI)
qed

section \<open>Materialised orders\<close>

definition listed_at :: "string list \<Rightarrow> string \<Rightarrow> nat option" where
  "listed_at stored e = position_of (\<lambda>x. entry_name x = entry_name e) stored"

text \<open>
  Materialising a folder's order neither loses nor invents an entry. The result is a
  rearrangement of the folder's own entries (hidden ones only when allowed or named by the
  index); entries the index names come in the index's order; the others keep the folder's
  ordinary order and stand in one block, before a named entry exactly when the default index is
  not behind that entry's.
\<close>

theorem materialized_order_rearranges:
  assumes "materialized_order L r t dir stored di hid = Inr order"
  shows "\<exists>entries. directory_entries L r t dir = Inr entries \<and>
      mset order = mset (filter (\<lambda>e. hid \<or> \<not> is_hidden e \<or> listed_at stored e \<noteq> None) entries) \<and>
      filter (\<lambda>e. listed_at stored e = None) order =
        filter (\<lambda>e. (hid \<or> \<not> is_hidden e) \<and> listed_at stored e = None) entries \<and>
      (\<forall>i < length order. \<forall>j < length order. \<forall>a b.
         listed_at stored (order ! i) = Some a \<and> listed_at stored (order ! j) = Some b \<and> a < b \<longrightarrow> i < j) \<and>
      (\<forall>i < length order. \<forall>j < length order. \<forall>b.
         listed_at stored (order ! i) = None \<and> listed_at stored (order ! j) = Some b \<longrightarrow>
         (i < j \<longleftrightarrow> default_rank \<lparr>implicit_default_index = di\<rparr> \<le> int b))"
proof -
  let ?ranks = "order_ranks stored" and ?opts = "\<lparr>implicit_default_index = di\<rparr>"
  let ?rank = "\<lambda>e. order_rank ?ranks (entry_name e) ?opts"
  obtain entries where entries: "directory_entries L r t dir = Inr entries"
    and order: "order = sort_key ?rank (if hid then entries
        else filter (\<lambda>e. \<not> is_hidden e \<or> ?ranks (entry_name e) \<noteq> None) entries)"
    using assms by (auto simp: materialized_order_def and_then_eq_Inr Let_def)
  have ranks: "?ranks (entry_name e) = map_option int (listed_at stored e)" for e
    by (simp add: order_ranks_eq listed_at_def)
  define kept where "kept = filter (\<lambda>e. hid \<or> \<not> is_hidden e \<or> listed_at stored e \<noteq> None) entries"
  have order: "order = sort_key ?rank kept"
    unfolding order kept_def by (cases hid) (simp_all add: ranks)
  have len: "length order = length kept" by (simp add: order)
  have "filter (\<lambda>e. listed_at stored e = None) order = filter (\<lambda>e. listed_at stored e = None) kept"
    using by_entry.unlisted_keep_order [of ?ranks ?opts kept] by (simp add: order ranks)
  also have "\<dots> = filter (\<lambda>e. (hid \<or> \<not> is_hidden e) \<and> listed_at stored e = None) entries"
    by (auto simp: kept_def intro: filter_cong)
  finally have unlisted: "filter (\<lambda>e. listed_at stored e = None) order =
      filter (\<lambda>e. (hid \<or> \<not> is_hidden e) \<and> listed_at stored e = None) entries" .
  have listed: "i < j" if "i < length order" "j < length order"
    "listed_at stored (order ! i) = Some a" "listed_at stored (order ! j) = Some b" "a < b" for i j a b
    using by_entry.listed_in_index_order [of i kept j ?ranks ?opts "int a" "int b"] that
    by (simp add: ranks order)
  have block: "i < j \<longleftrightarrow> default_rank ?opts \<le> int b" if "i < length order" "j < length order"
    "listed_at stored (order ! i) = None" "listed_at stored (order ! j) = Some b" for i j b
    using by_entry.unlisted_before_listed_iff [of i kept j ?ranks ?opts "int b"] that
    by (simp add: ranks order)
  have "mset order = mset kept" by (simp add: order)
  then show ?thesis using entries unlisted listed block unfolding kept_def by blast
qed

theorem materialized_order_rearranges_witness:
  "\<exists>entries. directory_entries sample_libs (the (dk_git demo_disk))
       (GTree [(''a.md'', GBlob ''one''), (''b.md'', GBlob ''two''), (''c'', GTree [])]) [] = Inr entries \<and>
     mset [''b.md'', ''c/'', ''a.md''] =
       mset (filter (\<lambda>e. False \<or> \<not> is_hidden e \<or> listed_at [''b.md''] e \<noteq> None) entries)"
proof -
  have "materialized_order sample_libs (the (dk_git demo_disk))
      (GTree [(''a.md'', GBlob ''one''), (''b.md'', GBlob ''two''), (''c'', GTree [])]) [] [''b.md''] None False
    = Inr [''b.md'', ''c/'', ''a.md'']"
    by code_simp
  from materialized_order_rearranges [OF this] show ?thesis
    by (elim exE conjE, intro exI conjI)
qed

end
