(* ===== verification/Git_Walk.thy ===== *)
theory Git_Walk
  imports Git_Laws
begin

text \<open>
  Tree walks with pruning, the collectors of \<open>GitFiles\<close> that run on them, and the nested tree a
  listing renders (\<open>TreeNode\<close>, \<open>GitUtils::build_tree\<close>).

  A walk is the library's pre-order sequence of visits; a callback answering \<open>Skip\<close> leaves out
  the visits below the entry it skipped, which are the ones that follow it at a greater depth.
\<close>

section \<open>The walk\<close>

type_synonym 'o visit = "string \<times> 'o tree_entry"

definition slashes :: "string \<Rightarrow> nat" where
  "slashes root = length (filter (\<lambda>c. c = CHR ''/'') root)"

definition entry_depth :: "string \<Rightarrow> nat" where
  "entry_depth root = slashes root + 1"

definition below_visit :: "'o visit \<Rightarrow> 'o visit \<Rightarrow> bool" where
  "below_visit v w \<longleftrightarrow> slashes (fst v) < slashes (fst w)"

function run_walk :: "('s \<Rightarrow> 'o visit \<Rightarrow> 's \<times> bool) \<Rightarrow> 's \<Rightarrow> 'o visit list \<Rightarrow> 's" where
  "run_walk f s [] = s"
| "run_walk f s (v # vs) =
     (let (s', skip) = f s v in
      run_walk f s' (if skip then dropWhile (below_visit v) vs else vs))"
  by pat_completeness auto
termination
  by (relation "measure (\<lambda>(f, s, vs). length vs)") (auto simp: le_imp_less_Suc length_dropWhile_le)

definition hidden_entry :: "'o tree_entry \<Rightarrow> bool" where
  "hidden_entry e = (case te_name e of Some n \<Rightarrow> starts_with n ''.'' | None \<Rightarrow> False)"

definition name_or_empty :: "'o tree_entry \<Rightarrow> string" where
  "name_or_empty e = (case te_name e of Some n \<Rightarrow> n | None \<Rightarrow> [])"

definition at_limit :: "nat option \<Rightarrow> string \<Rightarrow> bool" where
  "at_limit max_depth root = (case max_depth of Some m \<Rightarrow> m \<le> entry_depth root | None \<Rightarrow> False)"

section \<open>Collectors\<close>

fun flat_step :: "nat option \<Rightarrow> bool \<Rightarrow> string list \<Rightarrow> 'o visit \<Rightarrow> string list \<times> bool" where
  "flat_step max_depth include_hidden flat (root, e) =
     (if \<not> include_hidden \<and> hidden_entry e then (flat, te_kind e = Tree)
      else if te_kind e = Tree then (flat, at_limit max_depth root)
      else if te_kind e = Blob \<and> name_or_empty e \<noteq> ORDER_FILE_NAME
      then (flat @ [root @ name_or_empty e], False)
      else (flat, False))"

definition collect_flat_files ::
  "'o libs \<Rightarrow> 'o repo \<Rightarrow> 'o \<Rightarrow> nat option \<Rightarrow> bool \<Rightarrow> string list app_result" where
  "collect_flat_files L r tree max_depth include_hidden =
     and_then (git_result (g_walk L r tree)) (\<lambda>visits.
       Inr (run_walk (flat_step max_depth include_hidden) [] visits))"

fun stub_step ::
  "nat option \<Rightarrow> bool \<Rightarrow> string list \<times> string list \<Rightarrow> 'o visit \<Rightarrow> (string list \<times> string list) \<times> bool"
where
  "stub_step max_depth include_hidden (flat, stubs) (root, e) =
     (if \<not> include_hidden \<and> hidden_entry e then ((flat, stubs), te_kind e = Tree)
      else if te_kind e = Tree then
        (if at_limit max_depth root then ((flat, stubs @ [root @ name_or_empty e]), True)
         else ((flat, stubs), False))
      else if te_kind e \<noteq> Blob then ((flat, stubs), False)
      else if name_or_empty e = ORDER_FILE_NAME then ((flat, stubs), False)
      else ((flat @ [root @ name_or_empty e], stubs), False))"

definition collect_flat_with_stubs ::
  "'o libs \<Rightarrow> 'o repo \<Rightarrow> 'o \<Rightarrow> nat option \<Rightarrow> bool \<Rightarrow> (string list \<times> string list) app_result" where
  "collect_flat_with_stubs L r subtree max_depth include_hidden =
     and_then (git_result (g_walk L r subtree)) (\<lambda>visits.
       Inr (run_walk (stub_step max_depth include_hidden) ([], []) visits))"

record file_counts =
  fc_files :: nat
  fc_directories :: nat

definition extension_counted :: "string list option \<Rightarrow> 'o tree_entry \<Rightarrow> bool" where
  "extension_counted restrict e =
     (case restrict of
        None \<Rightarrow> True
      | Some allowed \<Rightarrow>
          (case Option.bind (te_name e) path_extension of
             None \<Rightarrow> False
           | Some ext \<Rightarrow> list_ex (\<lambda>entry. eq_ignore_ascii_case entry ext) allowed))"

fun count_step ::
  "nat option \<Rightarrow> bool \<Rightarrow> string list option \<Rightarrow> file_counts \<Rightarrow> 'o visit \<Rightarrow> file_counts \<times> bool" where
  "count_step max_depth include_hidden restrict counts (root, e) =
     (if \<not> include_hidden \<and> hidden_entry e then (counts, te_kind e = Tree)
      else (case te_kind e of
          Tree \<Rightarrow>
            (counts\<lparr>fc_directories := fc_directories counts + 1\<rparr>, at_limit max_depth root)
        | Blob \<Rightarrow>
            (if te_name e = Some ORDER_FILE_NAME then (counts, False)
             else if extension_counted restrict e
             then (counts\<lparr>fc_files := fc_files counts + 1\<rparr>, False)
             else (counts, False))
        | OtherKind \<Rightarrow> (counts, False)))"

text \<open>The tree a listing is rooted at; \<open>None\<close> where the prefix names no folder.\<close>

definition listing_root ::
  "'o libs \<Rightarrow> 'o repo \<Rightarrow> 'o \<Rightarrow> string option \<Rightarrow> 'o option" where
  "listing_root L r htree path_prefix =
     (case path_prefix of
        None \<Rightarrow> Some htree
      | Some scope \<Rightarrow>
          if scope = [] then Some htree
          else (case g_get_path L r htree scope of
              None \<Rightarrow> None
            | Some e \<Rightarrow> (case find_tree r (te_id e) of Inl _ \<Rightarrow> None | Inr _ \<Rightarrow> Some (te_id e))))"

definition count_files ::
  "'o libs \<Rightarrow> 'o disk \<Rightarrow> string \<Rightarrow> string option \<Rightarrow> nat option \<Rightarrow> bool \<Rightarrow> string list option
   \<Rightarrow> file_counts app_result" where
  "count_files L d tenant path_prefix maximum_depth include_hidden restrict =
     and_then (open_tenant_repo L tenant d) (\<lambda>r.
     and_then (head_tree r) (\<lambda>(_, htree).
       (case listing_root L r htree path_prefix of
          None \<Rightarrow> Inr \<lparr>fc_files = 0, fc_directories = 0\<rparr>
        | Some walk_tree \<Rightarrow>
            and_then (git_result (g_walk L r walk_tree)) (\<lambda>visits.
              Inr (run_walk (count_step maximum_depth include_hidden restrict)
                \<lparr>fc_files = 0, fc_directories = 0\<rparr> visits)))))"

definition list_all_file_paths ::
  "'o libs \<Rightarrow> 'o disk \<Rightarrow> string \<Rightarrow> string option \<Rightarrow> bool \<Rightarrow> (string \<times> string list) app_result" where
  "list_all_file_paths L d tenant path_prefix include_hidden =
     and_then (open_tenant_repo L tenant d) (\<lambda>r.
     and_then (head_tree r) (\<lambda>(h, htree).
       (case listing_root L r htree path_prefix of
          None \<Rightarrow> Inr (g_oid_string L h, [])
        | Some walk_tree \<Rightarrow>
            and_then (collect_flat_files L r walk_tree None include_hidden) (\<lambda>flat.
              Inr (g_oid_string L h,
                (case path_prefix of
                   None \<Rightarrow> flat
                 | Some scope \<Rightarrow>
                     if scope = [] then flat else map (\<lambda>leaf. scope @ ''/'' @ leaf) flat))))))"

fun order_step :: "bool \<Rightarrow> string list \<Rightarrow> 'o visit \<Rightarrow> string list \<times> bool" where
  "order_step include_hidden directories (root, e) =
     (if te_kind e = Tree then (directories, \<not> include_hidden \<and> hidden_entry e)
      else if te_kind e = Blob \<and> te_name e = Some ORDER_FILE_NAME
      then (directories @ [trim_end CHR ''/'' root], False)
      else (directories, False))"

definition list_order_directories ::
  "'o libs \<Rightarrow> 'o disk \<Rightarrow> string \<Rightarrow> string option \<Rightarrow> bool \<Rightarrow> string list app_result" where
  "list_order_directories L d tenant path_prefix include_hidden =
     and_then (open_tenant_repo L tenant d) (\<lambda>r.
     and_then (head_tree r) (\<lambda>(_, htree).
       (case listing_root L r htree path_prefix of
          None \<Rightarrow> Inr []
        | Some walk_tree \<Rightarrow>
            and_then (git_result (g_walk L r walk_tree)) (\<lambda>visits.
              (let directories = run_walk (order_step include_hidden) [] visits in
               Inr (case path_prefix of
                   None \<Rightarrow> directories
                 | Some scope \<Rightarrow>
                     if scope = [] then directories
                     else map (\<lambda>dir. if dir = [] then scope else scope @ ''/'' @ dir)
                       directories))))))"

section \<open>The rendered tree\<close>

datatype tree_node =
    FileNode string "int option"
  | DirectoryNode string "tree_node list" "int option"

fun node_name :: "tree_node \<Rightarrow> string" where
  "node_name (FileNode name _) = name"
| "node_name (DirectoryNode name _ _) = name"

fun set_position :: "int \<Rightarrow> tree_node \<Rightarrow> tree_node" where
  "set_position p (FileNode name _) = FileNode name (Some p)"
| "set_position p (DirectoryNode name children _) = DirectoryNode name children (Some p)"

text \<open>\<open>BTreeMap<String, NodeBuilder>\<close>: entries sorted by name, each name once.\<close>

datatype node_builder = NFile | NDir "(string \<times> node_builder) list"

fun bt_insert :: "string \<Rightarrow> 'v \<Rightarrow> (string \<times> 'v) list \<Rightarrow> (string \<times> 'v) list" where
  "bt_insert k v [] = [(k, v)]"
| "bt_insert k v ((j, w) # m) =
     (if k < j then (k, v) # (j, w) # m
      else if k = j then (k, v) # m
      else (j, w) # bt_insert k v m)"

definition bt_or_dir :: "string \<Rightarrow> (string \<times> node_builder) list \<Rightarrow> (string \<times> node_builder) list" where
  "bt_or_dir k m = (case map_of m k of None \<Rightarrow> bt_insert k (NDir []) m | Some _ \<Rightarrow> m)"

fun insert_path ::
  "nat option \<Rightarrow> nat \<Rightarrow> string list \<Rightarrow> (string \<times> node_builder) list \<Rightarrow> (string \<times> node_builder) list"
where
  "insert_path max_depth depth [] dir = dir"
| "insert_path max_depth depth [name] dir = bt_insert name NFile dir"
| "insert_path max_depth depth (name # rest) dir =
     (if (case max_depth of Some m \<Rightarrow> m \<le> depth | None \<Rightarrow> False) then bt_or_dir name dir
      else (case map_of dir name of
          None \<Rightarrow> bt_insert name (NDir (insert_path max_depth (depth + 1) rest [])) dir
        | Some (NDir children) \<Rightarrow>
            bt_insert name (NDir (insert_path max_depth (depth + 1) rest children)) dir
        | Some NFile \<Rightarrow> dir))"

fun insert_stub :: "string list \<Rightarrow> (string \<times> node_builder) list \<Rightarrow> (string \<times> node_builder) list" where
  "insert_stub [] dir = dir"
| "insert_stub [name] dir = bt_or_dir name dir"
| "insert_stub (name # rest) dir =
     (case map_of dir name of
        None \<Rightarrow> bt_insert name (NDir (insert_stub rest [])) dir
      | Some (NDir children) \<Rightarrow> bt_insert name (NDir (insert_stub rest children)) dir
      | Some NFile \<Rightarrow> dir)"

fun is_dir :: "node_builder \<Rightarrow> bool" where
  "is_dir NFile = False"
| "is_dir (NDir _) = True"

fun convert :: "string \<Rightarrow> node_builder \<Rightarrow> tree_node" where
  "convert name NFile = FileNode name None"
| "convert name (NDir children) =
     DirectoryNode name
       (map (\<lambda>(n, c). convert n c) (filter (\<lambda>(n, c). is_dir c) children)
        @ map (\<lambda>(n, c). convert n c) (filter (\<lambda>(n, c). \<not> is_dir c) children))
       None"

definition convert_level :: "(string \<times> node_builder) list \<Rightarrow> tree_node list" where
  "convert_level root =
     map (\<lambda>(n, c). convert n c) (filter (\<lambda>(n, c). is_dir c) root)
     @ map (\<lambda>(n, c). convert n c) (filter (\<lambda>(n, c). \<not> is_dir c) root)"

definition build_tree :: "string list \<Rightarrow> string list \<Rightarrow> nat option \<Rightarrow> tree_node list" where
  "build_tree flat stubs max_depth =
     (let root = fold (\<lambda>path. insert_path max_depth 1 (split_on CHR ''/'' path)) flat [];
          root = fold (\<lambda>stub. insert_stub (split_on CHR ''/'' stub)) stubs root
      in convert_level root)"

end
