(* ===== verification/Walk_Facts.thy ===== *)
theory Walk_Facts
  imports Git_Walk
begin

text \<open>
  Pruned walks as filters. The library's visits are the pre-order sequence of a forest of
  entries; a walk whose callback skips an entry sees exactly the visits none of whose ancestors
  it skipped.
\<close>

section \<open>Pre-order sequences\<close>

datatype 'o wtree = WNode "'o tree_entry" "'o wtree list"

definition child_root :: "string \<Rightarrow> 'o tree_entry \<Rightarrow> string" where
  "child_root root e = root @ name_or_empty e @ ''/''"

fun flatten :: "string \<Rightarrow> 'o wtree \<Rightarrow> 'o visit list" where
  "flatten root (WNode e ts) = (root, e) # List.concat (map (flatten (child_root root e)) ts)"

fun wf_wtree :: "'o wtree \<Rightarrow> bool" where
  "wf_wtree (WNode e ts) \<longleftrightarrow>
     (\<exists>n. te_name e = Some n \<and> n \<noteq> [] \<and> CHR ''/'' \<notin> set n) \<and>
     (te_kind e \<noteq> Tree \<longrightarrow> ts = []) \<and> (\<forall>t \<in> set ts. wf_wtree t)"

definition preorder :: "'o visit list \<Rightarrow> bool" where
  "preorder visits \<longleftrightarrow>
     (\<exists>ts. visits = List.concat (map (flatten []) ts) \<and> (\<forall>t \<in> set ts. wf_wtree t))"

text \<open>The visits reached when \<open>pruned\<close> entries are skipped.\<close>

fun reached :: "('o visit \<Rightarrow> bool) \<Rightarrow> string \<Rightarrow> 'o wtree \<Rightarrow> 'o visit list" where
  "reached pruned root (WNode e ts) =
     (root, e) #
     (if pruned (root, e) then []
      else List.concat (map (reached pruned (child_root root e)) ts))"

lemma slashes_simps [simp]:
  "slashes [] = 0" "slashes (c # s) = (if c = CHR ''/'' then Suc (slashes s) else slashes s)"
  "slashes (s @ t) = slashes s + slashes t"
  by (simp_all add: slashes_def)

lemma slashes_free: "CHR ''/'' \<notin> set s \<Longrightarrow> slashes s = 0"
  by (induction s) auto

lemma slashes_child: "slashes (child_root root e) = slashes root + slashes (name_or_empty e) + 1"
  by (simp add: child_root_def)

lemma flatten_deeper: "v \<in> set (flatten root t) \<Longrightarrow> slashes root \<le> slashes (fst v)"
proof (induction root t arbitrary: v rule: flatten.induct)
  case (1 root e ts)
  show ?case
  proof (cases "v = (root, e)")
    case False
    then obtain t where "t \<in> set ts" "v \<in> set (flatten (child_root root e) t)"
      using "1.prems" by auto
    then have "slashes (child_root root e) \<le> slashes (fst v)" by (rule "1.IH")
    then show ?thesis by (simp add: slashes_child)
  qed simp
qed

text \<open>\<open>stops n rest\<close>: the sequence \<open>rest\<close> does not start below depth \<open>n\<close>.\<close>

definition stops :: "nat \<Rightarrow> 'o visit list \<Rightarrow> bool" where
  "stops n rest \<longleftrightarrow> rest = [] \<or> slashes (fst (hd rest)) \<le> n"

lemma dropWhile_subtree:
  assumes "stops (slashes root) rest"
  shows "dropWhile (below_visit (root, e)) (List.concat (map (flatten (child_root root e)) ts) @ rest) = rest"
proof -
  have deeper: "below_visit (root, e) v" if v: "v \<in> set (List.concat (map (flatten (child_root root e)) ts))" for v
  proof -
    obtain t where "v \<in> set (flatten (child_root root e) t)" using v by auto
    then have "slashes (child_root root e) \<le> slashes (fst v)" by (rule flatten_deeper)
    then show ?thesis by (simp add: below_visit_def slashes_child)
  qed
  have "dropWhile (below_visit (root, e)) rest = rest"
    using assms by (cases rest) (auto simp: stops_def below_visit_def)
  moreover have "dropWhile (below_visit (root, e)) (List.concat (map (flatten (child_root root e)) ts) @ rest) =
      dropWhile (below_visit (root, e)) rest"
    by (rule dropWhile_append2) (rule deeper)
  ultimately show ?thesis by simp
qed

lemma flatten_stops: "stops (slashes root) (flatten root t @ rest)"
  by (cases t) (simp add: stops_def)

lemma forest_stops: "stops (slashes root) rest \<Longrightarrow> stops (slashes root) (List.concat (map (flatten root) ts) @ rest)"
  by (cases ts) (auto simp: flatten_stops)

lemma stops_mono: "stops n rest \<Longrightarrow> n \<le> m \<Longrightarrow> stops m rest"
  by (auto simp: stops_def)

lemma run_walk_tree:
  assumes f: "\<And>s v. snd (f s v) = pruned v" and "stops (slashes root) rest"
  shows "run_walk f s (flatten root t @ rest) =
      run_walk f (fold (\<lambda>v s. fst (f s v)) (reached pruned root t) s) rest"
  using assms(2)
proof (induction root t arbitrary: s rest rule: flatten.induct)
  case (1 root e ts)
  have s': "f s (root, e) = (fst (f s (root, e)), pruned (root, e))" by (simp add: prod_eq_iff f)
  show ?case
  proof (cases "pruned (root, e)")
    case True
    then show ?thesis by (subst flatten.simps, subst append_Cons, subst run_walk.simps, subst s')
        (simp add: dropWhile_subtree [OF "1.prems"])
  next
    case False
    let ?root = "child_root root e"
    have "run_walk f s (List.concat (map (flatten ?root) us) @ rest) =
        run_walk f (fold (\<lambda>v s. fst (f s v)) (List.concat (map (reached pruned ?root) us)) s) rest"
      if "set us \<subseteq> set ts" for s us
      using that
    proof (induction us arbitrary: s)
      case (Cons u us)
      have "stops (slashes ?root) (List.concat (map (flatten ?root) us) @ rest)"
        by (rule forest_stops) (rule stops_mono [OF "1.prems"], simp add: slashes_child)
      then show ?case using "1.IH" [of u] Cons by simp
    qed simp
    from this [of ts] show ?thesis using False
      by (subst flatten.simps, subst append_Cons, subst run_walk.simps, subst s') simp
  qed
qed

lemma run_walk_forest:
  assumes "\<And>s v. snd (f s v) = pruned v"
  shows "run_walk f s (List.concat (map (flatten []) ts)) =
      fold (\<lambda>v s. fst (f s v)) (List.concat (map (reached pruned []) ts)) s"
proof (induction ts arbitrary: s)
  case (Cons t ts)
  have "stops (slashes []) (List.concat (map (flatten []) ts))"
    using forest_stops [of "[]" "[]" ts] by (simp add: stops_def)
  then show ?case using run_walk_tree [of f pruned, OF assms] Cons by simp
qed simp

section \<open>Which files a listing walk reaches\<close>

definition prunes :: "nat option \<Rightarrow> bool \<Rightarrow> 'o visit \<Rightarrow> bool" where
  "prunes max_depth inc v \<longleftrightarrow>
     te_kind (snd v) = Tree \<and> (\<not> inc \<and> hidden_entry (snd v) \<or> at_limit max_depth (fst v))"

definition wanted :: "bool \<Rightarrow> 'o visit \<Rightarrow> bool" where
  "wanted inc v \<longleftrightarrow>
     (inc \<or> \<not> hidden_entry (snd v)) \<and> te_kind (snd v) = Blob \<and>
     name_or_empty (snd v) \<noteq> ORDER_FILE_NAME"

definition visit_path :: "'o visit \<Rightarrow> string" where
  "visit_path v = fst v @ name_or_empty (snd v)"

definition visible :: "string \<Rightarrow> bool" where
  "visible path \<longleftrightarrow> list_all (\<lambda>w. \<not> starts_with w ''.'') (split_on CHR ''/'' path)"

definition within :: "nat option \<Rightarrow> string \<Rightarrow> bool" where
  "within max_depth root = (case max_depth of None \<Rightarrow> True | Some m \<Rightarrow> entry_depth root \<le> max m 1)"

text \<open>The files a listing of the given scope holds, by their path.\<close>

definition in_scope :: "nat option \<Rightarrow> bool \<Rightarrow> 'o visit \<Rightarrow> bool" where
  "in_scope max_depth inc v \<longleftrightarrow>
     te_kind (snd v) = Blob \<and> name_or_empty (snd v) \<noteq> ORDER_FILE_NAME \<and>
     (inc \<or> visible (visit_path v)) \<and> within max_depth (fst v)"

definition root_ok :: "string \<Rightarrow> bool" where
  "root_ok root \<longleftrightarrow> root = [] \<or> (\<exists>r. root = r @ ''/'')"

lemma split_root:
  assumes "root_ok root" "CHR ''/'' \<notin> set n"
  shows "split_on CHR ''/'' (root @ n @ s) =
    (if root = [] then [] else split_on CHR ''/'' (butlast root)) @ split_on CHR ''/'' (n @ s)"
  using assms(1) split_on_append_sep [of "CHR ''/''" "butlast root" "n @ s"]
  by (auto simp: root_ok_def)

lemma root_ok_child: "root_ok (child_root root e)"
  by (auto simp: root_ok_def child_root_def)

lemma visible_child:
  assumes "root_ok root" "te_name e = Some n" "CHR ''/'' \<notin> set n"
  shows "visible (root @ n) \<longleftrightarrow> visible root \<and> \<not> hidden_entry e"
    and "visible (child_root root e) \<longleftrightarrow> visible root \<and> \<not> hidden_entry e"
  using split_root [OF assms(1,3), of "[]"] split_root [OF assms(1), of "[]" "[]"]
    split_on_append_sep [of "CHR ''/''" "root @ n" "[]"] assms(2,3)
  by (auto simp: visible_def hidden_entry_def child_root_def name_or_empty_def split_on_free)

lemma flatten_root: "v \<in> set (flatten root t) \<Longrightarrow> \<exists>x. fst v = root @ x"
proof (induction root t arbitrary: v rule: flatten.induct)
  case (1 root e ts)
  show ?case
  proof (cases "v = (root, e)")
    case False
    then obtain t where "t \<in> set ts" "v \<in> set (flatten (child_root root e) t)"
      using "1.prems" by auto
    then obtain x where "fst v = child_root root e @ x" using "1.IH" by blast
    then show ?thesis by (simp add: child_root_def)
  qed simp
qed

lemma visible_below:
  "visible (child_root root e @ x) \<Longrightarrow> visible (child_root root e)"
  using split_on_append_sep [of "CHR ''/''" "root @ name_or_empty e" x]
    split_on_append_sep [of "CHR ''/''" "root @ name_or_empty e" "[]"]
  by (simp add: visible_def child_root_def)

lemma reached_in_scope:
  assumes "wf_wtree t" "root_ok root" "inc \<or> visible root" "within max_depth root"
  shows "filter (wanted inc) (reached (prunes max_depth inc) root t) =
    filter (in_scope max_depth inc) (flatten root t)"
  using assms
proof (induction root t rule: flatten.induct)
  case (1 root e ts)
  obtain n where n: "te_name e = Some n" "CHR ''/'' \<notin> set n" using "1.prems"(1) by auto
  have name: "name_or_empty e = n" by (simp add: name_or_empty_def n)
  note vis = visible_child [OF "1.prems"(2) n]
  have self: "wanted inc (root, e) \<longleftrightarrow> in_scope max_depth inc (root, e)"
    using "1.prems"(3,4) vis(1) by (auto simp: wanted_def in_scope_def visit_path_def name)
  show ?case
  proof (cases "prunes max_depth inc (root, e)")
    case True
    have "\<not> in_scope max_depth inc v" if v: "t \<in> set ts" "v \<in> set (flatten (child_root root e) t)" for t v
    proof -
      obtain x where x: "fst v = child_root root e @ x" using flatten_root [OF v(2)] by blast
      from True consider "\<not> inc" "hidden_entry e" | "at_limit max_depth root"
        by (auto simp: prunes_def)
      then show ?thesis
      proof cases
        case 1
        then have "\<not> visible (child_root root e)" using vis(2) by simp
        then have "\<not> visible (visit_path v)"
          using visible_below [of root e "x @ name_or_empty (snd v)"] x by (auto simp: visit_path_def)
        then show ?thesis using 1 by (simp add: in_scope_def)
      next
        case 2
        have "entry_depth root < entry_depth (fst v)"
          using flatten_deeper [OF v(2)] by (simp add: entry_depth_def slashes_child)
        then show ?thesis using 2
          by (auto simp: in_scope_def within_def at_limit_def entry_depth_def split: option.splits)
      qed
    qed
    then have "filter (in_scope max_depth inc) (List.concat (map (flatten (child_root root e)) ts)) = []"
      by (auto simp: filter_empty_conv)
    with True self show ?thesis by simp
  next
    case False
    show ?thesis
    proof (cases "te_kind e = Tree")
      case True
      with False have ok: "inc \<or> \<not> hidden_entry e" "\<not> at_limit max_depth root"
        by (auto simp: prunes_def)
      have "inc \<or> visible (child_root root e)" using ok(1) vis(2) "1.prems"(3) by auto
      moreover have "within max_depth (child_root root e)"
        using ok(2) n(2) by (auto simp: within_def at_limit_def entry_depth_def slashes_child name
            slashes_free split: option.splits)
      ultimately have "filter (wanted inc) (reached (prunes max_depth inc) (child_root root e) t) =
          filter (in_scope max_depth inc) (flatten (child_root root e) t)" if "t \<in> set ts" for t
        using "1.IH" [OF that] "1.prems"(1) that root_ok_child by auto
      then have "filter (wanted inc) (List.concat (map (reached (prunes max_depth inc) (child_root root e)) ts)) =
          filter (in_scope max_depth inc) (List.concat (map (flatten (child_root root e)) ts))"
        by (induction ts) auto
      with False self show ?thesis by simp
    next
      case False
      then show ?thesis using "1.prems"(1) self by simp
    qed
  qed
qed

end
