(* ===== verification/Git_Paths.thy ===== *)
theory Git_Paths
  imports Walk_Facts Git_Deletes
begin

text \<open>
  The snapshot of a replay and the counts: which files they hold, in terms of HEAD's content.
\<close>

definition walks_preorder :: "'o libs \<Rightarrow> ('o repo \<Rightarrow> bool) \<Rightarrow> bool" where
  "walks_preorder L I \<longleftrightarrow>
     (\<forall>r t visits. I r \<and> r_trees r t \<noteq> None \<and> g_walk L r t = Inr visits \<longrightarrow> preorder visits)"

section \<open>Collected files\<close>

lemma fold_flat_step:
  "fold (\<lambda>v s. fst (flat_step m inc s v)) vs acc = acc @ map visit_path (filter (wanted inc) vs)"
proof (induction vs arbitrary: acc)
  case (Cons v vs)
  have "fst (flat_step m inc acc v) = acc @ (if wanted inc v then [visit_path v] else [])"
    by (cases v) (auto simp: wanted_def visit_path_def)
  then show ?case using Cons by simp
qed simp

lemma flat_step_prunes: "snd (flat_step m inc s v) = prunes m inc v"
  by (cases v) (auto simp: prunes_def)

lemma reached_forest:
  assumes "\<forall>t \<in> set ts. wf_wtree t"
  shows "filter (wanted inc) (List.concat (map (reached (prunes m inc) []) ts)) =
    filter (in_scope m inc) (List.concat (map (flatten []) ts))"
proof -
  have "visible []" "within m []" "root_ok []"
    by (auto simp: visible_def within_def entry_depth_def root_ok_def split: option.split)
  then have "filter (wanted inc) (reached (prunes m inc) [] t) = filter (in_scope m inc) (flatten [] t)"
    if "t \<in> set ts" for t
    using assms that by (intro reached_in_scope) auto
  then show ?thesis using assms by (induction ts) auto
qed

lemma collect_walk:
  assumes "preorder visits"
  shows "run_walk (flat_step m inc) [] visits = map visit_path (filter (in_scope m inc) visits)"
proof -
  obtain ts where ts: "visits = List.concat (map (flatten []) ts)" "\<forall>t \<in> set ts. wf_wtree t"
    using assms by (auto simp: preorder_def)
  then show ?thesis
    using run_walk_forest [of "flat_step m inc" "prunes m inc" "[]" ts, OF flat_step_prunes]
    by (simp add: fold_flat_step reached_forest [OF ts(2)])
qed

text \<open>What a pre-order sequence says of each visit.\<close>

lemma flatten_visit:
  "v \<in> set (flatten root t) \<Longrightarrow> wf_wtree t \<Longrightarrow> root_ok root \<Longrightarrow>
     root_ok (fst v) \<and> (\<exists>n. te_name (snd v) = Some n \<and> n \<noteq> [] \<and> CHR ''/'' \<notin> set n)"
proof (induction root t arbitrary: v rule: flatten.induct)
  case (1 root e ts)
  show ?case
  proof (cases "v = (root, e)")
    case True
    then show ?thesis using "1.prems" by simp
  next
    case False
    then obtain t where t: "t \<in> set ts" "v \<in> set (flatten (child_root root e) t)"
      using "1.prems"(1) by auto
    moreover have "wf_wtree t" using "1.prems"(2) t(1) by simp
    ultimately show ?thesis using "1.IH" root_ok_child by blast
  qed
qed

lemma preorder_visit:
  assumes "preorder visits" "v \<in> set visits"
  shows "root_ok (fst v)" "\<exists>n. te_name (snd v) = Some n \<and> n \<noteq> [] \<and> CHR ''/'' \<notin> set n"
proof -
  obtain t where "v \<in> set (flatten [] t)" "wf_wtree t"
    using assms by (auto simp: preorder_def)
  from flatten_visit [OF this] show "root_ok (fst v)" "\<exists>n. te_name (snd v) = Some n \<and> n \<noteq> [] \<and> CHR ''/'' \<notin> set n"
    by (auto simp: root_ok_def)
qed

lemma order_file_visit:
  assumes "preorder visits" "v \<in> set visits"
  shows "is_order_file (visit_path v) \<longleftrightarrow> name_or_empty (snd v) = ORDER_FILE_NAME"
proof -
  obtain n where n: "te_name (snd v) = Some n" "CHR ''/'' \<notin> set n" using preorder_visit(2) [OF assms] by blast
  have "snd (split_parent (fst v @ n)) = n"
    using preorder_visit(1) [OF assms] split_parent_slash [OF n(2)] split_parent_flat [OF n(2)]
    by (auto simp: root_ok_def)
  then show ?thesis by (simp add: is_order_file_def visit_path_def name_or_empty_def n(1))
qed

definition listed :: "bool \<Rightarrow> string \<Rightarrow> bool" where
  "listed inc path \<longleftrightarrow> \<not> is_order_file path \<and> (inc \<or> visible path)"

lemma collected_files:
  assumes "preorder visits"
  shows "map visit_path (filter (in_scope None inc) visits) =
    map fst (filter (\<lambda>(p, oid). listed inc p) (visited_files visits))"
  using assms preorder_visit(2) [OF assms] order_file_visit [OF assms]
proof -
  have "map visit_path (filter (in_scope None inc) vs) =
      map fst (filter (\<lambda>(p, oid). listed inc p) (visited_files vs))" if "set vs \<subseteq> set visits" for vs
    using that
  proof (induction vs)
    case (Cons v vs)
    then have v: "v \<in> set visits" by simp
    obtain n where n: "te_name (snd v) = Some n" using preorder_visit(2) [OF assms v] by blast
    have "visited_file v = (if te_kind (snd v) = Blob then Some (visit_path v, te_id (snd v)) else None)"
      by (simp add: visited_file_def n visit_path_def name_or_empty_def)
    moreover have "visited_files (v # vs) = (case visited_file v of Some f \<Rightarrow> [f] | None \<Rightarrow> []) @ visited_files vs"
      by (simp add: visited_files_def List.map_filter_def split: option.split)
    ultimately show ?case
      using Cons order_file_visit [OF assms v]
      by (auto simp: in_scope_def within_def listed_def)
  qed (simp add: visited_files_def List.map_filter_def)
  then show ?thesis by simp
qed

section \<open>The sample git walks in pre-order\<close>

fun tree_of :: "string \<Rightarrow> gobj \<Rightarrow> gobj wtree" where
  "tree_of n (GTree es) = WNode (entry_of n (GTree es)) (map (\<lambda>(m, k). tree_of m k) es)"
| "tree_of n k = WNode (entry_of n k) []"

lemma child_root_entry: "child_root root (entry_of n k) = root @ n @ ''/''"
  by (simp add: child_root_def name_or_empty_def)

lemma walk_tree_of: "(root, entry_of n k) # walk (root @ n @ ''/'') k = flatten root (tree_of n k)"
proof (induction n k arbitrary: root rule: tree_of.induct)
  case (1 n es)
  have "walk (root @ n @ ''/'') (GTree es) =
      List.concat (map (\<lambda>(m, k). flatten (root @ n @ ''/'') (tree_of m k)) es)"
    unfolding walk.simps
    by (intro arg_cong [where f = List.concat] map_cong)
      (use 1 [where root = "root @ n @ ''/''"] in auto)
  then show ?case by (simp add: child_root_entry comp_def split_def del: walk.simps)
qed (simp_all add: child_root_entry)

lemma wf_tree_of: "good_name n \<Longrightarrow> valid k \<Longrightarrow> wf_wtree (tree_of n k)"
proof (induction n k rule: tree_of.induct)
  case (1 n es)
  have "wf_wtree (tree_of m k)" if "(m, k) \<in> set es" for m k
    using 1 that by (auto simp: valid.simps)
  then show ?case using 1 by (auto simp: good_name_def)
qed (auto simp: good_name_def)

lemma sample_preorder: "walks_preorder sample_libs sample_inv"
  unfolding walks_preorder_def
proof (intro allI impI, elim conjE)
  fix r t visits assume r: "sample_inv r" "r_trees r t \<noteq> None" and w: "g_walk sample_libs r t = Inr visits"
  obtain es where t: "t = GTree es" "valid (GTree es)"
    using r by (auto simp: sample_invD all_trees_def split: gobj.splits if_splits)
  have "visits = List.concat (map (flatten []) (map (\<lambda>(m, k). tree_of m k) es))"
    using w t walk_tree_of [of "[]"] by (simp add: sample_libs_def comp_def split_def)
  moreover have "\<forall>u \<in> set (map (\<lambda>(m, k). tree_of m k) es). wf_wtree u"
    using t(2) by (auto simp: valid.simps intro: wf_tree_of)
  ultimately show "preorder visits" unfolding preorder_def by blast
qed

section \<open>The snapshot\<close>

definition rooted :: "string option \<Rightarrow> string \<Rightarrow> string" where
  "rooted path_prefix path =
     (case path_prefix of
        None \<Rightarrow> path
      | Some scope \<Rightarrow> if scope = [] then path else scope @ ''/'' @ path)"

lemma listing_root_blob:
  assumes L: "git2_ok L I" and r: "I r" "r_trees r t \<noteq> None"
    and scope: "\<And>p. path_prefix = Some p \<Longrightarrow> p \<noteq> [] \<Longrightarrow> clean p" and p: "clean p"
  shows "case listing_root L r t path_prefix of
      Some w \<Rightarrow> r_trees r w \<noteq> None \<and> blob_oid_in_tree L r t (rooted path_prefix p) = blob_oid_in_tree L r w p
    | None \<Rightarrow> blob_oid_in_tree L r t (rooted path_prefix p) = None"
proof (cases "path_prefix = None \<or> path_prefix = Some []")
  case True
  then show ?thesis using r by (auto simp: listing_root_def rooted_def)
next
  case False
  then obtain s where s: "path_prefix = Some s" "s \<noteq> []" by auto
  note clean = scope [OF s]
  have below: "starts_with (s @ ''/'' @ p) (s @ ''/'')"
    using starts_with_append [of "s @ ''/''" p] by simp
  have both: "clean (s @ ''/'' @ p)"
    using clean p split_on_append_sep [of "CHR ''/''" s p] by (simp add: clean_def)
  show ?thesis
  proof (cases "g_get_path L r t s")
    case None
    then have "g_get_path L r t (s @ ''/'' @ p) = None"
      using parent_rule [OF L r clean both _ below] by (cases "g_get_path L r t (s @ ''/'' @ p)") auto
    then show ?thesis using None s by (simp add: listing_root_def rooted_def blob_oid_in_tree_def)
  next
    case (Some e)
    note kind = entry_tree_rule [OF L r clean Some]
    show ?thesis
    proof (cases "te_kind e = Tree")
      case True
      then show ?thesis
        using Some s kind subfolder_rule [OF L r clean p Some True]
        by (auto simp: listing_root_def rooted_def find_tree_def blob_oid_in_tree_def)
    next
      case False
      then have "g_get_path L r t (s @ ''/'' @ p) = None"
        using parent_rule [OF L r clean both _ below] Some
        by (cases "g_get_path L r t (s @ ''/'' @ p)") auto
      then show ?thesis using Some s False kind
        by (simp add: listing_root_def rooted_def find_tree_def blob_oid_in_tree_def)
    qed
  qed
qed

lemma list_all_file_paths_run:
  assumes "open_tenant_repo L tenant d = Inr r" "head_tree r = Inr (h, t)"
    and "listing_root L r t path_prefix = Some w"
  shows "list_all_file_paths L d tenant path_prefix inc =
    and_then (collect_flat_files L r w None inc)
      (\<lambda>flat. Inr (g_oid_string L h, map (rooted path_prefix) flat))"
proof -
  have "(case path_prefix of None \<Rightarrow> flat
      | Some scope \<Rightarrow> if scope = [] then flat else map (\<lambda>leaf. scope @ ''/'' @ leaf) flat) =
    map (rooted path_prefix) flat" for flat
    by (auto simp: rooted_def [abs_def] split: option.split intro!: map_idI [symmetric])
  then show ?thesis using assms by (simp add: list_all_file_paths_def)
qed

lemma rooted_inj: "rooted path_prefix p = rooted path_prefix q \<longleftrightarrow> p = q"
  by (auto simp: rooted_def split: option.split)

lemma collect_flat_listed:
  assumes L: "git2_ok L I" "walks_preorder L I" and r: "I r" "r_trees r w \<noteq> None"
    and run: "collect_flat_files L r w None inc = Inr flat"
  shows "distinct flat"
    and "p \<in> set flat \<Longrightarrow> clean p \<and> listed inc p \<and> blob_oid_in_tree L r w p \<noteq> None"
    and "clean p \<Longrightarrow> valid_utf8 p \<Longrightarrow> listed inc p \<Longrightarrow> blob_oid_in_tree L r w p \<noteq> None \<Longrightarrow> p \<in> set flat"
proof -
  obtain visits where v: "g_walk L r w = Inr visits"
    and flat: "flat = run_walk (flat_step None inc) [] visits"
    using run by (auto simp: collect_flat_files_def and_then_eq_Inr git_result_def split: sum.splits)
  have "preorder visits" using L(2) r v by (auto simp: walks_preorder_def)
  then have flat: "flat = map fst (filter (\<lambda>(p, oid). listed inc p) (visited_files visits))"
    by (simp add: flat collect_walk collected_files)
  note walk = walk_rule [OF L(1) r v]
  show "distinct flat"
    unfolding flat by (rule distinct_map_filter [OF walk(1)])
  show "clean p \<and> listed inc p \<and> blob_oid_in_tree L r w p \<noteq> None" if "p \<in> set flat"
    using that walk(2) unfolding flat by fastforce
  show "p \<in> set flat" if "clean p" "valid_utf8 p" "listed inc p" "blob_oid_in_tree L r w p \<noteq> None"
    using walk(3) [OF that(1,2)] that(3,4) unfolding flat by force
qed

lemma snapshot_exact:
  assumes L: "git2_ok L I" "walks_preorder L I" and sound: "disk_sound I d"
    and scope: "\<forall>s. path_prefix = Some s \<and> s \<noteq> [] \<longrightarrow> clean s"
    and run: "list_all_file_paths L d tenant path_prefix inc = Inr (sha, paths)"
  shows "distinct paths \<and>
      (\<forall>q \<in> set paths. \<exists>p. q = rooted path_prefix p \<and> clean p) \<and>
      (\<forall>p. clean p \<and> valid_utf8 p \<longrightarrow>
         (rooted path_prefix p \<in> set paths \<longleftrightarrow>
          head_content L d (rooted path_prefix p) \<noteq> None \<and> \<not> is_order_file p \<and> (inc \<or> visible p)))"
proof -
  obtain r h t where r: "open_tenant_repo L tenant d = Inr r" and t: "head_tree r = Inr (h, t)"
    using run by (auto simp: list_all_file_paths_def and_then_eq_Inr)
  note repo = sound_open [OF L(1) sound r]
  have tree: "r_trees r t \<noteq> None" using t by (auto simp: head_tree_Inr)
  have clean: "clean p" if "path_prefix = Some p" "p \<noteq> []" for p using scope that by blast
  have root: "case listing_root L r t path_prefix of
      Some w \<Rightarrow> r_trees r w \<noteq> None \<and> blob_oid_in_tree L r t (rooted path_prefix p) = blob_oid_in_tree L r w p
    | None \<Rightarrow> blob_oid_in_tree L r t (rooted path_prefix p) = None" if "clean p" for p
    by (rule listing_root_blob [OF L(1) repo(2) tree clean that])
  have content: "head_content L d p \<noteq> None \<longleftrightarrow> blob_oid_in_tree L r t p \<noteq> None" for p
    using head_tree_blob(2) [OF L(1) repo t] by simp
  show ?thesis
  proof (cases "listing_root L r t path_prefix")
    case None
    then have "paths = []" using run r t by (simp add: list_all_file_paths_def)
    moreover have "head_content L d (rooted path_prefix p) = None" if "clean p" for p
      using root [OF that] None content [of "rooted path_prefix p"] by simp
    ultimately show ?thesis by auto
  next
    case (Some w)
    obtain flat where flat: "collect_flat_files L r w None inc = Inr flat" "paths = map (rooted path_prefix) flat"
      using run unfolding list_all_file_paths_run [OF r t Some] by (auto simp: and_then_eq_Inr)
    have w: "r_trees r w \<noteq> None"
      using root [of "''x''"] Some by (simp add: clean_def)
    note listed = collect_flat_listed [OF L repo(2) w flat(1)]
    have "distinct paths" using listed(1) by (simp add: flat(2) distinct_map inj_on_def rooted_inj)
    moreover have "\<forall>q \<in> set paths. \<exists>p. q = rooted path_prefix p \<and> clean p"
      using listed(2) by (auto simp: flat(2))
    moreover have "rooted path_prefix p \<in> set paths \<longleftrightarrow>
        head_content L d (rooted path_prefix p) \<noteq> None \<and> \<not> is_order_file p \<and> (inc \<or> visible p)"
      if "clean p" "valid_utf8 p" for p
    proof -
      have "rooted path_prefix p \<in> set paths \<longleftrightarrow> p \<in> set flat"
        by (auto simp: flat(2) rooted_inj)
      also have "\<dots> \<longleftrightarrow> listed inc p \<and> blob_oid_in_tree L r w p \<noteq> None"
        using listed(2,3) that by blast
      also have "blob_oid_in_tree L r w p = blob_oid_in_tree L r t (rooted path_prefix p)"
        using root [OF that(1)] Some by simp
      finally show ?thesis unfolding content by (auto simp: listed_def)
    qed
    ultimately show ?thesis by blast
  qed
qed

text \<open>
  A replay's snapshot is exactly what HEAD holds in its scope. Below the given prefix it
  lists each file once, no order index, and hidden files (a file below a hidden folder included)
  only when asked for.
\<close>

theorem snapshot_lists_exactly:
  assumes L: "git2_ok L I" "walks_preorder L I" and sound: "disk_sound I d"
    and scope: "\<forall>s. path_prefix = Some s \<and> s \<noteq> [] \<longrightarrow> clean s"
    and run: "list_all_file_paths L d tenant path_prefix inc = Inr (sha, paths)"
  shows "distinct paths \<and>
      (\<forall>q \<in> set paths. \<exists>p. q = rooted path_prefix p \<and> clean p) \<and>
      (\<forall>p. clean p \<and> valid_utf8 p \<longrightarrow>
         (rooted path_prefix p \<in> set paths \<longleftrightarrow>
          head_content L d (rooted path_prefix p) \<noteq> None \<and> \<not> is_order_file p \<and> (inc \<or> visible p)))"
  using snapshot_exact [OF assms] .

theorem snapshot_lists_exactly_witness:
  "rooted None ''docs/a.md'' \<in> set [''docs/a.md'', ''docs/b.md'', ''notes/n.md'', ''top.md''] \<longleftrightarrow>
    head_content sample_libs demo_disk (rooted None ''docs/a.md'') \<noteq> None \<and>
    \<not> is_order_file ''docs/a.md'' \<and> (False \<or> visible ''docs/a.md'')"
proof -
  have run: "list_all_file_paths sample_libs demo_disk ''t'' None False =
      Inr (''commit init'', [''docs/a.md'', ''docs/b.md'', ''notes/n.md'', ''top.md''])"
    and ok: "clean ''docs/a.md''" "valid_utf8 ''docs/a.md''" by code_simp+
  have "\<forall>s. None = Some s \<and> s \<noteq> [] \<longrightarrow> clean s" by simp
  from snapshot_lists_exactly [OF sample_ok sample_preorder demo_disk_sound this run] ok
  show ?thesis by blast
qed

section \<open>Counting\<close>

definition path_depth :: "string \<Rightarrow> nat" where
  "path_depth path = length (split_on CHR ''/'' path)"

lemma path_depth_slashes: "path_depth p = slashes p + 1"
proof -
  have "length (split_on c s) = length (filter (\<lambda>x. x = c) s) + 1" for c s
  proof (induction s)
    case (Cons x s)
    obtain w ws where "split_on c s = w # ws" by (cases "split_on c s") auto
    with Cons show ?case by simp
  qed simp
  then show ?thesis by (simp add: path_depth_def slashes_def)
qed

definition depth_allows :: "nat option \<Rightarrow> string \<Rightarrow> bool" where
  "depth_allows m p = (case m of None \<Rightarrow> True | Some k \<Rightarrow> path_depth p \<le> max k 1)"

lemma fold_count_step:
  "fc_files (fold (\<lambda>v s. fst (count_step m inc restrict s v)) vs c) =
     fc_files c + length (filter (\<lambda>v. wanted inc v \<and> extension_counted restrict (snd v)) vs)"
  if "\<forall>v \<in> set vs. te_name (snd v) \<noteq> None"
  using that
proof (induction vs arbitrary: c)
  case (Cons v vs)
  have "fc_files (fst (count_step m inc restrict c v)) =
      fc_files c + (if wanted inc v \<and> extension_counted restrict (snd v) then 1 else 0)"
    using Cons.prems by (cases v; cases "te_kind (snd v)") (auto simp: wanted_def name_or_empty_def)
  then show ?case using Cons by simp
qed simp

lemma count_step_prunes: "snd (count_step m inc restrict s v) = prunes m inc v"
  by (cases v; cases "te_kind (snd v)") (auto simp: prunes_def)

lemma reached_subset: "v \<in> set (reached f root t) \<Longrightarrow> v \<in> set (flatten root t)"
  by (induction root t arbitrary: v rule: flatten.induct) (auto split: if_splits)

text \<open>
  The count and the listing agree. Over the same prefix, the number of files counted down to
  a depth is the number of paths the snapshot lists no deeper than it.
\<close>

theorem count_agrees_with_snapshot:
  assumes L: "git2_ok L I" "walks_preorder L I" and sound: "disk_sound I d"
    and count: "count_files L d tenant path_prefix m inc None = Inr counts"
    and snap: "list_all_file_paths L d tenant path_prefix inc = Inr (sha, paths)"
  shows "\<exists>rels. paths = map (rooted path_prefix) rels \<and>
      fc_files counts = length (filter (depth_allows m) rels)"
proof -
  obtain r h t where r: "open_tenant_repo L tenant d = Inr r" and t: "head_tree r = Inr (h, t)"
    using count by (auto simp: count_files_def and_then_eq_Inr)
  note repo = sound_open [OF L(1) sound r]
  show ?thesis
  proof (cases "listing_root L r t path_prefix")
    case None
    then have "counts = \<lparr>fc_files = 0, fc_directories = 0\<rparr>" "paths = []"
      using count snap r t by (simp_all add: count_files_def list_all_file_paths_def)
    then show ?thesis by (intro exI [of _ "[]"]) simp
  next
    case (Some w)
    obtain visits where v: "g_walk L r w = Inr visits"
      and counts: "counts = run_walk (count_step m inc None) \<lparr>fc_files = 0, fc_directories = 0\<rparr> visits"
      using count r t Some
      by (auto simp: count_files_def and_then_eq_Inr git_result_def split: sum.splits)
    define flat where "flat = run_walk (flat_step None inc) [] visits"
    have paths: "paths = map (rooted path_prefix) flat"
      using snap v unfolding list_all_file_paths_run [OF r t Some]
      by (simp add: collect_flat_files_def git_result_def flat_def)
    have "r_trees r w \<noteq> None"
      using Some t by (auto simp: listing_root_def find_tree_def head_tree_Inr split: option.splits if_splits sum.splits)
    then have pre: "preorder visits" using L(2) repo(2) v by (auto simp: walks_preorder_def)
    obtain ts where ts: "visits = List.concat (map (flatten []) ts)" "\<forall>t \<in> set ts. wf_wtree t"
      using pre by (auto simp: preorder_def)
    let ?reached = "List.concat (map (reached (prunes m inc) []) ts)"
    have "set ?reached \<subseteq> set visits" using reached_subset by (fastforce simp: ts(1))
    then have named: "\<forall>v \<in> set ?reached. te_name (snd v) \<noteq> None"
      using preorder_visit(2) [OF pre] by blast
    have "fc_files counts = length (filter (wanted inc) ?reached)"
      unfolding counts ts(1) run_walk_forest [of "count_step m inc None" "prunes m inc", OF count_step_prunes]
      by (simp add: fold_count_step [OF named] extension_counted_def)
    also have "filter (wanted inc) ?reached = filter (in_scope m inc) visits"
      unfolding ts(1) by (rule reached_forest [OF ts(2)])
    also have "filter (in_scope m inc) visits =
        filter (\<lambda>v. depth_allows m (visit_path v)) (filter (in_scope None inc) visits)"
    proof -
      have "in_scope m inc v \<longleftrightarrow> depth_allows m (visit_path v) \<and> in_scope None inc v"
        if "v \<in> set visits" for v
        using preorder_visit(2) [OF pre that]
        by (auto simp: in_scope_def within_def depth_allows_def path_depth_slashes entry_depth_def
            visit_path_def name_or_empty_def slashes_free split: option.splits)
      then show ?thesis by (auto intro: filter_cong)
    qed
    also have "length \<dots> = length (filter (depth_allows m) flat)"
      unfolding flat_def collect_walk [OF pre] by (simp add: filter_map comp_def)
    finally show ?thesis using paths by blast
  qed
qed

theorem count_agrees_with_snapshot_witness:
  "\<exists>rels. [''docs/a.md'', ''docs/b.md'', ''notes/n.md'', ''top.md''] = map (rooted None) rels \<and>
     fc_files \<lparr>fc_files = 1, fc_directories = 2\<rparr> = length (filter (depth_allows (Some 1)) rels)"
proof -
  have "list_all_file_paths sample_libs demo_disk ''t'' None False =
      Inr (''commit init'', [''docs/a.md'', ''docs/b.md'', ''notes/n.md'', ''top.md''])"
    and "count_files sample_libs demo_disk ''t'' None (Some 1) False None =
      Inr \<lparr>fc_files = 1, fc_directories = 2\<rparr>"
    by code_simp+
  from count_agrees_with_snapshot [OF sample_ok sample_preorder demo_disk_sound this(2,1)]
  show ?thesis .
qed

end
