(* ===== verification/Git_Dates.thy ===== *)
theory Git_Dates
  imports Git_Walk "HOL-Library.AList"
begin

text \<open>
  Dating files against commit history and filtering a listing by date: \<open>DateFilter\<close>,
  \<open>file_dates\<close>, \<open>surviving_by_date\<close> and \<open>retain_by_date\<close> of \<open>src/git.rs\<close>.

  The revision walk, the tree diffs and \<open>chrono\<close>'s calendar range are parameters, and so is the
  clock, a function from the number of readings taken so far to the time. A \<open>DateTime\<close> is its
  distance from the epoch in nanoseconds. A \<open>HashMap\<close> is an association list with distinct keys,
  a \<open>HashSet\<close> a list without repetitions.
\<close>

section \<open>The date window\<close>

datatype date_kind = DateCreated | DateUpdated

record date_filter =
  df_from :: "int option"
  df_to :: "int option"
  df_kind :: date_kind
  df_budget :: "int option"

definition matches :: "date_filter \<Rightarrow> int \<Rightarrow> bool" where
  "matches f date =
     (if (case df_from f of Some from_bound \<Rightarrow> date < from_bound | None \<Rightarrow> False) then False
      else if (case df_to f of Some to_bound \<Rightarrow> date \<ge> to_bound | None \<Rightarrow> False) then False
      else True)"

section \<open>History as the libraries give it\<close>

record delta =
  delta_new :: "string option"
  delta_old :: "string option"
  delta_added :: bool

text \<open>
  \<open>h_revwalk\<close> is the iterator the three calls on \<open>revwalk\<close> set up (newest first, children before
  parents), each item an id or an error. \<open>h_diff\<close> is the deltas between a parent tree, if any, and
  a tree, narrowed to the scope.
\<close>

record 'o history_libs =
  h_revwalk :: "'o repo \<Rightarrow> git_error + (git_error + 'o) list"
  h_diff :: "'o repo \<Rightarrow> 'o option \<Rightarrow> 'o \<Rightarrow> string option \<Rightarrow> git_error + delta list"
  h_calendar :: "int \<Rightarrow> int option"
  h_clock :: "nat \<Rightarrow> int"

definition timestamp_from_git_time :: "'o history_libs \<Rightarrow> int \<Rightarrow> int" where
  "timestamp_from_git_time H seconds = (case h_calendar H seconds of None \<Rightarrow> 0 | Some t \<Rightarrow> t)"

definition delta_path :: "delta \<Rightarrow> string option" where
  "delta_path dl = (case delta_new dl of Some p \<Rightarrow> Some p | None \<Rightarrow> delta_old dl)"

definition parent_tree :: "'o repo \<Rightarrow> 'o commit \<Rightarrow> 'o option" where
  "parent_tree r c =
     (case c_parents c of
        [] \<Rightarrow> None
      | p # _ \<Rightarrow>
          (case r_commits r p of
             None \<Rightarrow> None
           | Some pc \<Rightarrow> (case commit_tree r pc of Inl _ \<Rightarrow> None | Inr t \<Rightarrow> Some t)))"

text \<open>
  What one commit contributes: its time and its deltas, or nothing where an object of it cannot be
  read.
\<close>

definition commit_deltas ::
  "'o history_libs \<Rightarrow> 'o repo \<Rightarrow> string option \<Rightarrow> git_error + 'o \<Rightarrow> (int \<times> delta list) option" where
  "commit_deltas H r scope item =
     (case item of
        Inl _ \<Rightarrow> None
      | Inr oid \<Rightarrow>
          (case r_commits r oid of
             None \<Rightarrow> None
           | Some c \<Rightarrow>
               (case commit_tree r c of
                  Inl _ \<Rightarrow> None
                | Inr t \<Rightarrow>
                    (case h_diff H r (parent_tree r c) t scope of
                       Inl _ \<Rightarrow> None
                     | Inr deltas \<Rightarrow>
                         Some (timestamp_from_git_time H (sig_time (c_signature c)), deltas)))))"

section \<open>Dating\<close>

fun date_delta ::
  "string list \<Rightarrow> date_kind \<Rightarrow> int \<Rightarrow> delta \<Rightarrow> (string \<times> int) list \<Rightarrow> (string \<times> int) list" where
  "date_delta paths kind commit_time dl dates =
     (case delta_path dl of
        None \<Rightarrow> dates
      | Some path \<Rightarrow>
          if path \<notin> set paths then dates
          else (case kind of
              DateUpdated \<Rightarrow>
                if map_of dates path = None then (path, commit_time) # dates else dates
            | DateCreated \<Rightarrow>
                if delta_added dl then AList.update path commit_time dates else dates))"

text \<open>The loop over the walk; \<open>readings\<close> counts the clock's readings so far.\<close>

fun date_commits ::
  "'o history_libs \<Rightarrow> 'o repo \<Rightarrow> string list \<Rightarrow> date_kind \<Rightarrow> string option \<Rightarrow> int option \<Rightarrow> nat
   \<Rightarrow> (git_error + 'o) list \<Rightarrow> (string \<times> int) list \<Rightarrow> (string \<times> int) list \<times> bool" where
  "date_commits H r paths kind scope deadline readings [] dates = (dates, False)"
| "date_commits H r paths kind scope deadline readings (item # items) dates =
     (if kind = DateUpdated \<and> length dates = length paths then (dates, False)
      else if (case deadline of Some limit \<Rightarrow> h_clock H readings \<ge> limit | None \<Rightarrow> False)
      then (dates, True)
      else
        date_commits H r paths kind scope deadline (Suc readings) items
          (case commit_deltas H r scope item of
             None \<Rightarrow> dates
           | Some (commit_time, deltas) \<Rightarrow> fold (date_delta paths kind commit_time) deltas dates))"

definition file_dates ::
  "'o history_libs \<Rightarrow> 'o repo \<Rightarrow> string list \<Rightarrow> date_kind \<Rightarrow> string option \<Rightarrow> int option
   \<Rightarrow> ((string \<times> int) list \<times> bool) app_result" where
  "file_dates H r paths kind scope budget =
     (let deadline = map_option (\<lambda>b. h_clock H 0 + b) budget in
      and_then (git_result (h_revwalk H r)) (\<lambda>items.
        Inr (date_commits H r paths kind scope deadline 1 items [])))"

definition nonempty_prefix :: "string option \<Rightarrow> string option" where
  "nonempty_prefix path_prefix =
     (case path_prefix of Some p \<Rightarrow> if p = [] then None else Some p | None \<Rightarrow> None)"

definition to_full :: "string option \<Rightarrow> string \<Rightarrow> string" where
  "to_full path_prefix leaf =
     (case path_prefix of
        Some p \<Rightarrow> if p = [] then leaf else p @ ''/'' @ leaf
      | None \<Rightarrow> leaf)"

definition surviving_by_date ::
  "'o history_libs \<Rightarrow> 'o repo \<Rightarrow> string option \<Rightarrow> string list \<Rightarrow> date_filter
   \<Rightarrow> (string list \<times> bool) app_result" where
  "surviving_by_date H r path_prefix flat f =
     (let full_paths = remdups (map (to_full path_prefix) flat) in
      if full_paths = [] then Inr ([], False)
      else
        and_then (file_dates H r full_paths (df_kind f) (nonempty_prefix path_prefix) (df_budget f))
          (\<lambda>(dates, exhausted).
            Inr (filter (\<lambda>leaf. case map_of dates (to_full path_prefix leaf) of
                             Some date \<Rightarrow> matches f date
                           | None \<Rightarrow> False) flat, exhausted)))"

definition retain_by_date ::
  "'o history_libs \<Rightarrow> 'o repo \<Rightarrow> string option \<Rightarrow> string list \<Rightarrow> date_filter
   \<Rightarrow> (string list \<times> bool) app_result" where
  "retain_by_date H r path_prefix flat f =
     and_then (surviving_by_date H r path_prefix flat f) (\<lambda>(surviving, exhausted).
       Inr (filter (\<lambda>leaf. leaf \<in> set surviving) flat, exhausted))"

section \<open>Which dates are found\<close>

text \<open>The walk as the commits that can be read.\<close>

definition history ::
  "'o history_libs \<Rightarrow> 'o repo \<Rightarrow> string option \<Rightarrow> (int \<times> delta list) list" where
  "history H r scope =
     (case h_revwalk H r of Inl _ \<Rightarrow> [] | Inr items \<Rightarrow> List.map_filter (commit_deltas H r scope) items)"

definition touches :: "string \<Rightarrow> int \<times> delta list \<Rightarrow> bool" where
  "touches p c \<longleftrightarrow> list_ex (\<lambda>dl. delta_path dl = Some p) (snd c)"

definition adds :: "string \<Rightarrow> int \<times> delta list \<Rightarrow> bool" where
  "adds p c \<longleftrightarrow> list_ex (\<lambda>dl. delta_path dl = Some p \<and> delta_added dl) (snd c)"

text \<open>The most recent commit touching a path, and the oldest one adding it.\<close>

definition last_touch :: "(int \<times> delta list) list \<Rightarrow> string \<Rightarrow> int option" where
  "last_touch commits p = map_option fst (find (touches p) commits)"

definition first_addition :: "(int \<times> delta list) list \<Rightarrow> string \<Rightarrow> int option" where
  "first_addition commits p = map_option fst (find (adds p) (rev commits))"

definition git_date :: "date_kind \<Rightarrow> (int \<times> delta list) list \<Rightarrow> string \<Rightarrow> int option" where
  "git_date kind commits p =
     (case kind of DateUpdated \<Rightarrow> last_touch commits p | DateCreated \<Rightarrow> first_addition commits p)"

lemma fold_updated:
  "map_of (fold (date_delta paths DateUpdated t) deltas dates) p =
     (case map_of dates p of
        Some d \<Rightarrow> Some d
      | None \<Rightarrow> if p \<in> set paths \<and> touches p (t, deltas) then Some t else None)"
proof (induction deltas arbitrary: dates)
  case (Cons dl deltas)
  then show ?case
    by (cases "delta_path dl") (auto simp: touches_def split: option.splits)
qed (simp add: touches_def split: option.split)

lemma fold_created:
  "map_of (fold (date_delta paths DateCreated t) deltas dates) p =
     (if p \<in> set paths \<and> adds p (t, deltas) then Some t else map_of dates p)"
proof (induction deltas arbitrary: dates)
  case (Cons dl deltas)
  then show ?case
    by (cases "delta_path dl") (auto simp: adds_def update_conv')
qed (simp add: adds_def)

lemma fold_dates_keys:
  assumes "distinct (map fst dates)" "fst ` set dates \<subseteq> set paths"
  shows "distinct (map fst (fold (date_delta paths kind t) deltas dates)) \<and>
    fst ` set (fold (date_delta paths kind t) deltas dates) \<subseteq> set paths"
  using assms
proof (induction deltas arbitrary: dates)
  case (Cons dl deltas)
  have "distinct (map fst (date_delta paths kind t dl dates)) \<and>
      fst ` set (date_delta paths kind t dl dates) \<subseteq> set paths"
    using Cons.prems
    by (cases "delta_path dl"; cases kind)
      (auto simp: distinct_update map_of_eq_None_iff dom_update image_iff
        dest!: subsetD [OF equalityD1 [OF dom_map_of_conv_image_fst]] split: if_splits)
  then show ?case using Cons.IH by simp
qed simp

abbreviation readable ::
  "'o history_libs \<Rightarrow> 'o repo \<Rightarrow> string option \<Rightarrow> (git_error + 'o) list \<Rightarrow> (int \<times> delta list) list"
where
  "readable H r scope items \<equiv> List.map_filter (commit_deltas H r scope) items"

lemma all_dated:
  assumes "distinct (map fst dates)" "fst ` set dates \<subseteq> set paths" "distinct paths"
    and "length dates = length paths" "p \<in> set paths"
  shows "map_of dates p \<noteq> None"
proof -
  have "card (fst ` set dates) = card (set paths)"
    using assms distinct_card [of "map fst dates"] distinct_card [of paths] by simp
  then have "fst ` set dates = set paths" using assms(2) by (simp add: card_subset_eq)
  then show ?thesis using assms(5) by (auto simp: map_of_eq_None_iff)
qed

lemma last_touch_Cons:
  "last_touch (c # cs) p = (if touches p c then Some (fst c) else last_touch cs p)"
  by (simp add: last_touch_def)

lemma find_append: "find P (xs @ ys) = (case find P xs of Some x \<Rightarrow> Some x | None \<Rightarrow> find P ys)"
  by (induction xs) auto

lemma first_addition_Cons:
  "first_addition (c # cs) p =
     (case first_addition cs p of Some d \<Rightarrow> Some d | None \<Rightarrow> if adds p c then Some (fst c) else None)"
  by (auto simp: first_addition_def find_append split: option.split)

lemma date_commits_updated:
  assumes "date_commits H r paths DateUpdated scope deadline n items dates = (ds, exhausted)"
    and "distinct (map fst dates)" "fst ` set dates \<subseteq> set paths" "distinct paths" "p \<in> set paths"
  shows "let final = (case map_of dates p of Some d \<Rightarrow> Some d | None \<Rightarrow> last_touch (readable H r scope items) p)
    in (map_of ds p = final \<or> (exhausted \<and> map_of ds p = None))"
  using assms
proof (induction items arbitrary: n dates)
  case Nil
  then show ?case by (auto simp: last_touch_def map_filter_simps split: option.split)
next
  case (Cons item items)
  show ?case
  proof (cases "length dates = length paths")
    case True
    then show ?thesis using Cons.prems all_dated [OF Cons.prems(2-4) True Cons.prems(5)] by auto
  next
    case False
    show ?thesis
    proof (cases "case deadline of Some limit \<Rightarrow> h_clock H n \<ge> limit | None \<Rightarrow> False")
      case True
      with False Cons.prems(1) have "ds = dates" "exhausted" by auto
      then show ?thesis by (cases "map_of dates p") auto
    next
      case running: False
      show ?thesis
      proof (cases "commit_deltas H r scope item")
        case None
        then show ?thesis
          using Cons.IH [of "Suc n" dates] Cons.prems False running None
          by (cases "map_of dates p") (simp_all add: Let_def)
      next
        case (Some c)
        obtain t deltas where c: "c = (t, deltas)" by fastforce
        let ?dates = "fold (date_delta paths DateUpdated t) deltas dates"
        note keys = fold_dates_keys [OF Cons.prems(2,3), of DateUpdated t deltas]
        have "date_commits H r paths DateUpdated scope deadline (Suc n) items ?dates = (ds, exhausted)"
          using Cons.prems(1) False running Some c by simp
        note Cons.IH [OF this conjunct1 [OF keys] conjunct2 [OF keys] Cons.prems(4,5)]
        then show ?thesis
          using Some c Cons.prems(5)
          by (cases "map_of dates p") (auto simp: map_filter_simps fold_updated last_touch_Cons Let_def)
      qed
    qed
  qed
qed

lemma date_commits_created:
  assumes "date_commits H r paths DateCreated scope deadline n items dates = (ds, False)" "p \<in> set paths"
  shows "map_of ds p =
    (case first_addition (readable H r scope items) p of Some d \<Rightarrow> Some d | None \<Rightarrow> map_of dates p)"
  using assms
proof (induction items arbitrary: n dates)
  case Nil
  then show ?case by (simp add: first_addition_def map_filter_simps)
next
  case (Cons item items)
  have running: "\<not> (case deadline of Some limit \<Rightarrow> h_clock H n \<ge> limit | None \<Rightarrow> False)"
    using Cons.prems(1) by (auto split: if_splits)
  show ?case
  proof (cases "commit_deltas H r scope item")
    case None
    then show ?thesis
      using Cons.IH [of "Suc n" dates] Cons.prems running None
      by (cases "first_addition (readable H r scope items) p") simp_all
  next
    case (Some c)
    obtain t deltas where c: "c = (t, deltas)" by fastforce
    have "date_commits H r paths DateCreated scope deadline (Suc n) items
        (fold (date_delta paths DateCreated t) deltas dates) = (ds, False)"
      using Cons.prems(1) running Some c by simp
    from Cons.IH [OF this Cons.prems(2)] show ?thesis
      using Some c Cons.prems(2)
      by (auto simp: map_filter_simps fold_created first_addition_Cons split: option.splits)
  qed
qed

lemma date_commits_unlimited: "\<not> snd (date_commits H r paths kind scope None n items dates)"
  by (induction items arbitrary: n dates) auto

definition in_window :: "date_filter \<Rightarrow> int option \<Rightarrow> bool" where
  "in_window f date =
     (case date of
        None \<Rightarrow> False
      | Some t \<Rightarrow>
          (case df_from f of None \<Rightarrow> True | Some a \<Rightarrow> a \<le> t) \<and>
          (case df_to f of None \<Rightarrow> True | Some b \<Rightarrow> t < b))"

lemma matches_in_window: "matches f t \<longleftrightarrow> in_window f (Some t)"
  by (auto simp: matches_def in_window_def split: option.split)

text \<open>
  A date filter keeps exactly the files whose date in HEAD's history lies in the half-open
  window, in the order they came, when the walk ran to its end, which it always does without a
  time budget. A walk that spent its budget keeps, when it filters on the last change, only files
  that are in the window.
\<close>

theorem date_filter_window:
  assumes "retain_by_date H r path_prefix flat f = Inr (kept, exhausted)"
  defines "dated \<equiv> \<lambda>leaf. in_window f
    (git_date (df_kind f) (history H r (nonempty_prefix path_prefix)) (to_full path_prefix leaf))"
  shows "(exhausted \<or> kept = filter dated flat) \<and>
    (df_kind f = DateUpdated \<longrightarrow> set kept \<subseteq> {leaf \<in> set flat. dated leaf}) \<and>
    (df_budget f = None \<longrightarrow> \<not> exhausted)"
proof (cases "flat = []")
  case True
  then show ?thesis using assms(1) by (simp add: retain_by_date_def surviving_by_date_def)
next
  case False
  let ?paths = "remdups (map (to_full path_prefix) flat)"
  let ?scope = "nonempty_prefix path_prefix"
  let ?deadline = "map_option (\<lambda>b. h_clock H 0 + b) (df_budget f)"
  have paths: "?paths \<noteq> []" using False by simp
  obtain items where items: "h_revwalk H r = Inr items"
    using assms(1) paths
    by (cases "h_revwalk H r") (auto simp: retain_by_date_def surviving_by_date_def file_dates_def git_result_def Let_def)
  obtain ds where run: "date_commits H r ?paths (df_kind f) ?scope ?deadline 1 items [] = (ds, exhausted)"
    and kept: "kept = filter (\<lambda>leaf. case map_of ds (to_full path_prefix leaf) of
        Some date \<Rightarrow> matches f date | None \<Rightarrow> False) flat"
    using assms(1) paths items
    by (cases "date_commits H r ?paths (df_kind f) ?scope ?deadline 1 items []")
      (auto simp: retain_by_date_def surviving_by_date_def file_dates_def git_result_def Let_def
        intro!: filter_cong)
  have hist: "history H r ?scope = readable H r ?scope items" by (simp add: history_def items)
  have kept': "kept = filter (\<lambda>leaf. in_window f (map_of ds (to_full path_prefix leaf))) flat"
    unfolding kept by (rule filter_cong) (auto simp: matches_in_window in_window_def split: option.split)
  have member: "to_full path_prefix leaf \<in> set ?paths" if "leaf \<in> set flat" for leaf
    using that by simp
  have updated: "map_of ds p = git_date DateUpdated (history H r ?scope) p \<or> (exhausted \<and> map_of ds p = None)"
    if "df_kind f = DateUpdated" "p \<in> set ?paths" for p
    using date_commits_updated [OF run [unfolded that(1)], of p] that(2) by (auto simp: hist git_date_def)
  have exact: "map_of ds p = git_date (df_kind f) (history H r ?scope) p"
    if "\<not> exhausted" "p \<in> set ?paths" for p
  proof (cases "df_kind f")
    case DateCreated
    then show ?thesis using date_commits_created [of H r ?paths ?scope ?deadline 1 items "[]" ds p] run that
      by (simp add: hist git_date_def split: option.splits)
  next
    case DateUpdated
    then show ?thesis using updated [OF DateUpdated that(2)] that(1) by simp
  qed
  have "exhausted \<or> kept = filter dated flat"
    using exact member unfolding kept' dated_def by (auto intro!: filter_cong)
  moreover have "set kept \<subseteq> {leaf \<in> set flat. dated leaf}" if "df_kind f = DateUpdated"
    using updated [OF that member] that unfolding kept' dated_def by (fastforce simp: in_window_def)
  moreover have "\<not> exhausted" if "df_budget f = None"
    using date_commits_unlimited [of H r ?paths "df_kind f" ?scope 1 items "[]"] run that by simp
  ultimately show ?thesis by blast
qed

text \<open>Two commits, the second of which adds one file and changes another.\<close>

definition dated_repo :: "nat repo" where
  "dated_repo =
     \<lparr>r_head = Inr 2,
      r_commits = map_of
        [(1, \<lparr>c_tree = 10, c_parents = [], c_message = ''init'',
             c_signature = \<lparr>sig_name = ''n'', sig_email = ''e'', sig_time = 100\<rparr>\<rparr>),
         (2, \<lparr>c_tree = 11, c_parents = [1], c_message = ''add'',
             c_signature = \<lparr>sig_name = ''n'', sig_email = ''e'', sig_time = 200\<rparr>\<rparr>)],
      r_trees = map_of [(10, []), (11, [])],
      r_blobs = (\<lambda>_. None)\<rparr>"

definition dated_history :: "nat history_libs" where
  "dated_history =
     \<lparr>h_revwalk = (\<lambda>r. Inr [Inr 2, Inr 1]),
      h_diff = (\<lambda>r parent t scope.
        Inr (if parent = Some 10
             then [\<lparr>delta_new = Some ''a.md'', delta_old = Some ''a.md'', delta_added = False\<rparr>,
                   \<lparr>delta_new = Some ''b.md'', delta_old = None, delta_added = True\<rparr>]
             else [\<lparr>delta_new = Some ''a.md'', delta_old = None, delta_added = True\<rparr>,
                   \<lparr>delta_new = Some ''c.md'', delta_old = None, delta_added = True\<rparr>])),
      h_calendar = (\<lambda>s. Some (s * 1000000000)),
      h_clock = int\<rparr>"

definition recent_window :: date_filter where
  "recent_window =
     \<lparr>df_from = Some 200000000000, df_to = None, df_kind = DateUpdated, df_budget = None\<rparr>"

lemmas dated_defs = dated_repo_def dated_history_def recent_window_def

theorem date_filter_window_witness:
  "[''a.md'', ''b.md''] = filter (\<lambda>leaf. in_window recent_window
      (git_date (df_kind recent_window) (history dated_history dated_repo (nonempty_prefix None))
        (to_full None leaf))) [''a.md'', ''b.md'', ''c.md'']"
proof -
  have "retain_by_date dated_history dated_repo None [''a.md'', ''b.md'', ''c.md''] recent_window =
      Inr ([''a.md'', ''b.md''], False)"
    by code_simp
  from date_filter_window [OF this] show ?thesis by blast
qed

end
