(* ===== verification/Git_Listing.thy ===== *)
theory Git_Listing
  imports Git_Dates Git_Order "HOL-Library.Word"
begin

text \<open>
  \<open>GitFiles::list_files\<close> of \<open>src/git.rs\<close> with its four modes: the plain listing, which opens only
  the folders of the requested page, the search by name, the exact selection and the date
  filter. \<open>str::to_lowercase\<close>, a table of the standard library, is a parameter.

  Page arithmetic is on \<open>usize\<close>, 64-bit words here, unchecked as in a release build.
\<close>

type_synonym usize = "64 word"

record listing =
  nodes :: "tree_node list"
  has_more :: bool
  partial :: bool

definition empty_listing :: listing where
  "empty_listing = \<lparr>nodes = [], has_more = False, partial = False\<rparr>"

section \<open>Pages\<close>

text \<open>The window every mode slices from its root-level entries, and whether more follow it.\<close>

definition paginate :: "usize \<Rightarrow> usize \<Rightarrow> 'a list \<Rightarrow> 'a list \<times> bool" where
  "paginate page per_page entries =
     (let total = word_of_nat (length entries);
          offset = min ((page - 1) * per_page) total
      in (take (unat per_page) (drop (unat offset) entries), total > offset + per_page))"

text \<open>\<open>a - b\<close> on \<open>usize\<close>.\<close>

definition usize_minus :: "nat \<Rightarrow> nat \<Rightarrow> nat" where
  "usize_minus a b = (a + 2 ^ 64 - b) mod 2 ^ 64"

section \<open>The stored order of a level\<close>

definition position_in :: "(string \<rightharpoonup> int) option \<Rightarrow> string \<Rightarrow> int" where
  "position_in ranks name =
     (case Option.bind ranks (\<lambda>rk. rk name) of None \<Rightarrow> UNLISTED_POSITION | Some p \<Rightarrow> p)"

text \<open>One level: every node gets its position, and the level is sorted when there is an index.\<close>

definition order_level ::
  "(string \<rightharpoonup> int) option \<Rightarrow> order_options \<Rightarrow> tree_node list \<Rightarrow> tree_node list" where
  "order_level ranks options ns =
     (let positioned = map (\<lambda>n. set_position (position_in ranks (node_name n)) n) ns in
      (case ranks of
         None \<Rightarrow> positioned
       | Some rk \<Rightarrow> sort_key (\<lambda>n. order_rank rk (node_name n) options) positioned))"

lemma order_level_size:
  "DirectoryNode name children p \<in> set (order_level ranks options ns) \<Longrightarrow>
     size_list size children < size_list size ns"
proof -
  assume "DirectoryNode name children p \<in> set (order_level ranks options ns)"
  then obtain n where n: "n \<in> set ns" "\<exists>q. DirectoryNode name children p = set_position q n"
    by (auto simp: order_level_def Let_def split: option.splits)
  from n(2) have "size_list size children < size n" by (cases n) auto
  also have "size n \<le> size_list size ns" by (rule size_list_estimation' [OF n(1)]) simp
  finally show ?thesis .
qed

function apply_order ::
  "'o libs \<Rightarrow> 'o repo \<Rightarrow> 'o \<Rightarrow> order_options \<Rightarrow> string \<Rightarrow> tree_node list \<Rightarrow> tree_node list" where
  "apply_order L r base_tree options directory ns =
     (if ns = [] then []
      else
        map (\<lambda>n. case n of
               FileNode name p \<Rightarrow> n
             | DirectoryNode name children p \<Rightarrow>
                 DirectoryNode name
                   (apply_order L r base_tree options
                     (if directory = [] then name else directory @ ''/'' @ name) children) p)
          (order_level (map_option order_ranks (stored_order L r base_tree directory)) options ns))"
  by pat_completeness auto
termination
  by (relation "measure (\<lambda>(L, r, base_tree, options, directory, ns). size_list size ns)")
    (auto dest: order_level_size)

declare apply_order.simps [simp del]

definition apply_order_opt ::
  "'o libs \<Rightarrow> 'o repo \<Rightarrow> 'o \<Rightarrow> order_options option \<Rightarrow> tree_node list \<Rightarrow> tree_node list" where
  "apply_order_opt L r base_tree order_options ns =
     (case order_options of None \<Rightarrow> ns | Some options \<Rightarrow> apply_order L r base_tree options [] ns)"

section \<open>The filtered listings\<close>

definition paged_tree :: "usize \<Rightarrow> usize \<Rightarrow> tree_node list \<Rightarrow> bool \<Rightarrow> listing" where
  "paged_tree page per_page tree is_partial =
     (let (window_nodes, more) = paginate page per_page tree
      in \<lparr>nodes = window_nodes, has_more = more, partial = is_partial\<rparr>)"

text \<open>The files below the folders the depth limit cut short, each folder with its range.\<close>

fun stub_candidates ::
  "'o libs \<Rightarrow> 'o repo \<Rightarrow> bool \<Rightarrow> (string \<times> 'o) list \<Rightarrow> string list \<Rightarrow> (string \<times> nat \<times> nat) list
   \<Rightarrow> (string list \<times> (string \<times> nat \<times> nat) list) app_result" where
  "stub_candidates L r include_hidden [] candidates stub_ranges = Inr (candidates, stub_ranges)"
| "stub_candidates L r include_hidden ((stub_path, stub_oid) # rest) candidates stub_ranges =
     and_then
       (case find_tree r stub_oid of
          Inl _ \<Rightarrow> Inr candidates
        | Inr _ \<Rightarrow>
            and_then (collect_flat_files L r stub_oid None include_hidden) (\<lambda>leaves.
              Inr (candidates @ map (\<lambda>leaf. stub_path @ ''/'' @ leaf) leaves)))
       (\<lambda>extended.
          stub_candidates L r include_hidden rest extended
            (stub_ranges @ [(stub_path, length candidates, length extended)]))"

definition dated_selection ::
  "'o libs \<Rightarrow> 'o history_libs \<Rightarrow> 'o repo \<Rightarrow> string option \<Rightarrow> string list \<Rightarrow> (string \<times> 'o) list
   \<Rightarrow> bool \<Rightarrow> date_filter \<Rightarrow> (string list \<times> string list \<times> bool) app_result" where
  "dated_selection L H r path_prefix flat depth_stubs include_hidden f =
     and_then (stub_candidates L r include_hidden depth_stubs flat []) (\<lambda>(candidates, stub_ranges).
     and_then (surviving_by_date H r path_prefix candidates f) (\<lambda>(surviving, exhausted).
       (let stubs = map fst
              (filter (\<lambda>(_, start, stop).
                  list_ex (\<lambda>leaf. leaf \<in> set surviving) (take (stop - start) (drop start candidates)))
                stub_ranges);
            rendered = take (length flat) candidates
        in Inr (filter (\<lambda>leaf. leaf \<in> set surviving) rendered, stubs, exhausted))))"

definition finish_filtered_listing ::
  "'o libs \<Rightarrow> 'o history_libs \<Rightarrow> 'o repo \<Rightarrow> 'o \<Rightarrow> string option \<Rightarrow> string list \<Rightarrow> string list
   \<Rightarrow> (string \<times> 'o) list \<Rightarrow> bool \<Rightarrow> date_filter option \<Rightarrow> order_options option \<Rightarrow> usize \<Rightarrow> usize
   \<Rightarrow> listing app_result" where
  "finish_filtered_listing L H r walk_tree path_prefix flat dir_stubs depth_stubs include_hidden
     date_filter order_options page per_page =
     and_then
       (case date_filter of
          Some f \<Rightarrow> dated_selection L H r path_prefix flat depth_stubs include_hidden f
        | None \<Rightarrow> Inr (flat, dir_stubs @ map fst depth_stubs, False))
       (\<lambda>(flat', stubs, is_partial).
          Inr (paged_tree page per_page
            (apply_order_opt L r walk_tree order_options (build_tree flat' stubs None))
            is_partial))"

subsection \<open>By name\<close>

record 'o search_state =
  ss_flat :: "string list"
  ss_dir_stubs :: "string list"
  ss_depth_stubs :: "(string \<times> 'o) list"
  ss_inside :: "string option"

definition leave_matched :: "string \<Rightarrow> 'o search_state \<Rightarrow> 'o search_state" where
  "leave_matched root s =
     (case ss_inside s of
        Some folder \<Rightarrow> if starts_with root folder then s else s\<lparr>ss_inside := None\<rparr>
      | None \<Rightarrow> s)"

fun search_step ::
  "(string \<Rightarrow> string) \<Rightarrow> string list \<Rightarrow> nat option \<Rightarrow> bool \<Rightarrow> 'o search_state \<Rightarrow> 'o visit
   \<Rightarrow> 'o search_state \<times> bool" where
  "search_step lower needles max_depth include_hidden s0 (root, e) =
     (let s = leave_matched root s0 in
      if \<not> include_hidden \<and> hidden_entry e then (s, te_kind e = Tree)
      else (case te_name e of
          None \<Rightarrow> (s, False)
        | Some name \<Rightarrow>
            (let full_path = root @ name;
                 in_matched = ss_inside s \<noteq> None;
                 self_matches = list_ex (\<lambda>needle. starts_with (lower name) needle) needles
             in (case te_kind e of
                   Tree \<Rightarrow>
                     if at_limit max_depth root then
                       (if in_matched \<or> self_matches
                        then s\<lparr>ss_depth_stubs := ss_depth_stubs s @ [(full_path, te_id e)]\<rparr>
                        else s, True)
                     else if self_matches \<and> \<not> in_matched then
                       (s\<lparr>ss_inside := Some (full_path @ ''/''),
                          ss_dir_stubs := ss_dir_stubs s @ [full_path]\<rparr>, False)
                     else (s, False)
                 | Blob \<Rightarrow>
                     if name \<noteq> ORDER_FILE_NAME \<and> (in_matched \<or> self_matches)
                     then (s\<lparr>ss_flat := ss_flat s @ [full_path]\<rparr>, False)
                     else (s, False)
                 | OtherKind \<Rightarrow> (s, False)))))"

definition search_by_file_name ::
  "'o libs \<Rightarrow> 'o history_libs \<Rightarrow> (string \<Rightarrow> string) \<Rightarrow> 'o repo \<Rightarrow> 'o \<Rightarrow> string option \<Rightarrow> string list
   \<Rightarrow> nat option \<Rightarrow> bool \<Rightarrow> date_filter option \<Rightarrow> order_options option \<Rightarrow> usize \<Rightarrow> usize
   \<Rightarrow> listing app_result" where
  "search_by_file_name L H lower r walk_tree path_prefix needles max_depth include_hidden
     date_filter order_options page per_page =
     and_then (git_result (g_walk L r walk_tree)) (\<lambda>visits.
       (let s = run_walk (search_step lower (map lower needles) max_depth include_hidden)
              \<lparr>ss_flat = [], ss_dir_stubs = [], ss_depth_stubs = [], ss_inside = None\<rparr> visits
        in finish_filtered_listing L H r walk_tree path_prefix (ss_flat s) (ss_dir_stubs s)
             (ss_depth_stubs s) include_hidden date_filter order_options page per_page))"

subsection \<open>By exact path\<close>

type_synonym 'o selection = "string list \<times> string list \<times> (string \<times> 'o) list"

definition select_path ::
  "'o libs \<Rightarrow> 'o repo \<Rightarrow> 'o \<Rightarrow> nat option \<Rightarrow> bool \<Rightarrow> string \<Rightarrow> 'o selection
   \<Rightarrow> 'o selection app_result" where
  "select_path L r walk_tree max_depth include_hidden wanted sel =
     (case (g_get_path L r walk_tree wanted, sel) of
        (None, _) \<Rightarrow> Inr sel
      | (Some e, flat, dir_stubs, depth_stubs) \<Rightarrow>
          (let names = split_on CHR ''/'' wanted; depth = length names in
           if \<not> include_hidden \<and> list_ex (\<lambda>n. starts_with n ''.'') names then Inr sel
           else if (case max_depth of Some m \<Rightarrow> depth > m | None \<Rightarrow> False) then Inr sel
           else (case te_kind e of
               Blob \<Rightarrow>
                 if last names \<noteq> ORDER_FILE_NAME then Inr (flat @ [wanted], dir_stubs, depth_stubs)
                 else Inr sel
             | Tree \<Rightarrow>
                 if max_depth = Some depth
                 then Inr (flat, dir_stubs, depth_stubs @ [(wanted, te_id e)])
                 else
                   and_then (find_tree r (te_id e)) (\<lambda>_.
                   and_then (collect_flat_with_stubs L r (te_id e)
                       (map_option (\<lambda>m. m - depth) max_depth) include_hidden) (\<lambda>(leaves, stubs).
                     Inr (flat @ map (\<lambda>leaf. wanted @ ''/'' @ leaf) leaves,
                          dir_stubs @ [wanted] @ map (\<lambda>stub. wanted @ ''/'' @ stub) stubs,
                          depth_stubs)))
             | OtherKind \<Rightarrow> Inr sel)))"

fun select_paths ::
  "'o libs \<Rightarrow> 'o repo \<Rightarrow> 'o \<Rightarrow> nat option \<Rightarrow> bool \<Rightarrow> string list \<Rightarrow> 'o selection
   \<Rightarrow> 'o selection app_result" where
  "select_paths L r walk_tree max_depth include_hidden [] sel = Inr sel"
| "select_paths L r walk_tree max_depth include_hidden (wanted # rest) sel =
     and_then (select_path L r walk_tree max_depth include_hidden wanted sel)
       (select_paths L r walk_tree max_depth include_hidden rest)"

definition select_by_file_paths ::
  "'o libs \<Rightarrow> 'o history_libs \<Rightarrow> 'o repo \<Rightarrow> 'o \<Rightarrow> string option \<Rightarrow> string list
   \<Rightarrow> nat option \<Rightarrow> bool \<Rightarrow> date_filter option \<Rightarrow> order_options option \<Rightarrow> usize \<Rightarrow> usize
   \<Rightarrow> listing app_result" where
  "select_by_file_paths L H r walk_tree path_prefix wanted max_depth include_hidden
     date_filter order_options page per_page =
     and_then (select_paths L r walk_tree max_depth include_hidden wanted ([], [], []))
       (\<lambda>(flat, dir_stubs, depth_stubs).
         finish_filtered_listing L H r walk_tree path_prefix flat dir_stubs depth_stubs
           include_hidden date_filter order_options page per_page)"

subsection \<open>By date\<close>

definition list_with_date_filter ::
  "'o libs \<Rightarrow> 'o history_libs \<Rightarrow> 'o repo \<Rightarrow> 'o \<Rightarrow> string option
   \<Rightarrow> nat option \<Rightarrow> bool \<Rightarrow> date_filter \<Rightarrow> order_options option \<Rightarrow> usize \<Rightarrow> usize
   \<Rightarrow> listing app_result" where
  "list_with_date_filter L H r walk_tree path_prefix max_depth include_hidden f
     order_options page per_page =
     and_then (collect_flat_files L r walk_tree None include_hidden) (\<lambda>flat.
     and_then (retain_by_date H r path_prefix flat f) (\<lambda>(matched, is_partial).
       Inr (paged_tree page per_page
         (apply_order_opt L r walk_tree order_options (build_tree matched [] max_depth))
         is_partial)))"

section \<open>The plain listing\<close>

datatype 'o root_entry = RootDirectory string 'o "int option" | RootFile string "int option"

fun root_name :: "'o root_entry \<Rightarrow> string" where
  "root_name (RootDirectory name oid p) = name"
| "root_name (RootFile name p) = name"

fun root_position :: "int \<Rightarrow> 'o root_entry \<Rightarrow> 'o root_entry" where
  "root_position p (RootDirectory name oid _) = RootDirectory name oid (Some p)"
| "root_position p (RootFile name _) = RootFile name (Some p)"

text \<open>The listing root's own entries, folders first, each group by name.\<close>

definition root_entries :: "bool \<Rightarrow> 'o tree_entry list \<Rightarrow> 'o root_entry list" where
  "root_entries include_hidden es =
     (let named = List.map_filter (\<lambda>e. case te_name e of
                None \<Rightarrow> None
              | Some name \<Rightarrow>
                  if \<not> include_hidden \<and> starts_with name ''.'' then None
                  else Some (name, te_kind e, te_id e)) es;
          dirs = map (\<lambda>(name, _, oid). (name, oid)) (filter (\<lambda>(_, kind, _). kind = Tree) named);
          names = map fst (filter (\<lambda>(name, kind, _). kind = Blob \<and> name \<noteq> ORDER_FILE_NAME) named)
      in map (\<lambda>(name, oid). RootDirectory name oid None) (sort_key fst dirs) @
         map (\<lambda>name. RootFile name None) (sort names))"

definition order_root ::
  "'o libs \<Rightarrow> 'o repo \<Rightarrow> 'o \<Rightarrow> order_options \<Rightarrow> 'o root_entry list \<Rightarrow> 'o root_entry list" where
  "order_root L r walk_tree options entries =
     (let ranks = map_option order_ranks (stored_order L r walk_tree []);
          positioned = map (\<lambda>e. root_position (position_in ranks (root_name e)) e) entries
      in (case ranks of
            None \<Rightarrow> positioned
          | Some rk \<Rightarrow> sort_key (\<lambda>e. order_rank rk (root_name e) options) positioned))"

definition collect_subtree ::
  "'o libs \<Rightarrow> 'o repo \<Rightarrow> 'o \<Rightarrow> nat option \<Rightarrow> bool \<Rightarrow> tree_node list app_result" where
  "collect_subtree L r subtree max_depth include_hidden =
     and_then (collect_flat_with_stubs L r subtree max_depth include_hidden) (\<lambda>(flat, dir_stubs).
       Inr (build_tree flat dir_stubs max_depth))"

fun render_root ::
  "'o libs \<Rightarrow> 'o repo \<Rightarrow> nat option \<Rightarrow> bool \<Rightarrow> 'o root_entry list \<Rightarrow> tree_node list app_result" where
  "render_root L r max_depth include_hidden [] = Inr []"
| "render_root L r max_depth include_hidden (RootFile name p # rest) =
     and_then (render_root L r max_depth include_hidden rest) (\<lambda>ns. Inr (FileNode name p # ns))"
| "render_root L r max_depth include_hidden (RootDirectory name oid p # rest) =
     and_then
       (if max_depth = Some 1 then Inr []
        else
          and_then (find_tree r oid) (\<lambda>_.
            collect_subtree L r oid (map_option (\<lambda>m. usize_minus m 1) max_depth) include_hidden))
       (\<lambda>children.
          and_then (render_root L r max_depth include_hidden rest) (\<lambda>ns.
            Inr (DirectoryNode name children p # ns)))"

fun order_below ::
  "'o libs \<Rightarrow> 'o repo \<Rightarrow> 'o \<Rightarrow> order_options option \<Rightarrow> tree_node \<Rightarrow> tree_node" where
  "order_below L r walk_tree (Some options) (DirectoryNode name children p) =
     DirectoryNode name (apply_order L r walk_tree options name children) p"
| "order_below L r walk_tree order_options n = n"

definition list_plain ::
  "'o libs \<Rightarrow> 'o repo \<Rightarrow> 'o \<Rightarrow> nat option \<Rightarrow> bool \<Rightarrow> order_options option \<Rightarrow> usize \<Rightarrow> usize
   \<Rightarrow> listing app_result" where
  "list_plain L r walk_tree max_depth include_hidden order_options page per_page =
     and_then (find_tree r walk_tree) (\<lambda>es.
       (let entries = root_entries include_hidden es;
            ordered = (case order_options of
                None \<Rightarrow> entries
              | Some options \<Rightarrow> order_root L r walk_tree options entries);
            (page_entries, more) = paginate page per_page ordered
        in and_then (render_root L r max_depth include_hidden page_entries) (\<lambda>ns.
             Inr \<lparr>nodes = map (order_below L r walk_tree order_options) ns, has_more = more,
                  partial = False\<rparr>)))"

definition list_files ::
  "'o libs \<Rightarrow> 'o history_libs \<Rightarrow> (string \<Rightarrow> string) \<Rightarrow> 'o disk \<Rightarrow> string \<Rightarrow> string option \<Rightarrow> nat option
   \<Rightarrow> bool \<Rightarrow> string list option \<Rightarrow> string list option \<Rightarrow> date_filter option \<Rightarrow> order_options option
   \<Rightarrow> usize \<Rightarrow> usize \<Rightarrow> listing app_result" where
  "list_files L H lower d tenant path_prefix max_depth include_hidden file_name_starts_with
     file_paths date_filter order_options page per_page =
     and_then (open_tenant_repo L tenant d) (\<lambda>r.
     and_then (head_tree r) (\<lambda>(_, htree).
       (case listing_root L r htree path_prefix of
          None \<Rightarrow> Inr empty_listing
        | Some walk_tree \<Rightarrow>
            (case (file_paths, file_name_starts_with, date_filter) of
               (Some wanted, _, _) \<Rightarrow>
                 select_by_file_paths L H r walk_tree path_prefix wanted max_depth include_hidden
                   date_filter order_options page per_page
             | (None, Some needles, _) \<Rightarrow>
                 search_by_file_name L H lower r walk_tree path_prefix needles max_depth
                   include_hidden date_filter order_options page per_page
             | (None, None, Some f) \<Rightarrow>
                 list_with_date_filter L H r walk_tree path_prefix max_depth include_hidden f
                   order_options page per_page
             | (None, None, None) \<Rightarrow>
                 list_plain L r walk_tree max_depth include_hidden order_options page per_page))))"

end
