(* ===== verification/Tree_Shape.thy ===== *)
theory Tree_Shape
  imports Git_Listing
begin

text \<open>
  What \<open>build_tree\<close> and \<open>apply_order\<close> do to a listing: which entries the rendered tree holds, and
  in which order. An entry is named by its path of names, and looked up by \<open>node_kind\<close>.
\<close>

section \<open>Lookup and order\<close>

fun is_directory :: "tree_node \<Rightarrow> bool" where
  "is_directory (FileNode _ _) = False"
| "is_directory (DirectoryNode _ _ _) = True"

fun node_children :: "tree_node \<Rightarrow> tree_node list" where
  "node_children (FileNode _ _) = []"
| "node_children (DirectoryNode _ children _) = children"

text \<open>The kind of the entry at a path: \<open>Some True\<close> a folder, \<open>Some False\<close> a file.\<close>

fun node_kind :: "tree_node list \<Rightarrow> string list \<Rightarrow> bool option" where
  "node_kind ns [] = Some True"
| "node_kind ns (name # rest) =
     (case find (\<lambda>n. node_name n = name) ns of
        None \<Rightarrow> None
      | Some (FileNode _ _) \<Rightarrow> if rest = [] then Some False else None
      | Some (DirectoryNode _ children _) \<Rightarrow> node_kind children rest)"

definition node_before :: "tree_node \<Rightarrow> tree_node \<Rightarrow> bool" where
  "node_before a b \<longleftrightarrow>
     (if is_directory a = is_directory b then node_name a < node_name b else is_directory a)"

inductive well_ordered :: "tree_node list \<Rightarrow> bool" where
  "sorted_wrt node_before ns \<Longrightarrow> distinct (map node_name ns) \<Longrightarrow>
   (\<And>n. n \<in> set ns \<Longrightarrow> well_ordered (node_children n)) \<Longrightarrow> well_ordered ns"

section \<open>The builder map\<close>

fun kind_at :: "(string \<times> node_builder) list \<Rightarrow> string list \<Rightarrow> bool option" where
  "kind_at dir [] = Some True"
| "kind_at dir (name # rest) =
     (case map_of dir name of
        None \<Rightarrow> None
      | Some NFile \<Rightarrow> if rest = [] then Some False else None
      | Some (NDir children) \<Rightarrow> kind_at children rest)"

inductive bt_sorted :: "(string \<times> node_builder) list \<Rightarrow> bool" where
  "sorted_wrt (<) (map fst dir) \<Longrightarrow>
   (\<And>name children. (name, NDir children) \<in> set dir \<Longrightarrow> bt_sorted children) \<Longrightarrow> bt_sorted dir"

inductive_cases bt_sortedE: "bt_sorted dir"

lemma map_of_bt_insert: "map_of (bt_insert k v m) = (map_of m)(k \<mapsto> v)"
  by (induction m) auto

lemma set_bt_insert: "set (bt_insert k v m) \<subseteq> insert (k, v) (set m)"
  by (induction m) (auto split: if_splits)

lemma keys_bt_insert: "fst ` set (bt_insert k v m) = insert k (fst ` set m)"
proof (induction m)
  case (Cons e m)
  then show ?case by (cases e) (simp add: insert_commute)
qed simp

lemma sorted_bt_insert:
  "sorted_wrt (<) (map fst m) \<Longrightarrow> sorted_wrt (<) (map fst (bt_insert (k :: string) v m))"
proof (induction m)
  case (Cons e m)
  obtain j w where e: "e = (j, w)" by fastforce
  have below: "\<forall>i \<in> fst ` set m. j < i" using Cons.prems e by auto
  show ?case
  proof (cases "k < j")
    case True
    then show ?thesis using Cons.prems e below by (auto intro: less_trans)
  next
    case False
    show ?thesis
    proof (cases "k = j")
      case True
      then show ?thesis using Cons.prems e by auto
    next
      case ne: False
      then have "j < k" using False by auto
      then have "\<forall>i \<in> fst ` set (bt_insert k v m). j < i" using below by (simp add: keys_bt_insert)
      then show ?thesis using Cons ne False e by auto
    qed
  qed
qed simp

lemma bt_sorted_nil [simp]: "bt_sorted []"
  by (rule bt_sorted.intros) auto

lemma bt_sorted_insert:
  assumes "bt_sorted m" "\<And>children. v = NDir children \<Longrightarrow> bt_sorted children"
  shows "bt_sorted (bt_insert k v m)"
proof (rule bt_sorted.intros)
  show "sorted_wrt (<) (map fst (bt_insert k v m))"
    using assms(1) by (auto elim: bt_sortedE intro: sorted_bt_insert)
  show "bt_sorted children" if "(name, NDir children) \<in> set (bt_insert k v m)" for name children
    using subsetD [OF set_bt_insert that] assms by (auto elim: bt_sortedE)
qed

lemma bt_sorted_child: "bt_sorted m \<Longrightarrow> map_of m k = Some (NDir children) \<Longrightarrow> bt_sorted children"
  by (auto elim: bt_sortedE dest: map_of_SomeD)

lemma bt_sorted_or_dir: "bt_sorted m \<Longrightarrow> bt_sorted (bt_or_dir k m)"
  by (auto simp: bt_or_dir_def intro: bt_sorted_insert split: option.split)

lemma bt_sorted_insert_path: "bt_sorted m \<Longrightarrow> bt_sorted (insert_path limit depth p m)"
proof (induction limit depth p m rule: insert_path.induct)
  case (3 limit depth name second rest dir)
  show ?case
    using 3 bt_sorted_child [OF 3(3)]
    by (auto split: option.splits node_builder.splits intro!: bt_sorted_insert bt_sorted_or_dir)
qed (auto intro: bt_sorted_insert)

lemma bt_sorted_insert_stub: "bt_sorted m \<Longrightarrow> bt_sorted (insert_stub p m)"
proof (induction p m rule: insert_stub.induct)
  case (3 name second rest dir)
  then show ?case
    using bt_sorted_child [OF 3(3)]
    by (auto split: option.splits node_builder.splits intro!: bt_sorted_insert)
qed (auto intro: bt_sorted_or_dir)

section \<open>What an insertion adds\<close>

definition shown :: "nat option \<Rightarrow> nat \<Rightarrow> string list \<Rightarrow> bool" where
  "shown limit depth q =
     (case limit of None \<Rightarrow> True | Some m \<Rightarrow> length q = 1 \<or> length q + depth \<le> m + 1)"

lemma kind_at_bt_insert:
  "kind_at (bt_insert k v m) (name # rest) =
     (if name = k then kind_at [(k, v)] (name # rest) else kind_at m (name # rest))"
  by (simp add: map_of_bt_insert)

lemma kind_at_or_dir:
  assumes "kind_at m [k] \<noteq> Some False"
  shows "kind_at (bt_or_dir k m) q = (if q = [k] then Some True else kind_at m q)"
proof (cases "map_of m k")
  case None
  then have eq: "bt_or_dir k m = bt_insert k (NDir []) m" by (simp add: bt_or_dir_def)
  show ?thesis
  proof (cases q)
    case (Cons n r)
    with None eq show ?thesis by (cases r) (simp_all add: map_of_bt_insert)
  qed simp
next
  case (Some x)
  then have "bt_or_dir k m = m" "kind_at m [k] = Some True"
    using assms by (auto simp: bt_or_dir_def split: node_builder.splits)
  then show ?thesis by simp
qed

lemma kind_at_insert_path:
  assumes "p \<noteq> []"
    and "\<And>q. q \<noteq> [] \<Longrightarrow> prefix q p \<Longrightarrow> shown limit depth q \<Longrightarrow> kind_at m q \<noteq> Some (q = p)"
  shows "kind_at (insert_path limit depth p m) q =
    (if q \<noteq> [] \<and> prefix q p \<and> shown limit depth q then Some (q \<noteq> p) else kind_at m q)"
  using assms
proof (induction limit depth p m arbitrary: q rule: insert_path.induct)
  case (2 limit depth name dir)
  have "kind_at dir [name] \<noteq> Some True"
    using "2.prems"(2) [of "[name]"] by (auto simp: shown_def split: option.split)
  have "q \<noteq> [] \<and> prefix q [name] \<and> shown limit depth q \<longleftrightarrow> q = [name]"
    by (auto simp: shown_def prefix_Cons split: option.split)
  moreover have "kind_at (bt_insert name NFile dir) q = (if q = [name] then Some False else kind_at dir q)"
  proof (cases q)
    case (Cons n r)
    with \<open>kind_at dir [name] \<noteq> Some True\<close> show ?thesis
      by (cases r) (auto simp: map_of_bt_insert split: option.splits node_builder.splits)
  qed simp
  ultimately show ?case by (simp del: kind_at.simps)
next
  case (3 limit depth name second rest dir)
  let ?p = "name # second # rest"
  have "kind_at dir [name] \<noteq> Some False"
    using "3.prems"(2) [of "[name]"] by (auto simp: shown_def split: option.split)
  then have not_file: "map_of dir name \<noteq> Some NFile" by auto
  show ?case
  proof (cases "case limit of Some m \<Rightarrow> m \<le> depth | None \<Rightarrow> False")
    case True
    then have "q \<noteq> [] \<and> prefix q ?p \<and> shown limit depth q \<longleftrightarrow> q = [name]"
      by (auto simp: shown_def prefix_Cons split: option.splits)
    then show ?thesis using True \<open>kind_at dir [name] \<noteq> Some False\<close>
      by (simp add: kind_at_or_dir del: kind_at.simps)
  next
    case False
    define children where "children = (case map_of dir name of Some (NDir c) \<Rightarrow> c | _ \<Rightarrow> [])"
    have insert: "insert_path limit depth ?p dir =
        bt_insert name (NDir (insert_path limit (Suc depth) (second # rest) children)) dir"
      using False not_file by (auto simp: children_def split: option.split node_builder.split)
    have below: "kind_at children r = kind_at dir (name # r)" if "r \<noteq> []" "map_of dir name \<noteq> None" for r
      using that not_file by (auto simp: children_def split: option.split node_builder.split)
    have empty: "kind_at children r = None" if "r \<noteq> []" "map_of dir name = None" for r
      using that by (cases r) (auto simp: children_def)
    have shown: "shown limit depth (name # r) \<longleftrightarrow> r = [] \<or> shown limit (Suc depth) r" for r
      using False by (auto simp: shown_def neq_Nil_conv split: option.splits)
    have "kind_at children r \<noteq> Some (r = second # rest)"
      if "r \<noteq> []" "prefix r (second # rest)" "shown limit (Suc depth) r" for r
      using "3.prems"(2) [of "name # r"] that below [of r] empty [of r] shown by (cases "map_of dir name") auto
    then have IH: "kind_at (insert_path limit (Suc depth) (second # rest) children) r =
      (if r \<noteq> [] \<and> prefix r (second # rest) \<and> shown limit (Suc depth) r
       then Some (r \<noteq> second # rest) else kind_at children r)" for r
      using "3.IH" [OF False] not_file by (cases "map_of dir name") (auto simp: children_def split: node_builder.splits)
    show ?thesis
    proof (cases q)
      case (Cons n r)
      show ?thesis
      proof (cases "n = name")
        case True
        have "r = [] \<or> kind_at children r = kind_at dir (name # r)"
          using below [of r] empty [of r] by (cases "r = []"; cases "map_of dir name") simp_all
        then show ?thesis unfolding insert Cons True using shown [of r]
          by (auto simp: map_of_bt_insert IH split: option.splits)
      next
        case False
        then show ?thesis unfolding insert Cons by (simp add: map_of_bt_insert)
      qed
    qed simp
  qed
qed simp

lemma kind_at_insert_stub:
  assumes "p \<noteq> []" and "\<And>q. prefix q p \<Longrightarrow> kind_at m q \<noteq> Some False"
  shows "kind_at (insert_stub p m) q = (if prefix q p then Some True else kind_at m q)"
  using assms
proof (induction p m arbitrary: q rule: insert_stub.induct)
  case (2 name dir)
  have "kind_at dir [name] \<noteq> Some False" using "2.prems"(2) [of "[name]"] by simp
  then show ?case by (auto simp: kind_at_or_dir prefix_Cons simp del: kind_at.simps(2))
next
  case (3 name second rest dir)
  let ?p = "name # second # rest"
  have "kind_at dir [name] \<noteq> Some False" using "3.prems"(2) [of "[name]"] by simp
  then have not_file: "map_of dir name \<noteq> Some NFile" by auto
  define children where "children = (case map_of dir name of Some (NDir c) \<Rightarrow> c | _ \<Rightarrow> [])"
  have insert: "insert_stub ?p dir = bt_insert name (NDir (insert_stub (second # rest) children)) dir"
    using not_file by (auto simp: children_def split: option.split node_builder.split)
  have below: "kind_at children r = kind_at dir (name # r)" if "map_of dir name \<noteq> None" for r
    using that not_file by (auto simp: children_def split: option.split node_builder.split)
  have empty: "kind_at children r = (if r = [] then Some True else None)" if "map_of dir name = None" for r
    using that by (cases r) (auto simp: children_def)
  have "kind_at children r \<noteq> Some False" if "prefix r (second # rest)" for r
    using "3.prems"(2) [of "name # r"] that below [of r] empty [of r] by (cases "map_of dir name") auto
  then have IH: "kind_at (insert_stub (second # rest) children) r =
      (if prefix r (second # rest) then Some True else kind_at children r)" for r
    using "3.IH" not_file by (cases "map_of dir name") (auto simp: children_def split: node_builder.splits)
  show ?case
  proof (cases q)
    case (Cons n r)
    show ?thesis
    proof (cases "n = name")
      case True
      have "r = [] \<or> kind_at children r = kind_at dir (name # r)"
        using below [of r] empty [of r] by (cases "r = []"; cases "map_of dir name") simp_all
      then show ?thesis unfolding insert Cons True by (auto simp: map_of_bt_insert IH)
    next
      case False
      then show ?thesis unfolding insert Cons by (simp add: map_of_bt_insert)
    qed
  qed simp
qed simp

section \<open>The whole tree\<close>

text \<open>No path is a file and a folder at once.\<close>

definition consistent :: "string list list \<Rightarrow> string list list \<Rightarrow> bool" where
  "consistent files stubs \<longleftrightarrow>
     (\<forall>f \<in> set files. \<forall>g \<in> set files. prefix f g \<longrightarrow> f = g) \<and>
     (\<forall>f \<in> set files. \<forall>s \<in> set stubs. \<not> prefix f s)"

lemma kind_at_insert_files:
  assumes "consistent (done_files @ files) []" "[] \<notin> set (done_files @ files)"
    and "\<And>q. kind_at m q = (if q = [] then Some True
        else if \<exists>f \<in> set done_files. prefix q f \<and> shown limit 1 q then Some (q \<notin> set done_files) else None)"
  shows "kind_at (fold (insert_path limit 1) files m) q =
    (if q = [] then Some True
     else if \<exists>f \<in> set (done_files @ files). prefix q f \<and> shown limit 1 q
       then Some (q \<notin> set (done_files @ files)) else None)"
  using assms
proof (induction files arbitrary: done_files m)
  case (Cons f files)
  have nonempty: "f \<noteq> []" using Cons.prems(2) by auto
  have alone: "prefix g h \<longrightarrow> g = h" if "g \<in> set (done_files @ [f])" "h \<in> set (done_files @ [f])" for g h
    using Cons.prems(1) that by (auto simp: consistent_def)
  have ok: "kind_at m q \<noteq> Some (q = f)" if "q \<noteq> []" "prefix q f" "shown limit 1 q" for q
    using that alone [of q f] alone [of f] by (auto simp: Cons.prems(3) split: if_splits)
  have "kind_at (insert_path limit 1 f m) q = (if q = [] then Some True
      else if \<exists>g \<in> set (done_files @ [f]). prefix q g \<and> shown limit 1 q
        then Some (q \<notin> set (done_files @ [f])) else None)" for q
    using kind_at_insert_path [OF nonempty ok, where q = q] alone [of f] alone [of q f]
    by (auto simp: Cons.prems(3))
  from Cons.IH [OF _ _ this] Cons.prems(1,2) show ?case by simp
qed simp

lemma kind_at_insert_stubs:
  assumes "[] \<notin> set stubs" "\<And>s q. s \<in> set stubs \<Longrightarrow> prefix q s \<Longrightarrow> kind_at m q \<noteq> Some False"
  shows "kind_at (fold insert_stub stubs m) q =
    (if \<exists>s \<in> set stubs. prefix q s then Some True else kind_at m q)"
  using assms
proof (induction stubs arbitrary: m)
  case (Cons s stubs)
  have step: "kind_at (insert_stub s m) q = (if prefix q s then Some True else kind_at m q)" for q
    by (rule kind_at_insert_stub) (use Cons.prems in auto)
  have "kind_at (insert_stub s m) q \<noteq> Some False" if "s' \<in> set stubs" "prefix q s'" for s' q
    using Cons.prems(2) [of s' q] that by (auto simp: step)
  from Cons.IH [OF _ this] Cons.prems(1) show ?case by (simp add: step)
qed simp

section \<open>From the builder to the tree\<close>

lemma find_map: "find P (map f xs) = map_option f (find (P \<circ> f) xs)"
  by (induction xs) auto

lemma find_map_of: "find (\<lambda>e. fst e = k) m = map_option (Pair k) (map_of m k)"
  by (induction m) auto

lemma node_name_convert [simp]: "node_name (convert n b) = n"
  by (cases b) auto

lemma is_directory_convert [simp]: "is_directory (convert n b) = is_dir b"
  by (cases b) auto

lemma convert_dir: "convert n (NDir children) = DirectoryNode n (convert_level children) None"
  by (simp add: convert_level_def)

lemma map_of_filter_value:
  "distinct (map fst m) \<Longrightarrow> map_of (filter (\<lambda>(n, c). P c) m) k =
     (case map_of m k of Some c \<Rightarrow> if P c then Some c else None | None \<Rightarrow> None)"
  by (induction m) (auto split: option.split simp: map_of_eq_None_iff image_iff dest: map_of_SomeD)

lemma find_convert_level:
  assumes "distinct (map fst m)"
  shows "find (\<lambda>n. node_name n = k) (convert_level m) = map_option (convert k) (map_of m k)"
proof -
  have comp: "(\<lambda>n. node_name n = k) \<circ> (\<lambda>(n, c). convert n c) = (\<lambda>e. fst e = k)" by auto
  show ?thesis
    unfolding convert_level_def find_append find_map comp find_map_of map_of_filter_value [OF assms]
    by (auto split: option.split)
qed

lemma bt_sorted_distinct: "bt_sorted m \<Longrightarrow> distinct (map fst m)"
  by (auto elim!: bt_sortedE simp: strict_sorted_iff)

lemma node_kind_convert_level: "bt_sorted m \<Longrightarrow> node_kind (convert_level m) q = kind_at m q"
proof (induction q arbitrary: m)
  case (Cons k q)
  show ?case
  proof (cases "map_of m k")
    case (Some b)
    then show ?thesis
      using Cons bt_sorted_child [OF Cons.prems] bt_sorted_distinct [OF Cons.prems]
      by (cases b) (auto simp: find_convert_level convert_dir simp del: convert.simps(2))
  qed (simp add: find_convert_level bt_sorted_distinct [OF Cons.prems])
qed simp

lemma well_ordered_convert_level: "bt_sorted m \<Longrightarrow> well_ordered (convert_level m)"
proof (induction m rule: bt_sorted.induct)
  case (1 dir)
  have sorted: "sorted_wrt (<) (map fst (filter P dir))" for P
    using 1(1) by (induction dir) auto
  have names: "sorted_wrt node_before (map (\<lambda>(n, c). convert n c) (filter (\<lambda>(n, c). is_dir c = b) dir))" for b
    using sorted [of "\<lambda>(n, c). is_dir c = b"]
    by (auto simp: sorted_wrt_map node_before_def case_prod_beta intro: sorted_wrt_mono_rel [rotated])
  have "sorted_wrt node_before (convert_level dir)"
    using names [of True] names [of False]
    by (auto simp: convert_level_def sorted_wrt_append node_before_def)
  moreover have "distinct (map node_name (convert_level dir))"
  proof -
    have names: "map node_name (convert_level dir) =
        map fst (filter (\<lambda>(n, c). is_dir c) dir) @ map fst (filter (\<lambda>(n, c). \<not> is_dir c) dir)"
      by (simp add: convert_level_def case_prod_beta comp_def)
    have keys: "distinct (map fst dir)" using 1(1) by (simp add: strict_sorted_iff)
    then show ?thesis unfolding names
      by (auto simp: distinct_map_filter dest: eq_key_imp_eq_value)
  qed
  moreover have "well_ordered (node_children n)" if n: "n \<in> set (convert_level dir)" for n
  proof -
    obtain name b where b: "n = convert name b" "(name, b) \<in> set dir"
      using n by (auto simp: convert_level_def)
    show ?thesis
    proof (cases b)
      case NFile
      then show ?thesis using b(1) by (auto intro: well_ordered.intros)
    next
      case (NDir children)
      then show ?thesis using 1(3) [of name children] b by (simp add: convert_dir del: convert.simps(2))
    qed
  qed
  ultimately show ?case by (rule well_ordered.intros)
qed

lemma split_on_ne: "split_on c s \<noteq> []"
  by (induction s) (auto split: list.splits)

text \<open>
  C14: the tree a listing renders holds exactly its files, the folders leading to them, and the
  folders it was told to show, down to the depth limit: a folder at the limit is there without
  its files. At every level folders come before files, each group sorted by name, no name twice.
\<close>

theorem build_tree_exact:
  fixes flat stubs :: "string list"
  defines "pieces \<equiv> map (split_on CHR ''/'')"
  assumes "consistent (pieces flat) (pieces stubs)"
  shows "well_ordered (build_tree flat stubs limit) \<and>
    (\<forall>q. q \<noteq> [] \<longrightarrow> node_kind (build_tree flat stubs limit) q =
      (if \<exists>s \<in> set (pieces stubs). prefix q s then Some True
       else if \<exists>f \<in> set (pieces flat). prefix q f \<and> shown limit 1 q then Some (q \<notin> set (pieces flat))
       else None))"
proof -
  define files where "files = fold (insert_path limit 1) (pieces flat) []"
  define root where "root = fold insert_stub (pieces stubs) files"
  have build: "build_tree flat stubs limit = convert_level root"
    by (simp add: build_tree_def root_def files_def pieces_def fold_map comp_def)
  have "bt_sorted files"
    unfolding files_def by (rule fold_invariant [where P = bt_sorted and Q = "\<lambda>_. True", rotated]) (auto intro: bt_sorted_insert_path)
  then have sorted: "bt_sorted root"
    unfolding root_def by (rule fold_invariant [where P = bt_sorted and Q = "\<lambda>_. True", rotated]) (auto intro: bt_sorted_insert_stub)
  have kinds: "kind_at files q = (if q = [] then Some True
      else if \<exists>f \<in> set (pieces flat). prefix q f \<and> shown limit 1 q then Some (q \<notin> set (pieces flat)) else None)" for q
    unfolding files_def
  proof (rule kind_at_insert_files [of "[]" "pieces flat", unfolded append_Nil])
    show "consistent (pieces flat) []" using assms(2) by (simp add: consistent_def)
    show "[] \<notin> set (pieces flat)" by (auto simp: pieces_def split_on_ne dest: sym)
    show "kind_at [] q = (if q = [] then Some True else if \<exists>f \<in> set []. prefix q f \<and> shown limit 1 q
        then Some (q \<notin> set []) else None)" for q by (cases q) simp_all
  qed
  have "kind_at files q \<noteq> Some False" if "s \<in> set (pieces stubs)" "prefix q s" for s q
    using that assms(2) by (auto simp: kinds consistent_def)
  then have "kind_at root q = (if \<exists>s \<in> set (pieces stubs). prefix q s then Some True else kind_at files q)" for q
    unfolding root_def by (intro kind_at_insert_stubs) (auto simp: pieces_def split_on_ne dest: sym)
  then show ?thesis
    unfolding build by (simp add: well_ordered_convert_level [OF sorted] node_kind_convert_level [OF sorted] kinds)
qed

theorem build_tree_exact_witness:
  "node_kind (build_tree [''b.md'', ''docs/x/deep.md'', ''docs/a.md''] [''empty''] (Some 2)) [''docs'', ''x''] =
    Some True"
proof -
  have "consistent (map (split_on CHR ''/'') [''b.md'', ''docs/x/deep.md'', ''docs/a.md''])
      (map (split_on CHR ''/'') [''empty''])"
    by code_simp
  from conjunct2 [OF build_tree_exact [OF this, of "Some 2"], rule_format, of "[''docs'', ''x'']"]
  show ?thesis by (simp add: shown_def)
qed

end
