(* ===== verification/Paging.thy ===== *)
theory Paging
  imports Tree_Shape
begin

text \<open>
  The page arithmetic of the listings.
\<close>

section \<open>Pages\<close>

text \<open>A page in range: nothing wraps.\<close>

definition page_fits :: "usize \<Rightarrow> usize \<Rightarrow> nat \<Rightarrow> bool" where
  "page_fits page per_page n \<longleftrightarrow>
     1 \<le> unat page \<and> 1 \<le> unat per_page \<and> (unat page - 1) * unat per_page < 2 ^ 64 \<and>
     n + unat per_page < 2 ^ 64"

lemma paginate_nat:
  assumes "page_fits page per_page (length xs)"
  shows "paginate page per_page xs =
    (take (unat per_page) (drop ((unat page - 1) * unat per_page) xs),
     unat page * unat per_page < length xs)"
proof -
  let ?k = "unat page - 1" and ?n = "unat per_page" and ?total = "word_of_nat (length xs) :: usize"
  have fits: "1 \<le> unat page" "?k * ?n < 2 ^ 64" "length xs + ?n < 2 ^ 64"
    using assms by (auto simp: page_fits_def)
  have page: "unat (page - 1) = ?k"
    using fits(1) by (simp add: unat_sub word_le_nat_alt)
  have product: "unat ((page - 1) * per_page) = ?k * ?n"
    using fits(2) by (simp add: page unat_mult_lem [THEN iffD1])
  have total: "unat ?total = length xs"
    using fits(3) by (simp add: unat_of_nat)
  define off where "off = min ((page - 1) * per_page) ?total"
  have offset: "unat off = min (?k * ?n) (length xs)"
    by (simp add: off_def min_def word_le_nat_alt product total)
  have sum: "unat (off + per_page) = min (?k * ?n) (length xs) + ?n"
    using fits(3) by (subst unat_add_lem [THEN iffD1]) (simp_all add: offset)
  have "paginate page per_page xs = (take ?n (drop (unat off) xs), unat (off + per_page) < length xs)"
    unfolding paginate_def Let_def off_def [symmetric] word_less_nat_alt total ..
  moreover have "drop (min (?k * ?n) (length xs)) xs = drop (?k * ?n) xs"
    by (cases "?k * ?n \<le> length xs") simp_all
  moreover have "unat page * ?n = ?k * ?n + ?n"
    using fits(1) by (cases "unat page") simp_all
  ultimately show ?thesis by (auto simp: offset sum)
qed

text \<open>
  C15: pages partition the listing. While the page arithmetic stays below the machine word, the
  pages from the first to the n-th, in order, are the first n pages' worth of entries, each
  entry on one page, and a page reports more exactly when entries are left after it.
\<close>

theorem pages_partition:
  assumes "page_fits (word_of_nat n) per_page (length xs)" and "n < 2 ^ 64"
  shows "List.concat (map (\<lambda>k. fst (paginate (word_of_nat k) per_page xs)) [1..<Suc n]) =
      take (n * unat per_page) xs \<and>
    (snd (paginate (word_of_nat n) per_page xs) \<longleftrightarrow> n * unat per_page < length xs)"
proof -
  let ?n = "unat per_page"
  have word: "unat (word_of_nat k :: usize) = k" if "k \<le> n" for k
    using that assms(2) by (simp add: unat_of_nat)
  have fits: "page_fits (word_of_nat k) per_page (length xs)" if "1 \<le> k" "k \<le> n" for k
  proof -
    have "(k - 1) * ?n \<le> (n - 1) * ?n" using that by (intro mult_le_mono1) simp
    also have "(n - 1) * ?n < 2 ^ 64" using assms(1) by (simp add: page_fits_def word)
    finally have "(k - 1) * ?n < 2 ^ 64" .
    moreover have "1 \<le> ?n" "length xs + ?n < 2 ^ 64"
      using assms(1) by (simp_all add: page_fits_def)
    ultimately show ?thesis
      using \<open>1 \<le> ?n\<close> \<open>length xs + ?n < 2 ^ 64\<close> that unfolding page_fits_def word [OF that(2)] by blast
  qed
  have page: "fst (paginate (word_of_nat k) per_page xs) = take ?n (drop ((k - 1) * ?n) xs)"
    if "1 \<le> k" "k \<le> n" for k
    using paginate_nat [OF fits [OF that]] word [OF that(2)] by simp
  have "List.concat (map (\<lambda>k. fst (paginate (word_of_nat k) per_page xs)) [1..<Suc m]) = take (m * ?n) xs"
    if "m \<le> n" for m
    using that
  proof (induction m)
    case (Suc m)
    have "take (Suc m * ?n) xs = take (m * ?n) xs @ take ?n (drop (m * ?n) xs)"
      by (simp add: take_add [symmetric] add.commute)
    then show ?case using Suc page [of "Suc m"] by simp
  qed simp
  moreover have "1 \<le> n" using assms by (simp add: page_fits_def word)
  ultimately show ?thesis using paginate_nat [OF assms(1)] word [of n]
    by (simp del: upt_Suc)
qed

theorem pages_partition_witness:
  "snd (paginate 2 2 [''a'', ''b'', ''c'', ''d'', ''e'']) \<longleftrightarrow>
    2 * unat (2 :: usize) < length [''a'', ''b'', ''c'', ''d'', ''e'']"
proof -
  have "page_fits (word_of_nat 2) 2 (length [''a'', ''b'', ''c'', ''d'', ''e''])"
    by (simp add: page_fits_def)
  from conjunct2 [OF pages_partition [OF this]] show ?thesis by simp
qed

text \<open>
  The unchecked product of page number and page size wraps. Page \<open>2 ^ 58 + 1\<close> of 64 entries,
  far past the end of any listing, answers the first page and its \<open>has_more\<close>.
\<close>

lemma far_page_answers_first: "paginate (2 ^ 58 + 1) 64 xs = paginate 1 64 xs"
proof -
  have "(2 ^ 58 + 1 - 1) * 64 = (0 :: usize)" by (simp add: word_uint_eq_iff)
  then show ?thesis unfolding paginate_def Let_def by (simp only: diff_self mult_zero_left)
qed

end
