(* ===== verification/Config.thy ===== *)
theory Config
  imports Git_Model Validate
begin

text \<open>
  \<open>src/config.rs\<close>: the configuration, its defaults and its start-up validation, which appends
  every problem to one list. Deserialisation (\<open>serde\<close>, TOML) is left out: a configuration is
  the value it yields. \<open>reqwest::Url::parse\<close> is the parameter \<open>url_scheme\<close>, and the state of
  \<open>repos_path\<close> on disk the parameter \<open>probe\<close>.
\<close>

section \<open>The sections\<close>

record maintenance_config =
  mc_enabled :: bool
  mc_delay_secs :: nat
  mc_destructive_prune :: bool
  mc_maximum_packs :: "nat option"

definition default_maintenance :: maintenance_config where
  "default_maintenance =
     \<lparr>mc_enabled = True, mc_delay_secs = 86400, mc_destructive_prune = False, mc_maximum_packs = None\<rparr>"

record server_config =
  sc_host :: string
  sc_port :: nat
  sc_api_key :: string
  sc_repos_path :: string
  sc_log_level :: "string option"
  sc_checkout_files :: bool
  sc_checkout_files_autoheal :: bool

record limits_config =
  lc_allowed_extensions :: "string list option"
  lc_batch_read_maximum_files :: nat
  lc_date_filter_maximum_ms :: nat

definition default_limits :: limits_config where
  "default_limits =
     \<lparr>lc_allowed_extensions = None, lc_batch_read_maximum_files = 100,
      lc_date_filter_maximum_ms = 10000\<rparr>"

datatype replication_role = Master | Replica

record replication_config =
  rc_role :: replication_role
  rc_secret :: string
  rc_node_id :: string
  rc_master_url :: "string option"
  rc_host :: "string option"
  rc_port :: nat
  rc_poll_interval_secs :: nat
  rc_parallelism :: nat
  rc_reconnect_backoff_ms :: nat
  rc_deletion_guard :: bool

text \<open>The defaults of the keys a \<open>[replication]\<close> section may leave out.\<close>

definition default_deletion_guard :: bool where "default_deletion_guard = True"
definition default_poll_interval_secs :: nat where "default_poll_interval_secs = 60"
definition default_replication_parallelism :: nat where "default_replication_parallelism = 4"
definition default_reconnect_backoff_ms :: nat where "default_reconnect_backoff_ms = 1000"
definition default_replication_port :: nat where "default_replication_port = 5356"

datatype hook_event =
    EvFileCreated | EvFileUpdated | EvFileDeleted | EvFileMoved | EvOrderUpdated | EvOrderDeleted

record hook_auth =
  ha_header :: string
  ha_value :: string

record hooks_config =
  hc_url :: string
  hc_events :: "hook_event list"
  hc_retry_attempts :: nat
  hc_retry_backoff_ms :: nat
  hc_auth :: "hook_auth option"

record config =
  cf_server :: server_config
  cf_limits :: limits_config
  cf_hooks :: "hooks_config option"
  cf_maintenance :: maintenance_config
  cf_replication :: "replication_config option"

definition is_replica :: "replication_config \<Rightarrow> bool" where
  "is_replica c \<longleftrightarrow> rc_role c = Replica"

definition replication_host :: "replication_config \<Rightarrow> server_config \<Rightarrow> string" where
  "replication_host c server = (case rc_host c of None \<Rightarrow> sc_host server | Some h \<Rightarrow> h)"

section \<open>Validation\<close>

definition problem :: "bool \<Rightarrow> string \<Rightarrow> string list" where
  "problem bad message = (if bad then [message] else [])"

definition maintenance_errors :: "maintenance_config \<Rightarrow> string list" where
  "maintenance_errors c =
     problem (mc_enabled c \<and> mc_delay_secs c < 1) ''maintenance.delay_secs must be at least 1'' @
     (case mc_maximum_packs c of
        None \<Rightarrow> []
      | Some packs \<Rightarrow> problem (packs < 2) ''maintenance.maximum_packs must be at least 2'')"

definition ascii_alphanumeric :: "char \<Rightarrow> bool" where
  "ascii_alphanumeric c \<longleftrightarrow>
     in_range CHR ''0'' CHR ''9'' c \<or> in_range CHR ''A'' CHR ''Z'' c \<or> in_range CHR ''a'' CHR ''z'' c"

definition quoted :: "string \<Rightarrow> string" where
  "quoted s = [CHR 0x27] @ s @ [CHR 0x27]"

definition extension_errors :: "string \<Rightarrow> string list" where
  "extension_errors extension =
     (let normalized = trim_start CHR ''.'' extension in
      problem (normalized = [] \<or> \<not> list_all ascii_alphanumeric normalized)
        (''limits.allowed_extensions entry '' @ quoted extension
           @ '' is invalid; must be alphanumeric like '' @ [CHR 0x22] @ ''md'' @ [CHR 0x22]))"

definition limits_errors :: "limits_config \<Rightarrow> string list" where
  "limits_errors c =
     problem (lc_batch_read_maximum_files c < 1) ''limits.batch_read_maximum_files must be at least 1'' @
     (case lc_allowed_extensions c of
        None \<Rightarrow> []
      | Some extensions \<Rightarrow>
          problem (extensions = []) ''limits.allowed_extensions must contain at least one extension'' @
          List.concat (map extension_errors extensions))"

definition VALID_LOG_LEVELS :: "string list" where
  "VALID_LOG_LEVELS = [''trace'', ''debug'', ''info'', ''warn'', ''error'']"

text \<open>What \<open>repos_path\<close> is on disk; a missing one is created, which may fail.\<close>

datatype path_probe = ProbeDirectory | ProbeOther | ProbeMissing "io_error option"

definition repos_path_errors :: "(string \<Rightarrow> path_probe) \<Rightarrow> string \<Rightarrow> string list" where
  "repos_path_errors probe path =
     (if path = [] then [''server.repos_path must not be empty'']
      else (case probe path of
          ProbeDirectory \<Rightarrow> []
        | ProbeOther \<Rightarrow> [''server.repos_path '' @ quoted path @ '' exists but is not a directory'']
        | ProbeMissing None \<Rightarrow> []
        | ProbeMissing (Some create_err) \<Rightarrow>
            [''server.repos_path '' @ quoted path @ '' could not be created: '' @ io_message create_err]))"

fun comma_join :: "string list \<Rightarrow> string" where
  "comma_join [] = []"
| "comma_join [s] = s"
| "comma_join (s # ss) = s @ '', '' @ comma_join ss"

definition server_errors :: "(string \<Rightarrow> path_probe) \<Rightarrow> server_config \<Rightarrow> string list" where
  "server_errors probe c =
     problem (is_blank (sc_host c)) ''server.host must not be empty'' @
     problem (is_blank (sc_api_key c)) ''server.api_key must not be empty'' @
     (case sc_log_level c of
        None \<Rightarrow> []
      | Some level \<Rightarrow>
          problem (level \<notin> set VALID_LOG_LEVELS)
            (''server.log_level '' @ quoted level @ '' is invalid; must be one of: ''
               @ comma_join VALID_LOG_LEVELS)) @
     repos_path_errors probe (sc_repos_path c)"

text \<open>\<open>url_scheme u\<close>: the scheme of the parsed URL, \<open>None\<close> when it does not parse.\<close>

definition url_errors :: "(string \<Rightarrow> string option) \<Rightarrow> string \<Rightarrow> string \<Rightarrow> string list" where
  "url_errors url_scheme key url =
     (case url_scheme url of
        Some scheme \<Rightarrow>
          problem (scheme \<noteq> ''http'' \<and> scheme \<noteq> ''https'')
            (key @ '' scheme '' @ quoted scheme @ '' is invalid; must be http or https'')
      | None \<Rightarrow> [key @ '' '' @ quoted url @ '' is not a valid URL''])"

definition auth_errors :: "hook_auth \<Rightarrow> string list" where
  "auth_errors c =
     problem (is_blank (ha_header c)) ''hooks.auth.header must not be empty'' @
     problem (is_blank (ha_value c)) ''hooks.auth.value must not be empty''"

definition hooks_errors :: "(string \<Rightarrow> string option) \<Rightarrow> hooks_config \<Rightarrow> string list" where
  "hooks_errors url_scheme c =
     url_errors url_scheme ''hooks.url'' (hc_url c) @
     problem (hc_events c = []) ''hooks.events must contain at least one event'' @
     problem (hc_retry_attempts c < 1) ''hooks.retry_attempts must be at least 1'' @
     problem (hc_retry_backoff_ms c < 1) ''hooks.retry_backoff_ms must be at least 1'' @
     (case hc_auth c of None \<Rightarrow> [] | Some auth \<Rightarrow> auth_errors auth)"

definition replication_errors ::
  "(string \<Rightarrow> string option) \<Rightarrow> replication_config \<Rightarrow> server_config \<Rightarrow> string list" where
  "replication_errors url_scheme c server =
     problem (is_blank (rc_secret c)) ''replication.secret must not be empty'' @
     problem (rc_port c = sc_port server)
       (''replication.port ('' @ show_nat (rc_port c) @ '') must differ from server.port'') @
     (case node_id (rc_node_id c) of
        Inr _ \<Rightarrow> []
      | Inl err \<Rightarrow> [''replication.node_id is required and must be valid: '' @ error_message err]) @
     (case (rc_role c, rc_master_url c) of
        (Replica, None) \<Rightarrow>
          [''replication.master_url is required when role is '' @ quoted ''replica'']
      | (Master, Some _) \<Rightarrow>
          [''replication.master_url must not be set when role is '' @ quoted ''master'']
      | _ \<Rightarrow> []) @
     (case rc_master_url c of
        None \<Rightarrow> []
      | Some url \<Rightarrow> url_errors url_scheme ''replication.master_url'' url) @
     problem (rc_poll_interval_secs c < 1) ''replication.poll_interval_secs must be at least 1'' @
     problem (rc_parallelism c < 1) ''replication.parallelism must be at least 1'' @
     problem (rc_reconnect_backoff_ms c < 1) ''replication.reconnect_backoff_ms must be at least 1''"

definition validate ::
  "(string \<Rightarrow> path_probe) \<Rightarrow> (string \<Rightarrow> string option) \<Rightarrow> config \<Rightarrow> string list + unit" where
  "validate probe url_scheme c =
     (let errors =
        server_errors probe (cf_server c) @
        limits_errors (cf_limits c) @
        (case cf_hooks c of None \<Rightarrow> [] | Some hooks \<Rightarrow> hooks_errors url_scheme hooks) @
        maintenance_errors (cf_maintenance c) @
        (case cf_replication c of
           None \<Rightarrow> []
         | Some replication \<Rightarrow> replication_errors url_scheme replication (cf_server c))
      in if errors = [] then Inr () else Inl errors)"

section \<open>What a validated configuration guarantees\<close>

lemma problem_Nil [simp]: "problem bad m = [] \<longleftrightarrow> \<not> bad"
  by (simp add: problem_def)

definition web_url :: "(string \<Rightarrow> string option) \<Rightarrow> string \<Rightarrow> bool" where
  "web_url url_scheme url \<longleftrightarrow> url_scheme url \<in> {Some ''http'', Some ''https''}"

definition usable_extension :: "string \<Rightarrow> bool" where
  "usable_extension e \<longleftrightarrow>
     trim_start CHR ''.'' e \<noteq> [] \<and> list_all ascii_alphanumeric (trim_start CHR ''.'' e)"

definition valid_server :: "(string \<Rightarrow> path_probe) \<Rightarrow> server_config \<Rightarrow> bool" where
  "valid_server probe c \<longleftrightarrow>
     \<not> is_blank (sc_host c) \<and> \<not> is_blank (sc_api_key c) \<and>
     (\<forall>level. sc_log_level c = Some level \<longrightarrow> level \<in> set VALID_LOG_LEVELS) \<and>
     sc_repos_path c \<noteq> [] \<and> probe (sc_repos_path c) \<in> {ProbeDirectory, ProbeMissing None}"

definition valid_limits :: "limits_config \<Rightarrow> bool" where
  "valid_limits c \<longleftrightarrow>
     1 \<le> lc_batch_read_maximum_files c \<and>
     (\<forall>es. lc_allowed_extensions c = Some es \<longrightarrow> es \<noteq> [] \<and> (\<forall>e \<in> set es. usable_extension e))"

definition valid_hooks :: "(string \<Rightarrow> string option) \<Rightarrow> hooks_config \<Rightarrow> bool" where
  "valid_hooks url_scheme c \<longleftrightarrow>
     web_url url_scheme (hc_url c) \<and> hc_events c \<noteq> [] \<and>
     1 \<le> hc_retry_attempts c \<and> 1 \<le> hc_retry_backoff_ms c \<and>
     (\<forall>auth. hc_auth c = Some auth \<longrightarrow> \<not> is_blank (ha_header auth) \<and> \<not> is_blank (ha_value auth))"

definition valid_maintenance :: "maintenance_config \<Rightarrow> bool" where
  "valid_maintenance c \<longleftrightarrow>
     (mc_enabled c \<longrightarrow> 1 \<le> mc_delay_secs c) \<and> (\<forall>n. mc_maximum_packs c = Some n \<longrightarrow> 2 \<le> n)"

definition valid_replication ::
  "(string \<Rightarrow> string option) \<Rightarrow> server_config \<Rightarrow> replication_config \<Rightarrow> bool" where
  "valid_replication url_scheme server c \<longleftrightarrow>
     \<not> is_blank (rc_secret c) \<and> rc_port c \<noteq> sc_port server \<and> node_id (rc_node_id c) = Inr (rc_node_id c) \<and>
     (if is_replica c then (\<exists>url. rc_master_url c = Some url \<and> web_url url_scheme url)
      else rc_master_url c = None) \<and>
     1 \<le> rc_poll_interval_secs c \<and> 1 \<le> rc_parallelism c \<and> 1 \<le> rc_reconnect_backoff_ms c"

lemma url_errors_Nil: "url_errors url_scheme key url = [] \<longleftrightarrow> web_url url_scheme url"
  by (auto simp: url_errors_def web_url_def split: option.split)

lemma extension_errors_Nil: "extension_errors e = [] \<longleftrightarrow> usable_extension e"
  by (simp add: extension_errors_def usable_extension_def Let_def)

lemma server_errors_Nil: "server_errors probe c = [] \<longleftrightarrow> valid_server probe c"
  by (auto simp: server_errors_def valid_server_def repos_path_errors_def
      split: option.split path_probe.split)

lemma limits_errors_Nil: "limits_errors c = [] \<longleftrightarrow> valid_limits c"
  by (auto simp: limits_errors_def valid_limits_def extension_errors_Nil split: option.split)

lemma hooks_errors_Nil: "hooks_errors url_scheme c = [] \<longleftrightarrow> valid_hooks url_scheme c"
  by (auto simp: hooks_errors_def valid_hooks_def url_errors_Nil auth_errors_def split: option.split)

lemma maintenance_errors_Nil: "maintenance_errors c = [] \<longleftrightarrow> valid_maintenance c"
  by (auto simp: maintenance_errors_def valid_maintenance_def split: option.split)

lemma node_id_Inr: "node_id raw = Inr x \<Longrightarrow> x = raw"
  by (auto simp: node_id_def Let_def split: if_splits)

lemma replication_errors_Nil:
  "replication_errors url_scheme c server = [] \<longleftrightarrow> valid_replication url_scheme server c"
proof -
  have node: "(case node_id (rc_node_id c) of Inr _ \<Rightarrow> []
      | Inl err \<Rightarrow> [''replication.node_id is required and must be valid: '' @ error_message err]) = [] \<longleftrightarrow>
      node_id (rc_node_id c) = Inr (rc_node_id c)"
    by (auto split: sum.split dest: node_id_Inr)
  show ?thesis
    unfolding replication_errors_def valid_replication_def append_is_Nil_conv problem_Nil node
    by (cases "rc_role c"; cases "rc_master_url c") (auto simp: is_replica_def url_errors_Nil)
qed

text \<open>
  C19: start-up accepts exactly the configurations in which every section keeps its rules: the
  repositories root is or could be made a directory, the limits, retry and delay settings are
  positive, URLs are web URLs, the two servers listen on different ports, and a node follows a
  master exactly when it is a replica.
\<close>

theorem config_accepts_iff:
  "validate probe url_scheme c = Inr () \<longleftrightarrow>
     valid_server probe (cf_server c) \<and> valid_limits (cf_limits c) \<and>
     pred_option (valid_hooks url_scheme) (cf_hooks c) \<and>
     valid_maintenance (cf_maintenance c) \<and>
     pred_option (valid_replication url_scheme (cf_server c)) (cf_replication c)"
  by (cases "cf_hooks c"; cases "cf_replication c")
    (auto simp: validate_def Let_def server_errors_Nil limits_errors_Nil hooks_errors_Nil
      maintenance_errors_Nil replication_errors_Nil)

lemma validate_limits: "validate probe url_scheme c = Inr () \<Longrightarrow> valid_limits (cf_limits c)"
  by (auto simp: validate_def Let_def limits_errors_Nil split: if_splits)

lemma alphanumeric_name:
  assumes "list_all ascii_alphanumeric w"
  shows "CHR ''/'' \<notin> set w" "CHR ''.'' \<notin> set w"
proof -
  have "\<not> ascii_alphanumeric CHR ''/''" "\<not> ascii_alphanumeric CHR ''.''" by code_simp+
  then show "CHR ''/'' \<notin> set w" "CHR ''.'' \<notin> set w" using assms by (auto simp: list_all_iff)
qed

lemma path_extension_of:
  assumes stem: "stem \<noteq> []" "CHR ''/'' \<notin> set stem" and w: "w \<noteq> []" "CHR ''/'' \<notin> set w" "CHR ''.'' \<notin> set w"
  shows "path_extension (stem @ CHR ''.'' # w) = Some w"
proof -
  let ?p = "stem @ CHR ''.'' # w"
  have "split_on CHR ''/'' ?p = [?p]" by (rule split_on_free) (use assms in auto)
  moreover have "?p \<noteq> []" "?p \<noteq> ''.''" using stem(1) by (auto simp: append_eq_Cons_conv)
  moreover have "?p \<noteq> ''..''"
  proof
    assume "?p = ''..''"
    then have "CHR ''.'' \<in> set w" using stem(1) w(1) by (cases stem; cases "tl stem") auto
    then show False using w(3) by simp
  qed
  moreover have "\<not> starts_with ?p ''/''" using stem by (cases stem) auto
  ultimately have "path_file_name ?p = Some ?p"
    by (simp add: path_file_name_def path_components_def path_pieces_def component_of_def)
  then show ?thesis using stem(1) w(3) by (simp add: path_extension_def rsplit_once_append)
qed

text \<open>
  Every extension a validated configuration allows can be used. A file name ending in it is
  accepted by the extension check, spelled in the configuration with or without leading dots.
\<close>

theorem configured_extension_usable:
  assumes "validate probe url_scheme c = Inr ()"
    and "lc_allowed_extensions (cf_limits c) = Some extensions" "e \<in> set extensions"
    and "stem \<noteq> []" "CHR ''/'' \<notin> set stem"
  shows "file_extension (stem @ ''.'' @ trim_start CHR ''.'' e) (lc_allowed_extensions (cf_limits c)) = Inr ()"
proof -
  have ok: "usable_extension e"
    using validate_limits [OF assms(1)] assms(2,3) by (auto simp: valid_limits_def)
  let ?w = "trim_start CHR ''.'' e"
  have w: "?w \<noteq> []" "CHR ''/'' \<notin> set ?w" "CHR ''.'' \<notin> set ?w"
    using ok alphanumeric_name by (auto simp: usable_extension_def)
  have "extension_permitted ?w extensions"
    using w(1) assms(3) by (auto simp: extension_permitted_def eq_ignore_ascii_case_def list_ex_iff)
  then show ?thesis
    using path_extension_of [OF assms(4,5) w] assms(2) by (simp add: file_extension_def)
qed

definition sample_config :: config where
  "sample_config =
     \<lparr>cf_server = \<lparr>sc_host = ''0.0.0.0'', sc_port = 5355, sc_api_key = ''key'', sc_repos_path = ''/data'',
        sc_log_level = None, sc_checkout_files = True, sc_checkout_files_autoheal = False\<rparr>,
      cf_limits = default_limits\<lparr>lc_allowed_extensions := Some [''.md'', ''mdx'']\<rparr>,
      cf_hooks = None, cf_maintenance = default_maintenance, cf_replication = None\<rparr>"

theorem configured_extension_usable_witness:
  "file_extension ''intro.md'' (Some [''.md'', ''mdx'']) = Inr ()"
proof -
  have "\<not> is_blank ''0.0.0.0''" "\<not> is_blank ''key''"
    "usable_extension ''.md''" "usable_extension ''mdx''" by code_simp+
  then have "valid_server (\<lambda>_. ProbeDirectory) (cf_server sample_config)"
    "valid_limits (cf_limits sample_config)" "valid_maintenance (cf_maintenance sample_config)"
    by (simp_all add: sample_config_def valid_server_def valid_limits_def valid_maintenance_def
        default_limits_def default_maintenance_def)
  then have "validate (\<lambda>_. ProbeDirectory) (\<lambda>_. None) sample_config = Inr ()"
    by (simp add: validate_def server_errors_Nil limits_errors_Nil maintenance_errors_Nil,
        simp add: sample_config_def)
  moreover have "lc_allowed_extensions (cf_limits sample_config) = Some [''.md'', ''mdx'']"
    by (simp add: sample_config_def)
  ultimately show ?thesis
    using configured_extension_usable [of "\<lambda>_. ProbeDirectory" "\<lambda>_. None" sample_config
        "[''.md'', ''mdx'']" "''.md''" "''intro''"]
    by (simp add: trim_start_def)
qed

end
