(* ===== verification/Hooks.thy ===== *)
theory Hooks
  imports Git_Files Config
begin

text \<open>
  \<open>src/hooks.rs\<close>: jobs, their classification into file and order events, the payloads, the retry
  loop, replays, and the per-repository queues.

  A delivery is what it does to the outside, a list of effects: posts with the receiver's answer,
  sleeps, and the log line of a lost event. The receiver, the calendar's formatting and the
  repository a replay reads are parameters that see the effects so far; a failed read of the
  blocking pool is \<open>None\<close>.
\<close>

datatype json =
    JBool bool
  | JString string
  | JArray "json list"
  | JObject "(string \<times> json) list"

definition json_field :: "string \<Rightarrow> json \<Rightarrow> json option" where
  "json_field key j = (case j of JObject entries \<Rightarrow> map_of entries key | _ \<Rightarrow> None)"

section \<open>Jobs\<close>

datatype order_change = OrderUpdated string "string list" | OrderDeleted string

datatype replay_kind = ReplayCreated | ReplayDeleted

record replay_job =
  rp_kind :: replay_kind
  rp_paths :: "string list"
  rp_order_directories :: "string list"
  rp_delay_ms :: "nat option"

datatype hook_source = FromCommit "file_change list" "order_change list" | FromReplay replay_job

record hook_job =
  hj_collection_id :: string
  hj_tenant_id :: string
  hj_commit_sha :: string
  hj_committed_at :: int
  hj_source :: hook_source

definition replay_hook_job :: "string \<Rightarrow> string \<Rightarrow> string \<Rightarrow> int \<Rightarrow> replay_job \<Rightarrow> hook_job" where
  "replay_hook_job collection tenant sha committed_at rp =
     \<lparr>hj_collection_id = collection, hj_tenant_id = tenant, hj_commit_sha = sha,
      hj_committed_at = committed_at, hj_source = FromReplay rp\<rparr>"

fun touches_index :: "file_change \<Rightarrow> bool" where
  "touches_index (Created path content) = is_order_file path"
| "touches_index (Updated path content) = is_order_file path"
| "touches_index (Deleted path) = is_order_file path"
| "touches_index (Moved from_path to_path content) = is_order_file to_path"

text \<open>A malformed index yields no event.\<close>

definition push_order_updated ::
  "'o libs \<Rightarrow> order_change list \<Rightarrow> string \<Rightarrow> string \<Rightarrow> order_change list" where
  "push_order_updated L changes path content =
     (case directory_of_order_file path of
        None \<Rightarrow> changes
      | Some directory \<Rightarrow>
          (case parse (json_parse_order L) content of
             Some parsed \<Rightarrow> changes @ [OrderUpdated directory parsed]
           | None \<Rightarrow> changes))"

definition push_order_deleted :: "order_change list \<Rightarrow> string \<Rightarrow> order_change list" where
  "push_order_deleted changes path =
     (case directory_of_order_file path of
        None \<Rightarrow> changes
      | Some directory \<Rightarrow> changes @ [OrderDeleted directory])"

fun push_order_change :: "'o libs \<Rightarrow> order_change list \<Rightarrow> file_change \<Rightarrow> order_change list" where
  "push_order_change L changes (Created path content) = push_order_updated L changes path content"
| "push_order_change L changes (Updated path content) = push_order_updated L changes path content"
| "push_order_change L changes (Deleted path) = push_order_deleted changes path"
| "push_order_change L changes (Moved from_path to_path content) =
     push_order_updated L (push_order_deleted changes from_path) to_path content"

fun split_changes ::
  "'o libs \<Rightarrow> file_change list \<Rightarrow> file_change list \<times> order_change list
   \<Rightarrow> file_change list \<times> order_change list" where
  "split_changes L [] acc = acc"
| "split_changes L (c # cs) (files, orders) =
     split_changes L cs
       (if touches_index c then (files, push_order_change L orders c) else (files @ [c], orders))"

definition new_hook_job ::
  "'o libs \<Rightarrow> string \<Rightarrow> string \<Rightarrow> string \<Rightarrow> int \<Rightarrow> file_change list \<Rightarrow> hook_job" where
  "new_hook_job L collection tenant sha committed_at changes =
     \<lparr>hj_collection_id = collection, hj_tenant_id = tenant, hj_commit_sha = sha,
      hj_committed_at = committed_at,
      hj_source = (let (files, orders) = split_changes L changes ([], []) in FromCommit files orders)\<rparr>"

section \<open>Payloads\<close>

fun event_for_change :: "file_change \<Rightarrow> hook_event" where
  "event_for_change (Created _ _) = EvFileCreated"
| "event_for_change (Updated _ _) = EvFileUpdated"
| "event_for_change (Deleted _) = EvFileDeleted"
| "event_for_change (Moved _ _ _) = EvFileMoved"

fun event_for_order_change :: "order_change \<Rightarrow> hook_event" where
  "event_for_order_change (OrderUpdated _ _) = EvOrderUpdated"
| "event_for_order_change (OrderDeleted _) = EvOrderDeleted"

text \<open>The fields every payload starts with.\<close>

definition envelope :: "(int \<Rightarrow> string) \<Rightarrow> hook_job \<Rightarrow> bool \<Rightarrow> (string \<times> json) list" where
  "envelope rfc3339 job is_replay =
     [(''collection_id'', JString (hj_collection_id job)),
      (''tenant_id'', JString (hj_tenant_id job)),
      (''commit_sha'', JString (hj_commit_sha job)),
      (''committed_at'', JString (rfc3339 (hj_committed_at job)))] @
     (if is_replay then [(''replayed'', JBool True)] else [])"

fun change_fields :: "file_change \<Rightarrow> (string \<times> json) list" where
  "change_fields (Created path content) =
     [(''event'', JString ''file.created''),
      (''file'', JObject [(''path'', JString path), (''content'', JString content)])]"
| "change_fields (Updated path content) =
     [(''event'', JString ''file.updated''),
      (''file'', JObject [(''path'', JString path), (''content'', JString content)])]"
| "change_fields (Deleted path) =
     [(''event'', JString ''file.deleted''), (''file'', JObject [(''path'', JString path)])]"
| "change_fields (Moved from_path to_path content) =
     [(''event'', JString ''file.moved''),
      (''from'', JObject [(''path'', JString from_path)]),
      (''to'', JObject [(''path'', JString to_path), (''content'', JString content)])]"

definition build_payload :: "(int \<Rightarrow> string) \<Rightarrow> hook_job \<Rightarrow> file_change \<Rightarrow> bool \<Rightarrow> json" where
  "build_payload rfc3339 job change is_replay =
     JObject (envelope rfc3339 job is_replay @ change_fields change)"

fun order_fields :: "order_change \<Rightarrow> (string \<times> json) list" where
  "order_fields (OrderUpdated directory order) =
     [(''event'', JString ''order.updated''), (''directory'', JString directory),
      (''order'', JArray (map JString order))]"
| "order_fields (OrderDeleted directory) =
     [(''event'', JString ''order.deleted''), (''directory'', JString directory)]"

definition build_order_payload :: "(int \<Rightarrow> string) \<Rightarrow> hook_job \<Rightarrow> order_change \<Rightarrow> bool \<Rightarrow> json" where
  "build_order_payload rfc3339 job change is_replay =
     JObject (envelope rfc3339 job is_replay @ order_fields change)"

section \<open>Delivery\<close>

datatype effect = Posted json bool | Slept nat | GaveUp json

record 'o hook_world =
  hw_accepts :: "effect list \<Rightarrow> json \<Rightarrow> bool"
  hw_rfc3339 :: "int \<Rightarrow> string"
  hw_repository :: "effect list \<Rightarrow> 'o disk option"

definition MAX_BACKOFF_EXPONENT :: nat where "MAX_BACKOFF_EXPONENT = 20"

text \<open>\<open>retry_backoff_ms.saturating_mul(1 << exponent)\<close> on \<open>u64\<close>.\<close>

definition backoff_ms :: "hooks_config \<Rightarrow> nat \<Rightarrow> nat" where
  "backoff_ms hooks attempt =
     min (hc_retry_backoff_ms hooks * 2 ^ min (attempt - 1) MAX_BACKOFF_EXPONENT) (2 ^ 64 - 1)"

fun attempt_delivery ::
  "'o hook_world \<Rightarrow> hooks_config \<Rightarrow> nat \<Rightarrow> json \<Rightarrow> nat list \<Rightarrow> effect list \<Rightarrow> effect list" where
  "attempt_delivery W hooks attempts payload [] tr = tr"
| "attempt_delivery W hooks attempts payload (attempt # rest) tr =
     (let accepted = hw_accepts W tr payload; tr' = tr @ [Posted payload accepted] in
      if accepted then tr'
      else if attempt = attempts then tr' @ [GaveUp payload]
      else attempt_delivery W hooks attempts payload rest (tr' @ [Slept (backoff_ms hooks attempt)]))"

definition deliver_with_retries ::
  "'o hook_world \<Rightarrow> hooks_config \<Rightarrow> nat \<Rightarrow> json \<Rightarrow> effect list \<Rightarrow> effect list" where
  "deliver_with_retries W hooks attempts payload tr =
     attempt_delivery W hooks attempts payload [1..<Suc attempts] tr"

fun deliver_files ::
  "'o hook_world \<Rightarrow> hooks_config \<Rightarrow> nat \<Rightarrow> hook_job \<Rightarrow> file_change list \<Rightarrow> effect list \<Rightarrow> effect list" where
  "deliver_files W hooks attempts job [] tr = tr"
| "deliver_files W hooks attempts job (c # cs) tr =
     deliver_files W hooks attempts job cs
       (if event_for_change c \<notin> set (hc_events hooks) then tr
        else deliver_with_retries W hooks attempts (build_payload (hw_rfc3339 W) job c False) tr)"

fun deliver_orders ::
  "'o hook_world \<Rightarrow> hooks_config \<Rightarrow> nat \<Rightarrow> hook_job \<Rightarrow> order_change list \<Rightarrow> effect list \<Rightarrow> effect list" where
  "deliver_orders W hooks attempts job [] tr = tr"
| "deliver_orders W hooks attempts job (c # cs) tr =
     deliver_orders W hooks attempts job cs
       (if event_for_order_change c \<notin> set (hc_events hooks) then tr
        else deliver_with_retries W hooks attempts (build_order_payload (hw_rfc3339 W) job c False) tr)"

section \<open>Replays\<close>

definition REPLAY_READ_CHUNK :: nat where "REPLAY_READ_CHUNK = 64"

text \<open>\<open>slice::chunks\<close>.\<close>

function chunks :: "nat \<Rightarrow> 'a list \<Rightarrow> 'a list list" where
  "chunks n xs = (if n = 0 \<or> xs = [] then [] else take n xs # chunks n (drop n xs))"
  by pat_completeness auto
termination
  by (relation "measure (\<lambda>(n, xs). length xs)") auto

declare chunks.simps [simp del]

definition replay_chunk_changes ::
  "'o libs \<Rightarrow> 'o hook_world \<Rightarrow> string \<Rightarrow> replay_kind \<Rightarrow> string list \<Rightarrow> effect list
   \<Rightarrow> file_change option list option" where
  "replay_chunk_changes L W tenant kind paths tr =
     (case kind of
        ReplayDeleted \<Rightarrow> Some (map (\<lambda>path. Some (Deleted path)) paths)
      | ReplayCreated \<Rightarrow>
          (case hw_repository W tr of
             None \<Rightarrow> None
           | Some d \<Rightarrow>
               (case replay_read_files L d tenant paths of
                  Inl _ \<Rightarrow> None
                | Inr contents \<Rightarrow>
                    Some (map (\<lambda>(path, content). map_option (Created path) content)
                      (zip paths contents)))))"

definition replay_chunk_orders ::
  "'o libs \<Rightarrow> 'o hook_world \<Rightarrow> string \<Rightarrow> string list \<Rightarrow> effect list \<Rightarrow> string list option list option" where
  "replay_chunk_orders L W tenant directories tr =
     (case hw_repository W tr of
        None \<Rightarrow> None
      | Some d \<Rightarrow>
          (case replay_read_orders L d tenant directories of Inl _ \<Rightarrow> None | Inr orders \<Rightarrow> Some orders))"

definition pause :: "nat option \<Rightarrow> nat \<Rightarrow> effect list \<Rightarrow> effect list" where
  "pause delay delivered tr =
     (case delay of Some d \<Rightarrow> if delivered > 0 then tr @ [Slept d] else tr | None \<Rightarrow> tr)"

fun replay_files_chunk ::
  "'o hook_world \<Rightarrow> hooks_config \<Rightarrow> nat \<Rightarrow> hook_job \<Rightarrow> nat option \<Rightarrow> file_change option list
   \<Rightarrow> effect list \<times> nat \<Rightarrow> effect list \<times> nat" where
  "replay_files_chunk W hooks attempts job delay [] st = st"
| "replay_files_chunk W hooks attempts job delay (None # cs) st =
     replay_files_chunk W hooks attempts job delay cs st"
| "replay_files_chunk W hooks attempts job delay (Some c # cs) (tr, delivered) =
     replay_files_chunk W hooks attempts job delay cs
       (deliver_with_retries W hooks attempts (build_payload (hw_rfc3339 W) job c True)
          (pause delay delivered tr), Suc delivered)"

text \<open>The phases: \<open>Inl\<close> the effects of a replay that gave up.\<close>

fun replay_files ::
  "'o libs \<Rightarrow> 'o hook_world \<Rightarrow> hooks_config \<Rightarrow> nat \<Rightarrow> hook_job \<Rightarrow> replay_kind \<Rightarrow> nat option
   \<Rightarrow> string list list \<Rightarrow> effect list \<times> nat \<Rightarrow> effect list + effect list \<times> nat" where
  "replay_files L W hooks attempts job kind delay [] st = Inr st"
| "replay_files L W hooks attempts job kind delay (chunk # rest) st =
     (case replay_chunk_changes L W (hj_tenant_id job) kind chunk (fst st) of
        None \<Rightarrow> Inl (fst st)
      | Some changes \<Rightarrow>
          replay_files L W hooks attempts job kind delay rest
            (replay_files_chunk W hooks attempts job delay changes st))"

fun replay_orders_chunk ::
  "'o hook_world \<Rightarrow> hooks_config \<Rightarrow> nat \<Rightarrow> hook_job \<Rightarrow> nat option \<Rightarrow> (string \<times> string list option) list
   \<Rightarrow> effect list \<times> nat \<Rightarrow> effect list \<times> nat" where
  "replay_orders_chunk W hooks attempts job delay [] st = st"
| "replay_orders_chunk W hooks attempts job delay ((directory, None) # rest) st =
     replay_orders_chunk W hooks attempts job delay rest st"
| "replay_orders_chunk W hooks attempts job delay ((directory, Some order) # rest) (tr, delivered) =
     replay_orders_chunk W hooks attempts job delay rest
       (deliver_with_retries W hooks attempts
          (build_order_payload (hw_rfc3339 W) job (OrderUpdated directory order) True)
          (pause delay delivered tr), Suc delivered)"

fun replay_orders ::
  "'o libs \<Rightarrow> 'o hook_world \<Rightarrow> hooks_config \<Rightarrow> nat \<Rightarrow> hook_job \<Rightarrow> nat option
   \<Rightarrow> string list list \<Rightarrow> effect list \<times> nat \<Rightarrow> effect list" where
  "replay_orders L W hooks attempts job delay [] st = fst st"
| "replay_orders L W hooks attempts job delay (chunk # rest) st =
     (case replay_chunk_orders L W (hj_tenant_id job) chunk (fst st) of
        None \<Rightarrow> fst st
      | Some orders \<Rightarrow>
          replay_orders L W hooks attempts job delay rest
            (replay_orders_chunk W hooks attempts job delay (zip chunk orders) st))"

definition deliver_replay ::
  "'o libs \<Rightarrow> 'o hook_world \<Rightarrow> hooks_config \<Rightarrow> nat \<Rightarrow> hook_job \<Rightarrow> replay_job \<Rightarrow> effect list
   \<Rightarrow> effect list" where
  "deliver_replay L W hooks attempts job rp tr =
     (let required = (case rp_kind rp of ReplayCreated \<Rightarrow> EvFileCreated | ReplayDeleted \<Rightarrow> EvFileDeleted);
          files = (required \<in> set (hc_events hooks));
          orders = (EvOrderUpdated \<in> set (hc_events hooks));
          delay = (case rp_delay_ms rp of Some d \<Rightarrow> if d > 0 then Some d else None | None \<Rightarrow> None)
      in if \<not> files \<and> \<not> orders then tr
         else
           (case (if files
                  then replay_files L W hooks attempts job (rp_kind rp) delay
                         (chunks REPLAY_READ_CHUNK (rp_paths rp)) (tr, 0)
                  else Inr (tr, 0)) of
              Inl aborted \<Rightarrow> aborted
            | Inr st \<Rightarrow>
                if orders
                then replay_orders L W hooks attempts job delay
                       (chunks REPLAY_READ_CHUNK (rp_order_directories rp)) st
                else fst st))"

definition deliver_all ::
  "'o libs \<Rightarrow> 'o hook_world \<Rightarrow> hooks_config option \<Rightarrow> hook_job \<Rightarrow> effect list \<Rightarrow> effect list" where
  "deliver_all L W hooks job tr =
     (case hooks of
        None \<Rightarrow> tr
      | Some h \<Rightarrow>
          (let attempts = max (hc_retry_attempts h) 1 in
           case hj_source job of
             FromCommit files orders \<Rightarrow>
               deliver_orders W h attempts job orders (deliver_files W h attempts job files tr)
           | FromReplay rp \<Rightarrow> deliver_replay L W h attempts job rp tr))"

section \<open>The queues\<close>

text \<open>
  One queue and one consumer per repository. A step is a handler's \<open>enqueue\<close>, or a consumer
  delivering the job at the head of its queue; the effects are kept per repository.
\<close>

record hook_queues =
  hq_pending :: "string \<rightharpoonup> hook_job list"
  hq_effects :: "string \<Rightarrow> effect list"

definition enqueue :: "hooks_config option \<Rightarrow> string \<Rightarrow> hook_job \<Rightarrow> hook_queues \<Rightarrow> hook_queues" where
  "enqueue hooks key job q =
     (if hooks = None then q
      else q\<lparr>hq_pending := (hq_pending q)
               (key \<mapsto> (case hq_pending q key of None \<Rightarrow> [] | Some jobs \<Rightarrow> jobs) @ [job])\<rparr>)"

definition consume ::
  "'o libs \<Rightarrow> 'o hook_world \<Rightarrow> hooks_config option \<Rightarrow> string \<Rightarrow> hook_queues \<Rightarrow> hook_queues option" where
  "consume L W hooks key q =
     (case hq_pending q key of
        Some (job # jobs) \<Rightarrow>
          Some (q\<lparr>hq_pending := (hq_pending q)(key \<mapsto> jobs),
                  hq_effects := (hq_effects q)
                    (key := deliver_all L W hooks job (hq_effects q key))\<rparr>)
      | _ \<Rightarrow> None)"

end
