(* ===== verification/Hook_Facts.thy ===== *)
theory Hook_Facts
  imports Hooks Git_Moves
begin

text \<open>
  What a receiver is told: the retry loop, the order of a commit's events, the queues, the
  payloads as an encoding of the events.
\<close>

section \<open>Retries\<close>

definition refusals :: "hooks_config \<Rightarrow> json \<Rightarrow> nat \<Rightarrow> effect list" where
  "refusals hooks payload n =
     List.concat (map (\<lambda>i. [Posted payload False, Slept (backoff_ms hooks i)]) [1..<Suc n])"

lemma refusals_0 [simp]: "refusals hooks p 0 = []"
  by (simp add: refusals_def)

lemma refusals_Suc: "refusals hooks p (Suc n) =
    refusals hooks p n @ [Posted p False, Slept (backoff_ms hooks (Suc n))]"
  by (simp add: refusals_def)

lemma attempt_delivery_from:
  assumes "k < n"
  shows "\<exists>j es. attempt_delivery W hooks n p [Suc k..<Suc n] (tr @ refusals hooks p k) = tr @ refusals hooks p j @ es \<and>
    j < n \<and> (es = [Posted p True] \<or> (Suc j = n \<and> es = [Posted p False, GaveUp p]))"
  using assms
proof (induction "n - k" arbitrary: k)
  case (Suc m)
  have list: "[Suc k..<Suc n] = Suc k # [Suc (Suc k)..<Suc n]"
    using Suc.prems by (simp add: upt_conv_Cons)
  show ?case
  proof (cases "hw_accepts W (tr @ refusals hooks p k) p")
    case True
    then show ?thesis unfolding list using Suc.prems by (intro exI [of _ k]) (auto simp: Let_def)
  next
    case refused: False
    show ?thesis
    proof (cases "Suc k = n")
      case True
      then show ?thesis unfolding list using refused by (intro exI [of _ k]) (auto simp: Let_def)
    next
      case False
      have "m = n - Suc k" "Suc k < n" using Suc.hyps(2) Suc.prems False by simp_all
      from Suc.hyps(1) [OF this] show ?thesis
        unfolding list using refused False by (simp add: Let_def refusals_Suc)
    qed
  qed
qed simp

lemma deliver_with_retries_cases:
  assumes "0 < n"
  obtains j es where "deliver_with_retries W hooks n p tr = tr @ refusals hooks p j @ es" "j < n"
    "es = [Posted p True] \<or> (Suc j = n \<and> es = [Posted p False, GaveUp p])"
  using attempt_delivery_from [OF assms, of W hooks p tr]
  by (auto simp: deliver_with_retries_def)

lemma backoff_doubles:
  "1 \<le> i \<Longrightarrow> i \<le> MAX_BACKOFF_EXPONENT \<Longrightarrow>
     backoff_ms hooks (Suc i) = min (2 * backoff_ms hooks i) (2 ^ 64 - 1)"
  by (cases i) (simp_all add: backoff_ms_def MAX_BACKOFF_EXPONENT_def min_def mult.commute mult.left_commute)

lemma backoff_bounds: "backoff_ms hooks i < 2 ^ 64"
  by (simp add: backoff_ms_def)

text \<open>
  C17: an event is posted at least once and at most as many times as configured. Every refusal
  but the last is followed by a pause, which doubles from one attempt to the next up to the
  exponent's cap and never wraps; the first acceptance ends it, and it is given up exactly when
  every attempt was refused.
\<close>

theorem retries_bounded:
  assumes "0 < n"
  shows "(\<exists>j < n. \<exists>es. deliver_with_retries W hooks n p tr = tr @ refusals hooks p j @ es \<and>
      (es = [Posted p True] \<or> (Suc j = n \<and> es = [Posted p False, GaveUp p]))) \<and>
    (\<forall>i. backoff_ms hooks i < 2 ^ 64 \<and>
      (1 \<le> i \<and> i \<le> MAX_BACKOFF_EXPONENT \<longrightarrow>
         backoff_ms hooks (Suc i) = min (2 * backoff_ms hooks i) (2 ^ 64 - 1)))"
proof
  obtain j es where "deliver_with_retries W hooks n p tr = tr @ refusals hooks p j @ es" "j < n"
    "es = [Posted p True] \<or> (Suc j = n \<and> es = [Posted p False, GaveUp p])"
    using deliver_with_retries_cases [OF assms] .
  then show "\<exists>j < n. \<exists>es. deliver_with_retries W hooks n p tr = tr @ refusals hooks p j @ es \<and>
      (es = [Posted p True] \<or> (Suc j = n \<and> es = [Posted p False, GaveUp p]))" by blast
qed (use backoff_bounds backoff_doubles in blast)

section \<open>The order of events\<close>

text \<open>The events settled by a delivery: accepted, or given up.\<close>

fun settles :: "effect \<Rightarrow> json option" where
  "settles (Posted p accepted) = (if accepted then Some p else None)"
| "settles (Slept n) = None"
| "settles (GaveUp p) = Some p"

definition settled :: "effect list \<Rightarrow> json list" where
  "settled tr = List.map_filter settles tr"

lemma settled_simps [simp]:
  "settled [] = []" "settled (e # es) = (case settles e of None \<Rightarrow> settled es | Some p \<Rightarrow> p # settled es)"
  "settled (es @ es') = settled es @ settled es'"
  by (simp_all add: settled_def cong: option.case_cong) (induction es; auto split: option.split)

lemma settled_refusals [simp]: "settled (refusals hooks p n) = []"
  by (induction n) (simp_all add: refusals_Suc)

lemma settled_retries [simp]:
  "0 < n \<Longrightarrow> settled (deliver_with_retries W hooks n p tr) = settled tr @ [p]"
  by (elim deliver_with_retries_cases [of n W hooks p tr]) auto

definition subscribed :: "hooks_config \<Rightarrow> ('c \<Rightarrow> hook_event) \<Rightarrow> 'c list \<Rightarrow> 'c list" where
  "subscribed hooks event cs = filter (\<lambda>c. event c \<in> set (hc_events hooks)) cs"

lemma subscribed_simps [simp]:
  "subscribed hooks event [] = []"
  "subscribed hooks event (c # cs) =
     (if event c \<in> set (hc_events hooks) then c # subscribed hooks event cs else subscribed hooks event cs)"
  by (simp_all add: subscribed_def)

lemma settled_files:
  "0 < n \<Longrightarrow> settled (deliver_files W hooks n job cs tr) = settled tr @
     map (\<lambda>c. build_payload (hw_rfc3339 W) job c False) (subscribed hooks event_for_change cs)"
  by (induction cs arbitrary: tr) simp_all

lemma settled_orders:
  "0 < n \<Longrightarrow> settled (deliver_orders W hooks n job cs tr) = settled tr @
     map (\<lambda>c. build_order_payload (hw_rfc3339 W) job c False) (subscribed hooks event_for_order_change cs)"
  by (induction cs arbitrary: tr) simp_all

text \<open>What the classification of a commit's changes yields.\<close>

definition file_events :: "file_change list \<Rightarrow> file_change list" where
  "file_events changes = filter (\<lambda>c. \<not> touches_index c) changes"

definition order_events :: "'o libs \<Rightarrow> file_change list \<Rightarrow> order_change list" where
  "order_events L changes = List.concat (map (push_order_change L []) (filter touches_index changes))"

lemma push_order_updated_append:
  "push_order_updated L changes path content = changes @ push_order_updated L [] path content"
  by (simp add: push_order_updated_def split: option.split)

lemma push_order_deleted_append:
  "push_order_deleted changes path = changes @ push_order_deleted [] path"
  by (simp add: push_order_deleted_def split: option.split)

lemma push_order_change_append: "push_order_change L changes c = changes @ push_order_change L [] c"
proof (cases c)
  case (Moved from_path to_path content)
  show ?thesis
    unfolding Moved push_order_change.simps
    by (subst (1 2) push_order_updated_append, subst push_order_deleted_append, rule append_assoc)
qed (simp_all, (rule push_order_updated_append push_order_deleted_append)+)

lemma split_changes_eq:
  "split_changes L cs (files, orders) = (files @ file_events cs, orders @ order_events L cs)"
proof (induction cs arbitrary: files orders)
  case (Cons c cs)
  then show ?case
    using push_order_change_append [of L orders c] by (simp add: file_events_def order_events_def)
qed (simp add: file_events_def order_events_def)

lemma new_hook_job_source:
  "hj_source (new_hook_job L collection tenant sha at changes) = FromCommit (file_events changes) (order_events L changes)"
  by (simp add: new_hook_job_def split_changes_eq)

lemma settled_commit_job:
  "settled (deliver_all L W (Some hooks) (new_hook_job L collection tenant sha at changes) tr) = settled tr @
     map (\<lambda>c. build_payload (hw_rfc3339 W) (new_hook_job L collection tenant sha at changes) c False)
       (subscribed hooks event_for_change (file_events changes)) @
     map (\<lambda>c. build_order_payload (hw_rfc3339 W) (new_hook_job L collection tenant sha at changes) c False)
       (subscribed hooks event_for_order_change (order_events L changes))"
  by (simp add: deliver_all_def new_hook_job_source settled_files settled_orders Let_def)

text \<open>
  The events of a commit reach the receiver in the commit's order, one per subscribed change,
  each settled before the next is sent and none twice; order events come after every file event,
  and no change of an order index is ever told as a change of a file.
\<close>

theorem commit_events_in_order:
  fixes L :: "'o libs" and collection tenant sha :: string and at :: int and changes :: "file_change list"
  defines "job \<equiv> new_hook_job L collection tenant sha at changes"
  shows "settled (deliver_all L W (Some hooks) job tr) = settled tr @
      map (\<lambda>c. build_payload (hw_rfc3339 W) job c False)
        (subscribed hooks event_for_change (file_events changes)) @
      map (\<lambda>c. build_order_payload (hw_rfc3339 W) job c False)
        (subscribed hooks event_for_order_change (order_events L changes))"
  unfolding job_def by (rule settled_commit_job)

text \<open>A receiver that refuses the first two posts.\<close>

definition sample_world :: "'o hook_world" where
  "sample_world =
     \<lparr>hw_accepts = (\<lambda>tr p. 4 \<le> length tr), hw_rfc3339 = (\<lambda>t. ''2026-01-01T00:00:00+00:00''),
      hw_repository = (\<lambda>tr. None)\<rparr>"

definition sample_hooks :: hooks_config where
  "sample_hooks =
     \<lparr>hc_url = ''http://r'', hc_events = [EvFileCreated, EvFileUpdated, EvFileDeleted, EvFileMoved, EvOrderUpdated],
      hc_retry_attempts = 3, hc_retry_backoff_ms = 500, hc_auth = None\<rparr>"

theorem retries_bounded_witness:
  "\<exists>j es. deliver_with_retries sample_world sample_hooks 3 (JBool True) [] =
      [] @ refusals sample_hooks (JBool True) j @ es \<and> j < 3 \<and>
      (es = [Posted (JBool True) True] \<or> (Suc j = 3 \<and> es = [Posted (JBool True) False, GaveUp (JBool True)]))"
  using retries_bounded [of 3 sample_world sample_hooks "JBool True" "[]"] by auto

section \<open>The queues\<close>

datatype queue_step = Enqueue string hook_job | Consume string

fun queue_steps ::
  "'o libs \<Rightarrow> 'o hook_world \<Rightarrow> hooks_config option \<Rightarrow> queue_step list \<Rightarrow> hook_queues \<Rightarrow> hook_queues" where
  "queue_steps L W hooks [] q = q"
| "queue_steps L W hooks (Enqueue key job # steps) q = queue_steps L W hooks steps (enqueue hooks key job q)"
| "queue_steps L W hooks (Consume key # steps) q =
     queue_steps L W hooks steps (case consume L W hooks key q of None \<Rightarrow> q | Some q' \<Rightarrow> q')"

definition no_queues :: hook_queues where
  "no_queues = \<lparr>hq_pending = (\<lambda>_. None), hq_effects = (\<lambda>_. [])\<rparr>"

fun enqueued :: "string \<Rightarrow> queue_step list \<Rightarrow> hook_job list" where
  "enqueued key [] = []"
| "enqueued key (Enqueue k job # steps) = (if k = key then job # enqueued key steps else enqueued key steps)"
| "enqueued key (Consume k # steps) = enqueued key steps"

fun consumptions :: "string \<Rightarrow> queue_step list \<Rightarrow> nat" where
  "consumptions key [] = 0"
| "consumptions key (Enqueue k job # steps) = consumptions key steps"
| "consumptions key (Consume k # steps) = (if k = key then Suc (consumptions key steps) else consumptions key steps)"

definition waiting :: "string \<Rightarrow> hook_queues \<Rightarrow> hook_job list" where
  "waiting key q = (case hq_pending q key of None \<Rightarrow> [] | Some jobs \<Rightarrow> jobs)"

lemma waiting_enqueue:
  "waiting key (enqueue (Some h) k job q) = waiting key q @ (if k = key then [job] else [])"
  "hq_effects (enqueue hooks k job q) = hq_effects q"
  by (auto simp: waiting_def enqueue_def)

lemma consume_waiting:
  "consume L W hooks k q = (case waiting k q of [] \<Rightarrow> None
     | job # jobs \<Rightarrow> Some (q\<lparr>hq_pending := (hq_pending q)(k \<mapsto> jobs),
          hq_effects := (hq_effects q)(k := deliver_all L W hooks job (hq_effects q k))\<rparr>))"
  by (auto simp: consume_def waiting_def split: option.split list.split)

lemma queue_steps_effects:
  "\<exists>n. hq_effects (queue_steps L W (Some h) steps q) key =
        fold (deliver_all L W (Some h)) (take n (waiting key q @ enqueued key steps)) (hq_effects q key) \<and>
      waiting key (queue_steps L W (Some h) steps q) = drop n (waiting key q @ enqueued key steps) \<and>
      n \<le> consumptions key steps"
proof (induction steps arbitrary: q)
  case Nil
  show ?case by (intro exI [of _ 0]) simp
next
  case (Cons s steps)
  show ?case
  proof (cases s)
    case (Enqueue k job)
    have "waiting key (enqueue (Some h) k job q) @ enqueued key steps = waiting key q @ enqueued key (s # steps)"
      by (simp add: Enqueue waiting_enqueue)
    with Cons [of "enqueue (Some h) k job q"] show ?thesis
      by (simp add: Enqueue waiting_enqueue(2) del: take_append drop_append)
  next
    case (Consume k)
    show ?thesis
    proof (cases "waiting k q")
      case Nil
      with Cons [of q] show ?thesis unfolding Consume by (auto simp: consume_waiting intro: le_SucI)
    next
      case (Cons job jobs)
      let ?q = "q\<lparr>hq_pending := (hq_pending q)(k \<mapsto> jobs),
          hq_effects := (hq_effects q)(k := deliver_all L W (Some h) job (hq_effects q k))\<rparr>"
      obtain n where n: "hq_effects (queue_steps L W (Some h) steps ?q) key =
          fold (deliver_all L W (Some h)) (take n (waiting key ?q @ enqueued key steps)) (hq_effects ?q key)"
        "waiting key (queue_steps L W (Some h) steps ?q) = drop n (waiting key ?q @ enqueued key steps)"
        "n \<le> consumptions key steps"
        using Cons.IH [of ?q] by blast
      have "consume L W (Some h) k q = Some ?q" using Cons by (simp add: consume_waiting)
      then have run: "queue_steps L W (Some h) (s # steps) q = queue_steps L W (Some h) steps ?q"
        by (simp add: Consume)
      show ?thesis
      proof (cases "k = key")
        case True
        then have "waiting key ?q = jobs" by (simp add: waiting_def)
        with n Cons True show ?thesis unfolding run
          by (intro exI [of _ "Suc n"]) (simp add: Consume)
      next
        case False
        then have "waiting key ?q = waiting key q" by (simp add: waiting_def)
        with n False show ?thesis unfolding run
          by (intro exI [of _ n]) (simp add: Consume)
      qed
    qed
  qed
qed

text \<open>
  C16: whatever the interleaving of handlers and consumers, a repository's jobs are delivered in
  the order they were enqueued, each to its end before the next starts, and no other
  repository's job takes part: what a repository's receiver saw is the delivery, one after the
  other, of a prefix of the jobs enqueued for it, and the rest are still waiting.
\<close>

theorem queues_deliver_in_order:
  "\<exists>n. hq_effects (queue_steps L W (Some h) steps no_queues) key =
        fold (deliver_all L W (Some h)) (take n (enqueued key steps)) [] \<and>
      waiting key (queue_steps L W (Some h) steps no_queues) = drop n (enqueued key steps) \<and>
      n \<le> consumptions key steps"
  using queue_steps_effects [of L W h steps no_queues key] by (simp add: no_queues_def waiting_def)

end
