(* ===== verification/Git_Restores.thy ===== *)
theory Git_Restores
  imports Git_Deletes Git_History
begin

text \<open>
  What revert and rollback do to HEAD's content, and what the changes they report tell. Both
  stage, delta by delta, what brings the paths of a commit to the state of one of its two trees;
  the locale \<open>delta_restorer\<close> is that contract.
\<close>

section \<open>Changes applied to file maps\<close>

type_synonym mirror = "string \<Rightarrow> bytes option"

fun apply_change :: "file_change \<Rightarrow> mirror \<Rightarrow> mirror" where
  "apply_change (Created path content) m = m(path \<mapsto> content)"
| "apply_change (Updated path content) m = m(path \<mapsto> content)"
| "apply_change (Deleted path) m = m(path := None)"
| "apply_change (Moved from_path to_path content) m = (m(from_path := None))(to_path \<mapsto> content)"

fun change_paths :: "file_change \<Rightarrow> string list" where
  "change_paths (Created path content) = [path]"
| "change_paths (Updated path content) = [path]"
| "change_paths (Deleted path) = [path]"
| "change_paths (Moved from_path to_path content) = [from_path, to_path]"

text \<open>
  The changes take a map that agrees with \<open>now\<close> on the paths \<open>ps\<close> to \<open>goal\<close> on them, and leave
  the rest of it alone.
\<close>

definition tells :: "mirror \<Rightarrow> mirror \<Rightarrow> string list \<Rightarrow> file_change list \<Rightarrow> bool" where
  "tells goal now ps chs \<longleftrightarrow>
     (\<forall>m. (\<forall>p \<in> set ps. m p = now p) \<longrightarrow>
        fold apply_change chs m = (\<lambda>x. if x \<in> set ps then goal x else m x)) \<and>
     (\<forall>c \<in> set chs. set (change_paths c) \<subseteq> set ps)"

lemma tells_append:
  assumes "tells goal now ps chs" "tells goal now qs chs'" "set ps \<inter> set qs = {}"
  shows "tells goal now (ps @ qs) (chs @ chs')"
  unfolding tells_def
proof (intro conjI allI impI)
  fix m assume m: "\<forall>p \<in> set (ps @ qs). m p = now p"
  let ?m = "\<lambda>x. if x \<in> set ps then goal x else m x"
  have "fold apply_change chs m = ?m" using assms(1) m by (simp add: tells_def)
  moreover have "\<forall>q \<in> set qs. ?m q = now q" using m assms(3) by auto
  then have "fold apply_change chs' ?m = (\<lambda>x. if x \<in> set qs then goal x else ?m x)"
    using assms(2) by (simp add: tells_def)
  ultimately show "fold apply_change (chs @ chs') m = (\<lambda>x. if x \<in> set (ps @ qs) then goal x else m x)"
    by (simp only: fold_append comp_apply) auto
qed (use assms in \<open>auto simp: tells_def\<close>)

section \<open>Updates that settle paths\<close>

definition apart :: "string list \<Rightarrow> bool" where
  "apart ps \<longleftrightarrow> (\<forall>p \<in> set ps. \<forall>q \<in> set ps. p \<noteq> q \<longrightarrow> \<not> under p q)"

fun update_result :: "'o tree_update \<Rightarrow> 'o option" where
  "update_result (Upsert p oid) = Some oid"
| "update_result (Remove p) = None"

text \<open>Each path is updated to \<open>goal\<close>, at most once, unless it is there already.\<close>

definition settles ::
  "(string \<Rightarrow> 'o option) \<Rightarrow> (string \<Rightarrow> 'o option) \<Rightarrow> string list \<Rightarrow> 'o tree_update list \<Rightarrow> bool" where
  "settles goal now ps us \<longleftrightarrow>
     distinct (map update_path us) \<and>
     (\<forall>u \<in> set us. update_path u \<in> set ps \<and> update_result u = goal (update_path u)) \<and>
     (\<forall>p \<in> set ps. p \<in> update_path ` set us \<or> now p = goal p)"

lemma settles_append:
  assumes "settles goal now ps us" "settles goal now qs vs" "set ps \<inter> set qs = {}"
  shows "settles goal now (ps @ qs) (us @ vs)"
proof -
  have "update_path ` set us \<subseteq> set ps" "update_path ` set vs \<subseteq> set qs"
    using assms(1,2) by (auto simp: settles_def)
  then have "distinct (map update_path (us @ vs))"
    using assms by (auto simp: settles_def)
  then show ?thesis using assms(1,2) by (auto simp: settles_def)
qed

lemma sorted_wrt_distinct:
  "distinct (map f us) \<Longrightarrow> (\<And>u v. u \<in> set us \<Longrightarrow> v \<in> set us \<Longrightarrow> f u \<noteq> f v \<Longrightarrow> P u v) \<Longrightarrow> sorted_wrt P us"
  by (induction us) (auto simp: image_iff)

lemma settles_well_formed:
  assumes "settles goal now ps us" "apart ps" "list_all clean ps"
  shows "well_formed_updates us"
proof -
  have "sorted_wrt unrelated us"
    using assms(1,2)
    by (intro sorted_wrt_distinct [of update_path]) (auto simp: settles_def apart_def unrelated_def)
  then show ?thesis
    using assms(1,3) by (auto simp: well_formed_updates_def settles_def list_all_iff)
qed

lemma apply_untouched:
  "\<forall>u \<in> set us. \<not> under (update_path u) x \<Longrightarrow> apply_updates us m x = m x"
proof (induction us arbitrary: m)
  case (Cons u us)
  then show ?case by (cases u) auto
qed simp

lemma apply_absent:
  "p \<notin> update_path ` set us \<Longrightarrow> m p = None \<Longrightarrow> apply_updates us m p = None"
proof (induction us arbitrary: m)
  case (Cons u us)
  then show ?case by (cases u) auto
qed simp

lemma apply_one:
  assumes "distinct (map update_path us)" "u \<in> set us"
    and "\<forall>v \<in> set us. update_path v \<noteq> update_path u \<longrightarrow> \<not> under (update_path v) (update_path u)"
  shows "apply_updates us m (update_path u) = update_result u"
  using assms
proof (induction us arbitrary: m)
  case (Cons v us)
  show ?case
  proof (cases "u = v")
    case True
    then have "\<forall>w \<in> set us. \<not> under (update_path w) (update_path u)" 
      using Cons.prems(1,3) True by (metis distinct.simps(2) image_eqI list.set_map list.simps(9) list.set_intros(2))
    then show ?thesis using True by (cases v) (simp_all add: apply_untouched)
  next
    case False
    then show ?thesis using Cons by simp
  qed
qed simp

lemma settles_apply:
  assumes s: "settles goal now ps us" and a: "apart ps"
  shows "p \<in> set ps \<Longrightarrow> apply_updates us now p = goal p"
    and "\<forall>q \<in> set ps. \<not> under q p \<Longrightarrow> apply_updates us now p = now p"
proof -
  assume p: "p \<in> set ps"
  show "apply_updates us now p = goal p"
  proof (cases "p \<in> update_path ` set us")
    case True
    then obtain u where u: "u \<in> set us" "p = update_path u" by blast
    have "\<forall>v \<in> set us. update_path v \<noteq> update_path u \<longrightarrow> \<not> under (update_path v) (update_path u)"
      using s a u(1) unfolding settles_def apart_def by blast
    with s u have "apply_updates us now (update_path u) = update_result u"
      by (intro apply_one) (simp_all add: settles_def)
    then show ?thesis using s u by (simp add: settles_def)
  next
    case False
    then have "now p = goal p" using s p by (auto simp: settles_def)
    moreover have "\<not> under (update_path u) p" if u: "u \<in> set us" for u
    proof -
      have "update_path u \<in> set ps" using s u by (simp add: settles_def)
      moreover have "update_path u \<noteq> p" using False u by blast
      ultimately show ?thesis using a p by (simp add: apart_def)
    qed
    ultimately show ?thesis by (simp add: apply_untouched)
  qed
next
  assume "\<forall>q \<in> set ps. \<not> under q p"
  then show "apply_updates us now p = now p"
    using s by (intro apply_untouched) (simp add: settles_def)
qed

section \<open>The contract of a restorer\<close>

definition tree_content :: "'o libs \<Rightarrow> 'o repo \<Rightarrow> 'o option \<Rightarrow> string \<Rightarrow> bytes option" where
  "tree_content L r t p = Option.bind (tree_files L r t p) (r_blobs r)"

text \<open>
  \<open>stage\<close> stages one delta of the diff between the trees \<open>before\<close> and \<open>after\<close> of a commit, on top
  of HEAD's tree; \<open>goal\<close> is which of the two it restores.
\<close>

locale delta_restorer =
  fixes stage :: "'o libs \<Rightarrow> 'o repo \<Rightarrow> bool \<Rightarrow> 'o \<Rightarrow> 'o option \<Rightarrow> 'o \<Rightarrow> 'o delta_record
      \<Rightarrow> ('o, 'o staged) git_action"
    and goal :: "'o option \<Rightarrow> 'o \<Rightarrow> 'o option"
  assumes stage_grows: "keeps (grows I) (stage L r co tree before after dl)"
    and stage_settles: "describes (tree_files L r before) (tree_files L r (Some after)) dl
      \<Longrightarrow> list_all valid_utf8 (delta_paths dl)
      \<Longrightarrow> stage L r co tree before after dl d = (Inr (us, chs), d')
      \<Longrightarrow> settles (tree_files L r (goal before after)) (tree_files L r (Some tree)) (delta_paths dl) us"
    and stage_tells: "describes (tree_files L r before) (tree_files L r (Some after)) dl
      \<Longrightarrow> list_all valid_utf8 (delta_paths dl)
      \<Longrightarrow> stage L r co tree before after dl d = (Inr (us, chs), d')
      \<Longrightarrow> tells (tree_content L r (goal before after)) (tree_content L r (Some tree)) (delta_paths dl) chs"
begin

lemma deltas_grow: "keeps (grows I) (stage_deltas (stage L r co tree before after) ds)"
  by (rule grows_stage_deltas [OF stage_grows])

lemma deltas_settle:
  assumes "list_all (describes (tree_files L r before) (tree_files L r (Some after))) ds"
    and "list_all valid_utf8 (touched ds)" "distinct (touched ds)"
    and "stage_deltas (stage L r co tree before after) ds d = (Inr (us, chs), d')"
  shows "settles (tree_files L r (goal before after)) (tree_files L r (Some tree)) (touched ds) us \<and>
    tells (tree_content L r (goal before after)) (tree_content L r (Some tree)) (touched ds) chs \<and>
    (\<forall>c \<in> set chs. \<exists>dl \<in> set ds. set (change_paths c) \<subseteq> set (delta_paths dl))"
  using assms
proof (induction ds arbitrary: d us chs)
  case Nil
  then show ?case by (simp add: settles_def tells_def)
next
  case (Cons dl ds)
  obtain us1 chs1 d1 us2 chs2 where
    one: "stage L r co tree before after dl d = (Inr (us1, chs1), d1)" and
    rest: "stage_deltas (stage L r co tree before after) ds d1 = (Inr (us2, chs2), d')" and
    eq: "us = us1 @ us2" "chs = chs1 @ chs2"
    using Cons.prems(4) by (auto simp: bind_act_eq_Inr)
  have dl: "describes (tree_files L r before) (tree_files L r (Some after)) dl"
    "list_all valid_utf8 (delta_paths dl)" "set (delta_paths dl) \<inter> set (touched ds) = {}"
    using Cons.prems by simp_all
  show ?case
    using Cons.IH [OF _ _ _ rest] Cons.prems(1-3) stage_settles [OF dl(1,2) one] stage_tells [OF dl(1,2) one]
    by (auto simp: eq tells_def [of _ _ "delta_paths dl"] intro!: settles_append tells_append dl(3))
qed

text \<open>The staged deltas committed on top of HEAD.\<close>

lemma restores:
  assumes L: "git2_ok L I" and r: "dk_git d = Some r" "I r" "head_tree r = (Inr (h, t))"
    and goal: "case goal before after of None \<Rightarrow> True | Some g \<Rightarrow> r_trees r g \<noteq> None"
    and ds: "list_all (describes (tree_files L r before) (tree_files L r (Some after))) ds"
      "list_all valid_utf8 (touched ds)" "distinct (touched ds)" "list_all clean (touched ds)" "apart (touched ds)"
    and stage: "stage_deltas (stage L r co t before after) ds d = (Inr (us, chs), d1)"
    and run: "commit_updates L h t us msg an ae d1 = (Inr oid, d')"
  shows "p \<in> set (touched ds) \<Longrightarrow> head_content L d' p = tree_content L r (goal before after) p"
    and "clean p \<Longrightarrow> \<forall>q \<in> set (touched ds). \<not> under q p \<Longrightarrow> head_content L d' p = head_content L d p"
    and "tells (tree_content L r (goal before after)) (head_content L d) (touched ds) chs"
    and "clean p \<Longrightarrow> p \<notin> set (touched ds) \<Longrightarrow> head_content L d p = None \<Longrightarrow> head_content L d' p = None"
    and "\<forall>c \<in> set chs. \<exists>dl \<in> set ds. set (change_paths c) \<subseteq> set (delta_paths dl)"
proof -
  let ?goal = "tree_files L r (goal before after)" and ?now = "tree_files L r (Some t)"
  note settled = deltas_settle [OF ds(1-3) stage]
  have g: "grows I d d1" by (rule keepsD [OF deltas_grow stage])
  have head: "head_blob L d = ?now"
    by (rule ext) (simp add: head_blob_eq [OF r(1,3)] tree_files_def)
  moreover have "head_blob L d1 = head_blob L d" by (rule ext) (rule grows_head(1) [OF L g r])
  ultimately have now: "head_blob L d1 = ?now" by simp
  have com: "committed L I us msg d1 d'"
    by (rule commit_updates_committed [OF L g r _ run])
      (use settled ds(4,5) in \<open>blast intro: settles_well_formed\<close>)
  have "head_content L d = tree_content L r (Some t)"
    by (rule ext) (simp add: head_content_def r(1) head_blob_eq [OF r(1,3)] tree_content_def tree_files_def)
  then show "tells (tree_content L r (goal before after)) (head_content L d) (touched ds) chs"
    using settled by simp
  show "\<forall>c \<in> set chs. \<exists>dl \<in> set ds. set (change_paths c) \<subseteq> set (delta_paths dl)" using settled by blast
  show "head_content L d' p = None" if p: "clean p" "p \<notin> set (touched ds)" "head_content L d p = None"
  proof (rule committed_removes [OF com p(1)], rule apply_absent)
    show "p \<notin> update_path ` set us" using settled p(2) by (auto simp: settles_def)
    show "head_blob L d1 p = None"
      using p(3) head_content_None [OF L r(1,2)] by (simp add: now flip: head)
  qed
  show "head_content L d' p = head_content L d p" if "clean p" "\<forall>q \<in> set (touched ds). \<not> under q p"
    by (rule grows_committed_keeps [OF L g r com that(1)])
      (use settles_apply(2) [OF conjunct1 [OF settled] ds(5) that(2)] in \<open>simp add: head\<close>)
  assume p: "p \<in> set (touched ds)"
  then have clean: "clean p" using ds(4) by (simp add: list_all_iff)
  have after: "apply_updates us (head_blob L d1) p = ?goal p"
    unfolding now by (rule settles_apply(1) [OF conjunct1 [OF settled] ds(5) p])
  obtain r1 where r1: "dk_git d1 = Some r1" "extends r r1" using g r(1,2) by (auto simp: grows_def)
  show "head_content L d' p = tree_content L r (goal before after) p"
  proof (cases "?goal p")
    case None
    then show ?thesis using committed_removes [OF com clean] after by (simp add: tree_content_def)
  next
    case (Some oid)
    then obtain g e where "goal before after = Some g" "g_get_path L r g p = Some e" "te_kind e = Blob" "te_id e = oid"
      by (auto simp: tree_files_def blob_oid_in_tree_def split: option.splits if_splits)
    then obtain c where "r_blobs r oid = Some c" using blob_present_rule [OF L r(2)] by blast
    then show ?thesis
      using committed_sets [OF com clean r1(1)] after Some extends_blob [OF r1(2)]
      by (simp add: tree_content_def)
  qed
qed

end


section \<open>Revert and rollback restore\<close>

lemma content_read:
  assumes "tree_files L r t p = Some oid" "blob_content_from_tree L r (the t) p = Inr c"
  shows "tree_content L r t p = Some c"
  using assms
  by (cases t)
    (auto simp: tree_content_def tree_files_def blob_content_from_tree_def blob_oid_in_tree_def
      find_blob_def from_utf8_def and_then_eq_Inr split: option.splits if_splits)

lemma tree_content_None: "tree_files L r t p = None \<Longrightarrow> tree_content L r t p = None"
  by (simp add: tree_content_def)

lemma describes_cases:
  assumes "describes old new dl"
  obtains (added) p where "dr_status dl = AddedDelta" "dr_new_path dl = Some p" "clean p" "old p = None"
      "new p = Some (dr_new_oid dl)" "delta_paths dl = [p]"
  | (deleted) p where "dr_status dl = DeletedDelta" "dr_old_path dl = Some p" "clean p"
      "old p = Some (dr_old_oid dl)" "new p = None" "delta_paths dl = [p]"
  | (modified) p where "dr_status dl = ModifiedDelta" "dr_old_path dl = Some p" "dr_new_path dl = Some p"
      "clean p" "old p = Some (dr_old_oid dl)" "new p = Some (dr_new_oid dl)" "delta_paths dl = [p]"
  | (renamed) p q where "dr_status dl = RenamedDelta" "dr_old_path dl = Some p" "dr_new_path dl = Some q"
      "clean p" "clean q" "old p = Some (dr_old_oid dl)" "new p = None" "old q = None"
      "new q = Some (dr_new_oid dl)" "delta_paths dl = [q, p]" "p \<noteq> q"
  | (other) "dr_status dl = OtherDelta" "delta_paths dl = []"
proof (cases "dr_status dl")
  case AddedDelta
  then show ?thesis using assms added by (auto simp: describes_def delta_paths_def split: option.splits)
next
  case DeletedDelta
  then show ?thesis using assms deleted by (auto simp: describes_def delta_paths_def split: option.splits)
next
  case ModifiedDelta
  then show ?thesis using assms modified by (auto simp: describes_def delta_paths_def split: option.splits)
next
  case RenamedDelta
  then obtain p q where pq: "dr_old_path dl = Some p" "dr_new_path dl = Some q"
    using assms by (auto simp: describes_def split: option.splits)
  then have "p \<noteq> q" using assms RenamedDelta by (auto simp: describes_def)
  then show ?thesis
    using assms RenamedDelta pq by (intro renamed [of p q]) (simp_all add: describes_def delta_paths_def)
next
  case OtherDelta
  then show ?thesis using other by (simp add: delta_paths_def)
qed

lemma describes_clean: "describes old new dl \<Longrightarrow> list_all clean (delta_paths dl)"
  by (erule describes_cases) simp_all

text \<open>Single contributions.\<close>

lemma settles_simps:
  "settles goal now [p] [Remove p] \<longleftrightarrow> goal p = None"
  "settles goal now [p] [Upsert p oid] \<longleftrightarrow> goal p = Some oid"
  "settles goal now [p] [] \<longleftrightarrow> now p = goal p"
  "settles goal now [] []"
  by (auto simp: settles_def)

lemma tells_simps:
  "tells goal now [] []"
  "tells goal now [p] [] \<longleftrightarrow> now p = goal p"
  "goal p = None \<Longrightarrow> tells goal now [p] [Deleted p]"
  "goal p = Some c \<Longrightarrow> tells goal now [p] [Created p c]"
  "goal p = Some c \<Longrightarrow> tells goal now [p] [Updated p c]"
  "goal q = None \<Longrightarrow> goal p = Some c \<Longrightarrow> q \<noteq> p \<Longrightarrow> tells goal now [q, p] [Moved q p c]"
  "goal q = None \<Longrightarrow> goal p = Some c \<Longrightarrow> q \<noteq> p \<Longrightarrow> tells goal now [p, q] [Moved q p c]"
  by (auto simp: tells_def fun_eq_iff intro!: exI [of _ now])

lemma revert_delta_stages:
  assumes dl: "describes (tree_files L r before) (tree_files L r (Some after)) dl"
    and utf8: "list_all valid_utf8 (delta_paths dl)"
    and run: "revert_delta L r (the before) co dl d = (Inr (us, chs), d')"
  shows "settles (tree_files L r before) now (delta_paths dl) us \<and>
    tells (tree_content L r before) now' (delta_paths dl) chs"
  using dl
proof (cases rule: describes_cases)
  case (added p)
  then show ?thesis using run utf8
    by (auto simp: revert_delta_def bind_act_eq_Inr to_string_lossy_valid settles_simps
        intro!: tells_simps tree_content_None)
next
  case (deleted p)
  then show ?thesis using run utf8
    by (auto simp: revert_delta_def bind_act_eq_Inr to_string_lossy_valid settles_simps
        intro!: tells_simps content_read)
next
  case (modified p)
  then show ?thesis using run utf8
    by (auto simp: revert_delta_def bind_act_eq_Inr to_string_lossy_valid settles_simps
        intro!: tells_simps content_read)
next
  case (renamed p q)
  then show ?thesis using run utf8
    by (auto simp: revert_delta_def bind_act_eq_Inr to_string_lossy_valid settles_def
        intro!: tells_simps content_read tree_content_None)
next
  case other
  then show ?thesis using run by (simp add: revert_delta_def settles_simps tells_simps)
qed

interpretation revert: delta_restorer
  "\<lambda>L r co tree before after. revert_delta L r (the before) co" "\<lambda>before after. before"
  by unfold_locales
    (rule grows_deltas, (drule (2) revert_delta_stages, erule conjunct1), (drule (2) revert_delta_stages, erule conjunct2))

text \<open>The steps of a rollback, against HEAD's tree.\<close>

lemma restore_path_stages:
  assumes "tree_files L r (Some after) p = Some oid" "valid_utf8 p"
    and "restore_path L r co tree after p oid d = (Inr (us, chs), d')"
  shows "settles (tree_files L r (Some after)) (tree_files L r (Some tree)) [p] us"
    and "tells (tree_content L r (Some after)) (tree_content L r (Some tree)) [p] chs"
proof -
  have "settles (tree_files L r (Some after)) (tree_files L r (Some tree)) [p] us \<and>
    tells (tree_content L r (Some after)) (tree_content L r (Some tree)) [p] chs"
  proof (cases "blob_oid_in_tree L r tree p = Some oid")
    case True
    then have "tree_files L r (Some tree) p = tree_files L r (Some after) p"
      using assms(1) by (simp add: tree_files_def)
    then show ?thesis
      using assms(2,3) True
      by (simp add: restore_path_def to_string_lossy_valid settles_simps tells_simps tree_content_def)
  next
    case False
    then obtain c where "blob_content_from_tree L r after p = Inr c" "us = [Upsert p oid]"
      "chs = [Updated p c] \<or> chs = [Created p c]"
      using assms(2,3) by (auto simp: restore_path_def to_string_lossy_valid bind_act_eq_Inr Let_def)
    moreover have "tree_content L r (Some after) p = Some c"
      if "blob_content_from_tree L r after p = Inr c"
      using content_read [OF assms(1)] that by simp
    ultimately show ?thesis using assms(1) tells_simps(4,5) by (auto simp: settles_simps)
  qed
  then show "settles (tree_files L r (Some after)) (tree_files L r (Some tree)) [p] us"
    "tells (tree_content L r (Some after)) (tree_content L r (Some tree)) [p] chs" by blast+
qed

lemma remove_path_stages:
  assumes "tree_files L r (Some after) p = None" "valid_utf8 p"
    and "remove_path L r co tree p d = (Inr (us, chs), d')"
  shows "settles (tree_files L r (Some after)) (tree_files L r (Some tree)) [p] us"
    and "tells (tree_content L r (Some after)) (tree_content L r (Some tree)) [p] chs"
  using assms
  by (auto simp: remove_path_def to_string_lossy_valid bind_act_eq_Inr settles_simps tells_simps
      tree_content_None tree_files_def tree_content_def split: if_splits)

lemma rollback_delta_stages:
  assumes dl: "describes (tree_files L r before) (tree_files L r (Some after)) dl"
    and utf8: "list_all valid_utf8 (delta_paths dl)"
    and run: "rollback_delta L r co tree after dl d = (Inr (us, chs), d')"
  shows "settles (tree_files L r (Some after)) (tree_files L r (Some tree)) (delta_paths dl) us \<and>
    tells (tree_content L r (Some after)) (tree_content L r (Some tree)) (delta_paths dl) chs"
  using dl
proof (cases rule: describes_cases)
  case (added p)
  then show ?thesis using run utf8 restore_path_stages [of L r after p _ co tree d us chs d']
    by (simp add: rollback_delta_def)
next
  case (deleted p)
  then show ?thesis using run utf8 remove_path_stages [of L r after p co tree d us chs d']
    by (simp add: rollback_delta_def)
next
  case (modified p)
  then show ?thesis using run utf8 restore_path_stages [of L r after p _ co tree d us chs d']
    by (simp add: rollback_delta_def)
next
  case (renamed p q)
  have utf: "valid_utf8 p" "valid_utf8 q" using utf8 renamed by simp_all
  have run: "(if blob_oid_in_tree L r tree p \<noteq> None \<and> blob_oid_in_tree L r tree q = None
      then reapply_rename L r after p q (dr_new_oid dl)
      else bind_act (restore_path L r co tree after q (dr_new_oid dl)) (\<lambda>(us, restored).
           bind_act (remove_path L r co tree p) (\<lambda>(us', removed).
             act_ok (us @ us', restored @ removed)))) d = (Inr (us, chs), d')"
    using run renamed utf by (simp add: rollback_delta_def to_string_lossy_valid Let_def)
  show ?thesis
  proof (cases "blob_oid_in_tree L r tree p \<noteq> None \<and> blob_oid_in_tree L r tree q = None")
    case True
    with run have "reapply_rename L r after p q (dr_new_oid dl) d = (Inr (us, chs), d')" by simp
    then obtain c where c: "blob_content_from_tree L r after q = Inr c"
      "us = [Remove p, Upsert q (dr_new_oid dl)]" "chs = [Moved p q c]"
      using utf by (auto simp: reapply_rename_def bind_act_eq_Inr to_string_lossy_valid)
    have "tree_content L r (Some after) q = Some c"
      using content_read [OF renamed(9)] c(1) by simp
    moreover have "tree_content L r (Some after) p = None" using renamed(7) by (rule tree_content_None)
    ultimately show ?thesis
      using renamed c(2,3) by (auto simp: settles_def intro!: tells_simps)
  next
    case False
    with run obtain us1 chs1 d1 us2 chs2 where
      one: "restore_path L r co tree after q (dr_new_oid dl) d = (Inr (us1, chs1), d1)" and
      two: "remove_path L r co tree p d1 = (Inr (us2, chs2), d')" and
      eq: "us = us1 @ us2" "chs = chs1 @ chs2"
      by (auto simp: bind_act_eq_Inr)
    have "delta_paths dl = [q] @ [p]" "set [q] \<inter> set [p] = {}" using renamed by simp_all
    then show ?thesis
      using restore_path_stages [OF renamed(9) utf(2) one] remove_path_stages [OF renamed(7) utf(1) two]
      by (simp only: eq) (blast intro: settles_append tells_append)
  qed
next
  case other
  then show ?thesis using run by (simp add: rollback_delta_def settles_simps tells_simps)
qed

interpretation rollback: delta_restorer
  "\<lambda>L r co tree before after. rollback_delta L r co tree after" "\<lambda>before after. Some after"
  by unfold_locales
    (rule grows_deltas, (drule (2) rollback_delta_stages, erule conjunct1), (drule (2) rollback_delta_stages, erule conjunct2))

end
