(* ===== verification/Git_Undo.thy ===== *)
theory Git_Undo
  imports Git_Restores
begin

text \<open>Revert and rollback as whole requests: what they leave at HEAD and what they report.\<close>

section \<open>Successful runs\<close>

text \<open>The commit a sha names, as the trees before and after it and the diff between them.\<close>

definition commit_scope ::
  "'o commit_libs \<Rightarrow> 'o repo \<Rightarrow> string \<Rightarrow> ('o option \<times> 'o \<times> 'o delta_record list) option" where
  "commit_scope Q r sha =
     (case resolve_commit Q r sha of
        Inl _ \<Rightarrow> None
      | Inr (_, c) \<Rightarrow>
          (case tree_before r c of
             Inl _ \<Rightarrow> None
           | Inr before \<Rightarrow>
               (case q_diff Q r before (c_tree c) of
                  Inl _ \<Rightarrow> None
                | Inr ds \<Rightarrow> Some (before, c_tree c, ds))))"

lemma commit_scope_eq:
  assumes "resolve_commit Q r sha = Inr (oid, c)" "tree_before r c = Inr before"
    and "q_diff Q r before (c_tree c) = Inr ds"
  shows "commit_scope Q r sha = Some (before, c_tree c, ds)"
  using assms by (simp add: commit_scope_def)

lemma commit_tree_Inr: "commit_tree r c = Inr t \<longleftrightarrow> t = c_tree c \<and> r_trees r t \<noteq> None"
  by (auto simp: commit_tree_def and_then_eq_Inr find_tree_def split: option.split)

lemma git_result_Inr: "git_result q = Inr a \<longleftrightarrow> q = Inr a"
  by (auto simp: git_result_def split: sum.split)

lemma opened_git:
  assumes "git2_ok L I" "opened L tenant d = (Inr r, e)"
  shows "dk_git d = Some r" "e = d"
  using assms open_tenant_git by (auto simp: opened_def)

lemma tree_before_Inr:
  "tree_before r c = Inr (Some t) \<Longrightarrow> r_trees r t \<noteq> None"
  by (auto simp: tree_before_def and_then_eq_Inr commit_tree_Inr split: if_splits)

lemma revert_run:
  assumes L: "git2_ok L I" and run: "revert_commit L Q tenant sha m an ae co d = (Inr (s, chs), d')"
  obtains r before after ds h t us d1 msg oid where
    "dk_git d = Some r" "commit_scope Q r sha = Some (Some before, after, ds)"
    "q_diff Q r (Some before) after = Inr ds" "r_trees r before \<noteq> None" "r_trees r after \<noteq> None"
    "head_tree r = Inr (h, t)" "stage_deltas (revert_delta L r before co) ds d = (Inr (us, chs), d1)"
    "commit_updates L h t us msg an ae d1 = (Inr oid, d')"
  using run unfolding revert_commit_def
proof (elim bind_act_elims, goal_cases)
  case (1 r e oid c u pc after before ds h t us chs' d1 new)
  note o1 = opened_git [OF L 1(2)]
  have "tree_before r c = Inr (Some before)"
    using 1(4,5,7) by (simp add: tree_before_def)
  then have "commit_scope Q r sha = Some (Some before, after, ds)"
    using 1(3,6,8) commit_scope_eq [of Q r sha oid c "Some before" ds] by (auto simp: commit_tree_Inr git_result_Inr)
  with 1 o1 show ?case by (auto simp: commit_tree_Inr git_result_Inr intro!: 1(1))
qed

lemma rollback_run:
  assumes L: "git2_ok L I" and run: "rollback_commit L Q tenant sha m an ae co d = (Inr (s, chs), d')"
  obtains r before after ds h t us d1 where
    "dk_git d = Some r" "commit_scope Q r sha = Some (before, after, ds)"
    "q_diff Q r before after = Inr ds" "case before of None \<Rightarrow> True | Some b \<Rightarrow> r_trees r b \<noteq> None"
    "r_trees r after \<noteq> None" "head_tree r = Inr (h, t)"
    "stage_deltas (rollback_delta L r co t after) ds d = (Inr (us, chs), d1)"
    "chs = [] \<and> d' = d1 \<or> chs \<noteq> [] \<and> (\<exists>msg oid. commit_updates L h t us msg an ae d1 = (Inr oid, d'))"
  using run unfolding rollback_commit_def
proof (elim bind_act_elims, goal_cases)
  case (1 r e oid c after before ds h t us chs' d1)
  note o1 = opened_git [OF L 1(2)]
  have "commit_scope Q r sha = Some (before, after, ds)"
    using 1(3-6) commit_scope_eq [of Q r sha oid c before ds] by (auto simp: commit_tree_Inr git_result_Inr)
  moreover have "case before of None \<Rightarrow> True | Some b \<Rightarrow> r_trees r b \<noteq> None"
    using 1(5) tree_before_Inr by (auto split: option.split)
  moreover have "chs' = chs \<and> (chs = [] \<and> d' = d1 \<or>
      chs \<noteq> [] \<and> (\<exists>msg oid. commit_updates L h t us msg an ae d1 = (Inr oid, d')))"
    using 1(9) by (auto simp: bind_act_eq_Inr split: if_splits)
  ultimately show ?case
    using 1 o1 by (intro 1(1)) (auto simp: commit_tree_Inr git_result_Inr)
qed

section \<open>Effects\<close>

lemma touched_clean: "list_all (describes old new) ds \<Longrightarrow> list_all clean (touched ds)"
  by (induction ds) (auto intro: describes_clean)

text \<open>What one of the two does, given the tree it restores.\<close>

definition restored ::
  "'o libs \<Rightarrow> 'o repo \<Rightarrow> 'o option \<Rightarrow> 'o delta_record list \<Rightarrow> file_change list \<Rightarrow> 'o disk \<Rightarrow> 'o disk \<Rightarrow> bool"
where
  "restored L r goal ds chs d d' \<longleftrightarrow>
     (\<forall>p \<in> set (touched ds). head_content L d' p = tree_content L r goal p) \<and>
     (\<forall>p. clean p \<and> (\<forall>q \<in> set (touched ds). \<not> under q p) \<longrightarrow> head_content L d' p = head_content L d p) \<and>
     (\<forall>p. clean p \<and> p \<notin> set (touched ds) \<and> head_content L d p = None \<longrightarrow> head_content L d' p = None) \<and>
     tells (head_content L d') (head_content L d) (touched ds) chs \<and>
     (\<forall>c \<in> set chs. \<exists>dl \<in> set ds. set (change_paths c) \<subseteq> set (delta_paths dl))"

lemma tells_cong: "\<forall>p \<in> set ps. goal p = goal' p \<Longrightarrow> tells goal now ps chs = tells goal' now ps chs"
  unfolding tells_def by (intro conj_cong all_cong1 imp_cong refl arg_cong2 [where f = "(=)"] ext) auto

lemma restoredI:
  assumes "\<And>p. p \<in> set (touched ds) \<Longrightarrow> head_content L d' p = tree_content L r goal p"
    and "\<And>p. clean p \<Longrightarrow> \<forall>q \<in> set (touched ds). \<not> under q p \<Longrightarrow> head_content L d' p = head_content L d p"
    and "tells (tree_content L r goal) (head_content L d) (touched ds) chs"
    and "\<And>p. clean p \<Longrightarrow> p \<notin> set (touched ds) \<Longrightarrow> head_content L d p = None \<Longrightarrow> head_content L d' p = None"
    and "\<forall>c \<in> set chs. \<exists>dl \<in> set ds. set (change_paths c) \<subseteq> set (delta_paths dl)"
  shows "restored L r goal ds chs d d'"
  using assms tells_cong [of "touched ds" "head_content L d'" "tree_content L r goal"]
  by (simp add: restored_def)

lemma revert_effect:
  assumes L: "git2_ok L I" and Q: "diff_law L Q I" and sound: "disk_sound I d" and r: "dk_git d = Some r"
    and scope: "commit_scope Q r sha = Some (before, after, ds)"
    and ds: "apart (touched ds)" "list_all valid_utf8 (touched ds)"
    and run: "revert_commit L Q tenant sha m an ae co d = (Inr (s, chs), d')"
  shows "restored L r before ds chs d d'"
proof -
  obtain b h t us d1 msg oid where
    diff: "q_diff Q r (Some b) after = Inr ds" "before = Some b" "r_trees r b \<noteq> None" "r_trees r after \<noteq> None"
    and t: "head_tree r = Inr (h, t)" and stage: "stage_deltas (revert_delta L r b co) ds d = (Inr (us, chs), d1)"
    and cu: "commit_updates L h t us msg an ae d1 = (Inr oid, d')"
    by (rule revert_run [OF L run]) (use r scope in \<open>auto intro!: that\<close>)
  have I: "I r" using sound r by (simp add: disk_sound_def)
  note law = diff_rule [OF Q I diff(4) _ diff(1), unfolded option.case, OF diff(3)]
  note * = revert.restores [OF L r I t, where before = "Some b" and after = after, unfolded option.case, OF diff(3) law(1) ds(2) law(2)
      touched_clean [OF law(1)] ds(1), unfolded option.sel, OF stage cu]
  show ?thesis unfolding diff(2) by (rule restoredI) (use * in blast)+
qed

lemma rollback_effect:
  assumes L: "git2_ok L I" and Q: "diff_law L Q I" and sound: "disk_sound I d" and r: "dk_git d = Some r"
    and scope: "commit_scope Q r sha = Some (before, after, ds)"
    and ds: "apart (touched ds)" "list_all valid_utf8 (touched ds)"
    and run: "rollback_commit L Q tenant sha m an ae co d = (Inr (s, chs), d')"
  shows "restored L r (Some after) ds chs d d'"
proof -
  obtain h t us d1 where
    diff: "q_diff Q r before after = Inr ds" "case before of None \<Rightarrow> True | Some b \<Rightarrow> r_trees r b \<noteq> None"
      "r_trees r after \<noteq> None"
    and t: "head_tree r = Inr (h, t)"
    and stage: "stage_deltas (rollback_delta L r co t after) ds d = (Inr (us, chs), d1)"
    and last: "chs = [] \<and> d' = d1 \<or> chs \<noteq> [] \<and> (\<exists>msg oid. commit_updates L h t us msg an ae d1 = (Inr oid, d'))"
    by (rule rollback_run [OF L run]) (use r scope in \<open>auto intro!: that\<close>)
  have I: "I r" using sound r by (simp add: disk_sound_def)
  note law = diff_rule [OF Q I diff(3,2,1)]
  from last show ?thesis
  proof (elim disjE conjE exE)
    fix msg oid assume cu: "commit_updates L h t us msg an ae d1 = (Inr oid, d')"
    note * = rollback.restores [OF L r I t, where before = before and after = after, unfolded option.case, OF diff(3) law(1) ds(2) law(2)
        touched_clean [OF law(1)] ds(1) stage cu]
    show ?thesis by (rule restoredI) (use * in blast)+
  next
    assume none: "chs = []" "d' = d1"
    have g: "grows I d d1" by (rule keepsD [OF rollback.deltas_grow stage])
    have same: "head_content L d' = head_content L d"
      unfolding none(2) by (rule ext) (rule grows_head(2) [OF L g r I t])
    have "head_content L d = tree_content L r (Some t)"
      by (rule ext) (simp add: head_content_def r head_blob_eq [OF r t] tree_content_def tree_files_def)
    then have tell: "tells (tree_content L r (Some after)) (head_content L d) (touched ds) []"
      using rollback.deltas_settle [OF law(1) ds(2) law(2) stage] none(1) by simp
    then have "head_content L d = (\<lambda>x. if x \<in> set (touched ds) then tree_content L r (Some after) x else head_content L d x)"
      unfolding tells_def by simp
    then have "\<forall>p \<in> set (touched ds). head_content L d p = tree_content L r (Some after) p"
      by (metis (full_types))
    with same tell none(1) show ?thesis by (intro restoredI) simp_all
  qed
qed

section \<open>Sample histories\<close>

text \<open>Commits by message and tree, newest first.\<close>

fun sample_history :: "(string \<times> (string \<times> gobj) list) list \<Rightarrow> gobj" where
  "sample_history [] = GBlob []"
| "sample_history [(m, es)] = GCommit (GTree es) [] m ''a'' ''b'' 0"
| "sample_history ((m, es) # commits) = GCommit (GTree es) [sample_history commits] m ''a'' ''b'' 0"

definition history_disk :: "(string \<times> (string \<times> gobj) list) list \<Rightarrow> gobj disk" where
  "history_disk commits =
     \<lparr>dk_exists = True, dk_git = Some (sample_repo (Inr (sample_history commits))), dk_work = (\<lambda>_. None)\<rparr>"

lemma history_disk_sound:
  assumes "commits \<noteq> []" "valid (GTree (snd (hd commits)))"
  shows "disk_sound sample_inv (history_disk commits)"
  using assms
  by (cases commits rule: sample_history.cases)
    (simp_all add: disk_sound_def history_disk_def sample_inv_def sample_repo_def all_commits_def all_trees_def)

definition undo_disk :: "gobj disk" where
  "undo_disk = history_disk
     [(''edit'', [(''a.md'', GBlob ''new''), (''b.md'', GBlob ''two'')]),
      (''add'', [(''a.md'', GBlob ''one''), (''b.md'', GBlob ''two'')]),
      (''base'', [(''a.md'', GBlob ''one'')])]"

lemma undo_disk_sound: "disk_sound sample_inv undo_disk"
  unfolding undo_disk_def by (rule history_disk_sound) (simp_all add: valid.simps good_name_def)

section \<open>Properties\<close>

text \<open>
  C6: a revert undoes its commit. Unless a file of the commit stands in the place of a folder of
  another, each path the commit touched holds afterwards what it held before that commit, every
  path not below a touched one is as HEAD had it, and the reported changes, applied in order, take
  HEAD's old content to its new one.
\<close>

theorem revert_undoes:
  assumes "git2_ok L I" "diff_law L Q I" "disk_sound I d" "dk_git d = Some r"
    and "commit_scope Q r sha = Some (before, after, ds)" "apart (touched ds)"
      "list_all valid_utf8 (touched ds)"
    and "revert_commit L Q tenant sha m an ae co d = (Inr (s, chs), d')"
  shows "(\<forall>p \<in> set (touched ds). head_content L d' p = tree_content L r before p) \<and>
      (\<forall>p. clean p \<and> (\<forall>q \<in> set (touched ds). \<not> under q p) \<longrightarrow>
        head_content L d' p = head_content L d p) \<and>
      tells (head_content L d') (head_content L d) (touched ds) chs"
  using revert_effect [OF assms] by (simp add: restored_def)

theorem revert_undoes_witness:
  "head_content sample_libs (snd (revert_commit sample_libs sample_commit_libs ''t'' ''commit add''
     None ''Ann'' ''a@x'' True undo_disk)) ''b.md'' =
   tree_content sample_libs (the (dk_git undo_disk)) (Some (GTree [(''a.md'', GBlob ''one'')])) ''b.md''"
proof -
  let ?run = "revert_commit sample_libs sample_commit_libs ''t'' ''commit add'' None ''Ann'' ''a@x'' True undo_disk"
  let ?ds = "[sample_delta AddedDelta None (Some ''b.md'') (GBlob []) (GBlob ''two'')]"
  let ?after = "GTree [(''a.md'', GBlob ''one''), (''b.md'', GBlob ''two'')]"
  have run: "?run = (Inr (''commit revert: add'', [Deleted ''b.md'']), snd ?run)"
    by (rule prod_eqI, simp_all only: fst_conv snd_conv, code_simp)
  have r: "dk_git undo_disk = Some (the (dk_git undo_disk))"
    by (simp add: undo_disk_def history_disk_def)
  have scope: "commit_scope sample_commit_libs (the (dk_git undo_disk)) ''commit add'' =
      Some (Some (GTree [(''a.md'', GBlob ''one'')]), ?after, ?ds)" by code_simp
  have ok: "apart (touched ?ds)" "list_all valid_utf8 (touched ?ds)" "''b.md'' \<in> set (touched ?ds)"
    by code_simp+
  from revert_undoes [OF sample_ok sample_diff undo_disk_sound r scope ok(1,2) run] ok(3)
  show ?thesis by blast
qed

text \<open>
  C7: a rollback brings the files its commit touched back to the state that commit left them in,
  under the same proviso; every path not below a touched one is as HEAD had it, and the reported
  changes take HEAD's old content to its new one: none is reported only when HEAD held that state
  already.
\<close>

theorem rollback_restores:
  assumes "git2_ok L I" "diff_law L Q I" "disk_sound I d" "dk_git d = Some r"
    and "commit_scope Q r sha = Some (before, after, ds)" "apart (touched ds)"
      "list_all valid_utf8 (touched ds)"
    and "rollback_commit L Q tenant sha m an ae co d = (Inr (s, chs), d')"
  shows "(\<forall>p \<in> set (touched ds). head_content L d' p = tree_content L r (Some after) p) \<and>
      (\<forall>p. clean p \<and> (\<forall>q \<in> set (touched ds). \<not> under q p) \<longrightarrow>
        head_content L d' p = head_content L d p) \<and>
      tells (head_content L d') (head_content L d) (touched ds) chs"
  using rollback_effect [OF assms] by (simp add: restored_def)

theorem rollback_restores_witness:
  "head_content sample_libs (snd (rollback_commit sample_libs sample_commit_libs ''t'' ''commit base''
     None ''Ann'' ''a@x'' True undo_disk)) ''a.md'' =
   tree_content sample_libs (the (dk_git undo_disk)) (Some (GTree [(''a.md'', GBlob ''one'')])) ''a.md''"
proof -
  let ?run = "rollback_commit sample_libs sample_commit_libs ''t'' ''commit base'' None ''Ann'' ''a@x'' True undo_disk"
  let ?ds = "[sample_delta AddedDelta None (Some ''a.md'') (GBlob []) (GBlob ''one'')]"
  have run: "?run = (Inr (''commit rollback: base'', [Updated ''a.md'' ''one'']), snd ?run)"
    by (rule prod_eqI, simp_all only: fst_conv snd_conv, code_simp)
  have r: "dk_git undo_disk = Some (the (dk_git undo_disk))"
    by (simp add: undo_disk_def history_disk_def)
  have scope: "commit_scope sample_commit_libs (the (dk_git undo_disk)) ''commit base'' =
      Some (None, GTree [(''a.md'', GBlob ''one'')], ?ds)" by code_simp
  have ok: "apart (touched ?ds)" "list_all valid_utf8 (touched ?ds)" "''a.md'' \<in> set (touched ?ds)"
    by code_simp+
  from rollback_restores [OF sample_ok sample_diff undo_disk_sound r scope ok(1,2) run] ok(3)
  show ?thesis by blast
qed

definition renamed_disk :: "gobj disk" where
  "renamed_disk = history_disk
     [(''back'', [(''a.md'', GBlob ''one'')]), (''move'', [(''b.md'', GBlob ''one'')]),
      (''base'', [(''a.md'', GBlob ''one'')])]"

text \<open>
  A rollback that re-applies a rename writes the working tree although checkouts are off.
\<close>

lemma rollback_writes_without_checkout:
  "dk_work renamed_disk [''b.md''] = None \<and>
   dk_work (snd (rollback_commit sample_libs sample_commit_libs ''t'' ''commit move'' None ''Ann'' ''a@x''
     False renamed_disk)) [''b.md''] = Some (FsFile ''one'')"
  by (rule conjI; code_simp)

definition replaced_disk :: "gobj disk" where
  "replaced_disk = history_disk
     [(''folder'', [(''top.md'', GBlob ''top''), (''docs'', GTree [(''x.md'', GBlob ''x'')])]),
      (''remove'', [(''top.md'', GBlob ''top'')]),
      (''add'', [(''top.md'', GBlob ''top''), (''docs'', GBlob ''file'')]),
      (''base'', [(''top.md'', GBlob ''top'')])]"

text \<open>
  The proviso of a revert is needed. Reverting the commit that added a file, where HEAD holds
  a folder of that name by now, removes the whole folder without a checkout to stop it, and
  reports the deletion of that one file.
\<close>

lemma revert_drops_folder:
  "head_content sample_libs replaced_disk ''docs/x.md'' = Some ''x'' \<and>
   (\<exists>sha d'. revert_commit sample_libs sample_commit_libs ''t'' ''commit add'' None ''Ann'' ''a@x'' False
       replaced_disk = (Inr (sha, [Deleted ''docs'']), d') \<and>
     head_content sample_libs d' ''docs/x.md'' = None)"
proof -
  let ?run = "revert_commit sample_libs sample_commit_libs ''t'' ''commit add'' None ''Ann'' ''a@x'' False replaced_disk"
  have "?run = (Inr (''commit revert: add'', [Deleted ''docs'']), snd ?run)"
    by (rule prod_eqI, simp_all only: fst_conv snd_conv, code_simp)
  moreover have "head_content sample_libs (snd ?run) ''docs/x.md'' = None" by code_simp
  moreover have "head_content sample_libs replaced_disk ''docs/x.md'' = Some ''x''" by code_simp
  ultimately show ?thesis by blast
qed

end
