(* ===== verification/Hook_Mirror.thy ===== *)
theory Hook_Mirror
  imports Hook_Facts Git_Undo
begin

text \<open>
  A receiver's side: events read back from their payloads, and a mirror kept from them.
\<close>

section \<open>Payloads as an encoding\<close>

fun json_text :: "json \<Rightarrow> string option" where
  "json_text (JString s) = Some s"
| "json_text _ = None"

definition field_text :: "string \<Rightarrow> json \<Rightarrow> string option" where
  "field_text key j = Option.bind (json_field key j) json_text"

definition nested_text :: "string \<Rightarrow> string \<Rightarrow> json \<Rightarrow> string option" where
  "nested_text key sub j = Option.bind (json_field key j) (field_text sub)"

definition both :: "('a \<Rightarrow> 'b \<Rightarrow> 'c) \<Rightarrow> 'a option \<Rightarrow> 'b option \<Rightarrow> 'c option" where
  "both f a b = Option.bind a (\<lambda>x. map_option (f x) b)"

lemma both_Some [simp]: "both f (Some x) (Some y) = Some (f x y)"
  by (simp add: both_def)

definition read_change :: "json \<Rightarrow> file_change option" where
  "read_change j =
     (let event = field_text ''event'' j in
      if event = Some ''file.created'' then both Created (nested_text ''file'' ''path'' j) (nested_text ''file'' ''content'' j)
      else if event = Some ''file.updated'' then both Updated (nested_text ''file'' ''path'' j) (nested_text ''file'' ''content'' j)
      else if event = Some ''file.deleted'' then map_option Deleted (nested_text ''file'' ''path'' j)
      else if event = Some ''file.moved''
      then Option.bind (nested_text ''from'' ''path'' j)
        (\<lambda>from_path. both (Moved from_path) (nested_text ''to'' ''path'' j) (nested_text ''to'' ''content'' j))
      else None)"

definition read_order_change :: "json \<Rightarrow> order_change option" where
  "read_order_change j =
     (let event = field_text ''event'' j in
      if event = Some ''order.updated''
      then (case json_field ''order'' j of
              Some (JArray entries) \<Rightarrow>
                both OrderUpdated (field_text ''directory'' j) (those (map json_text entries))
            | _ \<Rightarrow> None)
      else if event = Some ''order.deleted'' then map_option OrderDeleted (field_text ''directory'' j)
      else None)"

lemma json_field_object [simp]: "json_field key (JObject entries) = map_of entries key"
  by (simp add: json_field_def)

lemma those_texts: "those (map json_text (map JString ss)) = Some ss"
  by (induction ss) simp_all

lemmas reading_defs = read_change_def read_order_change_def build_payload_def build_order_payload_def
  envelope_def field_text_def nested_text_def Let_def

lemma read_build_payload: "read_change (build_payload rfc3339 job c is_replay) = Some c"
  by (cases c) (simp_all add: reading_defs)

lemma read_build_order_payload: "read_change (build_order_payload rfc3339 job c is_replay) = None"
  by (cases c) (simp_all add: reading_defs)


definition names_origin :: "hook_job \<Rightarrow> bool \<Rightarrow> json \<Rightarrow> bool" where
  "names_origin job is_replay p \<longleftrightarrow>
     field_text ''collection_id'' p = Some (hj_collection_id job) \<and>
     field_text ''tenant_id'' p = Some (hj_tenant_id job) \<and>
     field_text ''commit_sha'' p = Some (hj_commit_sha job) \<and>
     (json_field ''replayed'' p = Some (JBool True)) = is_replay"

text \<open>
  A payload carries its event. The change, the repository it belongs to, the commit and
  whether it is a replay can be read back from it, file and order events apart.
\<close>

theorem payload_roundtrip:
  "read_change (build_payload rfc3339 job c is_replay) = Some c \<and>
   read_order_change (build_payload rfc3339 job c is_replay) = None \<and>
   read_order_change (build_order_payload rfc3339 job oc is_replay) = Some oc \<and>
   read_change (build_order_payload rfc3339 job oc is_replay) = None \<and>
   names_origin job is_replay (build_payload rfc3339 job c is_replay) \<and>
   names_origin job is_replay (build_order_payload rfc3339 job oc is_replay)"
proof (intro conjI)
  show "read_change (build_payload rfc3339 job c is_replay) = Some c" by (rule read_build_payload)
  show "read_change (build_order_payload rfc3339 job oc is_replay) = None" by (rule read_build_order_payload)
  show "read_order_change (build_payload rfc3339 job c is_replay) = None"
    by (cases c) (simp_all add: reading_defs)
  show "read_order_change (build_order_payload rfc3339 job oc is_replay) = Some oc"
  proof (cases oc)
    case (OrderUpdated directory order)
    then show ?thesis using those_texts [of order] by (simp add: reading_defs)
  qed (simp add: reading_defs)
  show "names_origin job is_replay (build_payload rfc3339 job c is_replay)"
    by (cases c) (simp_all add: names_origin_def reading_defs)
  show "names_origin job is_replay (build_order_payload rfc3339 job oc is_replay)"
    by (cases oc) (simp_all add: names_origin_def reading_defs)
qed

section \<open>The mirror\<close>

definition receive :: "json \<Rightarrow> mirror \<Rightarrow> mirror" where
  "receive p m = (case read_change p of None \<Rightarrow> m | Some c \<Rightarrow> apply_change c m)"

fun accepts :: "effect \<Rightarrow> json option" where
  "accepts (Posted p accepted) = (if accepted then Some p else None)"
| "accepts _ = None"

definition accepted :: "effect list \<Rightarrow> json list" where
  "accepted tr = List.map_filter accepts tr"

definition nothing_lost :: "effect list \<Rightarrow> bool" where
  "nothing_lost tr \<longleftrightarrow> (\<forall>p. GaveUp p \<notin> set tr)"

lemma accepted_settled: "nothing_lost tr \<Longrightarrow> accepted tr = settled tr"
proof (induction tr)
  case (Cons e tr)
  then show ?case
    by (cases e) (auto simp: nothing_lost_def accepted_def settled_def)
qed (simp add: accepted_def settled_def)

text \<open>
  The requests that change files, with the changes they report. A revert or rollback takes part
  when its paths are UTF-8, none is above another or above a file HEAD holds, and each delta is on
  plain paths alone or on indexes alone.
\<close>

definition undoable :: "'o libs \<Rightarrow> 'o disk \<Rightarrow> 'o delta_record list \<Rightarrow> bool" where
  "undoable L d ds \<longleftrightarrow>
     apart (touched ds) \<and> list_all valid_utf8 (touched ds) \<and>
     (\<forall>dl \<in> set ds. list_all plain (delta_paths dl) \<or> list_all is_order_file (delta_paths dl)) \<and>
     (\<forall>q \<in> set (touched ds). \<forall>p. clean p \<and> under q p \<and> p \<noteq> q \<longrightarrow> head_content L d p = None)"

inductive file_request ::
  "'o libs \<Rightarrow> 'o commit_libs \<Rightarrow> string \<Rightarrow> 'o disk \<Rightarrow> file_change list \<Rightarrow> 'o disk \<Rightarrow> bool"
  for L Q tenant
where
  request_write: "plain p \<Longrightarrow> write_file L p c m an ae co d = (Inr (sha, Some ch), d')
    \<Longrightarrow> file_request L Q tenant d [ch] d'"
| request_delete: "plain p \<Longrightarrow> delete_file L tenant p m an ae co d = (Inr (sha, chs), d')
    \<Longrightarrow> file_request L Q tenant d chs d'"
| request_move: "plain p \<Longrightarrow> plain q \<Longrightarrow> \<not> under p q \<Longrightarrow> \<not> under q p
    \<Longrightarrow> move_file L tenant p q m an ae co d = (Inr (sha, chs), d') \<Longrightarrow> file_request L Q tenant d chs d'"
| request_revert: "dk_git d = Some r \<Longrightarrow> commit_scope Q r target = Some (before, after, ds)
    \<Longrightarrow> undoable L d ds \<Longrightarrow> revert_commit L Q tenant target m an ae co d = (Inr (sha, chs), d')
    \<Longrightarrow> file_request L Q tenant d chs d'"
| request_rollback: "dk_git d = Some r \<Longrightarrow> commit_scope Q r target = Some (before, after, ds)
    \<Longrightarrow> undoable L d ds \<Longrightarrow> rollback_commit L Q tenant target m an ae co d = (Inr (sha, chs), d')
    \<Longrightarrow> file_request L Q tenant d chs d'"

text \<open>A run of requests, and the jobs it enqueues.\<close>

inductive file_requests ::
  "'o libs \<Rightarrow> 'o commit_libs \<Rightarrow> string \<Rightarrow> 'o disk \<Rightarrow> file_change list list \<Rightarrow> 'o disk \<Rightarrow> bool"
  for L Q tenant
where
  requests_none: "file_requests L Q tenant d [] d"
| requests_some: "file_request L Q tenant d chs e \<Longrightarrow> file_requests L Q tenant e css d'
    \<Longrightarrow> file_requests L Q tenant d (chs # css) d'"

definition mirrors :: "'o libs \<Rightarrow> 'o disk \<Rightarrow> mirror \<Rightarrow> bool" where
  "mirrors L d m \<longleftrightarrow> (\<forall>x. plain x \<longrightarrow> m x = head_content L d x)"

lemma plain_file: "plain p \<Longrightarrow> \<not> is_order_file p"
  using plain_name [of p] by (cases "split_parent p") (auto simp: is_order_file_def)

lemma index_change_no_file: "file_events (index_changes L dir change) = []"
  by (auto simp: index_changes_def index_change_def file_events_def split: option.split)

lemma file_events_Cons: "file_events (c # cs) = (if touches_index c then file_events cs else c # file_events cs)"
  and file_events_append: "file_events (cs @ ds) = file_events cs @ file_events ds"
  by (simp_all add: file_events_def)

text \<open>A change acts path by path.\<close>

lemma apply_change_at: "m x = m' x \<Longrightarrow> fold apply_change chs m x = fold apply_change chs m' x"
proof (induction chs arbitrary: m m')
  case (Cons c chs)
  have "apply_change c m x = apply_change c m' x" using Cons.prems by (cases c) simp_all
  from Cons.IH [of "apply_change c m" "apply_change c m'", OF this] show ?case by simp
qed simp

lemma apply_change_other: "x \<notin> set (change_paths c) \<Longrightarrow> apply_change c m x = m x"
  by (cases c) simp_all

lemma apply_file_events:
  "\<forall>c \<in> set chs. touches_index c \<longrightarrow> x \<notin> set (change_paths c)
    \<Longrightarrow> fold apply_change (file_events chs) m x = fold apply_change chs m x"
proof (induction chs arbitrary: m)
  case (Cons c chs)
  show ?case
  proof (cases "touches_index c")
    case True
    then have "fold apply_change chs (apply_change c m) x = fold apply_change chs m x"
      using Cons.prems by (intro apply_change_at) (simp add: apply_change_other)
    then show ?thesis using Cons True by (simp add: file_events_Cons)
  qed (use Cons in \<open>simp add: file_events_Cons\<close>)
qed (simp add: file_events_def)

lemma restored_mirrors:
  assumes res: "restored L r goal ds chs d d'" and undo: "undoable L d ds" and m: "mirrors L d m"
  shows "mirrors L d' (fold apply_change (file_events chs) m)"
  unfolding mirrors_def
proof (intro allI impI)
  fix x assume x: "plain x"
  have index: "x \<notin> set (change_paths c)" if c: "c \<in> set chs" "touches_index c" for c
  proof -
    obtain dl where dl: "dl \<in> set ds" "set (change_paths c) \<subseteq> set (delta_paths dl)"
      using res c(1) unfolding restored_def by blast
    obtain y where "y \<in> set (change_paths c)" "is_order_file y" using c(2) by (cases c) auto
    then have "\<not> list_all plain (delta_paths dl)"
      using dl(2) plain_file by (auto simp: list_all_iff)
    then have "list_all is_order_file (delta_paths dl)"
      using undo dl(1) unfolding undoable_def by blast
    then show ?thesis using dl(2) plain_file [OF x] by (auto simp: list_all_iff)
  qed
  let ?m = "override_on (head_content L d) m {x}"
  have tell: "\<forall>p \<in> set (touched ds). ?m p = head_content L d p"
    using m x by (simp add: override_on_def mirrors_def)
  have "fold apply_change (file_events chs) m x = fold apply_change (file_events chs) ?m x"
    by (rule apply_change_at) simp
  also have "\<dots> = fold apply_change chs ?m x" using index by (intro apply_file_events) blast
  also have "\<dots> = (if x \<in> set (touched ds) then head_content L d' x else m x)"
    using res tell by (simp add: restored_def tells_def override_on_def)
  also have "\<dots> = head_content L d' x"
  proof (cases "x \<in> set (touched ds) \<or> (\<forall>q \<in> set (touched ds). \<not> under q x)")
    case True
    then show ?thesis using res m x by (auto simp: restored_def mirrors_def plain_def)
  next
    case False
    then have "head_content L d x = None" using undo x under_refl unfolding undoable_def plain_def by blast
    then show ?thesis using False res m x by (auto simp: restored_def mirrors_def plain_def)
  qed
  finally show "fold apply_change (file_events chs) m x = head_content L d' x" .
qed

lemma request_mirrors:
  assumes L: "git2_ok L I" "diff_law L Q I" and sound: "disk_sound I d" and request: "file_request L Q tenant d chs d'"
    and m: "mirrors L d m"
  shows "mirrors L d' (fold apply_change (file_events chs) m)"
  using request
proof cases
  case (request_write p c msg an ae co sha ch)
  have clean: "clean p" using request_write(2) by (simp add: plain_def)
  note effect = write_file_effect [OF L(1) sound clean request_write(3)]
  have "file_events [ch] = [ch]"
    using effect(3) plain_file [OF request_write(2)] by (simp add: file_events_def)
  moreover have "apply_change ch m x = head_content L d' x" if "plain x" for x
    using effect(1) effect(2) [of x] effect(3) m that by (auto simp: mirrors_def plain_def)
  ultimately show ?thesis by (simp add: mirrors_def request_write(1))
next
  case (request_delete p msg an ae co sha)
  obtain dir name where sp: "split_parent p = (dir, name)" by (cases "split_parent p")
  have clean: "clean p" using request_delete(1) by (simp add: plain_def)
  note effect = delete_file_effect [OF L(1) sound clean sp request_delete(2)]
  have "file_events chs = [Deleted p]"
    using effect(5) plain_file [OF request_delete(1)] index_change_no_file [of L dir "order_removed (stored_in L d dir) name"]
    by (simp add: file_events_Cons index_changes_def)
  moreover have "(m(p := None)) x = head_content L d' x" if x: "plain x" for x
  proof (cases "under p x")
    case True
    then have "head_content L d' x = None" using effect(6) x plain_not_under_index [OF x] by (simp add: plain_def)
    moreover have "x \<noteq> p \<Longrightarrow> head_content L d x = None"
      using nothing_below_file [OF L(1) sound clean _ effect(1) True] x by (simp add: plain_def)
    ultimately show ?thesis using m x by (auto simp: mirrors_def)
  next
    case False
    then have "x \<noteq> p" using under_refl by blast
    moreover have "head_content L d' x = head_content L d x"
      using effect(3) False x plain_not_under_index [OF x] by (simp add: plain_def)
    ultimately show ?thesis using m x by (simp add: mirrors_def)
  qed
  ultimately show ?thesis by (simp add: mirrors_def)
next
  case (request_move p q msg an ae co sha)
  obtain fd fn td tn where sp: "split_parent p = (fd, fn)" "split_parent q = (td, tn)"
    by (cases "split_parent p"; cases "split_parent q")
  have clean: "clean p" "clean q" using request_move(1,2) by (simp_all add: plain_def)
  note effect = move_file_effect [OF L(1) sound request_move(1) sp(1) request_move(2) sp(2) request_move(3-5)]
  obtain content where content: "head_content L d p = Some content"
    and chs: "chs = Moved p q content # index_changes L fd (order_left L d fd fn td tn)
      @ index_changes L td (order_entered L d fd td tn)"
    using effect(7) by blast
  have "file_events chs = [Moved p q content]"
    unfolding chs using plain_file [OF request_move(2)]
    by (simp add: file_events_Cons file_events_append index_change_no_file)
  moreover have "((m(p := None))(q \<mapsto> content)) x = head_content L d' x" if x: "plain x" for x
  proof (cases "x = q")
    case True
    then show ?thesis using effect(3) content by simp
  next
    case False
    then have after: "head_content L d' x = (if under p x then None else head_content L d x)"
      using effect(8) x plain_not_under_index [OF x] by (simp add: plain_def)
    have "x \<noteq> p \<Longrightarrow> under p x \<Longrightarrow> head_content L d x = None"
      using nothing_below_file [OF L(1) sound clean(1), of x] content x by (simp add: plain_def)
    then show ?thesis using after False m x under_refl by (auto simp: mirrors_def)
  qed
  ultimately show ?thesis by (simp add: mirrors_def)
next
  case (request_revert r target before after ds msg an ae co sha)
  have "apart (touched ds)" "list_all valid_utf8 (touched ds)"
    using request_revert(3) by (simp_all add: undoable_def)
  from revert_effect [OF L sound request_revert(1,2) this request_revert(4)] request_revert(3) m
  show ?thesis by (rule restored_mirrors)
next
  case (request_rollback r target before after ds msg an ae co sha)
  have "apart (touched ds)" "list_all valid_utf8 (touched ds)"
    using request_rollback(3) by (simp_all add: undoable_def)
  from rollback_effect [OF L sound request_rollback(1,2) this request_rollback(4)] request_rollback(3) m
  show ?thesis by (rule restored_mirrors)
qed

lemma request_sound:
  assumes "git2_ok L I" "disk_sound I d" "dk_git d \<noteq> None" "file_request L Q tenant d chs d'"
  shows "disk_sound I d' \<and> dk_git d' \<noteq> None"
  using assms(4)
proof cases
  case request_write
  then show ?thesis using write_file.stays_sound [OF assms(1-3)] by blast
next
  case request_delete
  then show ?thesis using delete_file.stays_sound [OF assms(1-3)] by blast
next
  case request_move
  then show ?thesis using move_file.stays_sound [OF assms(1-3)] by blast
next
  case request_revert
  then show ?thesis using revert_commit.stays_sound [OF assms(1-3)] by blast
next
  case request_rollback
  then show ?thesis using rollback_commit.stays_sound [OF assms(1-3)] by blast
qed

lemma requests_mirror:
  assumes "file_requests L Q tenant d css d'" "git2_ok L I" "diff_law L Q I" "disk_sound I d" "dk_git d \<noteq> None" "mirrors L d m"
  shows "mirrors L d' (fold apply_change (file_events (List.concat css)) m)"
  using assms
proof (induction arbitrary: m rule: file_requests.induct)
  case (requests_none d)
  then show ?case by (simp add: file_events_def)
next
  case (requests_some d chs e css d')
  note sound = request_sound [OF requests_some.prems(1,3,4) requests_some.hyps(1)]
  note m = request_mirrors [OF requests_some.prems(1-3) requests_some.hyps(1) requests_some.prems(5)]
  show ?case
    using requests_some.IH [OF requests_some.prems(1,2) conjunct1 [OF sound] conjunct2 [OF sound] m]
    by (simp add: file_events_append)
qed

section \<open>Deliveries to the mirror\<close>

definition file_event_kinds :: "hook_event set" where
  "file_event_kinds = {EvFileCreated, EvFileUpdated, EvFileDeleted, EvFileMoved}"

lemma subscribed_all: "file_event_kinds \<subseteq> set (hc_events hooks) \<Longrightarrow> subscribed hooks event_for_change cs = cs"
  unfolding subscribed_def
proof (induction cs)
  case (Cons c cs)
  then show ?case by (cases c) (auto simp: file_event_kinds_def)
qed simp

lemma receive_files: "fold receive (map (\<lambda>c. build_payload rfc3339 job c False) cs) m = fold apply_change cs m"
  by (induction cs arbitrary: m) (simp_all add: receive_def read_build_payload)

lemma receive_orders: "fold receive (map (\<lambda>c. build_order_payload rfc3339 job c False) cs) m = m"
  by (induction cs arbitrary: m) (simp_all add: receive_def read_build_order_payload)

definition commit_jobs ::
  "'o libs \<Rightarrow> string \<Rightarrow> string \<Rightarrow> (string \<times> int \<times> file_change list) list \<Rightarrow> hook_job list" where
  "commit_jobs L collection tenant commits =
     map (\<lambda>(sha, at, changes). new_hook_job L collection tenant sha at changes) commits"

definition all_changes :: "(string \<times> int \<times> file_change list) list \<Rightarrow> file_change list list" where
  "all_changes commits = map (\<lambda>(sha, at, changes). changes) commits"

lemma receive_commits:
  assumes "file_event_kinds \<subseteq> set (hc_events hooks)"
  shows "fold receive (settled (fold (deliver_all L W (Some hooks)) (commit_jobs L collection tenant commits) tr)) m =
    fold apply_change (file_events (List.concat (all_changes commits))) (fold receive (settled tr) m)"
proof (induction commits arbitrary: tr)
  case (Cons commit commits)
  obtain sha at changes where commit: "commit = (sha, at, changes)" by (cases commit)
  show ?case
    using Cons [of "deliver_all L W (Some hooks) (new_hook_job L collection tenant sha at changes) tr"]
    by (simp add: commit commit_jobs_def all_changes_def settled_commit_job subscribed_all [OF assms]
        receive_files receive_orders file_events_append)
qed (simp add: commit_jobs_def all_changes_def file_events_def)

text \<open>A receiver that accepts every post loses nothing.\<close>

definition accepting :: "'o hook_world \<Rightarrow> bool" where
  "accepting W \<longleftrightarrow> (\<forall>tr p. hw_accepts W tr p)"

lemma accepting_retries:
  "accepting W \<Longrightarrow> 0 < n \<Longrightarrow> deliver_with_retries W hooks n p tr = tr @ [Posted p True]"
  by (simp add: deliver_with_retries_def accepting_def upt_conv_Cons Let_def del: upt_Suc)

lemma nothing_lost_post: "nothing_lost tr \<Longrightarrow> nothing_lost (tr @ [Posted p ok])"
  by (simp add: nothing_lost_def)

lemma accepting_files:
  "accepting W \<Longrightarrow> 0 < n \<Longrightarrow> nothing_lost tr \<Longrightarrow> nothing_lost (deliver_files W hooks n job cs tr)"
  by (induction cs arbitrary: tr) (simp_all add: accepting_retries nothing_lost_post)

lemma accepting_orders:
  "accepting W \<Longrightarrow> 0 < n \<Longrightarrow> nothing_lost tr \<Longrightarrow> nothing_lost (deliver_orders W hooks n job cs tr)"
  by (induction cs arbitrary: tr) (simp_all add: accepting_retries nothing_lost_post)

lemma accepting_commits:
  "accepting W \<Longrightarrow> nothing_lost tr \<Longrightarrow>
     nothing_lost (fold (deliver_all L W (Some hooks)) (commit_jobs L collection tenant commits) tr)"
proof (induction commits arbitrary: tr)
  case (Cons commit commits)
  then show ?case
    by (cases commit) (simp add: commit_jobs_def deliver_all_def new_hook_job_source Let_def
        accepting_files accepting_orders)
qed (simp add: commit_jobs_def)

definition kind_receiver :: "'o hook_world" where
  "kind_receiver =
     \<lparr>hw_accepts = (\<lambda>tr p. True), hw_rfc3339 = (\<lambda>t. ''2026-01-01T00:00:00+00:00''),
      hw_repository = (\<lambda>tr. None)\<rparr>"

text \<open>
  C1: a receiver subscribed to the file events that applies them as they arrive converges to HEAD.
  Start with a mirror of a tenant's files, and take any sequence of writes, deletes and moves on
  plain paths (normal components, none of them an index name; a move between paths neither of
  which is above the other) and of reverts and rollbacks of undoable commits (UTF-8 paths, no
  touched path above another or above a file HEAD holds, each delta on plain paths alone or on
  indexes alone).
  Once their jobs are delivered in order with none given up, applying the accepted events leaves
  the mirror holding exactly HEAD's files on plain paths. A revert that is not undoable may report
  less than it removes: \<open>revert_drops_folder\<close> in \<open>Git_Undo\<close> is such a run.
\<close>

theorem receiver_converges:
  assumes "git2_ok L I" "diff_law L Q I" "disk_sound I d" "dk_git d \<noteq> None" "mirrors L d m"
    and "file_requests L Q tenant d (all_changes commits) d'"
    and "file_event_kinds \<subseteq> set (hc_events hooks)"
    and tr: "tr = fold (deliver_all L W (Some hooks)) (commit_jobs L collection tenant commits) []"
    and "nothing_lost tr"
  shows "mirrors L d' (fold receive (accepted tr) m)"
proof -
  have "fold receive (accepted tr) m = fold apply_change (file_events (List.concat (all_changes commits))) m"
    using receive_commits [OF assms(7), of L W collection tenant commits "[]" m]
    unfolding accepted_settled [OF assms(9)] unfolding tr by simp
  then show ?thesis using requests_mirror [OF assms(6,1-5)] by simp
qed

theorem receiver_converges_witness:
  "mirrors sample_libs
     (snd (revert_commit sample_libs sample_commit_libs ''t'' ''commit add'' None ''Ann'' ''a@x'' True undo_disk))
     (fold receive (accepted (fold (deliver_all sample_libs kind_receiver (Some sample_hooks))
        (commit_jobs sample_libs ''c'' ''t'' [(''sha'', 0, [Deleted ''b.md''])]) []))
      (head_content sample_libs undo_disk))"
proof -
  let ?chs = "[Deleted ''b.md'']"
  let ?run = "revert_commit sample_libs sample_commit_libs ''t'' ''commit add'' None ''Ann'' ''a@x'' True undo_disk"
  let ?tr = "fold (deliver_all sample_libs kind_receiver (Some sample_hooks))
        (commit_jobs sample_libs ''c'' ''t'' [(''sha'', 0, ?chs)]) []"
  let ?ds = "[sample_delta AddedDelta None (Some ''b.md'') (GBlob []) (GBlob ''two'')]"
  have run: "?run = (Inr (''commit revert: add'', ?chs), snd ?run)"
    by (rule prod_eqI, simp_all only: fst_conv snd_conv, code_simp)
  have r: "dk_git undo_disk = Some (the (dk_git undo_disk))"
    by (simp add: undo_disk_def history_disk_def)
  have scope: "commit_scope sample_commit_libs (the (dk_git undo_disk)) ''commit add'' =
      Some (Some (GTree [(''a.md'', GBlob ''one'')]), GTree [(''a.md'', GBlob ''one''), (''b.md'', GBlob ''two'')], ?ds)"
    by code_simp
  have below: "head_content sample_libs undo_disk p = None" if "clean p" "under ''b.md'' p" "p \<noteq> ''b.md''" for p
  proof -
    have "clean ''b.md''" "head_content sample_libs undo_disk ''b.md'' = Some ''two''" by code_simp+
    then show ?thesis using nothing_below_file [OF sample_ok undo_disk_sound _ that(1) _ that(2,3)] by simp
  qed
  have facts: "apart (touched ?ds)" "list_all valid_utf8 (touched ?ds)" "plain ''b.md''"
    by code_simp+
  then have "undoable sample_libs undo_disk ?ds"
    using below by (simp add: undoable_def delta_paths_def sample_delta_def)
  from request_revert [OF r scope this run]
  have requests: "file_requests sample_libs sample_commit_libs ''t'' undo_disk (all_changes [(''sha'', 0, ?chs)]) (snd ?run)"
    by (auto simp: all_changes_def intro: file_requests.intros)
  have lost: "nothing_lost ?tr"
    by (rule accepting_commits) (simp_all add: accepting_def kind_receiver_def nothing_lost_def)
  have git: "dk_git undo_disk \<noteq> None" by (simp add: undo_disk_def history_disk_def)
  have mirror: "mirrors sample_libs undo_disk (head_content sample_libs undo_disk)"
    by (simp add: mirrors_def)
  have events: "file_event_kinds \<subseteq> set (hc_events sample_hooks)"
    by (simp add: file_event_kinds_def sample_hooks_def)
  from receiver_converges [OF sample_ok sample_diff undo_disk_sound git mirror requests events refl lost]
  show ?thesis .
qed

end
