(* ===== verification/Hook_Replay.thy ===== *)
theory Hook_Replay
  imports Hook_Facts
begin

text \<open>
  Replays: what a reconciliation replay tells the receiver, chunk by chunk.
\<close>

lemma concat_chunks: "0 < n \<Longrightarrow> List.concat (chunks n xs) = xs"
proof (induction n xs rule: chunks.induct)
  case (1 n xs)
  then show ?case by (cases "xs = []") (simp_all add: chunks.simps [of n xs] chunks.simps [of n "[]"])
qed

lemma chunks_bounded: "c \<in> set (chunks n xs) \<Longrightarrow> length c \<le> n"
proof (induction n xs rule: chunks.induct)
  case (1 n xs)
  from 1(2) have "\<not> (n = 0 \<or> xs = [])" "c = take n xs \<or> c \<in> set (chunks n (drop n xs))"
    unfolding chunks.simps [of n xs] by (auto split: if_splits)
  then show ?case using 1(1) by auto
qed

lemma settled_pause [simp]: "settled (pause delay n tr) = settled tr"
  by (simp add: pause_def split: option.split)

lemma settled_files_chunk:
  "0 < n \<Longrightarrow> settled (fst (replay_files_chunk W hooks n job delay cs st)) =
     settled (fst st) @ map (\<lambda>c. build_payload (hw_rfc3339 W) job c True) (List.map_filter id cs)"
  by (induction W hooks n job delay cs st rule: replay_files_chunk.induct) simp_all

lemma settled_orders_chunk:
  "0 < n \<Longrightarrow> settled (fst (replay_orders_chunk W hooks n job delay ds st)) =
     settled (fst st) @ map (\<lambda>c. build_order_payload (hw_rfc3339 W) job c True)
       (List.map_filter (\<lambda>(dir, es). map_option (OrderUpdated dir) es) ds)"
  by (induction W hooks n job delay ds st rule: replay_orders_chunk.induct)
    simp_all

text \<open>What HEAD says of a replayed path.\<close>

definition replayed_file :: "'o libs \<Rightarrow> 'o disk \<Rightarrow> replay_kind \<Rightarrow> string \<Rightarrow> file_change option" where
  "replayed_file L d kind path =
     (case kind of
        ReplayDeleted \<Rightarrow> Some (Deleted path)
      | ReplayCreated \<Rightarrow>
          if is_order_file path then None
          else Option.bind (head_content L d path)
            (\<lambda>content. if valid_utf8 content then Some (Created path content) else None))"

definition replayed_order :: "'o libs \<Rightarrow> 'o disk \<Rightarrow> string \<Rightarrow> order_change option" where
  "replayed_order L d directory = map_option (OrderUpdated directory) (stored_in L d directory)"

lemma zip_map_self: "map (\<lambda>(x, y). g x y) (zip xs (map f xs)) = map (\<lambda>x. g x (f x)) xs"
  by (induction xs) simp_all

lemma chunk_changes:
  assumes L: "git2_ok L I" and world: "hw_repository W = (\<lambda>tr. Some d)"
    and r: "open_tenant_repo L tenant d = Inr r" and t: "head_tree r = Inr (h, t)"
  shows "replay_chunk_changes L W tenant kind paths tr = Some (map (replayed_file L d kind) paths)"
proof (cases kind)
  case ReplayDeleted
  then show ?thesis by (simp add: replay_chunk_changes_def replayed_file_def)
next
  case ReplayCreated
  have git: "dk_git d = Some r" by (rule open_tenant_git [OF L r])
  have "head_content L d p = Option.bind (blob_oid_in_tree L r t p) (r_blobs r)" for p
    using git t by (simp add: head_content_def head_blob_def)
  then have "map_option (Created p) (if is_order_file p then None
      else (case blob_oid_in_tree L r t p of None \<Rightarrow> None
        | Some blob_oid \<Rightarrow> (case find_blob r blob_oid of Inl _ \<Rightarrow> None
            | Inr content \<Rightarrow> if valid_utf8 content then Some content else None))) =
      replayed_file L d kind p" for p
    by (auto simp: replayed_file_def ReplayCreated find_blob_def split: option.split)
  then show ?thesis
    using world r t by (simp add: replay_chunk_changes_def ReplayCreated replay_read_files_def zip_map_self)
qed

lemma chunk_orders:
  assumes L: "git2_ok L I" and world: "hw_repository W = (\<lambda>tr. Some d)"
    and r: "open_tenant_repo L tenant d = Inr r" and t: "head_tree r = Inr (h, t)"
  shows "replay_chunk_orders L W tenant directories tr = Some (map (stored_in L d) directories)"
proof -
  have "stored_order L r t = stored_in L d"
    using stored_order_head [OF open_tenant_git [OF L r] t] by blast
  then show ?thesis using world r t by (simp add: replay_chunk_orders_def replay_read_orders_def)
qed

lemma settled_replay_files:
  assumes L: "git2_ok L I" and world: "hw_repository W = (\<lambda>tr. Some d)"
    and r: "open_tenant_repo L tenant d = Inr r" and t: "head_tree r = Inr (h, t)"
    and "0 < n" "hj_tenant_id job = tenant"
  shows "\<exists>st'. replay_files L W hooks n job kind delay css st = Inr st' \<and> settled (fst st') = settled (fst st) @
     map (\<lambda>c. build_payload (hw_rfc3339 W) job c True)
       (List.map_filter (replayed_file L d kind) (List.concat css))"
proof (induction css arbitrary: st)
  case (Cons c css)
  have "List.map_filter id (map (replayed_file L d kind) c) = List.map_filter (replayed_file L d kind) c"
    by (simp add: map_filter_def comp_def filter_map)
  then show ?case
    using Cons [of "replay_files_chunk W hooks n job delay (map (replayed_file L d kind) c) st"] assms(5,6)
    by (auto simp: chunk_changes [OF L world r t] settled_files_chunk map_filter_def)
qed (simp add: map_filter_def)

lemma settled_replay_orders:
  assumes L: "git2_ok L I" and world: "hw_repository W = (\<lambda>tr. Some d)"
    and r: "open_tenant_repo L tenant d = Inr r" and t: "head_tree r = Inr (h, t)"
    and "0 < n" "hj_tenant_id job = tenant"
  shows "settled (replay_orders L W hooks n job delay css st) = settled (fst st) @
     map (\<lambda>c. build_order_payload (hw_rfc3339 W) job c True)
       (List.map_filter (replayed_order L d) (List.concat css))"
proof (induction css arbitrary: st)
  case (Cons c css)
  have "List.map_filter (\<lambda>(dir, es). map_option (OrderUpdated dir) es) (zip c (map (stored_in L d) c)) =
      List.map_filter (replayed_order L d) c"
    by (induction c) (simp_all add: replayed_order_def split: option.split)
  then show ?case
    using Cons [of "replay_orders_chunk W hooks n job delay (zip c (map (stored_in L d) c)) st"] assms(5,6)
    by (simp add: chunk_orders [OF L world r t] settled_orders_chunk map_filter_def)
qed (simp add: map_filter_def)

definition replay_event :: "replay_kind \<Rightarrow> hook_event" where
  "replay_event kind = (case kind of ReplayCreated \<Rightarrow> EvFileCreated | ReplayDeleted \<Rightarrow> EvFileDeleted)"

text \<open>
  C18: a replay states what HEAD holds. While the repository is left alone, the receiver is told,
  in the order of the replay's paths, each path that HEAD holds as text (a deletion replay: each
  path), and after all of them the stored order of each directory that has a readable one, each
  kind only when subscribed to.
\<close>

theorem replay_states_head:
  assumes "git2_ok L I" "hw_repository W = (\<lambda>tr. Some d)"
    and "open_tenant_repo L (hj_tenant_id job) d = Inr r" "head_tree r = Inr (h, t)"
    and "hj_source job = FromReplay rp"
  shows "settled (deliver_all L W (Some hooks) job tr) = settled tr @
      map (\<lambda>c. build_payload (hw_rfc3339 W) job c True)
        (if replay_event (rp_kind rp) \<in> set (hc_events hooks)
         then List.map_filter (replayed_file L d (rp_kind rp)) (rp_paths rp) else []) @
      map (\<lambda>c. build_order_payload (hw_rfc3339 W) job c True)
        (if EvOrderUpdated \<in> set (hc_events hooks)
         then List.map_filter (replayed_order L d) (rp_order_directories rp) else [])"
proof -
  let ?n = "max (hc_retry_attempts hooks) 1"
  have pos: "0 < ?n" by simp
  note files = settled_replay_files [OF assms(1-4) pos refl]
  note orders = settled_replay_orders [OF assms(1-4) pos refl]
  let ?delay = "case rp_delay_ms rp of Some d \<Rightarrow> if d > 0 then Some d else None | None \<Rightarrow> None"
  obtain st where st: "replay_files L W hooks ?n job (rp_kind rp) ?delay (chunks REPLAY_READ_CHUNK (rp_paths rp)) (tr, 0) = Inr st"
    and settled: "settled (fst st) = settled tr @ map (\<lambda>c. build_payload (hw_rfc3339 W) job c True)
      (List.map_filter (replayed_file L d (rp_kind rp)) (rp_paths rp))"
    using files [of hooks "rp_kind rp" ?delay "chunks REPLAY_READ_CHUNK (rp_paths rp)" "(tr, 0)"]
    by (auto simp: concat_chunks REPLAY_READ_CHUNK_def)
  have after: "settled (replay_orders L W hooks ?n job ?delay (chunks REPLAY_READ_CHUNK (rp_order_directories rp)) st') =
      settled (fst st') @ map (\<lambda>c. build_order_payload (hw_rfc3339 W) job c True)
        (List.map_filter (replayed_order L d) (rp_order_directories rp))" for st'
    using orders [of hooks ?delay "chunks REPLAY_READ_CHUNK (rp_order_directories rp)" st']
    by (simp add: concat_chunks REPLAY_READ_CHUNK_def)
  show ?thesis
    unfolding deliver_all_def deliver_replay_def Let_def assms(5) replay_event_def [symmetric]
    using st settled after by simp
qed

definition demo_world :: "gobj hook_world" where
  "demo_world =
     \<lparr>hw_accepts = (\<lambda>tr p. True), hw_rfc3339 = (\<lambda>t. ''2026-01-01T00:00:00+00:00''),
      hw_repository = (\<lambda>tr. Some demo_disk)\<rparr>"

definition demo_replay :: hook_job where
  "demo_replay = replay_hook_job ''c'' ''t'' ''sha'' 0
     \<lparr>rp_kind = ReplayCreated, rp_paths = [''docs/a.md'', ''gone.md''],
      rp_order_directories = [''docs'', ''notes''], rp_delay_ms = None\<rparr>"

theorem replay_states_head_witness:
  "settled (deliver_all sample_libs demo_world (Some sample_hooks) demo_replay []) =
     [build_payload (hw_rfc3339 demo_world) demo_replay (Created ''docs/a.md'' ''one'') True,
      build_order_payload (hw_rfc3339 demo_world) demo_replay (OrderUpdated ''docs'' [''b.md'', ''a.md'']) True]"
proof -
  obtain r h t where r: "open_tenant_repo sample_libs ''t'' demo_disk = Inr r" "head_tree r = Inr (h, t)"
  proof -
    have "(case open_tenant_repo sample_libs ''t'' demo_disk of Inl e \<Rightarrow> False
        | Inr r \<Rightarrow> (case head_tree r of Inl e \<Rightarrow> False | Inr x \<Rightarrow> True))" by code_simp
    then show thesis using that by (auto split: sum.splits)
  qed
  have world: "hw_repository demo_world = (\<lambda>tr. Some demo_disk)" by (simp add: demo_world_def)
  have job: "hj_tenant_id demo_replay = ''t''" "hj_source demo_replay = FromReplay
     \<lparr>rp_kind = ReplayCreated, rp_paths = [''docs/a.md'', ''gone.md''],
      rp_order_directories = [''docs'', ''notes''], rp_delay_ms = None\<rparr>"
    by (simp_all add: demo_replay_def replay_hook_job_def)
  have "List.map_filter (replayed_file sample_libs demo_disk ReplayCreated) [''docs/a.md'', ''gone.md''] =
      [Created ''docs/a.md'' ''one'']"
    "List.map_filter (replayed_order sample_libs demo_disk) [''docs'', ''notes''] =
      [OrderUpdated ''docs'' [''b.md'', ''a.md'']]"
    by code_simp+
  with replay_states_head [OF sample_ok world r(1) [folded job(1)] r(2) job(2), of sample_hooks "[]"]
  show ?thesis by (simp add: replay_event_def sample_hooks_def)
qed

end
