(* ===== verification/Git_Commits.thy ===== *)
theory Git_Commits
  imports Git_Listing Git_Reverts
begin

text \<open>
  The reading half of \<open>GitCommits\<close> of \<open>src/git.rs\<close>: the commit log, a file's log across its
  renames, and the detail of one commit. Page arithmetic is on 64-bit words. The sha printed for a
  commit is read back as the commit's id (\<open>Oid::from_str\<close> of \<open>Oid::to_string\<close>), so the summaries
  of a file's log are kept with their ids.
\<close>

section \<open>Summaries\<close>

record commit_author =
  ca_name :: string
  ca_email :: string

record commit_summary =
  su_sha :: string
  su_message :: string
  su_author :: commit_author
  su_committed_at :: int
  su_statistics :: "commit_statistics option"

definition utf8_or_empty :: "bytes \<Rightarrow> string" where
  "utf8_or_empty s = (if valid_utf8 s then s else [])"

definition commit_author_of :: "'o commit \<Rightarrow> commit_author" where
  "commit_author_of c =
     \<lparr>ca_name = utf8_or_empty (sig_name (c_signature c)),
      ca_email = utf8_or_empty (sig_email (c_signature c))\<rparr>"

definition summary_of ::
  "'o libs \<Rightarrow> 'o history_libs \<Rightarrow> 'o \<Rightarrow> 'o commit \<Rightarrow> commit_statistics option \<Rightarrow> commit_summary" where
  "summary_of L H oid c statistics =
     \<lparr>su_sha = g_oid_string L oid, su_message = message_text c [], su_author = commit_author_of c,
      su_committed_at = timestamp_from_git_time H (sig_time (c_signature c)),
      su_statistics = statistics\<rparr>"

definition statistics_for_commit ::
  "'o commit_libs \<Rightarrow> 'o repo \<Rightarrow> 'o commit \<Rightarrow> commit_statistics app_result" where
  "statistics_for_commit Q r c =
     and_then (commit_tree r c) (\<lambda>after.
     and_then (tree_before r c) (\<lambda>before.
       git_result (q_statistics Q r before after)))"

section \<open>The log\<close>

text \<open>\<open>saturating_sub(1).saturating_mul(per_page)\<close>.\<close>

definition skip_count :: "usize \<Rightarrow> usize \<Rightarrow> usize" where
  "skip_count page per_page =
     (let before = (if page = 0 then 0 else page - 1) in
      if unat before * unat per_page < 2 ^ 64 then before * per_page else - 1)"

text \<open>The two \<open>filter_map\<close>s: ids that could be walked to, commits that can be read.\<close>

definition readable :: "'o repo \<Rightarrow> git_error + 'o \<Rightarrow> ('o \<times> 'o commit) option" where
  "readable r item =
     (case item of
        Inl _ \<Rightarrow> None
      | Inr oid \<Rightarrow> map_option (\<lambda>c. (oid, c)) (r_commits r oid))"

definition list_log ::
  "'o libs \<Rightarrow> 'o history_libs \<Rightarrow> 'o commit_libs \<Rightarrow> 'o disk \<Rightarrow> string \<Rightarrow> usize \<Rightarrow> usize \<Rightarrow> bool
   \<Rightarrow> (commit_summary list \<times> bool) app_result" where
  "list_log L H Q d tenant page per_page include_statistics =
     and_then (open_tenant_repo L tenant d) (\<lambda>r.
     and_then (git_result (h_revwalk H r)) (\<lambda>revwalk.
     and_then (map_results
         (\<lambda>(oid, c).
            and_then (if include_statistics
                      then and_then (statistics_for_commit Q r c) (\<lambda>st. Inr (Some st)) else Inr None)
              (\<lambda>statistics. Inr (summary_of L H oid c statistics)))
         (List.map_filter (readable r)
           (take (unat (per_page + 1)) (drop (unat (skip_count page per_page)) revwalk)))) (\<lambda>commits.
       Inr (take (unat per_page) commits, length commits > unat per_page))))"

section \<open>A file's log\<close>

definition rename_source ::
  "'o commit_libs \<Rightarrow> 'o repo \<Rightarrow> 'o \<Rightarrow> 'o \<Rightarrow> string \<Rightarrow> string option" where
  "rename_source Q r before after current_path =
     (case q_diff Q r (Some before) after of
        Inl _ \<Rightarrow> None
      | Inr deltas \<Rightarrow>
          (case find (\<lambda>dl. dr_status dl = RenamedDelta \<and>
                 map_option to_string_lossy (dr_new_path dl) = Some current_path) deltas of
             None \<Rightarrow> None
           | Some dl \<Rightarrow> map_option to_string_lossy (dr_old_path dl)))"

text \<open>
  What one commit says of the file under its current name: whether it touched it, and the name it
  had before if the commit renamed it. \<open>None\<close> where the loop skips the commit.
\<close>

definition file_match ::
  "'o libs \<Rightarrow> 'o commit_libs \<Rightarrow> 'o repo \<Rightarrow> string \<Rightarrow> 'o commit \<Rightarrow> (bool \<times> string option) option" where
  "file_match L Q r current_path c =
     (case commit_tree r c of
        Inl _ \<Rightarrow> None
      | Inr after \<Rightarrow>
          if c_parents c = [] then Some (g_get_path L r after current_path \<noteq> None, None)
          else
            (case tree_before r c of
               Inr (Some before) \<Rightarrow>
                 (case (g_get_path L r after current_path, g_get_path L r before current_path) of
                    (Some in_commit, Some in_parent) \<Rightarrow>
                      if te_id in_commit = te_id in_parent \<and> te_mode in_commit = te_mode in_parent
                      then Some (False, None) else Some (True, None)
                  | (None, Some _) \<Rightarrow> Some (True, None)
                  | (None, None) \<Rightarrow> Some (False, None)
                  | (Some _, None) \<Rightarrow>
                      Some (True, rename_source Q r before after current_path))
             | _ \<Rightarrow> None))"

text \<open>The loop over the walk, stopping once \<open>need\<close> commits are found.\<close>

fun follow_file ::
  "'o libs \<Rightarrow> 'o commit_libs \<Rightarrow> 'o repo \<Rightarrow> nat \<Rightarrow> string \<Rightarrow> ('o \<times> 'o commit) list
   \<Rightarrow> (git_error + 'o) list \<Rightarrow> ('o \<times> 'o commit) list" where
  "follow_file L Q r need current_path matching [] = matching"
| "follow_file L Q r need current_path matching (item # items) =
     (if length matching \<ge> need then matching
      else (case readable r item of
          None \<Rightarrow> follow_file L Q r need current_path matching items
        | Some (oid, c) \<Rightarrow>
            (case file_match L Q r current_path c of
               None \<Rightarrow> follow_file L Q r need current_path matching items
             | Some (is_match, rename_from) \<Rightarrow>
                 if is_match
                 then follow_file L Q r need
                   (case rename_from of None \<Rightarrow> current_path | Some old_name \<Rightarrow> old_name)
                   (matching @ [(oid, c)]) items
                 else follow_file L Q r need current_path matching items)))"

definition list_commits_by_file ::
  "'o libs \<Rightarrow> 'o history_libs \<Rightarrow> 'o commit_libs \<Rightarrow> 'o disk \<Rightarrow> string \<Rightarrow> usize \<Rightarrow> usize \<Rightarrow> string \<Rightarrow> bool
   \<Rightarrow> (commit_summary list \<times> bool) app_result" where
  "list_commits_by_file L H Q d tenant page per_page file_path include_statistics =
     and_then (open_tenant_repo L tenant d) (\<lambda>r.
     and_then (git_result (h_revwalk H r)) (\<lambda>revwalk.
       (let skipped = skip_count page per_page;
            need = skipped + per_page + 1;
            matching = follow_file L Q r (unat need) file_path [] revwalk
        in and_then (map_results
             (\<lambda>(oid, c).
                and_then (if include_statistics
                          then (case r_commits r oid of
                              None \<Rightarrow> Inl (GitErr missing_object)
                            | Some c' \<Rightarrow> and_then (statistics_for_commit Q r c') (\<lambda>st. Inr (Some st)))
                          else Inr None)
                  (\<lambda>statistics. Inr (summary_of L H oid c statistics)))
             (take (unat per_page) (drop (unat skipped) matching))) (\<lambda>commits.
           Inr (commits, length matching > unat (skipped + per_page))))))"

definition list_commits ::
  "'o libs \<Rightarrow> 'o history_libs \<Rightarrow> 'o commit_libs \<Rightarrow> 'o disk \<Rightarrow> string \<Rightarrow> usize \<Rightarrow> usize \<Rightarrow> string option \<Rightarrow> bool
   \<Rightarrow> (commit_summary list \<times> bool) app_result" where
  "list_commits L H Q d tenant page per_page file_path include_statistics =
     (case file_path of
        Some path \<Rightarrow> list_commits_by_file L H Q d tenant page per_page path include_statistics
      | None \<Rightarrow> list_log L H Q d tenant page per_page include_statistics)"

section \<open>One commit\<close>

record commit_file_detail =
  cf_path :: string
  cf_change :: string
  cf_from_path :: "string option"
  cf_content :: string
  cf_diff :: string

record commit_detail =
  cd_sha :: string
  cd_message :: string
  cd_author :: commit_author
  cd_committed_at :: int
  cd_files :: "commit_file_detail list"
  cd_statistics :: commit_statistics

text \<open>
  The callback of \<open>diff.print\<close>: a line goes to the first delta with the line's pair of ids, its
  marker re-attached where it is one.
\<close>

definition line_text :: "char \<Rightarrow> bytes \<Rightarrow> string" where
  "line_text origin content =
     (if origin \<in> {CHR ''+'', CHR ''-'', CHR '' '', CHR 0x5C} then [origin] else []) @ utf8_or_empty content"

definition bucket_line ::
  "'o delta_record list \<Rightarrow> ('o \<times> 'o) \<times> char \<times> bytes \<Rightarrow> string list \<Rightarrow> string list" where
  "bucket_line records line buckets =
     (case line of (key, origin, content) \<Rightarrow>
       (case position_of (\<lambda>record. (dr_old_oid record, dr_new_oid record) = key) records of
          None \<Rightarrow> buckets
        | Some idx \<Rightarrow> buckets[idx := buckets ! idx @ line_text origin content]))"

definition per_file_diffs ::
  "'o delta_record list \<Rightarrow> (('o \<times> 'o) \<times> char \<times> bytes) list \<Rightarrow> string list" where
  "per_file_diffs records lines = fold (bucket_line records) lines (replicate (length records) [])"

text \<open>The label, path and previous path of a delta.\<close>

definition change_label :: "'o delta_record \<Rightarrow> string \<times> string \<times> string option" where
  "change_label record =
     (case dr_status record of
        AddedDelta \<Rightarrow> (''created'', path_string (dr_new_path record), None)
      | DeletedDelta \<Rightarrow> (''deleted'', path_string (dr_old_path record), None)
      | RenamedDelta \<Rightarrow>
          (''moved'', path_string (dr_new_path record), map_option to_string_lossy (dr_old_path record))
      | _ \<Rightarrow> (''updated'', path_string (dr_new_path record), None))"

definition file_detail ::
  "'o libs \<Rightarrow> 'o repo \<Rightarrow> 'o \<Rightarrow> 'o delta_record \<times> string \<Rightarrow> commit_file_detail app_result" where
  "file_detail L r tree entry =
     (case entry of (record, diff) \<Rightarrow>
       (case change_label record of (label, file_path, from_path) \<Rightarrow>
         and_then (if dr_status record = DeletedDelta then Inr []
                   else blob_content_from_tree L r tree file_path) (\<lambda>content.
           Inr \<lparr>cf_path = file_path, cf_change = label, cf_from_path = from_path,
                cf_content = content, cf_diff = diff\<rparr>)))"

definition get_commit ::
  "'o libs \<Rightarrow> 'o history_libs \<Rightarrow> 'o commit_libs \<Rightarrow> 'o disk \<Rightarrow> string \<Rightarrow> string \<Rightarrow> commit_detail app_result"
where
  "get_commit L H Q d tenant sha =
     and_then (open_tenant_repo L tenant d) (\<lambda>r.
     and_then (resolve_commit Q r sha) (\<lambda>(oid, commit).
     and_then (commit_tree r commit) (\<lambda>tree.
     and_then (tree_before r commit) (\<lambda>before.
     and_then (git_result (q_diff Q r before tree)) (\<lambda>records.
     and_then (git_result (q_statistics Q r before tree)) (\<lambda>statistics.
     and_then (git_result (q_patch Q r before tree)) (\<lambda>lines.
     and_then (map_results (file_detail L r tree) (zip records (per_file_diffs records lines))) (\<lambda>files.
       Inr \<lparr>cd_sha = g_oid_string L oid, cd_message = message_text commit [],
            cd_author = commit_author_of commit,
            cd_committed_at = timestamp_from_git_time H (sig_time (c_signature commit)),
            cd_files = files, cd_statistics = statistics\<rparr>))))))))"

end
