(* ===== verification/Commit_Facts.thy ===== *)
theory Commit_Facts
  imports Git_Commits Git_Undo
begin

text \<open>The pages of the commit logs, and which lines of a patch a file's diff gets.\<close>

section \<open>Pages of the log\<close>

lemma map_results_Inr: "(\<And>x. x \<in> set xs \<Longrightarrow> f x = Inr (g x)) \<Longrightarrow> map_results f xs = Inr (map g xs)"
  by (induction xs) simp_all

lemma skip_count_nat:
  assumes "1 \<le> unat page"
  shows "unat (skip_count page per_page) = min ((unat page - 1) * unat per_page) (2 ^ 64 - 1)"
proof -
  have page: "page \<noteq> 0" using assms by auto
  have before: "unat (page - 1) = unat page - 1"
    using assms by (simp add: unat_sub word_le_nat_alt)
  show ?thesis
  proof (cases "unat (page - 1) * unat per_page < 2 ^ 64")
    case True
    then have "unat ((page - 1) * per_page) = unat (page - 1) * unat per_page"
      by (simp add: unat_mult_lem [THEN iffD1])
    with True page before show ?thesis by (simp add: skip_count_def)
  next
    case False
    moreover have "unat (- 1 :: usize) = 2 ^ 64 - 1" by (simp add: unsigned_minus_1_eq_mask mask_eq_exp_minus_1)
    ultimately show ?thesis using page before by (simp add: skip_count_def)
  qed
qed

definition log_entry :: "'o repo \<Rightarrow> git_error + 'o \<Rightarrow> 'o \<times> 'o commit" where
  "log_entry r item = the (readable r item)"

lemma map_filter_total: "list_all (\<lambda>x. f x \<noteq> None) xs \<Longrightarrow> List.map_filter f xs = map (\<lambda>x. the (f x)) xs"
  by (induction xs) (auto simp: List.map_filter_def)

lemma more_than_a_page: "min (length (drop k xs)) (n + 1) > n \<longleftrightarrow> length xs > k + n"
  by (auto simp: min_def)

text \<open>
  A page of the log, when every commit of it can be read. On any page number and size the
  machine admits, the saturating arithmetic answers the window unbounded arithmetic would, and
  reports more exactly when commits are left after it.
\<close>

theorem log_page_exact:
  assumes "open_tenant_repo L tenant d = Inr r" "h_revwalk H r = Inr items"
    and "list_all (\<lambda>item. readable r item \<noteq> None) items" "length items < 2 ^ 64"
    and "1 \<le> unat page" "unat per_page < 2 ^ 64 - 1"
  shows "list_commits L H Q d tenant page per_page None False =
    Inr (take (unat per_page) (drop ((unat page - 1) * unat per_page)
        (map (\<lambda>item. summary_of L H (fst (log_entry r item)) (snd (log_entry r item)) None) items)),
      length items > unat page * unat per_page)"
proof -
  let ?n = "unat per_page" and ?k = "unat (skip_count page per_page)"
  let ?window = "take (?n + 1) (drop ?k items)"
  let ?summary = "\<lambda>item. summary_of L H (fst (log_entry r item)) (snd (log_entry r item)) None"
  have n: "unat (per_page + 1) = ?n + 1"
    using assms(6) by (subst unat_add_lem [THEN iffD1]) simp_all
  have "set ?window \<subseteq> set items" by (meson set_drop_subset set_take_subset subset_trans)
  then have "List.map_filter (readable r) ?window = map (log_entry r) ?window"
    using assms(3) by (subst map_filter_total) (auto simp: list_all_iff log_entry_def)
  then have "list_commits L H Q d tenant page per_page None False =
      Inr (take ?n (map ?summary ?window), length ?window > ?n)"
    using assms(1,2)
    by (simp add: list_commits_def list_log_def git_result_def n split_def comp_def
        map_results_Inr [where g = "\<lambda>x. summary_of L H (fst x) (snd x) None"] del: length_take length_drop)
  moreover have "drop ?k items = drop ((unat page - 1) * ?n) items"
    using assms(4) by (simp add: skip_count_nat [OF assms(5)] min_def)
  moreover have "length (take (?n + 1) (drop ((unat page - 1) * ?n) items)) > ?n \<longleftrightarrow>
      length items > (unat page - 1) * ?n + ?n"
    using more_than_a_page [where k = "(unat page - 1) * ?n" and xs = items and n = ?n] by simp
  moreover have "(unat page - 1) * ?n + ?n = unat page * ?n"
    using assms(5) by (cases "unat page") simp_all
  ultimately show ?thesis by (simp add: take_map drop_map)
qed

definition sample_history_libs :: "gobj history_libs" where
  "sample_history_libs =
     \<lparr>h_revwalk = (\<lambda>r. case r_head r of Inl e \<Rightarrow> Inl e | Inr h \<Rightarrow> Inr (map Inr (chain h))),
      h_diff = (\<lambda>r before after scope. Inr []), h_calendar = (\<lambda>s. Some (s * 1000000000)), h_clock = (\<lambda>n. 0)\<rparr>"

lemma undo_disk_open:
  "open_tenant_repo sample_libs ''t'' undo_disk = Inr (the (dk_git undo_disk))"
  by (simp add: open_tenant_repo_def undo_disk_def history_disk_def sample_libs_def sample_repo_def)

theorem log_page_exact_witness:
  "map su_message (fst (projr (list_commits sample_libs sample_history_libs sample_commit_libs undo_disk ''t'' 2 2 None False)))
   = [''base'']"
proof -
  let ?r = "the (dk_git undo_disk)"
  let ?items = "projr (h_revwalk sample_history_libs ?r)"
  have walk: "h_revwalk sample_history_libs ?r = Inr ?items"
    by (simp add: sample_history_libs_def undo_disk_def history_disk_def sample_repo_def)
  have "list_all (\<lambda>item. readable ?r item \<noteq> None) ?items" by code_simp
  moreover have len: "length ?items = 3" by code_simp
  moreover have "map (\<lambda>item. su_message (summary_of sample_libs sample_history_libs (fst (log_entry ?r item))
      (snd (log_entry ?r item)) None)) ?items = [''edit'', ''add'', ''base'']" by code_simp
  then have "map su_message (map (\<lambda>item. summary_of sample_libs sample_history_libs (fst (log_entry ?r item))
      (snd (log_entry ?r item)) None) ?items) = [''edit'', ''add'', ''base'']" by (simp add: comp_def)
  ultimately show ?thesis
    using log_page_exact [OF undo_disk_open walk, where page = 2 and per_page = 2]
    by (simp add: take_map [symmetric] drop_map [symmetric])
qed

section \<open>Pages of a file's log\<close>

text \<open>The commits that touched the file, under the name it had at the time, newest first.\<close>

fun file_log ::
  "'o libs \<Rightarrow> 'o commit_libs \<Rightarrow> 'o repo \<Rightarrow> string \<Rightarrow> (git_error + 'o) list \<Rightarrow> ('o \<times> 'o commit) list" where
  "file_log L Q r name [] = []"
| "file_log L Q r name (item # items) =
     (case Option.bind (readable r item) (\<lambda>(oid, c). map_option (Pair (oid, c)) (file_match L Q r name c)) of
        Some (entry, True, older) \<Rightarrow> entry # file_log L Q r (case older of None \<Rightarrow> name | Some n \<Rightarrow> n) items
      | _ \<Rightarrow> file_log L Q r name items)"

lemma follow_file_log:
  assumes "length matching \<le> need"
  shows "follow_file L Q r need name matching items =
    matching @ take (need - length matching) (file_log L Q r name items)"
  using assms
proof (induction items arbitrary: name matching)
  case (Cons item items)
  show ?case
  proof (cases "length matching = need")
    case False
    then have less: "length matching < need" using Cons.prems by simp
    show ?thesis
    proof (cases "Option.bind (readable r item) (\<lambda>(oid, c). map_option (Pair (oid, c)) (file_match L Q r name c))")
      case None
      have "follow_file L Q r need name matching (item # items) = follow_file L Q r need name matching items"
        using less None by (cases "readable r item") (simp_all split: prod.splits)
      then show ?thesis using None Cons.IH [OF Cons.prems] by simp
    next
      case (Some found)
      obtain oid c is_match older where f: "found = ((oid, c), is_match, older)"
        and r: "readable r item = Some (oid, c)" "file_match L Q r name c = Some (is_match, older)"
        using Some by (auto split: bind_splits)
      have "need - length matching = Suc (need - Suc (length matching))" using less by simp
      moreover have "length (matching @ [(oid, c)]) \<le> need" using less by simp
      note Cons.IH [OF this, of "case older of None \<Rightarrow> name | Some n \<Rightarrow> n"] Cons.IH [OF Cons.prems, of name]
      ultimately show ?thesis using less r by (cases is_match) simp_all
    qed
  qed simp
qed simp

text \<open>
  A page of a file's log. Below the machine word, stopping early and counting changes nothing:
  the page is the window of all the commits that touched the file under the name it had then, and
  more is reported exactly when such commits are left after it.
\<close>

theorem file_log_page_exact:
  assumes "open_tenant_repo L tenant d = Inr r" "h_revwalk H r = Inr items"
    and "1 \<le> unat page" "unat page * unat per_page + 1 < 2 ^ 64"
  shows "list_commits L H Q d tenant page per_page (Some path) False =
    Inr (take (unat per_page) (drop ((unat page - 1) * unat per_page)
        (map (\<lambda>(oid, c). summary_of L H oid c None) (file_log L Q r path items))),
      length (file_log L Q r path items) > unat page * unat per_page)"
proof -
  let ?n = "unat per_page" and ?log = "file_log L Q r path items"
  let ?skip = "skip_count page per_page"
  have split: "unat page * ?n = (unat page - 1) * ?n + ?n"
    using assms(3) by (cases "unat page") simp_all
  have skip: "unat ?skip = (unat page - 1) * ?n"
    using assms(4) split by (simp add: skip_count_nat [OF assms(3)] min_def)
  have end_: "unat (?skip + per_page) = unat page * ?n"
    using assms(4) split by (subst unat_add_lem [THEN iffD1]) (simp_all add: skip)
  have need: "unat (?skip + per_page + 1) = unat page * ?n + 1"
    using assms(4) by (subst unat_add_lem [THEN iffD1]) (simp_all add: end_)
  have matching: "follow_file L Q r (unat (?skip + per_page + 1)) path [] items = take (unat page * ?n + 1) ?log"
    by (simp add: follow_file_log need)
  have "take ?n (drop ((unat page - 1) * ?n) (take (unat page * ?n + 1) ?log)) =
      take ?n (drop ((unat page - 1) * ?n) ?log)"
    using split by (simp add: drop_take min_def)
  then have window: "take ?n (drop (unat ?skip) (take (unat page * ?n + 1) ?log)) =
      take ?n (drop ((unat page - 1) * ?n) ?log)" by (simp only: skip)
  have more: "length (take (unat page * ?n + 1) ?log) > unat page * ?n \<longleftrightarrow> length ?log > unat page * ?n"
    by (auto simp: min_def)
  have "list_commits L H Q d tenant page per_page (Some path) False =
      Inr (map (\<lambda>(oid, c). summary_of L H oid c None) (take ?n (drop (unat ?skip) (take (unat page * ?n + 1) ?log))),
        length (take (unat page * ?n + 1) ?log) > unat page * ?n)"
    using assms(1,2)
    by (simp add: list_commits_def list_commits_by_file_def git_result_def Let_def matching end_ split_def
        map_results_Inr [where g = "\<lambda>x. summary_of L H (fst x) (snd x) None"] del: length_take length_drop)
  then show ?thesis by (simp only: window more take_map drop_map)
qed

lemma undo_disk_walk:
  "h_revwalk sample_history_libs (the (dk_git undo_disk)) =
     Inr (projr (h_revwalk sample_history_libs (the (dk_git undo_disk))))"
  by (simp add: sample_history_libs_def undo_disk_def history_disk_def sample_repo_def)

lemma undo_disk_log:
  "map (c_message \<circ> snd) (file_log sample_libs sample_commit_libs (the (dk_git undo_disk)) ''a.md''
     (projr (h_revwalk sample_history_libs (the (dk_git undo_disk))))) = [''edit'', ''base'']"
  by code_simp

lemma undo_disk_log_length:
  "length (file_log sample_libs sample_commit_libs (the (dk_git undo_disk)) ''a.md''
     (projr (h_revwalk sample_history_libs (the (dk_git undo_disk))))) = 2"
proof -
  have "length (map (c_message \<circ> snd) (file_log sample_libs sample_commit_libs (the (dk_git undo_disk)) ''a.md''
     (projr (h_revwalk sample_history_libs (the (dk_git undo_disk)))))) = 2"
    unfolding undo_disk_log by simp
  then show ?thesis unfolding length_map .
qed

theorem file_log_page_exact_witness:
  "snd (projr (list_commits sample_libs sample_history_libs sample_commit_libs undo_disk ''t'' 1 1 (Some ''a.md'') False))"
proof -
  have one: "1 \<le> unat (1 :: usize)" by simp
  have product: "unat (1 :: usize) * unat (1 :: usize) + 1 = 2" by simp
  have small: "(2 :: nat) < 2 ^ 64" by simp
  have fits: "unat (1 :: usize) * unat (1 :: usize) + 1 < 2 ^ 64" by (simp only: product small)
  note page = file_log_page_exact [OF undo_disk_open undo_disk_walk one fits, where path = "''a.md''" and Q = sample_commit_libs]
  show ?thesis unfolding page sum.sel snd_conv undo_disk_log_length by simp
qed

text \<open>
  The unchecked sum after a saturated product wraps. A page far past the end of a file's log
  is empty and still reports that more commits follow.
\<close>

lemma far_file_page_claims_more:
  assumes "open_tenant_repo L tenant d = Inr r" "h_revwalk H r = Inr items"
    and "2 \<le> length (file_log L Q r path items)"
  shows "list_commits L H Q d tenant (- 1) 2 (Some path) False = Inr ([], True)"
proof -
  have big: "unat (- 1 :: usize) = 2 ^ 64 - 1"
    by (simp add: unsigned_minus_1_eq_mask mask_eq_exp_minus_1)
  then have "unat (skip_count (- 1) 2) = unat (- 1 :: usize)"
    by (subst skip_count_nat) simp_all
  then have skip: "skip_count (- 1) 2 = (- 1 :: usize)" by (rule unsigned_word_eqI)
  have sums: "(- 1) + 2 + 1 = (2 :: usize)" "(- 1) + 2 = (1 :: usize)" "1 + 1 = (2 :: usize)" by simp_all
  let ?log = "file_log L Q r path items"
  have two: "follow_file L Q r (unat (2 :: usize)) path [] items = take 2 ?log"
    by (simp add: follow_file_log)
  have "length (take 2 ?log) \<le> unat (- 1 :: usize)"
    unfolding big by (rule order_trans [of _ 2]) simp_all
  then have past: "drop (unat (- 1 :: usize)) (take 2 ?log) = []" by (rule drop_all)
  have "list_commits L H Q d tenant (- 1) 2 (Some path) False =
      Inr ([], unat (1 :: usize) < length (take 2 ?log))"
    by (simp only: list_commits_def option.case list_commits_by_file_def assms(1,2) git_result_def sum.case
        and_then_simps Let_def skip sums two past take_Nil map_results.simps)
  then show ?thesis using assms(3) by simp
qed

lemma far_file_page_claims_more_sample:
  "list_commits sample_libs sample_history_libs sample_commit_libs undo_disk ''t'' (- 1) 2 (Some ''a.md'') False =
     Inr ([], True)"
proof (rule far_file_page_claims_more [OF undo_disk_open undo_disk_walk])
  show "2 \<le> length (file_log sample_libs sample_commit_libs (the (dk_git undo_disk)) ''a.md''
      (projr (h_revwalk sample_history_libs (the (dk_git undo_disk)))))"
    unfolding undo_disk_log_length by simp
qed

section \<open>Diffs of the files of a commit\<close>

definition delta_key :: "'o delta_record \<Rightarrow> 'o \<times> 'o" where
  "delta_key dl = (dr_old_oid dl, dr_new_oid dl)"

text \<open>The text of the lines of a patch that carry a pair of ids.\<close>

definition patch_text :: "'o \<times> 'o \<Rightarrow> (('o \<times> 'o) \<times> char \<times> bytes) list \<Rightarrow> string" where
  "patch_text key lines =
     List.concat (map (\<lambda>(_, origin, content). line_text origin content) (filter (\<lambda>(k, _). k = key) lines))"

lemma patch_text_simps [simp]:
  "patch_text key [] = []"
  "patch_text key ((k, origin, content) # lines) =
     (if k = key then line_text origin content @ patch_text key lines else patch_text key lines)"
  by (simp_all add: patch_text_def)

lemma bucket_length: "length (fold (bucket_line records) lines buckets) = length buckets"
  by (induction lines arbitrary: buckets) (auto simp: bucket_line_def split: prod.split option.split)

lemma bucket_lines:
  assumes "length buckets = length records" "i < length records"
  shows "fold (bucket_line records) lines buckets ! i =
      (if \<forall>j < i. delta_key (records ! j) \<noteq> delta_key (records ! i)
       then buckets ! i @ patch_text (delta_key (records ! i)) lines else buckets ! i)"
  using assms(1)
proof (induction lines arbitrary: buckets)
  case (Cons line lines)
  obtain key origin content where line: "line = (key, origin, content)" by (cases line)
  let ?step = "bucket_line records line buckets"
  have step: "length ?step = length records"
    using Cons.prems by (simp add: bucket_line_def line split: option.split)
  have at: "?step ! i = (if delta_key (records ! i) = key \<and> (\<forall>j < i. delta_key (records ! j) \<noteq> key)
      then buckets ! i @ line_text origin content else buckets ! i)"
  proof (cases "position_of (\<lambda>record. delta_key record = key) records")
    case None
    then have "?step = buckets" by (simp add: bucket_line_def line delta_key_def)
    then show ?thesis using None assms(2) by (simp add: position_of_None)
  next
    case (Some k)
    then have k: "k < length records" "delta_key (records ! k) = key" "\<forall>j < k. delta_key (records ! j) \<noteq> key"
      by (simp_all add: position_of_Some)
    then have "delta_key (records ! i) = key \<and> (\<forall>j < i. delta_key (records ! j) \<noteq> key) \<longleftrightarrow> i = k"
      using assms(2) by (metis linorder_neqE_nat)
    moreover have "?step = buckets[k := buckets ! k @ line_text origin content]"
      using Some by (simp add: bucket_line_def line delta_key_def)
    ultimately show ?thesis using k(1) Cons.prems by simp
  qed
  show ?case using Cons.IH [OF step] at by (auto simp: line)
qed simp

lemma per_file_diffs_nth:
  assumes "i < length records"
  shows "per_file_diffs records lines ! i =
    (if \<forall>j < i. delta_key (records ! j) \<noteq> delta_key (records ! i)
     then patch_text (delta_key (records ! i)) lines else [])"
  using bucket_lines [of "replicate (length records) []" records i lines] assms
  by (auto simp: per_file_diffs_def)

lemma get_commit_run:
  assumes "get_commit L H Q d tenant sha = Inr detail"
  obtains r oid c before records lines where
    "open_tenant_repo L tenant d = Inr r" "resolve_commit Q r sha = Inr (oid, c)"
    "tree_before r c = Inr before" "q_diff Q r before (c_tree c) = Inr records"
    "q_patch Q r before (c_tree c) = Inr lines"
    "map_results (file_detail L r (c_tree c)) (zip records (per_file_diffs records lines)) = Inr (cd_files detail)"
  using assms
  by (auto simp: get_commit_def and_then_eq_Inr git_result_Inr commit_tree_Inr split: prod.splits)

text \<open>
  C20: the diff a commit's detail gives a file. Its text is the lines of the patch that carry the
  file's pair of object ids, in order, and nothing when an earlier file of the commit has the
  same pair; so each file gets its own diff when no two files of the commit share both ids.
\<close>

theorem file_diffs_attributed:
  assumes "get_commit L H Q d tenant sha = Inr detail" "dk_git d = Some r" "git2_ok L I"
    and "commit_scope Q r sha = Some (before, after, records)" "q_patch Q r before after = Inr lines"
  shows "map cf_diff (cd_files detail) =
      map (\<lambda>i. if delta_key (records ! i) \<in> delta_key ` set (take i records) then []
              else patch_text (delta_key (records ! i)) lines) [0..<length records]"
proof -
  have files: "map_results (file_detail L r after) (zip records (per_file_diffs records lines)) =
      Inr (cd_files detail)"
  proof (rule get_commit_run [OF assms(1)])
    fix r' oid c before' records' lines'
    assume *: "open_tenant_repo L tenant d = Inr r'" "resolve_commit Q r' sha = Inr (oid, c)"
      "tree_before r' c = Inr before'" "q_diff Q r' before' (c_tree c) = Inr records'"
      "q_patch Q r' before' (c_tree c) = Inr lines'"
      "map_results (file_detail L r' (c_tree c)) (zip records' (per_file_diffs records' lines')) = Inr (cd_files detail)"
    have "r' = r" using open_tenant_git [OF assms(3) *(1)] assms(2) by simp
    moreover have "before' = before \<and> c_tree c = after \<and> records' = records"
      using commit_scope_eq [OF *(2-4)] assms(4) calculation by simp
    ultimately show ?thesis using * assms(5) by simp
  qed
  have len: "length (per_file_diffs records lines) = length records"
    by (simp add: per_file_diffs_def bucket_length)
  have same: "length (cd_files detail) = length records"
    using map_results_Inr_length [OF files] len by simp
  have seen: "delta_key (records ! i) \<in> delta_key ` set (take i records) \<longleftrightarrow>
      \<not> (\<forall>j < i. delta_key (records ! j) \<noteq> delta_key (records ! i))" if "i < length records" for i
  proof -
    have "set (take i records) = (!) records ` {..<i}"
      using that nth_image [of i records] by (simp add: lessThan_atLeast0)
    then show ?thesis by (force simp: image_iff Bex_def)
  qed
  show ?thesis
  proof (rule nth_equalityI)
    fix i assume "i < length (map cf_diff (cd_files detail))"
    then have i: "i < length records" by (simp add: same)
    then have "file_detail L r after (records ! i, per_file_diffs records lines ! i) = Inr (cd_files detail ! i)"
      using map_results_Inr_nth [OF files, of i] len by simp
    then have "cf_diff (cd_files detail ! i) = per_file_diffs records lines ! i"
      by (auto simp: file_detail_def and_then_eq_Inr split: prod.splits
          dest!: arg_cong [where f = cf_diff and y = "cd_files detail ! i"])
    then show "map cf_diff (cd_files detail) ! i =
      map (\<lambda>i. if delta_key (records ! i) \<in> delta_key ` set (take i records) then []
              else patch_text (delta_key (records ! i)) lines) [0..<length records] ! i"
      using i same by (auto simp: per_file_diffs_nth seen)
  qed (simp add: same)
qed

theorem file_diffs_attributed_witness:
  "map cf_diff (cd_files (projr (get_commit sample_libs sample_history_libs sample_commit_libs undo_disk ''t''
     ''commit edit''))) = [''-one+new'']"
proof -
  let ?r = "the (dk_git undo_disk)"
  let ?before = "GTree [(''a.md'', GBlob ''one''), (''b.md'', GBlob ''two'')]"
  let ?after = "GTree [(''a.md'', GBlob ''new''), (''b.md'', GBlob ''two'')]"
  let ?ds = "[sample_delta ModifiedDelta (Some ''a.md'') (Some ''a.md'') (GBlob ''one'') (GBlob ''new'')]"
  let ?lines = "[((GBlob ''one'', GBlob ''new''), CHR ''-'', ''one''), ((GBlob ''one'', GBlob ''new''), CHR ''+'', ''new'')]"
  let ?detail = "get_commit sample_libs sample_history_libs sample_commit_libs undo_disk ''t'' ''commit edit''"
  have "isl ?detail = False" by code_simp
  then have run: "?detail = Inr (projr ?detail)" by (cases ?detail) simp_all
  have r: "dk_git undo_disk = Some ?r" by (simp add: undo_disk_def history_disk_def)
  have scope: "commit_scope sample_commit_libs ?r ''commit edit'' = Some (Some ?before, ?after, ?ds)" by code_simp
  have lines: "q_patch sample_commit_libs ?r (Some ?before) ?after = Inr ?lines" by code_simp
  show ?thesis
    unfolding file_diffs_attributed [OF run r sample_ok scope lines] by code_simp
qed

definition twins_disk :: "gobj disk" where
  "twins_disk = history_disk
     [(''drop'', [(''top.md'', GBlob ''top'')]),
      (''base'', [(''top.md'', GBlob ''top''), (''docs'', GTree [(''a.md'', GBlob ''x''), (''b.md'', GBlob ''x'')])])]"

text \<open>
  Two files of a commit can share both ids. In the detail of the commit that deleted a folder
  with two files of the same content, the first file's diff holds both files' lines and the
  second's none.
\<close>

lemma twin_diffs_merged:
  "map (\<lambda>f. (cf_path f, cf_diff f)) (cd_files (projr (get_commit sample_libs sample_history_libs sample_commit_libs
     twins_disk ''t'' ''commit drop''))) = [(''docs/a.md'', ''-x+-x+''), (''docs/b.md'', [])]"
  by code_simp

end
