(* ===== verification/Staging.thy ===== *)
theory Staging
  imports Validate Git_Model "HOL-Library.Word"
begin

text \<open>
  \<open>GitStaging\<close>, \<open>GitTenant\<close> and \<open>GitLocks\<close> of \<open>src/git.rs\<close>, over the store of all tenants: the
  directories \<open><collection>/<name>\<close> below the repositories root. Reads take no lock, so the store
  keeps what a reader could have seen: every system call that changes a directory appends the
  directories it leaves to \<open>sr_seen\<close>.
\<close>

section \<open>The store\<close>

type_synonym place = "string \<times> string"

type_synonym 'o directories = "place \<rightharpoonup> 'o disk"

record 'o store =
  sr_dirs :: "'o directories"
  sr_locks :: "place \<rightharpoonup> int" \<comment> \<open>\<open>.git/index.lock\<close>: when it was last modified, in nanoseconds\<close>
  sr_sequence :: "64 word" \<comment> \<open>\<open>STAGING_SEQUENCE\<close>\<close>
  sr_seen :: "'o directories list"

type_synonym ('o, 'a) store_action = "('o store, app_error, 'a) action"

text \<open>
  The operating system: the faults of the calls below, what a failed removal leaves behind, and
  the directory listings of the start-up sweeps.
\<close>

record 'o os =
  os_mkdir_all :: "string \<Rightarrow> io_error option"
  os_mkdir :: "place \<Rightarrow> io_error option"
  os_rename :: "place \<Rightarrow> place \<Rightarrow> io_error option"
  os_remove_all :: "place \<Rightarrow> (io_error \<times> 'o disk) option"
  os_read_root :: "string list option"
  os_is_dir :: "string \<Rightarrow> bool"
  os_read_collection :: "string \<Rightarrow> string list option"
  os_unlink :: "place \<Rightarrow> io_error option"
  os_stat :: "place \<Rightarrow> bool" \<comment> \<open>whether the metadata call on its \<open>.git\<close> succeeds\<close>

definition put_dir :: "place \<Rightarrow> 'o disk option \<Rightarrow> 'o store \<Rightarrow> 'o store" where
  "put_dir p d s =
     (let dirs = (sr_dirs s)(p := d) in s\<lparr>sr_dirs := dirs, sr_seen := sr_seen s @ [dirs]\<rparr>)"

lemma put_dir_simps [simp]:
  "sr_dirs (put_dir p d s) = (sr_dirs s)(p := d)"
  "sr_seen (put_dir p d s) = sr_seen s @ [(sr_dirs s)(p := d)]"
  "sr_sequence (put_dir p d s) = sr_sequence s" "sr_locks (put_dir p d s) = sr_locks s"
  by (simp_all add: put_dir_def Let_def)

section \<open>GitStaging\<close>

definition STAGING_CREATING :: string where "STAGING_CREATING = ''creating''"
definition STAGING_DELETING :: string where "STAGING_DELETING = ''deleting''"

lemmas staging_purposes = STAGING_CREATING_def STAGING_DELETING_def

definition staging_name :: "string \<Rightarrow> string \<Rightarrow> 64 word \<Rightarrow> string" where
  "staging_name name purpose sequence =
     ''.'' @ name @ ''.'' @ purpose @ ''-'' @ show_nat (unat sequence)"

definition sibling :: "place \<Rightarrow> string \<Rightarrow> ('o, place) store_action" where
  "sibling repo_path purpose s =
     (case repo_path of (parent, name) \<Rightarrow>
        if \<not> valid_utf8 name then
          (Inl (IoErr (IoError IoInvalidInput
             (''not a tenant repository path: '' @ parent @ ''/'' @ to_string_lossy name))), s)
        else
          (Inr (parent, staging_name name purpose (sr_sequence s)),
           s\<lparr>sr_sequence := sr_sequence s + 1\<rparr>))"

definition is_staging_name :: "string \<Rightarrow> bool" where
  "is_staging_name name =
     (case name of
        [] \<Rightarrow> False
      | dot # rest \<Rightarrow>
          if dot \<noteq> CHR ''.'' then False
          else (case rsplit_once CHR ''.'' rest of
              None \<Rightarrow> False
            | Some (tenant, tail) \<Rightarrow>
                (case split_once CHR ''-'' tail of
                   None \<Rightarrow> False
                 | Some (purpose, sequence) \<Rightarrow>
                     (case tenant_id tenant of Inr _ \<Rightarrow> True | Inl _ \<Rightarrow> False)
                     \<and> (purpose = STAGING_CREATING \<or> purpose = STAGING_DELETING)
                     \<and> sequence \<noteq> [] \<and> list_all digit sequence)))"

definition discard :: "'o os \<Rightarrow> place \<Rightarrow> ('o, unit) store_action" where
  "discard fs p s =
     (case sr_dirs s p of
        None \<Rightarrow> (Inr (), s)
      | Some _ \<Rightarrow>
          (case os_remove_all fs p of
             None \<Rightarrow> (Inr (), put_dir p None s)
           | Some (_, leftover) \<Rightarrow> (Inr (), put_dir p (Some leftover) s)))"

definition make_dir :: "'o os \<Rightarrow> place \<Rightarrow> ('o, unit) store_action" where
  "make_dir fs p s =
     (case os_mkdir fs p of
        Some e \<Rightarrow> (Inl (IoErr e), s)
      | None \<Rightarrow>
          if sr_dirs s p \<noteq> None then (Inl (IoErr (IoError IoOther ''File exists (os error 17)'')), s)
          else (Inr (), put_dir p (Some empty_disk) s))"

definition rename_dir :: "'o os \<Rightarrow> place \<Rightarrow> place \<Rightarrow> ('o, unit) store_action" where
  "rename_dir fs p q s =
     (case os_rename fs p q of
        Some e \<Rightarrow> (Inl (IoErr e), s)
      | None \<Rightarrow>
          (case sr_dirs s p of
             None \<Rightarrow> (Inl (IoErr (IoError IoNotFound ''No such file or directory (os error 2)'')), s)
           | Some d \<Rightarrow>
               let dirs = (sr_dirs s)(p := None, q := Some d) in
               (Inr (), s\<lparr>sr_dirs := dirs, sr_seen := sr_seen s @ [dirs]\<rparr>)))"

text \<open>A closure that works on the directory it is given.\<close>

definition in_dir :: "place \<Rightarrow> ('o, 'a) git_action \<Rightarrow> ('o, 'a) store_action" where
  "in_dir p build s =
     (case sr_dirs s p of
        None \<Rightarrow> (Inl (IoErr (IoError IoNotFound ''No such file or directory (os error 2)'')), s)
      | Some d \<Rightarrow> (case build d of (r, d') \<Rightarrow> (r, put_dir p (Some d') s)))"

text \<open>\<open>if outcome.is_err() { Self::discard(&staging) }\<close>.\<close>

definition discard_on_error ::
  "'o os \<Rightarrow> place \<Rightarrow> ('o, 'a) store_action \<Rightarrow> ('o, 'a) store_action" where
  "discard_on_error fs p m s =
     (case m s of
        (Inr value, s') \<Rightarrow> (Inr value, s')
      | (Inl e, s') \<Rightarrow> (Inl e, snd (discard fs p s')))"

definition make_parent :: "'o os \<Rightarrow> place \<Rightarrow> ('o, unit) store_action" where
  "make_parent fs p s =
     (case os_mkdir_all fs (fst p) of Some e \<Rightarrow> (Inl (IoErr e), s) | None \<Rightarrow> (Inr (), s))"

definition create :: "'o os \<Rightarrow> place \<Rightarrow> ('o, 'a) git_action \<Rightarrow> ('o, 'a) store_action" where
  "create fs repo_path build =
     bind_act (sibling repo_path STAGING_CREATING) (\<lambda>staging.
     bind_act (make_parent fs staging) (\<lambda>_.
     bind_act (discard fs staging) (\<lambda>_.
     bind_act (make_dir fs staging) (\<lambda>_.
     discard_on_error fs staging
       (bind_act (in_dir staging build) (\<lambda>value.
        bind_act (rename_dir fs staging repo_path) (\<lambda>_. act_ok value)))))))"

definition remove_repo :: "'o os \<Rightarrow> place \<Rightarrow> ('o, unit) store_action" where
  "remove_repo fs repo_path =
     bind_act (sibling repo_path STAGING_DELETING) (\<lambda>trash.
     bind_act (discard fs trash) (\<lambda>_.
     bind_act (rename_dir fs repo_path trash) (\<lambda>_.
     discard fs trash)))"

definition delete_repo :: "'o os \<Rightarrow> place \<Rightarrow> string \<Rightarrow> ('o, unit) store_action" where
  "delete_repo fs repo_path tenant s =
     (if sr_dirs s repo_path = None then (Inl (TenantNotFound tenant), s)
      else remove_repo fs repo_path s)"

section \<open>The sweeps at start-up\<close>

fun discard_staging :: "'o os \<Rightarrow> string \<Rightarrow> string list \<Rightarrow> 'o store \<Rightarrow> 'o store" where
  "discard_staging fs collection [] s = s"
| "discard_staging fs collection (name # names) s =
     discard_staging fs collection names
       (if valid_utf8 name \<and> is_staging_name name then snd (discard fs (collection, name) s) else s)"

fun sweep_collections :: "'o os \<Rightarrow> string list \<Rightarrow> 'o store \<Rightarrow> 'o store" where
  "sweep_collections fs [] s = s"
| "sweep_collections fs (c # cs) s =
     sweep_collections fs cs
       (if \<not> os_is_dir fs c then s
        else (case os_read_collection fs c of None \<Rightarrow> s | Some names \<Rightarrow> discard_staging fs c names s))"

definition cleanup_abandoned :: "'o os \<Rightarrow> 'o store \<Rightarrow> 'o store" where
  "cleanup_abandoned fs s =
     (case os_read_root fs of None \<Rightarrow> s | Some collections \<Rightarrow> sweep_collections fs collections s)"

fun unlink_locks :: "'o os \<Rightarrow> string \<Rightarrow> string list \<Rightarrow> 'o store \<Rightarrow> 'o store" where
  "unlink_locks fs collection [] s = s"
| "unlink_locks fs collection (name # names) s =
     unlink_locks fs collection names
       (if sr_locks s (collection, name) \<noteq> None \<and> os_unlink fs (collection, name) = None
        then s\<lparr>sr_locks := (sr_locks s)((collection, name) := None)\<rparr> else s)"

fun unlink_collections :: "'o os \<Rightarrow> string list \<Rightarrow> 'o store \<Rightarrow> 'o store" where
  "unlink_collections fs [] s = s"
| "unlink_collections fs (c # cs) s =
     unlink_collections fs cs
       (if \<not> os_is_dir fs c then s
        else (case os_read_collection fs c of None \<Rightarrow> s | Some names \<Rightarrow> unlink_locks fs c names s))"

definition cleanup_all_stale_locks :: "'o os \<Rightarrow> 'o store \<Rightarrow> 'o store" where
  "cleanup_all_stale_locks fs s =
     (case os_read_root fs of None \<Rightarrow> s | Some collections \<Rightarrow> unlink_collections fs collections s)"

text \<open>
  The lock of one repository: the metadata call's answer (its modification time or an error),
  the clock, and the removal's fault. The answer is whether the lock is gone by this call.
\<close>

definition STALE_LOCK_THRESHOLD_SECS :: int where "STALE_LOCK_THRESHOLD_SECS = 30"

definition lock_age_secs :: "int \<Rightarrow> int \<Rightarrow> int" where
  "lock_age_secs now modified = (if modified \<le> now then (now - modified) div 10 ^ 9 else 0)"

definition cleanup_stale_index_lock ::
  "io_error + (io_error + int) \<Rightarrow> int \<Rightarrow> io_error option \<Rightarrow> bool app_result" where
  "cleanup_stale_index_lock metadata now fault =
     (case metadata of
        Inl (IoError kind m) \<Rightarrow>
          if kind = IoNotFound then Inr False else Inl (IoErr (IoError kind m))
      | Inr (Inl e) \<Rightarrow> Inl (IoErr e)
      | Inr (Inr modified) \<Rightarrow>
          if lock_age_secs now modified > STALE_LOCK_THRESHOLD_SECS then
            (case fault of
               None \<Rightarrow> Inr True
             | Some (IoError kind m) \<Rightarrow>
                 if kind = IoNotFound then Inr False else Inl (IoErr (IoError kind m)))
          else Inr False)"

end
