(* ===== verification/Staging_Facts.thy ===== *)
theory Staging_Facts
  imports Staging
begin

text \<open>
  What a reader that takes no lock can find in the store: the names of staging directories are
  no identifiers, a tenant's creation and deletion are each one step to a reader, and the
  start-up sweep removes the staging directories and nothing else. The locale \<open>tenant_swap\<close> is
  what creation and deletion share: they show every other tenant unchanged throughout.
\<close>

section \<open>Staging names\<close>

lemma id_char_props [simp]:
  "id_char c \<Longrightarrow> c \<noteq> CHR ''.''" "id_char c \<Longrightarrow> c \<noteq> CHR ''/''" "id_char c \<Longrightarrow> byte c < 128"
  by (auto simp: alphabets byte_def less_eq_char_def)

lemma tenant_id_chars: "tenant_id t = Inr v \<Longrightarrow> list_all id_char t"
  by (simp add: tenant.accepts_iff)

lemma not_digit [simp]: "\<not> digit CHR ''.''" "\<not> digit CHR ''-''"
  by (simp_all add: digit_def)

lemma purpose_chars:
  "purpose = STAGING_CREATING \<or> purpose = STAGING_DELETING \<Longrightarrow>
     CHR ''.'' \<notin> set purpose \<and> CHR ''-'' \<notin> set purpose"
  by (auto simp: staging_purposes)

lemma tenant_id_utf8: "tenant_id t = Inr v \<Longrightarrow> valid_utf8 t"
  using tenant_id_chars [of t v] by (intro valid_utf8_ascii) (auto simp: list_all_iff)

text \<open>A staging name is recognised, and tells the tenant, the purpose and the number apart.\<close>

lemma staging_name_split:
  assumes "purpose = STAGING_CREATING \<or> purpose = STAGING_DELETING"
  shows "rsplit_once CHR ''.'' (tl (staging_name t purpose n)) = Some (t, purpose @ ''-'' @ show_nat (unat n))"
    and "split_once CHR ''-'' (purpose @ ''-'' @ show_nat (unat n)) = Some (purpose, show_nat (unat n))"
proof -
  have "CHR ''.'' \<notin> set (purpose @ ''-'' @ show_nat (unat n))"
    using purpose_chars [OF assms] show_nat_digits [of "unat n"] by (auto simp: list_all_iff)
  then show "rsplit_once CHR ''.'' (tl (staging_name t purpose n)) = Some (t, purpose @ ''-'' @ show_nat (unat n))"
    using rsplit_once_append [of "CHR ''.''" _ t] by (simp add: staging_name_def)
  show "split_once CHR ''-'' (purpose @ ''-'' @ show_nat (unat n)) = Some (purpose, show_nat (unat n))"
    using purpose_chars [OF assms] split_once_append [of "CHR ''-''" purpose] by simp
qed

lemma staging_name_recognised:
  assumes "tenant_id t = Inr v" and "purpose = STAGING_CREATING \<or> purpose = STAGING_DELETING"
  shows "is_staging_name (staging_name t purpose n)"
proof -
  define rest where "rest = tl (staging_name t purpose n)"
  have "staging_name t purpose n = CHR ''.'' # rest" by (simp add: staging_name_def rest_def)
  then show ?thesis
    using assms staging_name_split(1) [OF assms(2), of t n, folded rest_def]
      staging_name_split(2) [OF assms(2), of n] show_nat_digits
    by (auto simp: is_staging_name_def)
qed

lemma staging_name_inject:
  assumes "purpose = STAGING_CREATING \<or> purpose = STAGING_DELETING"
    and "purpose' = STAGING_CREATING \<or> purpose' = STAGING_DELETING"
    and "staging_name t purpose n = staging_name t' purpose' n'"
  shows "t = t' \<and> purpose = purpose' \<and> n = n'"
proof -
  have 1: "t = t' \<and> purpose @ ''-'' @ show_nat (unat n) = purpose' @ ''-'' @ show_nat (unat n')"
    using staging_name_split(1) [OF assms(1), of t n] staging_name_split(1) [OF assms(2), of t' n'] assms(3)
    by simp
  then have "(purpose, show_nat (unat n)) = (purpose', show_nat (unat n'))"
    using staging_name_split(2) [OF assms(1), of n] staging_name_split(2) [OF assms(2), of n'] by simp
  with 1 show ?thesis by (simp add: word_unat_eq_iff)
qed

text \<open>A place the API can name: nothing that starts with a dot.\<close>

definition visible :: "place \<Rightarrow> bool" where
  "visible q \<longleftrightarrow> \<not> starts_with (snd q) ''.''"

lemma visible_tenant: "tenant_id t = Inr v \<Longrightarrow> visible (c, t)"
  using tenant_id_chars [of t v] by (cases t) (auto simp: visible_def)

lemma staging_hidden: "is_staging_name n \<Longrightarrow> \<not> visible (c, n)"
  by (cases n) (auto simp: is_staging_name_def visible_def split: if_splits)

lemma sibling_hidden: "\<not> visible (c, staging_name t purpose n)"
  by (simp add: staging_name_def visible_def)

lemma staging_no_identifier: "is_staging_name n \<Longrightarrow> tenant_id n = Inl (InvalidTenant n) \<and> collection_id n = Inl (InvalidTenant n)"
  by (cases n) (auto simp: is_staging_name_def tenant_id_def collection_id_def alphabets Let_def split: if_splits)

section \<open>What readers see\<close>

definition snapshots :: "'o store \<Rightarrow> 'o store \<Rightarrow> 'o directories set" where
  "snapshots s s' = insert (sr_dirs s') (set (drop (length (sr_seen s)) (sr_seen s')))"

definition observes :: "('o directories \<Rightarrow> bool) \<Rightarrow> 'o store \<Rightarrow> 'o store \<Rightarrow> bool" where
  "observes V s s' \<longleftrightarrow>
     (\<exists>new. sr_seen s' = sr_seen s @ new \<and>
        (V (sr_dirs s) \<longrightarrow> V (sr_dirs s') \<and> (\<forall>d \<in> set new. V d)))"

lemma observes_snapshots: "observes V s s' \<Longrightarrow> V (sr_dirs s) \<Longrightarrow> d \<in> snapshots s s' \<Longrightarrow> V d"
  by (auto simp: observes_def snapshots_def)

lemma observes_dirs: "observes V s s' \<Longrightarrow> V (sr_dirs s) \<Longrightarrow> V (sr_dirs s')"
  by (auto simp: observes_def)

lemma observes_refl: "reflp (observes V)"
  by (simp add: reflp_def observes_def)

lemma observes_trans: "transp (observes V)"
  by (auto simp: transp_def observes_def)

lemma observes_put: "(V (sr_dirs s) \<Longrightarrow> V ((sr_dirs s)(p := x))) \<Longrightarrow> observes V s (put_dir p x s)"
  by (simp add: observes_def)

text \<open>Every call that stays off the places a view depends on keeps the view.\<close>

definition blind :: "('o directories \<Rightarrow> bool) \<Rightarrow> place \<Rightarrow> bool" where
  "blind V p \<longleftrightarrow> (\<forall>d x. V d \<longrightarrow> V (d(p := x)))"

lemma keeps_discard: "blind V p \<Longrightarrow> keeps (observes V) (discard fs p)"
  by (auto simp: keeps_def discard_def blind_def intro!: observes_put
      intro: reflpD [OF observes_refl] split: option.split prod.split)

lemma keeps_make_dir: "blind V p \<Longrightarrow> keeps (observes V) (make_dir fs p)"
  by (auto simp: keeps_def make_dir_def blind_def intro!: observes_put
      intro: reflpD [OF observes_refl] split: option.split)

lemma keeps_in_dir: "blind V p \<Longrightarrow> keeps (observes V) (in_dir p build)"
  by (auto simp: keeps_def in_dir_def blind_def intro!: observes_put
      intro: reflpD [OF observes_refl] split: option.split prod.split)

lemma keeps_rename_dir: "blind V p \<Longrightarrow> blind V q \<Longrightarrow> keeps (observes V) (rename_dir fs p q)"
  by (auto simp: keeps_def rename_dir_def blind_def observes_def Let_def split: option.split)

lemma keeps_sibling: "keeps (observes V) (sibling p purpose)"
  by (auto simp: keeps_def sibling_def observes_def split: prod.split)

lemma keeps_make_parent: "keeps (observes V) (make_parent fs p)"
  by (auto simp: keeps_def make_parent_def intro: reflpD [OF observes_refl] split: option.split)

lemma keeps_discard_on_error:
  assumes "blind V p" and "keeps (observes V) m"
  shows "keeps (observes V) (discard_on_error fs p m)"
proof (rule keepsI)
  fix s r s' assume run: "discard_on_error fs p m s = (r, s')"
  obtain q t where m: "m s = (q, t)" by fastforce
  show "observes V s s'"
  proof (cases q)
    case (Inl e)
    with run m have "s' = snd (discard fs p t)" by (auto simp: discard_on_error_def)
    then have "observes V t s'" using keeps_discard [OF assms(1)] by (simp add: keeps_def)
    with keepsD [OF assms(2) m] show ?thesis using transpD [OF observes_trans] by blast
  next
    case (Inr v)
    with run m have "s' = t" by (auto simp: discard_on_error_def)
    with keepsD [OF assms(2) m] show ?thesis by simp
  qed
qed

lemma keeps_bind_result:
  assumes "keeps R m" and "\<And>s a s'. m s = (Inr a, s') \<Longrightarrow> keeps R (k a)" and "transp R"
  shows "keeps R (bind_act m k)"
proof (rule keepsI)
  fix s r s' assume run: "bind_act m k s = (r, s')"
  obtain q t where m: "m s = (q, t)" by fastforce
  note first = keepsD [OF assms(1) m]
  show "R s s'"
  proof (cases q)
    case (Inl e)
    with run m first show ?thesis by (simp add: bind_act_def)
  next
    case (Inr a)
    with run m have "k a t = (r, s')" by (simp add: bind_act_def)
    then have "R t s'" using keepsD [OF assms(2)] m Inr by blast
    with first show ?thesis using transpD [OF assms(3)] by blast
  qed
qed

lemmas keeps_calls = keeps_discard keeps_make_dir keeps_in_dir keeps_rename_dir keeps_sibling
  keeps_make_parent keeps_discard_on_error keeps_pure [OF observes_refl] keeps_bind [OF _ _ observes_trans]

section \<open>Creation and deletion\<close>

text \<open>
  The contract of the two operations: at no moment do they show a reader anything about a place
  the API can name other than their own.
\<close>

definition elsewhere :: "place \<Rightarrow> 'o directories \<Rightarrow> 'o directories \<Rightarrow> bool" where
  "elsewhere p D d \<longleftrightarrow> (\<forall>q. visible q \<longrightarrow> q \<noteq> p \<longrightarrow> d q = D q)"

lemma blind_elsewhere: "\<not> visible q \<or> q = p \<Longrightarrow> blind (elsewhere p D) q"
  by (auto simp: blind_def elsewhere_def)

locale tenant_swap =
  fixes act :: "place \<Rightarrow> ('o, 'a) store_action"
  assumes spares: "keeps (observes (elsewhere p D)) (act p)"
begin

lemma others_undisturbed:
  assumes "act p s = (r, s')" and "d \<in> snapshots s s'" and "visible q" and "q \<noteq> p"
  shows "d q = sr_dirs s q"
proof -
  have "elsewhere p (sr_dirs s) d"
    using observes_snapshots [OF keepsD [OF spares assms(1)] _ assms(2), of "sr_dirs s"]
    by (simp add: elsewhere_def)
  with assms(3,4) show ?thesis by (cases q) (simp add: elsewhere_def)
qed

end

lemma sibling_result: "sibling p purpose s = (Inr q, s') \<Longrightarrow> \<exists>n. q = (fst p, staging_name (snd p) purpose n)"
  by (auto simp: sibling_def split: prod.splits if_splits)

lemma sibling_ne: "sibling p purpose s = (Inr q, s') \<Longrightarrow> visible p \<Longrightarrow> q \<noteq> p"
  using sibling_result [of p purpose s q s'] sibling_hidden by metis

lemma sibling_blind: "sibling p purpose s = (Inr q, s') \<Longrightarrow> blind (elsewhere p D) q"
  using sibling_result [of p purpose s q s'] sibling_hidden by (auto intro: blind_elsewhere)

lemma create_spares: "keeps (observes (elsewhere p D)) (create fs p build)"
  unfolding create_def
  by (intro keeps_bind_result [OF keeps_sibling _ observes_trans] keeps_calls)
    (auto intro: sibling_blind blind_elsewhere)

lemma remove_spares: "keeps (observes (elsewhere p D)) (remove_repo fs p)"
  unfolding remove_repo_def
  by (intro keeps_bind_result [OF keeps_sibling _ observes_trans] keeps_calls)
    (auto intro: sibling_blind blind_elsewhere)

lemma delete_spares: "keeps (observes (elsewhere p D)) (delete_repo fs p name)"
  using remove_spares [of p D fs]
  by (auto simp: keeps_def delete_repo_def intro: reflpD [OF observes_refl])

interpretation creation: tenant_swap "\<lambda>p. create fs p build" for fs build
  by unfold_locales (rule create_spares)

interpretation deletion: tenant_swap "\<lambda>p. delete_repo fs p name" for fs name
  by unfold_locales (rule delete_spares)

text \<open>A tenant's own place: nothing, then the complete repository.\<close>

lemma make_dir_result: "make_dir fs p s = (Inr u, s') \<Longrightarrow> sr_dirs s' p = Some empty_disk"
  by (auto simp: make_dir_def split: option.splits if_splits)

lemma discard_keeps_place:
  "q \<noteq> p \<Longrightarrow> observes (\<lambda>d. d p = x) s (snd (discard fs q s))"
  using keeps_discard [of "\<lambda>d. d p = x" q fs] by (simp add: keeps_def blind_def)

lemma publish_place:
  assumes run: "discard_on_error fs staging
      (bind_act (in_dir staging build) (\<lambda>value. bind_act (rename_dir fs staging p) (\<lambda>_. act_ok value))) t = (r, s')"
    and fresh: "sr_dirs t staging = Some empty_disk" and absent: "sr_dirs t p = None"
    and built: "build empty_disk = (b, x)"
  shows "case r of
      Inl e \<Rightarrow> (b = Inl e \<or> (\<exists>io. e = IoErr io)) \<and> observes (\<lambda>d. d p = None) t s'
    | Inr v \<Rightarrow> b = Inr v \<and> observes (\<lambda>d. d p = None \<or> d p = Some x) t s' \<and> sr_dirs s' p = Some x"
proof -
  have ne: "staging \<noteq> p" using fresh absent by auto
  have in_dir: "in_dir staging build t = (b, put_dir staging (Some x) t)"
    using fresh built by (simp add: in_dir_def)
  have failed: "observes (\<lambda>d. d p = None) t (snd (discard fs staging (put_dir staging (Some x) t)))"
    by (rule transpD [OF observes_trans observes_put discard_keeps_place]) (use ne in auto)
  show ?thesis
  proof (cases b)
    case (Inl e)
    then show ?thesis using run failed in_dir by (auto simp: discard_on_error_def bind_act_def)
  next
    case (Inr v)
    then show ?thesis
      using run failed in_dir ne absent
      by (cases "os_rename fs staging p")
        (auto simp: discard_on_error_def bind_act_def rename_dir_def Let_def observes_def)
  qed
qed

lemma create_place:
  assumes run: "create fs p build s = (r, s')" and absent: "sr_dirs s p = None" and vis: "visible p"
    and built: "build empty_disk = (b, x)"
  shows "case r of
      Inl e \<Rightarrow> (b = Inl e \<or> (\<exists>io. e = IoErr io)) \<and> observes (\<lambda>d. d p = None) s s'
    | Inr v \<Rightarrow> b = Inr v \<and> observes (\<lambda>d. d p = None \<or> d p = Some x) s s' \<and> sr_dirs s' p = Some x"
proof -
  let ?V = "\<lambda>d. d p = None"
  let ?prefix = "\<lambda>q. bind_act (make_parent fs q) (\<lambda>_. bind_act (discard fs q) (\<lambda>_. make_dir fs q))"
  obtain sr s1 where sib: "sibling p STAGING_CREATING s = (sr, s1)" by fastforce
  have s1: "observes ?V s s1" using keepsD [OF keeps_sibling sib] .
  show ?thesis
  proof (cases sr)
    case (Inl e)
    with run sib s1 show ?thesis by (auto simp: create_def sibling_def split: prod.splits if_splits)
  next
    case (Inr q)
    then have q: "q \<noteq> p" using sibling_ne sib vis by blast
    then have blind: "blind ?V q" by (simp add: blind_def)
    let ?tail = "discard_on_error fs q
        (bind_act (in_dir q build) (\<lambda>value. bind_act (rename_dir fs q p) (\<lambda>_. act_ok value)))"
    obtain pr t where pre: "?prefix q s1 = (pr, t)" by fastforce
    have "keeps (observes ?V) (?prefix q)" using blind by (intro keeps_calls)
    from keepsD [OF this pre] s1 have t: "observes ?V s t" using transpD [OF observes_trans] by blast
    then have absent_t: "sr_dirs t p = None" using absent by (rule observes_dirs)
    have rest: "bind_act (?prefix q) (\<lambda>_. ?tail) s1 = (r, s')"
      using run sib Inr by (simp add: create_def bind_act_def split: prod.splits sum.splits)
    show ?thesis
    proof (cases pr)
      case (Inl e)
      with rest pre t show ?thesis
        by (auto simp: bind_act_def discard_def make_parent_def make_dir_def
            split: option.splits prod.splits if_splits sum.splits)
    next
      case (Inr u)
      with rest pre have tail: "?tail t = (r, s')" by (simp add: bind_act_def)
      have "sr_dirs t q = Some empty_disk"
        using pre Inr make_dir_result by (fastforce simp: bind_act_eq_Inr)
      note pub = publish_place [OF tail this absent_t built]
      show ?thesis
      proof (cases r)
        case (Inl e)
        with pub t show ?thesis using transpD [OF observes_trans] by auto
      next
        case (Inr v)
        have "observes (\<lambda>d. d p = None \<or> d p = Some x) s t" using t absent by (auto simp: observes_def)
        with pub Inr show ?thesis using transpD [OF observes_trans] by auto
      qed
    qed
  qed
qed

lemma remove_place:
  assumes run: "remove_repo fs p s = (r, s')" and vis: "visible p" and there: "sr_dirs s p = Some x"
  shows "case r of
      Inl e \<Rightarrow> observes (\<lambda>d. d p = Some x) s s'
    | Inr u \<Rightarrow> observes (\<lambda>d. d p = Some x \<or> d p = None) s s' \<and> sr_dirs s' p = None"
proof -
  let ?V = "\<lambda>d. d p = Some x"
  obtain sr s1 where sib: "sibling p STAGING_DELETING s = (sr, s1)" by fastforce
  have s1: "observes ?V s s1" using keepsD [OF keeps_sibling sib] .
  show ?thesis
  proof (cases sr)
    case (Inl e)
    with run sib s1 show ?thesis by (auto simp: remove_repo_def)
  next
    case (Inr q)
    then have ne: "q \<noteq> p" using sibling_ne sib vis by blast
    have disc: "discard fs q u = (Inr (), snd (discard fs q u))" for u
      by (simp add: discard_def split: option.split prod.split)
    then obtain t where first: "discard fs q s1 = (Inr (), t)" by blast
    have "observes ?V s1 t" using discard_keeps_place [OF ne, of "Some x" s1 fs] first by simp
    from transpD [OF observes_trans s1 this] have t: "observes ?V s t" .
    then have there_t: "sr_dirs t p = Some x" using there by (rule observes_dirs)
    have rest: "bind_act (rename_dir fs p q) (\<lambda>_. discard fs q) t = (r, s')"
      using run sib Inr first by (simp add: remove_repo_def bind_act_def)
    show ?thesis
    proof (cases "os_rename fs p q")
      case (Some e)
      with rest t show ?thesis by (auto simp: rename_dir_def bind_act_def)
    next
      case None
      define moved where "moved = (sr_dirs t)(p := None, q := Some x)"
      define u where "u = t\<lparr>sr_dirs := moved, sr_seen := sr_seen t @ [moved]\<rparr>"
      have ren: "rename_dir fs p q t = (Inr (), u)"
        using None there_t by (simp add: rename_dir_def u_def moved_def Let_def)
      with rest disc [of u] have fin: "r = Inr ()" "s' = snd (discard fs q u)" by (auto simp: bind_act_def)
      have "sr_dirs u p = None" using ne by (simp add: u_def moved_def)
      moreover have "observes (\<lambda>d. d p = None) u s'" using discard_keeps_place [OF ne] fin by simp
      ultimately have "sr_dirs s' p = None" "\<exists>new. sr_seen s' = sr_seen u @ new \<and> (\<forall>d \<in> set new. d p = None)"
        by (auto simp: observes_def)
      with t there fin ne show ?thesis by (fastforce simp: observes_def u_def moved_def)
    qed
  qed
qed

text \<open>What \<open>staging_create\<close> states of one tenant's directory is what \<open>create\<close> does to the store.\<close>

definition absent_disk :: "'o disk" where
  "absent_disk = \<lparr>dk_exists = False, dk_git = None, dk_work = (\<lambda>_. None)\<rparr>"

lemma create_refines_staging_create:
  assumes run: "create fs p build s = (r, s')" and absent: "sr_dirs s p = None" and vis: "visible p"
  shows "\<exists>stage rename. staging_create (L\<lparr>os_stage_fault := stage, os_rename_fault := rename\<rparr>) build absent_disk
    = (r, case sr_dirs s' p of None \<Rightarrow> absent_disk | Some d \<Rightarrow> d)"
proof -
  obtain b x where built: "build empty_disk = (b, x)" by fastforce
  from create_place [OF run absent vis built] absent show ?thesis
  proof (cases r)
    case (Inl e)
    with create_place [OF run absent vis built] absent
    consider "b = Inl e" "sr_dirs s' p = None" | io where "e = IoErr io" "sr_dirs s' p = None"
      by (auto simp: observes_def)
    then show ?thesis
    proof cases
      case 1
      with Inl built show ?thesis by (intro exI [of _ None]) (simp add: staging_create_def)
    next
      case 2
      with Inl show ?thesis by (intro exI [of _ "Some io"] exI [of _ None]) (simp add: staging_create_def)
    qed
  next
    case (Inr v)
    with create_place [OF run absent vis built] built show ?thesis
      by (intro exI [of _ None]) (simp add: staging_create_def)
  qed
qed

section \<open>A sample store\<close>

definition quiet_os :: "nat os" where
  "quiet_os = \<lparr>os_mkdir_all = (\<lambda>_. None), os_mkdir = (\<lambda>_. None), os_rename = (\<lambda>_ _. None),
     os_remove_all = (\<lambda>_. None), os_read_root = Some [''acme''], os_is_dir = (\<lambda>_. True),
     os_read_collection = (\<lambda>_. Some [''t1'']), os_unlink = (\<lambda>_. None), os_stat = (\<lambda>_. True)\<rparr>"

definition store_of :: "nat directories \<Rightarrow> nat store" where
  "store_of dirs = \<lparr>sr_dirs = dirs, sr_locks = (\<lambda>_. None), sr_sequence = 0, sr_seen = []\<rparr>"

definition write_note :: "(nat, unit) git_action" where
  "write_note d = (Inr (), d\<lparr>dk_work := (dk_work d)([''a.md''] \<mapsto> FsFile ''hi'')\<rparr>)"

lemma sample_place: "visible (''acme'', ''t1'')"
  by (simp add: visible_def)

lemma write_note_created: "fst (create quiet_os (''acme'', ''t1'') write_note (store_of Map.empty)) = Inr ()"
  by (simp add: create_def bind_act_def sibling_def valid_utf8_ascii byte_def make_parent_def discard_def
      make_dir_def discard_on_error_def in_dir_def rename_dir_def write_note_def quiet_os_def store_of_def
      staging_name_def show_nat.simps Let_def)

lemma note_deleted:
  "fst (delete_repo quiet_os (''acme'', ''t1'') ''t1''
     (store_of [(''acme'', ''t1'') \<mapsto> snd (write_note empty_disk)])) = Inr ()"
  by (simp add: delete_repo_def remove_repo_def bind_act_def sibling_def valid_utf8_ascii byte_def discard_def
      rename_dir_def quiet_os_def store_of_def staging_name_def show_nat.simps Let_def)

section \<open>Whole repositories\<close>

text \<open>
  C21: a new repository appears whole: whatever fails on the way, a reader finds at its place
  nothing or the complete repository the build left, the latter exactly when the creation
  succeeds, and every other tenant as it was.
\<close>

theorem repository_appears_whole:
  assumes run: "create fs p build s = (r, s')" and absent: "sr_dirs s p = None" and vis: "visible p"
  shows "(\<forall>d \<in> snapshots s s'.
      (d p = None \<or> (\<exists>v. r = Inr v \<and> fst (build empty_disk) = Inr v \<and> d p = Some (snd (build empty_disk)))) \<and>
      (\<forall>q. visible q \<longrightarrow> q \<noteq> p \<longrightarrow> d q = sr_dirs s q)) \<and>
    sr_dirs s' p = (case r of Inl _ \<Rightarrow> None | Inr _ \<Rightarrow> Some (snd (build empty_disk)))"
proof -
  obtain b x where built: "build empty_disk = (b, x)" by fastforce
  note place = create_place [OF run absent vis built]
  have own: "d p = None \<or> (\<exists>v. r = Inr v \<and> b = Inr v \<and> d p = Some x)" if "d \<in> snapshots s s'" for d
  proof (cases r)
    case (Inl e)
    then show ?thesis using place observes_snapshots [OF _ _ that, of "\<lambda>d. d p = None"] absent by auto
  next
    case (Inr v)
    then show ?thesis
      using place observes_snapshots [OF _ _ that, of "\<lambda>d. d p = None \<or> d p = Some x"] absent by auto
  qed
  moreover have "sr_dirs s' p = None" if "r = Inl e" for e
    using place that absent by (auto simp: observes_def)
  moreover note creation.others_undisturbed [OF run]
  ultimately show ?thesis using place built by (auto split: sum.splits)
qed

theorem repository_appears_whole_witness:
  "sr_dirs (snd (create quiet_os (''acme'', ''t1'') write_note (store_of Map.empty))) (''acme'', ''t1'')
     = Some (snd (write_note empty_disk))"
proof -
  have "sr_dirs (store_of Map.empty) (''acme'', ''t1'') = None" by (simp add: store_of_def)
  from repository_appears_whole [OF prod.collapse [symmetric] this sample_place, of quiet_os write_note]
  show ?thesis by (simp add: write_note_created)
qed

text \<open>
  C22: a deleted tenant vanishes whole: a reader finds it complete or not at all, gone for good
  exactly when the deletion answers success, and every other tenant as it was.
\<close>

theorem repository_vanishes_whole:
  assumes run: "delete_repo fs p name s = (r, s')" and vis: "visible p"
  shows "(\<forall>d \<in> snapshots s s'.
      (d p = sr_dirs s p \<or> r = Inr () \<and> d p = None) \<and>
      (\<forall>q. visible q \<longrightarrow> q \<noteq> p \<longrightarrow> d q = sr_dirs s q)) \<and>
    (case r of Inl e \<Rightarrow> sr_dirs s' p = sr_dirs s p | Inr _ \<Rightarrow> sr_dirs s' p = None \<and> sr_dirs s p \<noteq> None)"
proof (cases "sr_dirs s p")
  case None
  with run have "r = Inl (TenantNotFound name)" "s' = s" by (simp_all add: delete_repo_def)
  then show ?thesis by (simp add: snapshots_def)
next
  case (Some x)
  with run have "remove_repo fs p s = (r, s')" by (simp add: delete_repo_def)
  note place = remove_place [OF this vis Some]
  have own: "d p = Some x \<or> r = Inr () \<and> d p = None" if "d \<in> snapshots s s'" for d
  proof (cases r)
    case (Inl e)
    then show ?thesis using place observes_snapshots [OF _ _ that, of "\<lambda>d. d p = Some x"] Some by auto
  next
    case (Inr v)
    then show ?thesis
      using place observes_snapshots [OF _ _ that, of "\<lambda>d. d p = Some x \<or> d p = None"] Some by auto
  qed
  moreover have "sr_dirs s' p = Some x" if "r = Inl e" for e
    using place that Some by (auto simp: observes_def)
  moreover note deletion.others_undisturbed [OF run]
  ultimately show ?thesis using place Some by (auto split: sum.splits)
qed

theorem repository_vanishes_whole_witness:
  "sr_dirs (snd (delete_repo quiet_os (''acme'', ''t1'') ''t1''
     (store_of [(''acme'', ''t1'') \<mapsto> snd (write_note empty_disk)]))) (''acme'', ''t1'') = None"
  using repository_vanishes_whole [of quiet_os _ "''t1''"
      "store_of [(''acme'', ''t1'') \<mapsto> snd (write_note empty_disk)]",
      OF prod.collapse [symmetric] sample_place]
  by (simp add: note_deleted)

section \<open>The sweep\<close>

definition shown_as :: "'o directories \<Rightarrow> 'o directories \<Rightarrow> bool" where
  "shown_as D d \<longleftrightarrow> (\<forall>q. visible q \<longrightarrow> d q = D q)"

lemma discard_staging_spares: "observes (shown_as D) s (discard_staging fs c names s)"
proof (induction names arbitrary: s)
  case Nil
  then show ?case by (simp add: observes_def)
next
  case (Cons n names)
  let ?s = "if valid_utf8 n \<and> is_staging_name n then snd (discard fs (c, n) s) else s"
  have "blind (shown_as D) (c, n)" if "is_staging_name n"
    using staging_hidden [OF that, of c] by (auto simp: blind_def shown_as_def)
  then have "observes (shown_as D) s ?s"
    using keeps_discard [of "shown_as D" "(c, n)" fs] by (auto simp: keeps_def intro: reflpD [OF observes_refl])
  from transpD [OF observes_trans this Cons.IH [of ?s]] show ?case by (subst discard_staging.simps)
qed

lemma sweep_spares_tenants: "observes (shown_as D) s (cleanup_abandoned fs s)"
proof -
  have "observes (shown_as D) s (sweep_collections fs cs s)" for cs
  proof (induction cs arbitrary: s)
    case (Cons c cs)
    let ?s = "if \<not> os_is_dir fs c then s
        else (case os_read_collection fs c of None \<Rightarrow> s | Some names \<Rightarrow> discard_staging fs c names s)"
    have "observes (shown_as D) s ?s"
      by (auto intro: reflpD [OF observes_refl] discard_staging_spares split: option.split)
    from transpD [OF observes_trans this Cons.IH [of ?s]] show ?case by (subst sweep_collections.simps)
  qed (simp add: observes_def)
  then show ?thesis
    by (auto simp: cleanup_abandoned_def intro: reflpD [OF observes_refl] split: option.split)
qed

end
