(* ===== verification/Maintenance.thy ===== *)
theory Maintenance
  imports Staging
begin

text \<open>
  \<open>GitMaintenance\<close> of \<open>src/git.rs\<close>: one housekeeping pass over a repository's \<open>.git\<close> directory.
  Here a repository is files: loose objects, packs with their indexes, reflogs, the index and its
  lock; \<open>repo_of\<close> is the repository the other theories work on. Object ids address content, so
  which object an id names is one function, and the files say which ids are held. libgit2 (opening,
  the object iterator, the pack builder, the revision walk) and faults of the operating system are
  fields of \<open>odb_libs\<close>.
\<close>

section \<open>The .git directory\<close>

datatype 'o object =
    CommitObject "'o commit"
  | TreeObject "'o tree_entry list"
  | BlobObject bytes
  | TagObject 'o

datatype 'o object_file = LooseFile 'o | PackFile "'o list" | OtherFile | Folder

type_synonym 'o object_files = "(string list \<times> 'o object_file) list"

record 'o git_dir =
  gd_exists :: bool
  gd_files :: "'o object_files" \<comment> \<open>below \<open>.git/objects\<close>\<close>
  gd_head :: "git_error + 'o"
  gd_head_name :: "string option"
  gd_refs :: "(string option \<times> 'o option) list" \<comment> \<open>name if UTF-8, target if direct\<close>
  gd_reflogs :: "string list"
  gd_index :: "'o option"
  gd_lock :: "int option" \<comment> \<open>when \<open>index.lock\<close> was last modified\<close>

type_synonym ('o, 'a) dir_action = "('o git_dir, app_error, 'a) action"

record 'o odb_libs =
  m_object :: "'o \<Rightarrow> 'o object"
  m_oid :: "string \<Rightarrow> 'o option" \<comment> \<open>\<open>Oid::from_str\<close>\<close>
  m_open :: "'o git_dir \<Rightarrow> git_error option"
  m_builder :: "'o git_dir \<Rightarrow> git_error option" \<comment> \<open>\<open>odb\<close> and \<open>packbuilder\<close>\<close>
  m_foreach :: "'o git_dir \<Rightarrow> git_error + 'o list"
  m_insert :: "'o git_dir \<Rightarrow> 'o \<Rightarrow> bool"
  m_revwalk :: "'o git_dir \<Rightarrow> git_error option" \<comment> \<open>\<open>revwalk\<close>, \<open>push_head\<close> and \<open>references\<close>\<close>
  m_push_ref :: "'o git_dir \<Rightarrow> string \<Rightarrow> 'o option" \<comment> \<open>the commit the reference peels to\<close>
  m_insert_walk :: "'o git_dir \<Rightarrow> 'o list \<Rightarrow> git_error + 'o list"
  m_pack_name :: "'o list \<Rightarrow> string"
  m_write :: "'o git_dir \<Rightarrow> git_error option" \<comment> \<open>\<open>packwriter\<close>, its writes and its commit\<close>
  m_index :: "'o git_dir \<Rightarrow> git_error option"
  m_reflog_kept :: "string \<Rightarrow> bool"
  m_unreadable :: "string list \<Rightarrow> bool"
  m_unlink_fails :: "string list \<Rightarrow> bool"
  m_lock_fault :: "io_error option"
  m_now :: int

definition loose_ids :: "'o object_files \<Rightarrow> 'o list" where
  "loose_ids files = List.concat (map (\<lambda>(p, e). case e of LooseFile oid \<Rightarrow> [oid] | _ \<Rightarrow> []) files)"

definition pack_path :: "string \<Rightarrow> string \<Rightarrow> string list" where
  "pack_path stem ext = [''pack'', with_extension stem ext]"

text \<open>A pack can be read when its index stands beside it.\<close>

definition packed_ids :: "'o object_files \<Rightarrow> 'o list" where
  "packed_ids files = List.concat (map (\<lambda>(p, e). case e of
       PackFile oids \<Rightarrow>
         if p = pack_path (file_stem (last p)) ''pack''
           \<and> pack_path (file_stem (last p)) ''idx'' \<in> fst ` set files
         then oids else []
     | _ \<Rightarrow> []) files)"

definition held :: "'o git_dir \<Rightarrow> 'o set" where
  "held gd = set (loose_ids (gd_files gd)) \<union> set (packed_ids (gd_files gd))"

definition repo_of :: "'o odb_libs \<Rightarrow> 'o git_dir \<Rightarrow> 'o repo" where
  "repo_of L gd =
     \<lparr>r_head = gd_head gd,
      r_commits = (\<lambda>oid. if oid \<in> held gd
        then (case m_object L oid of CommitObject c \<Rightarrow> Some c | _ \<Rightarrow> None) else None),
      r_trees = (\<lambda>oid. if oid \<in> held gd
        then (case m_object L oid of TreeObject es \<Rightarrow> Some es | _ \<Rightarrow> None) else None),
      r_blobs = (\<lambda>oid. if oid \<in> held gd
        then (case m_object L oid of BlobObject b \<Rightarrow> Some b | _ \<Rightarrow> None) else None)\<rparr>"

section \<open>Files\<close>

definition read_dir :: "'o odb_libs \<Rightarrow> 'o object_files \<Rightarrow> string list \<Rightarrow> string list option" where
  "read_dir L files dir =
     (if m_unreadable L dir \<or> (dir \<noteq> [] \<and> (dir, Folder) \<notin> set files) then None
      else Some (map last (filter (\<lambda>p. p \<noteq> [] \<and> butlast p = dir) (map fst files))))"

definition remove_path :: "'o odb_libs \<Rightarrow> 'o object_files \<Rightarrow> string list \<Rightarrow> 'o object_files" where
  "remove_path L files path =
     (if m_unlink_fails L path then files
      else filter (\<lambda>(p, e). p \<noteq> path \<or> e = Folder) files)"

definition remove_folder :: "'o odb_libs \<Rightarrow> 'o object_files \<Rightarrow> string list \<Rightarrow> 'o object_files" where
  "remove_folder L files path =
     (if m_unlink_fails L path \<or> (\<exists>p \<in> fst ` set files. p \<noteq> [] \<and> butlast p = path) then files
      else filter (\<lambda>(p, e). p \<noteq> path \<or> e \<noteq> Folder) files)"

definition write_entry :: "string list \<Rightarrow> 'o object_file \<Rightarrow> 'o object_files \<Rightarrow> 'o object_files" where
  "write_entry path e files = filter (\<lambda>(p, _). p \<noteq> path) files @ [(path, e)]"

definition enumerate_pack_stems :: "'o odb_libs \<Rightarrow> 'o git_dir \<Rightarrow> string list" where
  "enumerate_pack_stems L gd =
     (case read_dir L (gd_files gd) [''pack''] of
        None \<Rightarrow> []
      | Some names \<Rightarrow>
          remdups (map file_stem (filter (\<lambda>n. path_extension n = Some ''pack'') names)))"

definition pack_count :: "'o odb_libs \<Rightarrow> 'o git_dir \<Rightarrow> nat" where
  "pack_count L gd = length (enumerate_pack_stems L gd)"

definition fanout_objects :: "'o odb_libs \<Rightarrow> string \<Rightarrow> string list \<Rightarrow> ('o \<times> string list) list" where
  "fanout_objects L fan names =
     List.concat (map (\<lambda>rest.
       if \<not> valid_utf8 rest then []
       else (case m_oid L (fan @ rest) of None \<Rightarrow> [] | Some oid \<Rightarrow> [(oid, [fan, rest])])) names)"

definition enumerate_loose_objects :: "'o odb_libs \<Rightarrow> 'o git_dir \<Rightarrow> ('o \<times> string list) list" where
  "enumerate_loose_objects L gd =
     (case read_dir L (gd_files gd) [] of
        None \<Rightarrow> []
      | Some fans \<Rightarrow>
          List.concat (map (\<lambda>fan.
            if \<not> valid_utf8 fan \<or> length fan \<noteq> 2 \<or> \<not> list_all hex_digit fan then []
            else (case read_dir L (gd_files gd) [fan] of
                None \<Rightarrow> []
              | Some names \<Rightarrow> fanout_objects L fan names)) fans))"

section \<open>The repack\<close>

record maintenance_report =
  packed_objects :: nat
  loose_objects_removed :: nat
  old_packs_removed :: nat

definition default_report :: maintenance_report where
  "default_report = \<lparr>packed_objects = 0, loose_objects_removed = 0, old_packs_removed = 0\<rparr>"

definition callback_refused :: git_error where
  "callback_refused = GitError GitOther ''git_odb_foreach callback returned -7''"

definition insert_all :: "'o odb_libs \<Rightarrow> 'o git_dir \<Rightarrow> 'o list app_result" where
  "insert_all L gd =
     (case m_foreach L gd of
        Inl e \<Rightarrow> Inl (GitErr e)
      | Inr oids \<Rightarrow>
          if list_all (m_insert L gd) oids then Inr (remdups oids) else Inl (GitErr callback_refused))"

definition reference_roots :: "'o odb_libs \<Rightarrow> 'o git_dir \<Rightarrow> 'o list" where
  "reference_roots L gd =
     List.concat (map (\<lambda>(name, target).
       case name of None \<Rightarrow> [] | Some n \<Rightarrow>
         (case m_push_ref L gd n of None \<Rightarrow> [] | Some c \<Rightarrow> [c])) (gd_refs gd))"

definition tag_objects :: "'o odb_libs \<Rightarrow> 'o git_dir \<Rightarrow> 'o list" where
  "tag_objects L gd =
     List.concat (map (\<lambda>(name, target).
       case target of None \<Rightarrow> [] | Some oid \<Rightarrow>
         if oid \<notin> held gd then []
         else (case m_object L oid of TagObject _ \<Rightarrow> if m_insert L gd oid then [oid] else [] | _ \<Rightarrow> []))
       (gd_refs gd))"

definition insert_reachable_objects :: "'o odb_libs \<Rightarrow> 'o git_dir \<Rightarrow> 'o list app_result" where
  "insert_reachable_objects L gd =
     (case m_revwalk L gd of
        Some e \<Rightarrow> Inl (GitErr e)
      | None \<Rightarrow>
          (case gd_head gd of
             Inl e \<Rightarrow> Inl (GitErr e)
           | Inr head \<Rightarrow>
               (case m_insert_walk L gd (head # reference_roots L gd) of
                  Inl e \<Rightarrow> Inl (GitErr e)
                | Inr oids \<Rightarrow> Inr (remdups (tag_objects L gd @ oids)))))"

definition write_pack :: "'o odb_libs \<Rightarrow> 'o list \<Rightarrow> ('o, unit) dir_action" where
  "write_pack L oids gd =
     (case m_write L gd of
        Some e \<Rightarrow> (Inl (GitErr e), gd)
      | None \<Rightarrow>
          (let stem = m_pack_name L oids in
           (Inr (), gd\<lparr>gd_files :=
              write_entry (pack_path stem ''idx'') OtherFile
                (write_entry (pack_path stem ''pack'') (PackFile oids)
                  (write_entry [''pack''] Folder (gd_files gd)))\<rparr>)))"

definition pack_extensions :: "string list" where
  "pack_extensions = [''pack'', ''idx'', ''rev'', ''mtimes'', ''keep'', ''bitmap'']"

definition stem_files :: "string \<Rightarrow> string list list" where
  "stem_files stem = map (pack_path stem) pack_extensions"

definition new_pack_appeared :: "string list \<Rightarrow> string list \<Rightarrow> bool" where
  "new_pack_appeared packs_after packs_before \<longleftrightarrow> list_ex (\<lambda>stem. stem \<notin> set packs_before) packs_after"

definition fanout_dirs :: "('o \<times> string list) list \<Rightarrow> string list list" where
  "fanout_dirs loose = remdups (map (\<lambda>(_, path). butlast path) loose)"

definition drop_loose :: "'o odb_libs \<Rightarrow> ('o \<times> string list) list \<Rightarrow> 'o object_files \<Rightarrow> 'o object_files" where
  "drop_loose L loose files =
     foldl (remove_folder L) (foldl (remove_path L) files (map snd loose)) (fanout_dirs loose)"

definition drop_packs :: "'o odb_libs \<Rightarrow> string list \<Rightarrow> 'o object_files \<Rightarrow> 'o object_files" where
  "drop_packs L stems files = foldl (remove_path L) files (List.concat (map stem_files stems))"

definition repack ::
  "'o odb_libs \<Rightarrow> bool \<Rightarrow> ('o \<times> string list) list \<Rightarrow> string list \<Rightarrow> ('o, maintenance_report) dir_action"
where
  "repack L destructive_prune loose packs_before gd =
     (case m_builder L gd of
        Some e \<Rightarrow> (Inl (GitErr e), gd)
      | None \<Rightarrow>
          (case (if destructive_prune then insert_reachable_objects L gd else insert_all L gd) of
             Inl e \<Rightarrow> (Inl e, gd)
           | Inr oids \<Rightarrow>
               bind_act (write_pack L oids) (\<lambda>_ gd1.
                 let gd2 = gd1\<lparr>gd_files := drop_loose L loose (gd_files gd1)\<rparr>;
                     report = \<lparr>packed_objects = length oids, loose_objects_removed = length loose,
                               old_packs_removed = 0\<rparr>
                 in if new_pack_appeared (enumerate_pack_stems L gd2) packs_before then
                      (Inr (report\<lparr>old_packs_removed := length packs_before\<rparr>),
                       gd2\<lparr>gd_files := drop_packs L packs_before (gd_files gd2)\<rparr>)
                    else (Inr report, gd2)) gd))"

section \<open>The pass\<close>

definition expire_reflogs :: "'o odb_libs \<Rightarrow> 'o git_dir \<Rightarrow> 'o git_dir" where
  "expire_reflogs L gd =
     (let branch = (case gd_head gd of Inl _ \<Rightarrow> None | Inr _ \<Rightarrow> gd_head_name gd);
          expired = ''HEAD'' # (case branch of None \<Rightarrow> [] | Some n \<Rightarrow> [n])
      in gd\<lparr>gd_reflogs := filter (\<lambda>n. n \<notin> set expired \<or> m_reflog_kept L n) (gd_reflogs gd)\<rparr>)"

definition clear_stale_lock :: "'o odb_libs \<Rightarrow> ('o, unit) dir_action" where
  "clear_stale_lock L gd =
     (case cleanup_stale_index_lock
             (case gd_lock gd of None \<Rightarrow> Inl (IoError IoNotFound '''') | Some modified \<Rightarrow> Inr (Inr modified))
             (m_now L) (m_lock_fault L) of
        Inl e \<Rightarrow> (Inl e, gd)
      | Inr removed \<Rightarrow> (Inr (), if removed then gd\<lparr>gd_lock := None\<rparr> else gd))"

definition read_head_tree :: "'o odb_libs \<Rightarrow> ('o, unit) dir_action" where
  "read_head_tree L gd =
     (case head_tree (repo_of L gd) of
        Inl e \<Rightarrow> (Inl e, gd)
      | Inr (_, tree) \<Rightarrow>
          (case m_index L gd of
             Some e \<Rightarrow> (Inl (GitErr e), gd)
           | None \<Rightarrow>
               if gd_lock gd \<noteq> None then (Inl (GitErr (GitError GitOther ''failed to lock file'')), gd)
               else (Inr (), gd\<lparr>gd_index := Some tree\<rparr>)))"

definition run_maintenance :: "'o odb_libs \<Rightarrow> bool \<Rightarrow> bool \<Rightarrow> ('o, maintenance_report) dir_action" where
  "run_maintenance L destructive_prune checkout_files gd =
     (if \<not> gd_exists gd then (Inr default_report, gd)
      else (case m_open L gd of
          Some e \<Rightarrow> (Inl (GitErr e), gd)
        | None \<Rightarrow>
            (let gd1 = expire_reflogs L gd;
                 loose = enumerate_loose_objects L gd1;
                 packs_before = enumerate_pack_stems L gd1
             in bind_act
                  (if loose = [] \<and> length packs_before \<le> 1 then act_ok default_report
                   else repack L destructive_prune loose packs_before) (\<lambda>report.
                bind_act
                  (if checkout_files then bind_act (clear_stale_lock L) (\<lambda>_. read_head_tree L)
                   else act_ok ()) (\<lambda>_.
                act_ok report)) gd1)))"

end
