(* ===== verification/Maintenance_Facts.thy ===== *)
theory Maintenance_Facts
  imports Maintenance
begin

text \<open>
  What a maintenance pass may and may not lose. The law \<open>odb_ok\<close> is libgit2's documented
  behaviour: the object iterator visits the objects held, a walk inserts what its roots reach,
  references resolve without their reflogs, a pack's name holds no dot. The locale \<open>keeps_pack\<close> is the contract of the removals after the
  repack: none touches the new pack, so its objects stay held at every moment.
\<close>

section \<open>Laws\<close>

inductive reaches :: "'o odb_libs \<Rightarrow> 'o \<Rightarrow> 'o \<Rightarrow> bool" for L where
  reaches_self: "reaches L root root"
| reaches_parent: "reaches L root oid \<Longrightarrow> m_object L oid = CommitObject c \<Longrightarrow> p \<in> set (c_parents c) \<Longrightarrow> reaches L root p"
| reaches_tree: "reaches L root oid \<Longrightarrow> m_object L oid = CommitObject c \<Longrightarrow> reaches L root (c_tree c)"
| reaches_entry: "reaches L root oid \<Longrightarrow> m_object L oid = TreeObject es \<Longrightarrow> e \<in> set es \<Longrightarrow>
    te_kind e \<noteq> OtherKind \<Longrightarrow> reaches L root (te_id e)"

definition odb_ok :: "'o odb_libs \<Rightarrow> bool" where
  "odb_ok L \<longleftrightarrow>
     (\<forall>gd oids. m_foreach L gd = Inr oids \<longrightarrow> set oids = held gd) \<and>
     (\<forall>gd roots oids. m_insert_walk L gd roots = Inr oids \<longrightarrow>
        (\<forall>root \<in> set roots. \<forall>oid. reaches L root oid \<longrightarrow> oid \<in> set oids) \<and> set oids \<subseteq> held gd) \<and>
     (\<forall>gd logs n. m_push_ref L (gd\<lparr>gd_reflogs := logs\<rparr>) n = m_push_ref L gd n) \<and>
     (\<forall>oids. m_pack_name L oids \<noteq> [] \<and> CHR ''.'' \<notin> set (m_pack_name L oids))"

text \<open>A \<open>.git/objects\<close> as git keeps it: folders hold its files, and no pack has a dotted stem.\<close>

definition tidy :: "'o git_dir \<Rightarrow> bool" where
  "tidy gd \<longleftrightarrow>
     (\<forall>p \<in> fst ` set (gd_files gd). length p > 1 \<longrightarrow> (butlast p, Folder) \<in> set (gd_files gd)) \<and>
     (\<forall>n. [''pack'', n] \<in> fst ` set (gd_files gd) \<longrightarrow> path_extension n = Some ''pack'' \<longrightarrow>
        CHR ''.'' \<notin> set (file_stem n))"

section \<open>Pack names\<close>

lemma with_extension_dotless:
  "CHR ''.'' \<notin> set s \<Longrightarrow> ext \<noteq> [] \<Longrightarrow> with_extension s ext = s @ CHR ''.'' # ext"
  by (simp add: with_extension_def file_stem_def rsplit_once_None [THEN iffD2])

lemma pack_extension_dotless: "ext \<in> set pack_extensions \<Longrightarrow> CHR ''.'' \<notin> set ext \<and> ext \<noteq> []"
  by (auto simp: pack_extensions_def)

lemma file_stem_with_extension:
  assumes "CHR ''.'' \<notin> set s" "s \<noteq> []" "CHR ''.'' \<notin> set ext" "ext \<noteq> []"
  shows "file_stem (with_extension s ext) = s"
  using assms rsplit_once_append [of "CHR ''.''" ext s]
  by (simp add: with_extension_dotless file_stem_def)

lemma pack_path_inject:
  assumes "CHR ''.'' \<notin> set s" "CHR ''.'' \<notin> set s'" "ext \<in> set pack_extensions" "ext' \<in> set pack_extensions"
    and "pack_path s ext = pack_path s' ext'"
  shows "s = s' \<and> ext = ext'"
proof -
  have "s @ CHR ''.'' # ext = s' @ CHR ''.'' # ext'"
    using assms pack_extension_dotless by (auto simp: pack_path_def with_extension_dotless)
  then have "rsplit_once CHR ''.'' (s @ CHR ''.'' # ext) = rsplit_once CHR ''.'' (s' @ CHR ''.'' # ext')" by simp
  then show ?thesis using assms(3,4) pack_extension_dotless by (simp add: rsplit_once_append)
qed

lemma idx_is_no_pack: "pack_path s ''idx'' \<noteq> pack_path t ''pack''" "pack_path t ''pack'' \<noteq> pack_path s ''idx''"
proof -
  have "last (with_extension s ''idx'') \<noteq> last (with_extension t ''pack'')" by (simp add: with_extension_def)
  then show "pack_path s ''idx'' \<noteq> pack_path t ''pack''" "pack_path t ''pack'' \<noteq> pack_path s ''idx''"
    by (auto simp: pack_path_def)
qed

lemma with_extension_idx:
  "with_extension s ''idx'' = with_extension t ''idx'' \<Longrightarrow> with_extension s ''pack'' = with_extension t ''pack''"
  by (simp add: with_extension_def)

section \<open>What is held\<close>

lemma loose_ids_iff: "oid \<in> set (loose_ids files) \<longleftrightarrow> (\<exists>p. (p, LooseFile oid) \<in> set files)"
  by (force simp: loose_ids_def split: object_file.splits)

definition readable_pack :: "'o object_files \<Rightarrow> string \<Rightarrow> 'o list \<Rightarrow> bool" where
  "readable_pack files stem oids \<longleftrightarrow>
     (pack_path stem ''pack'', PackFile oids) \<in> set files \<and>
     file_stem (with_extension stem ''pack'') = stem \<and> (\<exists>e. (pack_path stem ''idx'', e) \<in> set files)"

lemma present_iff: "p \<in> fst ` set files \<longleftrightarrow> (\<exists>e. (p, e) \<in> set files)"
  by force

lemma packed_ids_iff:
  "oid \<in> set (packed_ids files) \<longleftrightarrow> (\<exists>stem oids. readable_pack files stem oids \<and> oid \<in> set oids)"
proof
  assume "oid \<in> set (packed_ids files)"
  then obtain p oids where *: "(p, PackFile oids) \<in> set files" "oid \<in> set oids"
    "p = pack_path (file_stem (last p)) ''pack''" "\<exists>e. (pack_path (file_stem (last p)) ''idx'', e) \<in> set files"
    by (auto simp: packed_ids_def present_iff split: object_file.splits if_splits)
  then have "last p = with_extension (file_stem (last p)) ''pack''"
    by (metis last.simps list.distinct(1) pack_path_def)
  with * have "readable_pack files (file_stem (last p)) oids" by (simp add: readable_pack_def)
  with * show "\<exists>stem oids. readable_pack files stem oids \<and> oid \<in> set oids" by blast
next
  assume "\<exists>stem oids. readable_pack files stem oids \<and> oid \<in> set oids"
  then obtain stem oids where *: "readable_pack files stem oids" "oid \<in> set oids" by blast
  then show "oid \<in> set (packed_ids files)"
    unfolding packed_ids_def present_iff
    by (auto simp: readable_pack_def pack_path_def intro!: bexI [of _ "(pack_path stem ''pack'', PackFile oids)"])
qed

lemma held_iff:
  "oid \<in> held gd \<longleftrightarrow> (\<exists>p. (p, LooseFile oid) \<in> set (gd_files gd)) \<or>
     (\<exists>stem oids. readable_pack (gd_files gd) stem oids \<and> oid \<in> set oids)"
  by (simp add: held_def loose_ids_iff packed_ids_iff)

lemma held_mono:
  assumes "set (gd_files gd) \<subseteq> set (gd_files gd')"
  shows "held gd \<subseteq> held gd'"
  using assms by (fastforce simp: held_iff readable_pack_def)

lemma readable_pack_held: "readable_pack (gd_files gd) stem oids \<Longrightarrow> set oids \<subseteq> held gd"
  by (auto simp: held_iff)

section \<open>Removals\<close>

lemma remove_path_subset: "set (remove_path L files p) \<subseteq> set files"
  by (auto simp: remove_path_def)

lemma remove_folder_subset: "set (remove_folder L files p) \<subseteq> set files"
  by (auto simp: remove_folder_def)

text \<open>The removals a pass performs once the new pack is written, in order.\<close>

definition removals ::
  "'o odb_libs \<Rightarrow> ('o \<times> string list) list \<Rightarrow> string list \<Rightarrow> ('o object_files \<Rightarrow> 'o object_files) list" where
  "removals L loose stems =
     map (\<lambda>p files. remove_path L files p) (map snd loose)
     @ map (\<lambda>p files. remove_folder L files p) (fanout_dirs loose)
     @ map (\<lambda>p files. remove_path L files p) (List.concat (map stem_files stems))"

definition perform_all :: "('o object_files \<Rightarrow> 'o object_files) list \<Rightarrow> 'o object_files \<Rightarrow> 'o object_files" where
  "perform_all ops files = foldl (\<lambda>f op. op f) files ops"

lemma perform_all_simps [simp]:
  "perform_all [] files = files" "perform_all (op # ops) files = perform_all ops (op files)"
  "perform_all (ops @ ops') files = perform_all ops' (perform_all ops files)"
  by (simp_all add: perform_all_def)

lemma perform_all_map: "perform_all (map (\<lambda>p files. f files p) ps) files = foldl f files ps"
  by (induction ps arbitrary: files) simp_all

lemma removals_all: "perform_all (removals L loose stems) files = drop_packs L stems (drop_loose L loose files)"
  by (simp add: removals_def drop_packs_def drop_loose_def perform_all_map del: map_map)

lemma removals_loose: "perform_all (removals L loose []) files = drop_loose L loose files"
  by (simp add: removals_def drop_loose_def perform_all_map del: map_map)

definition spares_pack :: "string \<Rightarrow> 'o list \<Rightarrow> ('o object_files \<Rightarrow> 'o object_files) \<Rightarrow> bool" where
  "spares_pack stem oids op \<longleftrightarrow>
     (\<forall>files. set (op files) \<subseteq> set files \<and>
        (readable_pack files stem oids \<longrightarrow> readable_pack (op files) stem oids))"

locale remover =
  fixes rm :: "'o object_files \<Rightarrow> string list \<Rightarrow> 'o object_files"
  assumes only_removes: "set (rm files p) \<subseteq> set files"
    and others_stay: "entry \<in> set files \<Longrightarrow> fst entry \<noteq> p \<Longrightarrow> entry \<in> set (rm files p)"
begin

lemma spares:
  assumes "p \<noteq> pack_path stem ''pack''" and "p \<noteq> pack_path stem ''idx''"
  shows "spares_pack stem oids (\<lambda>files. rm files p)"
proof -
  have "\<exists>e. (pack_path stem ''idx'', e) \<in> set (rm files p)"
    if "(pack_path stem ''idx'', e) \<in> set files" for files e
    using others_stay [OF that, of p] assms(2) by auto
  moreover have "(pack_path stem ''pack'', PackFile oids) \<in> set (rm files p)"
    if "(pack_path stem ''pack'', PackFile oids) \<in> set files" for files
    using others_stay [OF that, of p] assms(1) by auto
  ultimately show ?thesis
    using only_removes [of _ p] unfolding spares_pack_def readable_pack_def by blast
qed

end

interpretation unlinking: remover "remove_path L" for L
  by unfold_locales (auto simp: remove_path_def)

interpretation folder_removal: remover "remove_folder L" for L
  by unfold_locales (auto simp: remove_folder_def)

lemma perform_all_spares:
  assumes "\<forall>op \<in> set ops. spares_pack stem oids op" and "readable_pack files stem oids"
  shows "readable_pack (perform_all ops files) stem oids"
  using assms by (induction ops arbitrary: files) (auto simp: spares_pack_def)

lemma perform_all_subset:
  assumes "\<forall>op \<in> set ops. spares_pack stem oids op"
  shows "set (perform_all ops files) \<subseteq> set files"
  using assms
proof (induction ops arbitrary: files)
  case (Cons op ops)
  then have "set (op files) \<subseteq> set files" by (simp add: spares_pack_def)
  with Cons.IH [of "op files"] Cons.prems show ?case by auto
qed simp

text \<open>The paths the pass removes are none of the new pack's.\<close>

lemma loose_path:
  assumes "(oid, p) \<in> set (enumerate_loose_objects L gd)"
  shows "\<exists>fan rest. p = [fan, rest] \<and> length fan = 2"
  using assms
  by (auto simp: enumerate_loose_objects_def fanout_objects_def split: option.splits if_splits)

lemma removals_spare:
  assumes loose: "loose = enumerate_loose_objects L gd"
    and stem: "CHR ''.'' \<notin> set stem" "stem \<notin> set stems" "\<forall>s \<in> set stems. CHR ''.'' \<notin> set s"
    and op: "op \<in> set (removals L loose stems)"
  shows "spares_pack stem oids op"
proof -
  from op consider p where "p \<in> snd ` set loose" "op = (\<lambda>files. remove_path L files p)"
    | p where "p \<in> (\<lambda>x. butlast (snd x)) ` set loose" "op = (\<lambda>files. remove_folder L files p)"
    | s ext where "s \<in> set stems" "ext \<in> set pack_extensions"
        "op = (\<lambda>files. remove_path L files (pack_path s ext))"
    by (auto simp: removals_def fanout_dirs_def stem_files_def case_prod_beta)
  then show ?thesis
  proof cases
    case 1
    then obtain fan rest where "p = [fan, rest]" "length fan = 2" using loose loose_path by force
    with 1 show ?thesis by (auto intro!: unlinking.spares simp: pack_path_def)
  next
    case 2
    then obtain fan where p: "p = [fan]" using loose loose_path by force
    show ?thesis unfolding 2(2) by (rule folder_removal.spares) (simp_all add: p pack_path_def)
  next
    case 3
    have "pack_path s ext \<noteq> pack_path stem ext'" if "ext' \<in> set pack_extensions" for ext'
      using pack_path_inject [of s stem ext ext'] 3 stem that by auto
    then have "pack_path s ext \<noteq> pack_path stem ''pack''" "pack_path s ext \<noteq> pack_path stem ''idx''"
      by (simp_all add: pack_extensions_def)
    with 3 show ?thesis by (auto intro!: unlinking.spares)
  qed
qed

section \<open>The new pack\<close>

lemma write_entry_set: "set (write_entry p e files) = insert (p, e) {x \<in> set files. fst x \<noteq> p}"
  by (auto simp: write_entry_def)

lemma write_pack_readable:
  assumes "odb_ok L" and "write_pack L oids gd = (Inr u, gd')"
  shows "readable_pack (gd_files gd') (m_pack_name L oids) oids"
proof -
  have name: "m_pack_name L oids \<noteq> []" "CHR ''.'' \<notin> set (m_pack_name L oids)"
    using assms(1) by (auto simp: odb_ok_def)
  from assms(2) name file_stem_with_extension [OF name(2,1), of "''pack''"] show ?thesis
    by (auto simp: write_pack_def readable_pack_def write_entry_set idx_is_no_pack Let_def split: option.splits)
qed

lemma write_pack_files:
  assumes "write_pack L oids gd = (Inr u, gd')" and "(p, e) \<in> set (gd_files gd')"
  shows "(p, e) \<in> set (gd_files gd) \<or> (p = [''pack''] \<and> e = Folder)
    \<or> (p = pack_path (m_pack_name L oids) ''pack'' \<and> e = PackFile oids)
    \<or> (p = pack_path (m_pack_name L oids) ''idx'' \<and> e = OtherFile)"
  using assms by (auto simp: write_pack_def write_entry_set Let_def split: option.splits)

lemma write_pack_at:
  assumes "write_pack L oids gd = (Inr u, gd')"
    and "(pack_path (m_pack_name L oids) ''pack'', e) \<in> set (gd_files gd')"
  shows "e = PackFile oids"
  using assms by (auto simp: write_pack_def write_entry_set Let_def idx_is_no_pack split: option.splits)

lemma write_pack_held:
  assumes run: "write_pack L oids gd = (Inr u, gd')"
  shows "held gd' \<subseteq> held gd \<union> set oids"
proof
  fix oid assume "oid \<in> held gd'"
  then consider p where "(p, LooseFile oid) \<in> set (gd_files gd')"
    | stem os where "readable_pack (gd_files gd') stem os" "oid \<in> set os"
    by (auto simp: held_iff)
  then show "oid \<in> held gd \<union> set oids"
  proof cases
    case 1
    then show ?thesis using write_pack_files [OF run 1] by (auto simp: held_iff)
  next
    case 2
    let ?new = "m_pack_name L oids"
    show ?thesis
    proof (cases "pack_path stem ''idx'' = pack_path ?new ''idx''")
      case True
      then have "pack_path stem ''pack'' = pack_path ?new ''pack''"
        using with_extension_idx [of stem ?new] by (simp add: pack_path_def)
      with 2 have "os = oids" using write_pack_at [OF run] by (auto simp: readable_pack_def)
      with 2 show ?thesis by simp
    next
      case False
      from 2 obtain e where idx: "(pack_path stem ''idx'', e) \<in> set (gd_files gd')"
        and pack: "(pack_path stem ''pack'', PackFile os) \<in> set (gd_files gd')"
        by (auto simp: readable_pack_def)
      have "pack_path stem ''idx'' \<noteq> [''pack'']" by (simp add: pack_path_def)
      with write_pack_files [OF run idx] False idx_is_no_pack(1) [of stem ?new]
      have "(pack_path stem ''idx'', e) \<in> set (gd_files gd)" by metis
      moreover have "(pack_path stem ''pack'', PackFile os) \<in> set (gd_files gd) \<or> os = oids"
        using write_pack_files [OF run pack] by (elim disjE conjE) simp_all
      ultimately show ?thesis using 2 by (auto simp: held_iff readable_pack_def)
    qed
  qed
qed

section \<open>The repack\<close>

lemma stems_dotless:
  assumes "tidy gd" and "s \<in> set (enumerate_pack_stems L gd)"
  shows "CHR ''.'' \<notin> set s"
proof -
  from assms(2) obtain p e where "(p, e) \<in> set (gd_files gd)" "p \<noteq> []" "butlast p = [''pack'']"
    "path_extension (last p) = Some ''pack''" "s = file_stem (last p)"
    by (auto simp: enumerate_pack_stems_def read_dir_def split: option.splits if_splits)
  moreover from this have "p = [''pack'', last p]" by (metis append_Cons append_Nil append_butlast_last_id)
  ultimately show ?thesis using assms(1) unfolding tidy_def by (metis fst_conv imageI)
qed

lemma new_stem:
  assumes ok: "odb_ok L" and tidy: "tidy gd" and run: "write_pack L oids gd = (Inr u, gd1)"
    and sub: "set (gd_files gd2) \<subseteq> set (gd_files gd1)"
    and new: "new_pack_appeared (enumerate_pack_stems L gd2) (enumerate_pack_stems L gd)"
  shows "m_pack_name L oids \<notin> set (enumerate_pack_stems L gd)"
proof -
  let ?new = "m_pack_name L oids"
  have name: "?new \<noteq> []" "CHR ''.'' \<notin> set ?new" using ok by (auto simp: odb_ok_def)
  from new obtain s where s: "s \<in> set (enumerate_pack_stems L gd2)" "s \<notin> set (enumerate_pack_stems L gd)"
    by (auto simp: new_pack_appeared_def list_ex_iff)
  from s(1) obtain p e where pe: "(p, e) \<in> set (gd_files gd2)" "p \<noteq> []" "butlast p = [''pack'']"
    "path_extension (last p) = Some ''pack''" "s = file_stem (last p)"
    and readable: "\<not> m_unreadable L [''pack'']"
    by (auto simp: enumerate_pack_stems_def read_dir_def split: option.splits if_splits)
  have "(p, e) \<notin> set (gd_files gd)"
  proof
    assume old: "(p, e) \<in> set (gd_files gd)"
    moreover have "1 < length p" using pe(2,3) by (cases p) auto
    ultimately have "([''pack''], Folder) \<in> set (gd_files gd)"
      using tidy pe(3) unfolding tidy_def by (metis fst_conv imageI)
    with old pe readable have "s \<in> set (enumerate_pack_stems L gd)"
      by (force simp: enumerate_pack_stems_def read_dir_def)
    with s(2) show False by simp
  qed
  with write_pack_files [OF run, of p e] pe sub
  have "p = pack_path ?new ''pack'' \<or> p = pack_path ?new ''idx''" by (auto simp: subset_iff)
  then have "s = ?new"
    using pe(5) file_stem_with_extension [OF name(2,1)] by (auto simp: pack_path_def)
  with s(2) show ?thesis by simp
qed

text \<open>At every moment of the deletions the new pack's objects are held.\<close>

lemma deletions_spare:
  assumes ok: "odb_ok L" and tidy: "tidy gd" and run: "write_pack L oids gd = (Inr u, gd1)"
    and loose: "loose = enumerate_loose_objects L gd"
    and stems: "stems = [] \<or> stems = enumerate_pack_stems L gd \<and> m_pack_name L oids \<notin> set stems"
    and some: "set ops \<subseteq> set (removals L loose stems)"
  shows "set oids \<subseteq> held (gd1\<lparr>gd_files := perform_all ops (gd_files gd1)\<rparr>)"
    and "set (perform_all ops (gd_files gd1)) \<subseteq> set (gd_files gd1)"
proof -
  have name: "CHR ''.'' \<notin> set (m_pack_name L oids)" using ok by (auto simp: odb_ok_def)
  have "spares_pack (m_pack_name L oids) oids op" if "op \<in> set ops" for op
  proof (rule removals_spare [OF loose name])
    show "m_pack_name L oids \<notin> set stems" "\<forall>s \<in> set stems. CHR ''.'' \<notin> set s"
      using stems stems_dotless [OF tidy] by auto
    show "op \<in> set (removals L loose stems)" using some that by auto
  qed
  then have all: "\<forall>op \<in> set ops. spares_pack (m_pack_name L oids) oids op" by blast
  from perform_all_spares [OF all write_pack_readable [OF ok run]]
  show "set oids \<subseteq> held (gd1\<lparr>gd_files := perform_all ops (gd_files gd1)\<rparr>)"
    by (intro readable_pack_held) simp
  show "set (perform_all ops (gd_files gd1)) \<subseteq> set (gd_files gd1)"
    by (rule perform_all_subset [OF all])
qed

definition pack_content :: "'o odb_libs \<Rightarrow> bool \<Rightarrow> 'o git_dir \<Rightarrow> 'o list app_result" where
  "pack_content L destructive_prune gd =
     (if destructive_prune then insert_reachable_objects L gd else insert_all L gd)"

lemma pack_content_held:
  assumes "odb_ok L" and "pack_content L prune gd = Inr oids"
  shows "set oids \<subseteq> held gd" and "\<not> prune \<Longrightarrow> set oids = held gd"
proof -
  have tags: "set (tag_objects L gd) \<subseteq> held gd"
    by (auto simp: tag_objects_def split: option.splits object.splits if_splits)
  show all: "set oids = held gd" if "\<not> prune"
    using assms that by (auto simp: odb_ok_def pack_content_def insert_all_def split: sum.splits if_splits)
  show "set oids \<subseteq> held gd"
  proof (cases prune)
    case True
    with assms(2) obtain roots xs where "m_insert_walk L gd roots = Inr xs" "oids = remdups (tag_objects L gd @ xs)"
      by (auto simp: pack_content_def insert_reachable_objects_def split: sum.splits option.splits)
    moreover from this assms(1) have "set xs \<subseteq> held gd" by (simp add: odb_ok_def)
    ultimately show ?thesis using tags by auto
  qed (use all in simp)
qed

lemma repack_held:
  assumes ok: "odb_ok L" and tidy: "tidy gd"
    and run: "repack L prune (enumerate_loose_objects L gd) (enumerate_pack_stems L gd) gd = (r, gd')"
  shows "gd' = gd \<or> (\<exists>oids. pack_content L prune gd = Inr oids \<and> set oids \<subseteq> held gd' \<and>
    held gd' \<subseteq> held gd \<and> gd' = gd\<lparr>gd_files := gd_files gd'\<rparr>)"
proof (cases "\<exists>oids gd1. pack_content L prune gd = Inr oids \<and> write_pack L oids gd = (Inr (), gd1) \<and> m_builder L gd = None")
  case False
  then have "gd' = gd"
    using run unfolding repack_def
    by (auto simp: pack_content_def bind_act_def write_pack_def Let_def split: option.splits sum.splits if_splits)
  then show ?thesis ..
next
  case True
  then obtain oids gd1 where oids: "pack_content L prune gd = Inr oids" and w: "write_pack L oids gd = (Inr (), gd1)"
    and b: "m_builder L gd = None" by blast
  let ?loose = "enumerate_loose_objects L gd" and ?stems = "enumerate_pack_stems L gd"
  let ?gd2 = "gd1\<lparr>gd_files := drop_loose L ?loose (gd_files gd1)\<rparr>"
  obtain stems where gd': "gd' = gd1\<lparr>gd_files := perform_all (removals L ?loose stems) (gd_files gd1)\<rparr>"
    and stems: "stems = [] \<or> stems = ?stems \<and> m_pack_name L oids \<notin> set stems"
  proof (cases "new_pack_appeared (enumerate_pack_stems L ?gd2) ?stems")
    case True
    have "set (gd_files ?gd2) \<subseteq> set (gd_files gd1)"
      using deletions_spare(2) [OF ok tidy w refl, of "[]" "removals L ?loose []"]
      by (simp add: removals_loose)
    with True have "m_pack_name L oids \<notin> set ?stems" by (intro new_stem [OF ok tidy w])
    moreover have "gd' = gd1\<lparr>gd_files := perform_all (removals L ?loose ?stems) (gd_files gd1)\<rparr>"
      using run oids w b True by (auto simp: repack_def pack_content_def bind_act_def Let_def removals_all)
    ultimately show ?thesis using that by blast
  next
    case False
    then have "gd' = gd1\<lparr>gd_files := perform_all (removals L ?loose []) (gd_files gd1)\<rparr>"
      using run oids w b by (auto simp: repack_def pack_content_def bind_act_def Let_def removals_loose)
    then show ?thesis using that by blast
  qed
  note spare = deletions_spare [OF ok tidy w refl stems, of "removals L ?loose stems"]
  have "held gd' \<subseteq> held gd1" unfolding gd' by (rule held_mono) (use spare in simp)
  also have "\<dots> \<subseteq> held gd" using write_pack_held [OF w] pack_content_held(1) [OF ok oids] by blast
  finally have "held gd' \<subseteq> held gd" .
  moreover have "gd' = gd\<lparr>gd_files := gd_files gd'\<rparr>"
    using w gd' by (auto simp: write_pack_def Let_def split: option.splits)
  ultimately show ?thesis using spare oids gd' by auto
qed

section \<open>The pass\<close>

lemma expire_reflogs_files [simp]:
  "gd_files (expire_reflogs L gd) = gd_files gd" "gd_head (expire_reflogs L gd) = gd_head gd"
  "gd_refs (expire_reflogs L gd) = gd_refs gd"
  by (simp_all add: expire_reflogs_def Let_def)

lemma held_files: "gd_files gd = gd_files gd' \<Longrightarrow> held gd = held gd'"
  by (simp add: held_def)

lemma tidy_files: "gd_files gd = gd_files gd' \<Longrightarrow> tidy gd = tidy gd'"
  by (simp add: tidy_def)

lemma index_refresh_files:
  assumes "bind_act (if co then bind_act (clear_stale_lock L) (\<lambda>_. read_head_tree L) else act_ok ())
      (\<lambda>_. act_ok report) gd = (r, gd')"
  shows "gd_files gd' = gd_files gd \<and> gd_head gd' = gd_head gd \<and> gd_refs gd' = gd_refs gd"
  using assms
  by (auto simp: bind_act_def clear_stale_lock_def read_head_tree_def
      split: if_splits sum.splits prod.splits option.splits)

text \<open>What a pass leaves: the objects held before, or at least those it packed.\<close>

lemma maintenance_effect:
  assumes ok: "odb_ok L" and tidy: "tidy gd" and run: "run_maintenance L prune co gd = (r, gd')"
  shows "gd_head gd' = gd_head gd \<and> gd_refs gd' = gd_refs gd \<and>
    (held gd' = held gd \<or> (\<exists>oids. pack_content L prune (expire_reflogs L gd) = Inr oids \<and>
       set oids \<subseteq> held gd' \<and> held gd' \<subseteq> held gd))"
proof (cases "gd_exists gd \<and> m_open L gd = None")
  case False
  then have "gd' = gd" using run by (auto simp: run_maintenance_def split: if_splits option.splits)
  then show ?thesis by simp
next
  case True
  let ?gd1 = "expire_reflogs L gd"
  let ?m = "if enumerate_loose_objects L ?gd1 = [] \<and> length (enumerate_pack_stems L ?gd1) \<le> 1
    then act_ok default_report
    else repack L prune (enumerate_loose_objects L ?gd1) (enumerate_pack_stems L ?gd1)"
  obtain q gd2 where m: "?m ?gd1 = (q, gd2)" by fastforce
  have "tidy ?gd1" using tidy tidy_files [of ?gd1 gd] by simp
  with m repack_held [OF ok, of ?gd1 prune q gd2]
  have step: "gd2 = ?gd1 \<or> (\<exists>oids. pack_content L prune ?gd1 = Inr oids \<and> set oids \<subseteq> held gd2 \<and>
    held gd2 \<subseteq> held ?gd1 \<and> gd2 = ?gd1\<lparr>gd_files := gd_files gd2\<rparr>)" by (auto split: if_splits)
  then have fields: "gd_head gd2 = gd_head gd" "gd_refs gd2 = gd_refs gd"
    by (metis expire_reflogs_files(2) git_dir.select_convs(3) git_dir.surjective git_dir.update_convs(2),
        metis expire_reflogs_files(3) git_dir.select_convs(5) git_dir.surjective git_dir.update_convs(2))
  have gd1: "held ?gd1 = held gd" by (rule held_files) simp
  have "gd_files gd' = gd_files gd2 \<and> gd_head gd' = gd_head gd2 \<and> gd_refs gd' = gd_refs gd2"
  proof (cases q)
    case (Inl e)
    then show ?thesis using run True m by (auto simp: run_maintenance_def Let_def bind_act_def)
  next
    case (Inr report)
    have "bind_act (if co then bind_act (clear_stale_lock L) (\<lambda>_. read_head_tree L) else act_ok ())
        (\<lambda>_. act_ok report) gd2 = (r, gd')"
      using run True m Inr unfolding run_maintenance_def Let_def by (simp add: bind_act_Inr)
    then show ?thesis by (rule index_refresh_files)
  qed
  moreover from this have "held gd' = held gd2" by (intro held_files) simp
  ultimately show ?thesis using step fields gd1 by auto
qed

lemma reference_roots_expire: "odb_ok L \<Longrightarrow> reference_roots L (expire_reflogs L gd) = reference_roots L gd"
proof -
  assume "odb_ok L"
  then have push: "m_push_ref L (expire_reflogs L gd) = m_push_ref L gd"
    by (auto simp: fun_eq_iff expire_reflogs_def Let_def odb_ok_def)
  show ?thesis unfolding reference_roots_def expire_reflogs_files push ..
qed

section \<open>A sample repository\<close>

text \<open>
  A commit 1 of a tree 2 holding a note 3, a tag 4 of a tag 5 of the commit, and a stray blob 6,
  all loose; the sample's libgit2 knows this object graph, and a commit 7 made upon the first.
\<close>

definition sample_commit :: "nat commit" where
  "sample_commit = \<lparr>c_tree = 2, c_parents = [], c_message = ''chore: initialize'',
     c_signature = \<lparr>sig_name = ''Ada'', sig_email = ''ada@acme.io'', sig_time = 0\<rparr>\<rparr>"

definition sample_entry :: "nat tree_entry" where
  "sample_entry = \<lparr>te_name = Some ''a.md'', te_kind = Blob, te_id = 3, te_mode = 33188\<rparr>"

definition sample_object :: "nat \<Rightarrow> nat object" where
  "sample_object n = (if n = 1 then CommitObject sample_commit else if n = 2 then TreeObject [sample_entry]
     else if n = 4 then TagObject 5 else if n = 5 then TagObject 1
    else if n = 7 then CommitObject (sample_commit\<lparr>c_parents := [1]\<rparr>) else BlobObject ''hi'')"

definition sample_closure :: "nat \<Rightarrow> nat list" where
  "sample_closure n = (if n = 1 then [1, 2, 3] else if n = 2 then [2, 3]
    else if n = 7 then [7, 1, 2, 3] else [n])"

definition sample_odb :: "nat odb_libs" where
  "sample_odb =
     \<lparr>m_object = sample_object, m_oid = (\<lambda>s. Some (length s)), m_open = (\<lambda>_. None), m_builder = (\<lambda>_. None),
      m_foreach = (\<lambda>gd. Inr (loose_ids (gd_files gd) @ packed_ids (gd_files gd))),
      m_insert = (\<lambda>_ _. True), m_revwalk = (\<lambda>_. None),
      m_push_ref = (\<lambda>gd name. if name = ''refs/tags/v1'' then Some 1 else None),
      m_insert_walk = (\<lambda>gd roots.
        let oids = List.concat (map sample_closure roots) in
        if list_all (\<lambda>oid. oid \<in> held gd) oids then Inr oids else Inl missing_object),
      m_pack_name = (\<lambda>oids. ''pack-'' @ show_nat (length oids)), m_write = (\<lambda>_. None), m_index = (\<lambda>_. None),
      m_reflog_kept = (\<lambda>_. False), m_unreadable = (\<lambda>_. False), m_unlink_fails = (\<lambda>_. False),
      m_lock_fault = None, m_now = 0\<rparr>"

definition sample_git :: "nat git_dir" where
  "sample_git =
     \<lparr>gd_exists = True,
      gd_files = ([''aa''], Folder) # map (\<lambda>(name, n). ([''aa'', name], LooseFile n))
        [(''1'', 1), (''2'', 2), (''3'', 3), (''4'', 4), (''5'', 5), (''6'', 6)],
      gd_head = Inr 1, gd_head_name = Some ''refs/heads/master'',
      gd_refs = [(Some ''refs/tags/v1'', Some 4)], gd_reflogs = [''HEAD''], gd_index = None, gd_lock = None\<rparr>"

lemma sample_reaches: "reaches sample_odb root oid \<Longrightarrow> oid \<in> set (sample_closure root)"
  by (induction rule: reaches.induct)
    (auto simp: sample_closure_def sample_odb_def sample_object_def sample_commit_def sample_entry_def
      split: if_splits)

lemma sample_odb_ok: "odb_ok sample_odb"
  unfolding odb_ok_def
proof (intro conjI allI impI ballI)
  fix gd :: "nat git_dir" and roots oids root oid
  assume "m_insert_walk sample_odb gd roots = Inr oids" "root \<in> set roots" "reaches sample_odb root oid"
  then show "oid \<in> set oids"
    using sample_reaches by (fastforce simp: sample_odb_def Let_def split: if_splits)
next
  fix oids :: "nat list"
  show "CHR ''.'' \<notin> set (m_pack_name sample_odb oids)"
    using show_nat_digits [of "length oids"] by (auto simp: sample_odb_def list_all_iff digit_def)
next
  fix gd :: "nat git_dir" and roots oids
  assume "m_insert_walk sample_odb gd roots = Inr oids"
  then show "set oids \<subseteq> held gd"
    by (auto simp: sample_odb_def Let_def list_all_iff split: if_splits)
qed (auto simp: sample_odb_def held_def)

lemma sample_tidy: "tidy sample_git"
  by (auto simp: tidy_def sample_git_def)

section \<open>Nothing is lost\<close>

text \<open>
  C23: a maintenance pass that does not prune is invisible: whatever fails on the way, the
  repository, its HEAD and every commit, tree and blob it holds are afterwards what they were.
\<close>

theorem maintenance_loses_nothing:
  assumes ok: "odb_ok L" and tidy: "tidy gd" and run: "run_maintenance L False co gd = (r, gd')"
  shows "repo_of L gd' = repo_of L gd"
proof -
  have "held (expire_reflogs L gd) = held gd" by (rule held_files) simp
  then have "held gd' = held gd"
    using maintenance_effect [OF ok tidy run] pack_content_held(2) [OF ok, of False] by blast
  moreover have "gd_head gd' = gd_head gd" using maintenance_effect [OF ok tidy run] by blast
  ultimately show ?thesis by (simp add: repo_of_def)
qed

theorem maintenance_loses_nothing_witness:
  "r_blobs (repo_of sample_odb (snd (run_maintenance sample_odb False True sample_git))) 6 = Some ''hi''"
proof -
  have "repo_of sample_odb (snd (run_maintenance sample_odb False True sample_git)) = repo_of sample_odb sample_git"
    by (rule maintenance_loses_nothing [OF sample_odb_ok sample_tidy prod.collapse [symmetric]])
  then show ?thesis
    by (simp add: repo_of_def held_def loose_ids_def sample_git_def sample_odb_def sample_object_def)
qed

text \<open>
  C24: a pruning pass never touches history: every object reachable from HEAD, or from the commit
  libgit2 resolves one of the repository's references to by its UTF-8 name, is afterwards held
  exactly when it was, and HEAD is where it was.
\<close>

theorem prune_keeps_history:
  assumes ok: "odb_ok L" and tidy: "tidy gd" and run: "run_maintenance L True co gd = (r, gd')"
    and root: "gd_head gd = Inr root \<or>
      (\<exists>name target. (Some name, target) \<in> set (gd_refs gd) \<and> m_push_ref L gd name = Some root)"
    and reach: "reaches L root oid"
  shows "gd_head gd' = gd_head gd \<and>
    r_commits (repo_of L gd') oid = r_commits (repo_of L gd) oid \<and>
    r_trees (repo_of L gd') oid = r_trees (repo_of L gd) oid \<and>
    r_blobs (repo_of L gd') oid = r_blobs (repo_of L gd) oid"
proof -
  have "oid \<in> set oids" if content: "pack_content L True (expire_reflogs L gd) = Inr oids" for oids
  proof -
    from content obtain head xs where head: "gd_head gd = Inr head" and xs: "set xs \<subseteq> set oids"
      and walk: "m_insert_walk L (expire_reflogs L gd) (head # reference_roots L gd) = Inr xs"
      by (auto simp: pack_content_def insert_reachable_objects_def reference_roots_expire [OF ok]
          split: sum.splits option.splits) (metis sup_ge2)
    have "root \<in> set (head # reference_roots L gd)"
      using root head by (force simp: reference_roots_def)
    then have "oid \<in> set xs" using ok walk reach unfolding odb_ok_def by blast
    with xs show ?thesis by auto
  qed
  then have "oid \<in> held gd' \<longleftrightarrow> oid \<in> held gd"
    using maintenance_effect [OF ok tidy run] by auto
  moreover have "gd_head gd' = gd_head gd" using maintenance_effect [OF ok tidy run] by blast
  ultimately show ?thesis by (simp add: repo_of_def)
qed

theorem prune_keeps_history_witness:
  "r_blobs (repo_of sample_odb (snd (run_maintenance sample_odb True False sample_git))) 3 = Some ''hi''"
proof -
  have "reaches sample_odb 1 2"
    using reaches_tree [OF reaches_self, of sample_odb 1 sample_commit]
    by (simp add: sample_odb_def sample_object_def sample_commit_def)
  then have "reaches sample_odb 1 3"
    using reaches_entry [of sample_odb 1 2 "[sample_entry]" sample_entry]
    by (simp add: sample_odb_def sample_object_def sample_entry_def)
  from prune_keeps_history [OF sample_odb_ok sample_tidy prod.collapse [symmetric] _ this, of False]
  show ?thesis
    by (simp add: repo_of_def held_def loose_ids_def sample_git_def sample_odb_def sample_object_def)
qed

text \<open>
  A tag of a tag does not survive: only the outer tag object is packed beside the walk, the inner
  one is deleted with the loose objects, so the reference leads nowhere.
\<close>

lemma prune_drops_nested_tag:
  "4 \<in> held (snd (run_maintenance sample_odb True False sample_git))
   \<and> 5 \<in> held sample_git \<and> 5 \<notin> held (snd (run_maintenance sample_odb True False sample_git))"
  by code_simp

text \<open>
  A reference whose name is not UTF-8, or that \<open>push_ref\<close> refuses, is passed over, so what only it
  leads to is deleted although the comment promises to honour every reference.
\<close>

definition branched_git :: "string option \<Rightarrow> nat git_dir" where
  "branched_git name =
     sample_git\<lparr>gd_files := gd_files sample_git @ [([''aa'', ''7''], LooseFile 7)], gd_refs := [(name, Some 7)]\<rparr>"

lemma prune_drops_unnamed_branch:
  "7 \<in> held (branched_git None)"
  "7 \<notin> held (snd (run_maintenance sample_odb True False (branched_git None)))"
  "7 \<notin> held (snd (run_maintenance sample_odb True False (branched_git (Some ''refs/heads/draft''))))"
  by code_simp+

end
