(* ===== verification/Scheduler.thy ===== *)
theory Scheduler
  imports Prelude
begin

text \<open>
  \<open>src/maintenance.rs\<close> and the lock map of \<open>src/state.rs\<close>: when maintenance passes are armed,
  run and disarmed. Handlers and passes run concurrently, so the scheduler is a step relation
  over the slots, the spawned tasks and the tenant locks, one step per access to shared state.
  Every caller of \<open>schedule\<close> and \<open>cancel\<close> holds the tenant's write lock: the write handlers, the
  deletion handler, and the follower applying or removing a repository.
\<close>

section \<open>State\<close>

datatype phase = Counting | Sleeping | Waiting | Running | Cleared | Finished | Aborted

record task =
  tk_key :: string
  tk_mutex :: nat \<comment> \<open>the mutex behind the \<open>RepoLock\<close> the task was handed\<close>
  tk_phase :: phase

text \<open>Where a handler that holds a lock stands: in \<open>schedule\<close> between its accesses, or outside.\<close>

datatype handler_stage = Working | Claimed | Spawned nat

datatype holder = Handler string handler_stage | Pass nat

record scheduler =
  sc_pending :: "string \<rightharpoonup> nat option" \<comment> \<open>slot: the handle, \<open>None\<close> until it is registered\<close>
  sc_tasks :: "nat \<rightharpoonup> task"
  sc_next :: nat
  sc_repo_locks :: "string \<rightharpoonup> nat"
  sc_next_mutex :: nat
  sc_held :: "nat \<rightharpoonup> holder"

definition new_scheduler :: scheduler where
  "new_scheduler = \<lparr>sc_pending = Map.empty, sc_tasks = Map.empty, sc_next = 0,
     sc_repo_locks = Map.empty, sc_next_mutex = 0, sc_held = Map.empty\<rparr>"

section \<open>Operations\<close>

text \<open>\<open>AppState::get_repo_lock\<close>: entries are created on first access and never removed.\<close>

definition get_repo_lock :: "string \<Rightarrow> scheduler \<Rightarrow> nat \<times> scheduler" where
  "get_repo_lock key s =
     (case sc_repo_locks s key of
        Some m \<Rightarrow> (m, s)
      | None \<Rightarrow>
          (sc_next_mutex s,
           s\<lparr>sc_repo_locks := (sc_repo_locks s)(key \<mapsto> sc_next_mutex s),
             sc_next_mutex := Suc (sc_next_mutex s)\<rparr>))"

definition set_phase :: "nat \<Rightarrow> phase \<Rightarrow> scheduler \<Rightarrow> scheduler" where
  "set_phase n ph s =
     (case sc_tasks s n of
        None \<Rightarrow> s
      | Some t \<Rightarrow> s\<lparr>sc_tasks := (sc_tasks s)(n \<mapsto> t\<lparr>tk_phase := ph\<rparr>)\<rparr>)"

text \<open>\<open>JoinHandle::abort\<close>: no effect on a task that has ended.\<close>

definition abort_task :: "nat \<Rightarrow> scheduler \<Rightarrow> scheduler" where
  "abort_task n s =
     (case sc_tasks s n of
        None \<Rightarrow> s
      | Some t \<Rightarrow> if tk_phase t = Finished then s else set_phase n Aborted s)"

text \<open>The three accesses of \<open>schedule\<close>: claiming the vacant slot, spawning, registering.\<close>

definition claim_slot :: "bool \<Rightarrow> string \<Rightarrow> scheduler \<Rightarrow> bool \<times> scheduler" where
  "claim_slot enabled key s =
     (if \<not> enabled then (False, s)
      else (case sc_pending s key of
          Some _ \<Rightarrow> (False, s)
        | None \<Rightarrow> (True, s\<lparr>sc_pending := (sc_pending s)(key \<mapsto> None)\<rparr>)))"

definition spawn_task :: "string \<Rightarrow> nat \<Rightarrow> scheduler \<Rightarrow> nat \<times> scheduler" where
  "spawn_task key m s =
     (sc_next s,
      s\<lparr>sc_tasks := (sc_tasks s)(sc_next s \<mapsto> \<lparr>tk_key = key, tk_mutex = m, tk_phase = Counting\<rparr>),
        sc_next := Suc (sc_next s)\<rparr>)"

definition register_task :: "string \<Rightarrow> nat \<Rightarrow> scheduler \<Rightarrow> scheduler" where
  "register_task key n s =
     (case sc_pending s key of
        Some _ \<Rightarrow> s\<lparr>sc_pending := (sc_pending s)(key \<mapsto> Some n)\<rparr>
      | None \<Rightarrow> abort_task n s)"

definition cancel :: "string \<Rightarrow> scheduler \<Rightarrow> scheduler" where
  "cancel key s =
     (case sc_pending s key of
        None \<Rightarrow> s
      | Some slot \<Rightarrow>
          (let s' = s\<lparr>sc_pending := (sc_pending s)(key := None)\<rparr> in
           case slot of None \<Rightarrow> s' | Some n \<Rightarrow> abort_task n s'))"

text \<open>What the task does: the delay it sleeps, and the slot it clears at its end.\<close>

definition pass_delay :: "nat option \<Rightarrow> nat \<Rightarrow> nat \<Rightarrow> nat" where
  "pass_delay maximum_packs packs delay_secs =
     (case maximum_packs of
        Some maximum \<Rightarrow> if packs \<ge> maximum then 0 else delay_secs
      | None \<Rightarrow> delay_secs)"

definition clear_slot :: "nat \<Rightarrow> scheduler \<Rightarrow> scheduler" where
  "clear_slot n s =
     (case sc_tasks s n of
        None \<Rightarrow> s
      | Some t \<Rightarrow> set_phase n Cleared (s\<lparr>sc_pending := (sc_pending s)(tk_key t := None)\<rparr>))"

definition hold :: "nat \<Rightarrow> holder option \<Rightarrow> scheduler \<Rightarrow> scheduler" where
  "hold m h s = s\<lparr>sc_held := (sc_held s)(m := h)\<rparr>"

section \<open>Steps\<close>

text \<open>The spawned task, up to the end of the closure, which drops the lock.\<close>

inductive task_step :: "nat \<Rightarrow> scheduler \<Rightarrow> scheduler \<Rightarrow> bool" for n where
  counted: "sc_tasks s n = Some t \<Longrightarrow> tk_phase t = Counting \<Longrightarrow> task_step n s (set_phase n Sleeping s)"
| woken: "sc_tasks s n = Some t \<Longrightarrow> tk_phase t = Sleeping \<Longrightarrow> task_step n s (set_phase n Waiting s)"
| locked: "sc_tasks s n = Some t \<Longrightarrow> tk_phase t = Waiting \<Longrightarrow> sc_held s (tk_mutex t) = None \<Longrightarrow>
    task_step n s (hold (tk_mutex t) (Some (Pass n)) (set_phase n Running s))"
| passed: "sc_tasks s n = Some t \<Longrightarrow> tk_phase t = Running \<Longrightarrow> task_step n s (clear_slot n s)"
| unlocked: "sc_tasks s n = Some t \<Longrightarrow> tk_phase t = Cleared \<Longrightarrow>
    task_step n s (hold (tk_mutex t) None (set_phase n Finished s))"

inductive sched_step :: "bool \<Rightarrow> string \<Rightarrow> scheduler \<Rightarrow> scheduler \<Rightarrow> bool" for enabled where
  fetch_lock: "sched_step enabled key s (snd (get_repo_lock key s))"
| acquire: "sc_repo_locks s key = Some m \<Longrightarrow> sc_held s m = None \<Longrightarrow>
    sched_step enabled key s (hold m (Some (Handler key Working)) s)"
| claim: "sc_held s m = Some (Handler key Working) \<Longrightarrow> claim_slot enabled key s = (won, s') \<Longrightarrow>
    sched_step enabled key s (if won then hold m (Some (Handler key Claimed)) s' else s')"
| spawn: "sc_held s m = Some (Handler key Claimed) \<Longrightarrow> spawn_task key m s = (n, s') \<Longrightarrow>
    sched_step enabled key s (hold m (Some (Handler key (Spawned n))) s')"
| register: "sc_held s m = Some (Handler key (Spawned n)) \<Longrightarrow>
    sched_step enabled key s (hold m (Some (Handler key Working)) (register_task key n s))"
| cancel: "sc_held s m = Some (Handler key Working) \<Longrightarrow> sched_step enabled key s (cancel key s)"
| release: "sc_held s m = Some (Handler key Working) \<Longrightarrow> sched_step enabled key s (hold m None s)"
| advance: "sc_tasks s n = Some t \<Longrightarrow> task_step n s s' \<Longrightarrow> sched_step enabled (tk_key t) s s'"

inductive sched_reachable :: "bool \<Rightarrow> scheduler \<Rightarrow> bool" for enabled where
  start: "sched_reachable enabled new_scheduler"
| more: "sched_reachable enabled s \<Longrightarrow> sched_step enabled key s s' \<Longrightarrow> sched_reachable enabled s'"

section \<open>The invariant\<close>

text \<open>What the scheduler is for one tenant: who holds its lock, and its tasks by phase.\<close>

definition lock_holder :: "scheduler \<Rightarrow> string \<Rightarrow> holder option" where
  "lock_holder s key = (case sc_repo_locks s key of None \<Rightarrow> None | Some m \<Rightarrow> sc_held s m)"

definition tasks_in :: "scheduler \<Rightarrow> string \<Rightarrow> phase set \<Rightarrow> nat set" where
  "tasks_in s key phases = {n. \<exists>t. sc_tasks s n = Some t \<and> tk_key t = key \<and> tk_phase t \<in> phases}"

abbreviation live_phases :: "phase set" where
  "live_phases \<equiv> {Counting, Sleeping, Waiting, Running}"

abbreviation locked_phases :: "phase set" where
  "locked_phases \<equiv> {Running, Cleared}"

text \<open>
  A vacant slot has no live task, a filled slot exactly the task it names; between claiming and
  registering, its handler holds the lock. A task runs exactly while it holds the lock.
\<close>

definition tenant_ok :: "scheduler \<Rightarrow> string \<Rightarrow> bool" where
  "tenant_ok s key \<longleftrightarrow>
     (case lock_holder s key of
        Some (Handler _ Claimed) \<Rightarrow> sc_pending s key = Some None \<and> tasks_in s key live_phases = {}
      | Some (Handler _ (Spawned n)) \<Rightarrow> sc_pending s key = Some None \<and> tasks_in s key live_phases = {n}
      | _ \<Rightarrow> (case sc_pending s key of
            None \<Rightarrow> tasks_in s key live_phases = {}
          | Some None \<Rightarrow> False
          | Some (Some n) \<Rightarrow> tasks_in s key live_phases = {n})) \<and>
     tasks_in s key locked_phases = (case lock_holder s key of Some (Pass n) \<Rightarrow> {n} | _ \<Rightarrow> {})"

definition locks_ok :: "scheduler \<Rightarrow> bool" where
  "locks_ok s \<longleftrightarrow>
     (\<forall>key m. sc_repo_locks s key = Some m \<longrightarrow> m < sc_next_mutex s) \<and>
     (\<forall>m. sc_next_mutex s \<le> m \<longrightarrow> sc_held s m = None) \<and>
     (\<forall>key key' m. sc_repo_locks s key = Some m \<longrightarrow> sc_repo_locks s key' = Some m \<longrightarrow> key = key') \<and>
     (\<forall>m key st. sc_held s m = Some (Handler key st) \<longrightarrow> sc_repo_locks s key = Some m) \<and>
     (\<forall>n t. sc_tasks s n = Some t \<longrightarrow> n < sc_next s \<and> sc_repo_locks s (tk_key t) = Some (tk_mutex t))"

definition sched_inv :: "scheduler \<Rightarrow> bool" where
  "sched_inv s \<longleftrightarrow> locks_ok s \<and> (\<forall>key. tenant_ok s key)"

lemma sched_invI: "locks_ok s \<Longrightarrow> (\<And>key. tenant_ok s key) \<Longrightarrow> sched_inv s"
  by (simp add: sched_inv_def)

lemma locks_okD:
  assumes "locks_ok s"
  shows "sc_repo_locks s key = Some m \<Longrightarrow> sc_repo_locks s key' = Some m \<Longrightarrow> key' = key"
    and "sc_held s m = Some (Handler key st) \<Longrightarrow> sc_repo_locks s key = Some m"
    and "sc_tasks s n = Some t \<Longrightarrow> n < sc_next s \<and> sc_repo_locks s (tk_key t) = Some (tk_mutex t)"
  using assms by (auto simp: locks_ok_def)

text \<open>How the state changes show for a tenant.\<close>

lemma set_phase_simps [simp]:
  "sc_pending (set_phase n ph s) = sc_pending s" "sc_next (set_phase n ph s) = sc_next s"
  "sc_repo_locks (set_phase n ph s) = sc_repo_locks s" "sc_next_mutex (set_phase n ph s) = sc_next_mutex s"
  "sc_held (set_phase n ph s) = sc_held s"
  by (auto simp: set_phase_def split: option.split)

lemma hold_simps [simp]:
  "sc_pending (hold m h s) = sc_pending s" "sc_next (hold m h s) = sc_next s"
  "sc_repo_locks (hold m h s) = sc_repo_locks s" "sc_next_mutex (hold m h s) = sc_next_mutex s"
  "sc_held (hold m h s) = (sc_held s)(m := h)" "sc_tasks (hold m h s) = sc_tasks s"
  by (simp_all add: hold_def)

lemma tasks_in_set_phase:
  assumes "sc_tasks s n = Some t"
  shows "tasks_in (set_phase n ph s) key phases =
    (if key \<noteq> tk_key t then tasks_in s key phases
     else if ph \<in> phases then insert n (tasks_in s key phases) else tasks_in s key phases - {n})"
  using assms by (auto simp: tasks_in_def set_phase_def)

lemma tasks_in_cong: "sc_tasks s = sc_tasks s' \<Longrightarrow> tasks_in s key phases = tasks_in s' key phases"
  by (simp add: tasks_in_def)

lemma tasks_in_hold [simp]: "tasks_in (hold m h s) key phases = tasks_in s key phases"
  by (simp add: tasks_in_def)

lemma tasks_in_pending [simp]:
  "tasks_in (s\<lparr>sc_pending := p\<rparr>) key phases = tasks_in s key phases"
  by (simp add: tasks_in_def)

lemma lock_holder_simps [simp]:
  "lock_holder (set_phase n ph s) key = lock_holder s key"
  "lock_holder (s\<lparr>sc_pending := p\<rparr>) key = lock_holder s key"
  by (simp_all add: lock_holder_def split: option.split)

lemma lock_holder_hold:
  assumes "locks_ok s" and "sc_repo_locks s key = Some m"
  shows "lock_holder (hold m h s) key' = (if key' = key then h else lock_holder s key')"
proof (cases "key' = key")
  case True
  then show ?thesis using assms(2) by (simp add: lock_holder_def)
next
  case False
  then have "sc_repo_locks s key' \<noteq> Some m" using locks_okD(1) [OF assms] by blast
  with False show ?thesis by (auto simp: lock_holder_def split: option.split)
qed

lemma handler_holds:
  assumes "locks_ok s" and "sc_held s m = Some (Handler key st)"
  shows "sc_repo_locks s key = Some m" and "lock_holder s key = Some (Handler key st)"
  using assms by (auto simp: lock_holder_def dest: locks_okD(2))

lemma task_phase_in:
  "sc_tasks s n = Some t \<Longrightarrow> n \<in> tasks_in s (tk_key t) phases \<longleftrightarrow> tk_phase t \<in> phases"
  by (simp add: tasks_in_def)

lemma tenant_ok_cong:
  assumes "lock_holder s' key = lock_holder s key" "sc_pending s' key = sc_pending s key"
    and "\<And>phases. tasks_in s' key phases = tasks_in s key phases"
  shows "tenant_ok s' key = tenant_ok s key"
  unfolding tenant_ok_def assms ..

lemma locks_ok_hold:
  assumes "locks_ok s" and "sc_repo_locks s key = Some m"
    and "\<And>key' st. h = Some (Handler key' st) \<Longrightarrow> key' = key"
  shows "locks_ok (hold m h s)"
  using assms unfolding locks_ok_def by (auto simp: dest: leD)

lemma locks_ok_set_phase: "locks_ok s \<Longrightarrow> locks_ok (set_phase n ph s)"
  unfolding locks_ok_def by (auto simp: set_phase_def split: option.splits if_splits)

lemma locks_ok_pending [simp]: "locks_ok (s\<lparr>sc_pending := p\<rparr>) = locks_ok s"
  by (simp add: locks_ok_def)

section \<open>Every step keeps it\<close>

lemma inv_fetch:
  assumes inv: "sched_inv s"
  shows "sched_inv (snd (get_repo_lock key s))"
proof (cases "sc_repo_locks s key")
  case None
  let ?s = "snd (get_repo_lock key s)" and ?m = "sc_next_mutex s"
  have ok: "locks_ok s" using inv by (simp add: sched_inv_def)
  have s: "sc_repo_locks ?s = (sc_repo_locks s)(key \<mapsto> ?m)" "sc_next_mutex ?s = Suc ?m" "sc_held ?s = sc_held s"
    "sc_tasks ?s = sc_tasks s" "sc_next ?s = sc_next s" "sc_pending ?s = sc_pending s"
    using None by (simp_all add: get_repo_lock_def)
  have old: "m < ?m" if "sc_repo_locks s key' = Some m" for key' m using ok that by (simp add: locks_ok_def)
  have "locks_ok ?s"
    unfolding locks_ok_def s
  proof (intro conjI allI impI)
    fix key' m assume "((sc_repo_locks s)(key \<mapsto> ?m)) key' = Some m"
    then show "m < Suc ?m" using old by (cases "key' = key") (auto simp: less_Suc_eq)
  next
    fix m assume "Suc ?m \<le> m"
    then show "sc_held s m = None" using ok by (simp add: locks_ok_def)
  next
    fix k k' m
    assume "((sc_repo_locks s)(key \<mapsto> ?m)) k = Some m" "((sc_repo_locks s)(key \<mapsto> ?m)) k' = Some m"
    then show "k = k'" using old [of k m] old [of k' m] locks_okD(1) [OF ok] by (auto split: if_splits)
  next
    fix m k st assume "sc_held s m = Some (Handler k st)"
    then show "((sc_repo_locks s)(key \<mapsto> ?m)) k = Some m" using locks_okD(2) [OF ok] None by force
  next
    fix n t assume "sc_tasks s n = Some t"
    then show "n < sc_next s" "((sc_repo_locks s)(key \<mapsto> ?m)) (tk_key t) = Some (tk_mutex t)"
      using locks_okD(3) [OF ok] None by force+
  qed
  moreover have "tenant_ok ?s key' = tenant_ok s key'" for key'
  proof (rule tenant_ok_cong)
    have "sc_held s ?m = None" using ok by (simp add: locks_ok_def)
    then show "lock_holder ?s key' = lock_holder s key'" using None by (simp add: lock_holder_def s split: option.split)
  qed (simp_all add: s tasks_in_def)
  ultimately show ?thesis using inv by (simp add: sched_inv_def)
qed (simp add: get_repo_lock_def inv)

text \<open>A step changes one tenant; the others are as they were.\<close>

lemma inv_step:
  assumes "sched_inv s" and "locks_ok s'"
    and "\<And>key'. key' \<noteq> key \<Longrightarrow> lock_holder s' key' = lock_holder s key'"
    and "\<And>key'. key' \<noteq> key \<Longrightarrow> sc_pending s' key' = sc_pending s key'"
    and "\<And>key' phases. key' \<noteq> key \<Longrightarrow> tasks_in s' key' phases = tasks_in s key' phases"
    and "tenant_ok s key \<Longrightarrow> tenant_ok s' key"
  shows "sched_inv s'"
proof (rule sched_invI)
  fix key' show "tenant_ok s' key'"
    using assms tenant_ok_cong [of s' key' s] by (cases "key' = key") (auto simp: sched_inv_def)
qed (rule assms(2))

lemma inv_acquire:
  assumes inv: "sched_inv s" and m: "sc_repo_locks s key = Some m" "sc_held s m = None"
  shows "sched_inv (hold m (Some (Handler key Working)) s)"
proof (rule inv_step [OF inv])
  have ok: "locks_ok s" using inv by (simp add: sched_inv_def)
  show "locks_ok (hold m (Some (Handler key Working)) s)" by (rule locks_ok_hold [OF ok m(1)]) simp_all
  note [simp] = lock_holder_hold [OF ok m(1)]
  show "tenant_ok s key \<Longrightarrow> tenant_ok (hold m (Some (Handler key Working)) s) key"
    using m by (auto simp: tenant_ok_def lock_holder_def split: option.splits)
qed (use lock_holder_hold inv m in \<open>auto simp: sched_inv_def\<close>)

lemma inv_release:
  assumes inv: "sched_inv s" and m: "sc_held s m = Some (Handler key Working)"
  shows "sched_inv (hold m None s)"
proof (rule inv_step [OF inv])
  have ok: "locks_ok s" using inv by (simp add: sched_inv_def)
  note h = handler_holds [OF ok m]
  show "locks_ok (hold m None s)" by (rule locks_ok_hold [OF ok h(1)]) simp_all
  note [simp] = lock_holder_hold [OF ok h(1)]
  show "tenant_ok s key \<Longrightarrow> tenant_ok (hold m None s) key"
    using h by (auto simp: tenant_ok_def split: option.splits)
  show "\<And>key'. key' \<noteq> key \<Longrightarrow> lock_holder (hold m None s) key' = lock_holder s key'" by simp
qed simp_all

lemma inv_claim:
  assumes inv: "sched_inv s" and m: "sc_held s m = Some (Handler key Working)"
    and claim: "claim_slot enabled key s = (won, s')"
  shows "sched_inv (if won then hold m (Some (Handler key Claimed)) s' else s')"
proof (cases won)
  case False
  with claim have "s' = s" by (auto simp: claim_slot_def split: if_splits option.splits)
  with False inv show ?thesis by simp
next
  case True
  with claim have s': "s' = s\<lparr>sc_pending := (sc_pending s)(key \<mapsto> None)\<rparr>" and vacant: "sc_pending s key = None"
    by (auto simp: claim_slot_def split: if_splits option.splits)
  have ok: "locks_ok s" using inv by (simp add: sched_inv_def)
  note h = handler_holds [OF ok m]
  have ok': "locks_ok s'" "sc_repo_locks s' key = Some m" using ok h(1) by (simp_all add: s')
  have view: "lock_holder s' = lock_holder s" "sc_pending s' = (sc_pending s)(key \<mapsto> None)"
    "tasks_in s' = tasks_in s" by (simp_all add: s' fun_eq_iff)
  have "sched_inv (hold m (Some (Handler key Claimed)) s')"
  proof (rule inv_step [OF inv, where key = key])
    show "locks_ok (hold m (Some (Handler key Claimed)) s')" by (rule locks_ok_hold [OF ok']) simp_all
    note [simp] = lock_holder_hold [OF ok']
    show "tenant_ok s key \<Longrightarrow> tenant_ok (hold m (Some (Handler key Claimed)) s') key"
      using h vacant by (auto simp: tenant_ok_def view split: option.splits)
    show "\<And>key'. key' \<noteq> key \<Longrightarrow>
        lock_holder (hold m (Some (Handler key Claimed)) s') key' = lock_holder s key'" by (simp add: view)
  qed (simp_all add: view)
  with True show ?thesis by simp
qed

lemma inv_spawn:
  assumes inv: "sched_inv s" and m: "sc_held s m = Some (Handler key Claimed)"
    and spawn: "spawn_task key m s = (n, s')"
  shows "sched_inv (hold m (Some (Handler key (Spawned n))) s')"
proof (rule inv_step [OF inv, where key = key])
  have ok: "locks_ok s" using inv by (simp add: sched_inv_def)
  note h = handler_holds [OF ok m]
  from spawn have n: "n = sc_next s" and s': "sc_tasks s' = (sc_tasks s)(n \<mapsto> \<lparr>tk_key = key, tk_mutex = m, tk_phase = Counting\<rparr>)"
    "sc_next s' = Suc n" "sc_pending s' = sc_pending s" "sc_repo_locks s' = sc_repo_locks s"
    "sc_held s' = sc_held s" "sc_next_mutex s' = sc_next_mutex s"
    by (auto simp: spawn_task_def)
  have fresh: "sc_tasks s n = None"
    using locks_okD(3) [OF ok, of n] n by (cases "sc_tasks s n") auto
  have ok': "locks_ok s'" using ok h(1) unfolding locks_ok_def by (auto simp: s' n less_Suc_eq)
  have m': "sc_repo_locks s' key = Some m" using h(1) by (simp add: s')
  have tasks: "tasks_in s' key' phases =
      (if key' = key \<and> Counting \<in> phases then insert n (tasks_in s key' phases) else tasks_in s key' phases)"
    for key' phases using fresh by (auto simp: tasks_in_def s')
  have holder: "lock_holder s' key' = lock_holder s key'" for key'
    by (simp add: lock_holder_def s' split: option.split)
  show "locks_ok (hold m (Some (Handler key (Spawned n))) s')" by (rule locks_ok_hold [OF ok' m']) simp_all
  note [simp] = lock_holder_hold [OF ok' m'] tasks holder s'(3)
  show "tenant_ok s key \<Longrightarrow> tenant_ok (hold m (Some (Handler key (Spawned n))) s') key"
    using h by (auto simp: tenant_ok_def)
  show "\<And>key'. key' \<noteq> key \<Longrightarrow>
      lock_holder (hold m (Some (Handler key (Spawned n))) s') key' = lock_holder s key'" by simp
  show "\<And>key'. sc_pending (hold m (Some (Handler key (Spawned n))) s') key' = sc_pending s key'" by simp
  show "\<And>key' phases. key' \<noteq> key \<Longrightarrow>
      tasks_in (hold m (Some (Handler key (Spawned n))) s') key' phases = tasks_in s key' phases" by simp
qed

lemma inv_register:
  assumes inv: "sched_inv s" and m: "sc_held s m = Some (Handler key (Spawned n))"
  shows "sched_inv (hold m (Some (Handler key Working)) (register_task key n s))"
proof -
  have ok: "locks_ok s" and tok: "tenant_ok s key" using inv by (simp_all add: sched_inv_def)
  note h = handler_holds [OF ok m]
  have slot: "sc_pending s key = Some None" using tok h(2) by (simp add: tenant_ok_def)
  define s' where "s' = register_task key n s"
  have s': "s' = s\<lparr>sc_pending := (sc_pending s)(key \<mapsto> Some n)\<rparr>" using slot by (simp add: s'_def register_task_def)
  have view: "lock_holder s' = lock_holder s" "sc_pending s' = (sc_pending s)(key \<mapsto> Some n)"
    "tasks_in s' = tasks_in s" by (simp_all add: s' fun_eq_iff)
  have ok': "locks_ok s'" "sc_repo_locks s' key = Some m" using ok h(1) by (simp_all add: s')
  show ?thesis
    unfolding s'_def [symmetric]
  proof (rule inv_step [OF inv, where key = key])
    show "locks_ok (hold m (Some (Handler key Working)) s')" by (rule locks_ok_hold [OF ok']) simp_all
    note [simp] = lock_holder_hold [OF ok']
    show "tenant_ok s key \<Longrightarrow> tenant_ok (hold m (Some (Handler key Working)) s') key"
      using h by (auto simp: tenant_ok_def view)
    show "\<And>key'. key' \<noteq> key \<Longrightarrow>
        lock_holder (hold m (Some (Handler key Working)) s') key' = lock_holder s key'" by (simp add: view)
  qed (simp_all add: view)
qed

text \<open>\<open>cancel\<close> finds a slot that names a sleeping or waiting task, never a running one.\<close>

lemma cancel_slot:
  assumes inv: "sched_inv s" and m: "sc_held s m = Some (Handler key Working)"
    and slot: "sc_pending s key = Some x"
  obtains n t where "x = Some n" "sc_tasks s n = Some t" "tk_key t = key"
    "tk_phase t \<in> {Counting, Sleeping, Waiting}" "tasks_in s key live_phases = {n}"
proof -
  have ok: "locks_ok s" and tok: "tenant_ok s key" using inv by (simp_all add: sched_inv_def)
  note h = handler_holds [OF ok m]
  obtain n where n: "x = Some n" "tasks_in s key live_phases = {n}" "tasks_in s key locked_phases = {}"
    using tok h(2) slot by (auto simp: tenant_ok_def split: option.splits)
  have "n \<in> tasks_in s key live_phases" using n(2) by simp
  then obtain t where t: "sc_tasks s n = Some t" "tk_key t = key" "tk_phase t \<in> live_phases"
    by (auto simp: tasks_in_def)
  moreover have "tk_phase t \<notin> locked_phases" using task_phase_in [OF t(1), of locked_phases] t(2) n(3) by simp
  ultimately show thesis using that n by auto
qed

lemma inv_cancel:
  assumes inv: "sched_inv s" and m: "sc_held s m = Some (Handler key Working)"
  shows "sched_inv (cancel key s)"
proof (cases "sc_pending s key")
  case None
  with inv show ?thesis by (simp add: cancel_def)
next
  case (Some x)
  have ok: "locks_ok s" using inv by (simp add: sched_inv_def)
  note h = handler_holds [OF ok m]
  obtain n t where n: "x = Some n" "sc_tasks s n = Some t" "tk_key t = key"
    "tk_phase t \<in> {Counting, Sleeping, Waiting}" "tasks_in s key live_phases = {n}"
    using cancel_slot [OF inv m Some] .
  define u where "u = s\<lparr>sc_pending := (sc_pending s)(key := None)\<rparr>"
  have u: "sc_tasks u n = Some t" "lock_holder u = lock_holder s" "tasks_in u = tasks_in s" "locks_ok u"
    "sc_pending u = (sc_pending s)(key := None)"
    using n ok by (simp_all add: u_def fun_eq_iff)
  have c: "cancel key s = set_phase n Aborted u"
    using Some n by (auto simp: cancel_def abort_task_def u_def)
  show ?thesis unfolding c
  proof (rule inv_step [OF inv, where key = key])
    show "locks_ok (set_phase n Aborted u)" by (rule locks_ok_set_phase [OF u(4)])
    show "tenant_ok s key \<Longrightarrow> tenant_ok (set_phase n Aborted u) key"
      using h n u by (auto simp: tenant_ok_def tasks_in_set_phase [OF u(1)])
  qed (use u n in \<open>auto simp: tasks_in_set_phase [OF u(1)]\<close>)
qed

text \<open>A task's own steps.\<close>

lemma inv_task_phase:
  assumes inv: "sched_inv s" and t: "sc_tasks s n = Some t"
    and early: "tk_phase t \<in> {Counting, Sleeping}" and later: "ph \<in> {Sleeping, Waiting}"
  shows "sched_inv (set_phase n ph s)"
proof (rule inv_step [OF inv, where key = "tk_key t"])
  have ok: "locks_ok s" using inv by (simp add: sched_inv_def)
  show "locks_ok (set_phase n ph s)" by (rule locks_ok_set_phase [OF ok])
  have "n \<in> tasks_in s (tk_key t) live_phases" "n \<notin> tasks_in s (tk_key t) locked_phases"
    using early by (auto simp: task_phase_in [OF t])
  then have "tasks_in (set_phase n ph s) (tk_key t) live_phases = tasks_in s (tk_key t) live_phases"
    "tasks_in (set_phase n ph s) (tk_key t) locked_phases = tasks_in s (tk_key t) locked_phases"
    using later by (auto simp: tasks_in_set_phase [OF t])
  then show "tenant_ok s (tk_key t) \<Longrightarrow> tenant_ok (set_phase n ph s) (tk_key t)"
    by (simp add: tenant_ok_def split: option.splits holder.splits handler_stage.splits)
qed (simp_all add: tasks_in_set_phase [OF t])

lemma inv_locked:
  assumes inv: "sched_inv s" and t: "sc_tasks s n = Some t" "tk_phase t = Waiting"
    and free: "sc_held s (tk_mutex t) = None"
  shows "sched_inv (hold (tk_mutex t) (Some (Pass n)) (set_phase n Running s))"
proof (rule inv_step [OF inv, where key = "tk_key t"])
  let ?u = "set_phase n Running s"
  have ok: "locks_ok s" using inv by (simp add: sched_inv_def)
  have u: "locks_ok ?u" "sc_repo_locks ?u (tk_key t) = Some (tk_mutex t)"
    using locks_ok_set_phase [OF ok] locks_okD(3) [OF ok t(1)] by simp_all
  have none: "lock_holder s (tk_key t) = None" using u(2) free by (simp add: lock_holder_def)
  show "locks_ok (hold (tk_mutex t) (Some (Pass n)) ?u)" by (rule locks_ok_hold [OF u]) simp_all
  note [simp] = lock_holder_hold [OF u] tasks_in_set_phase [OF t(1)]
  have "n \<in> tasks_in s (tk_key t) live_phases" using t(2) by (simp add: task_phase_in [OF t(1)])
  then show "tenant_ok s (tk_key t) \<Longrightarrow> tenant_ok (hold (tk_mutex t) (Some (Pass n)) ?u) (tk_key t)"
    using none by (auto simp: tenant_ok_def split: option.splits)
  show "\<And>key'. key' \<noteq> tk_key t \<Longrightarrow>
      lock_holder (hold (tk_mutex t) (Some (Pass n)) ?u) key' = lock_holder s key'" by simp
qed (simp_all add: tasks_in_set_phase [OF t(1)])

lemma running_holds:
  assumes "sched_inv s" and "sc_tasks s n = Some t" and "tk_phase t \<in> locked_phases"
  shows "lock_holder s (tk_key t) = Some (Pass n)"
proof -
  have "n \<in> tasks_in s (tk_key t) locked_phases" using assms by (simp add: task_phase_in)
  moreover have "tenant_ok s (tk_key t)" using assms(1) by (simp add: sched_inv_def)
  ultimately show ?thesis by (auto simp: tenant_ok_def split: option.splits holder.splits)
qed

lemma inv_passed:
  assumes inv: "sched_inv s" and t: "sc_tasks s n = Some t" "tk_phase t = Running"
  shows "sched_inv (clear_slot n s)"
proof -
  have ok: "locks_ok s" using inv by (simp add: sched_inv_def)
  have h: "lock_holder s (tk_key t) = Some (Pass n)" using running_holds [OF inv t(1)] t(2) by simp
  define u where "u = s\<lparr>sc_pending := (sc_pending s)(tk_key t := None)\<rparr>"
  have u: "sc_tasks u n = Some t" "lock_holder u = lock_holder s" "tasks_in u = tasks_in s" "locks_ok u"
    "sc_pending u = (sc_pending s)(tk_key t := None)"
    using t ok by (simp_all add: u_def fun_eq_iff)
  have c: "clear_slot n s = set_phase n Cleared u" using t by (simp add: clear_slot_def u_def)
  have live: "n \<in> tasks_in s (tk_key t) live_phases" using t(2) by (simp add: task_phase_in [OF t(1)])
  show ?thesis unfolding c
  proof (rule inv_step [OF inv, where key = "tk_key t"])
    show "locks_ok (set_phase n Cleared u)" by (rule locks_ok_set_phase [OF u(4)])
    show "tenant_ok s (tk_key t) \<Longrightarrow> tenant_ok (set_phase n Cleared u) (tk_key t)"
      using h live u by (auto simp: tenant_ok_def tasks_in_set_phase [OF u(1)] split: option.splits)
  qed (use u in \<open>auto simp: tasks_in_set_phase [OF u(1)]\<close>)
qed

lemma inv_unlocked:
  assumes inv: "sched_inv s" and t: "sc_tasks s n = Some t" "tk_phase t = Cleared"
  shows "sched_inv (hold (tk_mutex t) None (set_phase n Finished s))"
proof (rule inv_step [OF inv, where key = "tk_key t"])
  let ?u = "set_phase n Finished s"
  have ok: "locks_ok s" using inv by (simp add: sched_inv_def)
  have u: "locks_ok ?u" "sc_repo_locks ?u (tk_key t) = Some (tk_mutex t)"
    using locks_ok_set_phase [OF ok] locks_okD(3) [OF ok t(1)] by simp_all
  have h: "lock_holder s (tk_key t) = Some (Pass n)" using running_holds [OF inv t(1)] t(2) by simp
  have dead: "n \<notin> tasks_in s (tk_key t) live_phases" using t(2) by (simp add: task_phase_in [OF t(1)])
  show "locks_ok (hold (tk_mutex t) None ?u)" by (rule locks_ok_hold [OF u]) simp_all
  note [simp] = lock_holder_hold [OF u] tasks_in_set_phase [OF t(1)]
  show "tenant_ok s (tk_key t) \<Longrightarrow> tenant_ok (hold (tk_mutex t) None ?u) (tk_key t)"
    using h dead by (auto simp: tenant_ok_def split: option.splits)
  show "\<And>key'. key' \<noteq> tk_key t \<Longrightarrow> lock_holder (hold (tk_mutex t) None ?u) key' = lock_holder s key'" by simp
qed (simp_all add: tasks_in_set_phase [OF t(1)])

lemma inv_start: "sched_inv new_scheduler"
  by (simp add: sched_inv_def locks_ok_def tenant_ok_def tasks_in_def lock_holder_def new_scheduler_def)

lemma inv_task_step: "task_step n s s' \<Longrightarrow> sched_inv s \<Longrightarrow> sched_inv s'"
  by (induction rule: task_step.induct) (auto intro: inv_task_phase inv_locked inv_passed inv_unlocked)

lemma inv_any_step: "sched_step enabled key s s' \<Longrightarrow> sched_inv s \<Longrightarrow> sched_inv s'"
proof (induction rule: sched_step.induct)
  case (claim s m key won s')
  then show ?case by (intro inv_claim)
next
  case (spawn s m key n s')
  then show ?case by (intro inv_spawn)
qed (auto intro: inv_fetch inv_acquire inv_register inv_cancel inv_release inv_task_step)

lemma inv_reachable: "sched_reachable enabled s \<Longrightarrow> sched_inv s"
  by (induction rule: sched_reachable.induct) (auto intro: inv_start inv_any_step)

section \<open>What it gives\<close>

definition ended :: "string \<Rightarrow> nat \<Rightarrow> scheduler \<Rightarrow> bool" where
  "ended key n s \<longleftrightarrow> sc_pending s key = None \<and> (\<exists>t. sc_tasks s n = Some t \<and> tk_phase t = Finished)
     \<and> lock_holder s key = None"

text \<open>A task alone with its tenant: how far it is, and what holds on the way.\<close>

fun rank :: "phase \<Rightarrow> nat" where
  "rank Counting = 0"
| "rank Sleeping = 1"
| "rank Waiting = 2"
| "rank Running = 3"
| "rank Cleared = 4"
| "rank Finished = 5"
| "rank Aborted = 5"

definition on_its_way :: "string \<Rightarrow> nat \<Rightarrow> nat \<Rightarrow> scheduler \<Rightarrow> bool" where
  "on_its_way key n k s \<longleftrightarrow> sched_inv s \<and>
     (\<exists>t. sc_tasks s n = Some t \<and> tk_key t = key \<and> rank (tk_phase t) = k \<and> tk_phase t \<noteq> Aborted \<and>
        (k < 3 \<longrightarrow> lock_holder s key = None) \<and> (k > 3 \<longrightarrow> sc_pending s key = None) \<and>
        (k = 5 \<longrightarrow> lock_holder s key = None))"

lemma set_phase_task: "sc_tasks s n = Some t \<Longrightarrow> sc_tasks (set_phase n ph s) n = Some (t\<lparr>tk_phase := ph\<rparr>)"
  by (simp add: set_phase_def)

lemma released:
  assumes inv: "sched_inv s" and t: "sc_tasks s n = Some t"
  shows "lock_holder (hold (tk_mutex t) None (set_phase n ph s)) (tk_key t) = None"
proof -
  have ok: "locks_ok s" using inv by (simp add: sched_inv_def)
  have "sc_repo_locks (set_phase n ph s) (tk_key t) = Some (tk_mutex t)" "locks_ok (set_phase n ph s)"
    using locks_okD(3) [OF ok t] locks_ok_set_phase [OF ok] by simp_all
  then show ?thesis by (simp add: lock_holder_hold)
qed

lemma way_forward:
  assumes way: "on_its_way key n k s" and step: "task_step n s s'"
  shows "on_its_way key n (Suc k) s' \<and> k < 5"
proof -
  have inv': "sched_inv s'" using inv_task_step [OF step] way by (simp add: on_its_way_def)
  from step show ?thesis
  proof cases
    case (counted t)
    with way inv' show ?thesis by (auto simp: on_its_way_def set_phase_task)
  next
    case (woken t)
    with way inv' show ?thesis by (auto simp: on_its_way_def set_phase_task)
  next
    case (locked t)
    with way inv' show ?thesis by (auto simp: on_its_way_def set_phase_task)
  next
    case (passed t)
    with way inv' show ?thesis by (auto simp: on_its_way_def clear_slot_def set_phase_def)
  next
    case (unlocked t)
    with way inv' show ?thesis using released [of s n t Finished] by (auto simp: on_its_way_def set_phase_task)
  qed
qed

lemma way_open:
  assumes way: "on_its_way key n k s" and "k < 5"
  shows "\<exists>s'. task_step n s s'"
proof -
  obtain t where t: "sc_tasks s n = Some t" "tk_key t = key" "rank (tk_phase t) = k" "tk_phase t \<noteq> Aborted"
    and free: "k < 3 \<longrightarrow> lock_holder s key = None" and inv: "sched_inv s"
    using way by (auto simp: on_its_way_def)
  have "sc_repo_locks s key = Some (tk_mutex t)" using inv t locks_okD(3) by (auto simp: sched_inv_def)
  with t free assms(2) task_step.intros [of s n t] show ?thesis
    by (cases "tk_phase t") (auto simp: lock_holder_def)
qed

lemma way_run: "(task_step n ^^ j) s s' \<Longrightarrow> on_its_way key n k s \<Longrightarrow> on_its_way key n (j + k) s' \<and> (j + k \<le> 5 \<or> j = 0)"
proof (induction j arbitrary: s')
  case (Suc j)
  then obtain u where "(task_step n ^^ j) s u" and last: "task_step n u s'" by auto
  with Suc have "on_its_way key n (j + k) u" by blast
  from way_forward [OF this last] show ?case by simp
qed simp

lemma way_ends: "on_its_way key n k s \<Longrightarrow> k \<le> 5 \<Longrightarrow> \<exists>s'. (task_step n ^^ (5 - k)) s s' \<and> ended key n s'"
proof (induction "5 - k" arbitrary: k s)
  case 0
  then have "tk_phase t = Finished" if "sc_tasks s n = Some t" for t
    using that by (cases "tk_phase t") (auto simp: on_its_way_def)
  with 0 show ?case by (auto simp: on_its_way_def ended_def)
next
  case (Suc m)
  then obtain u where u: "task_step n s u" using way_open by fastforce
  have "on_its_way key n (Suc k) u" by (rule way_forward [OF Suc.prems(1) u, THEN conjunct1])
  moreover have "m = 5 - Suc k" "Suc k \<le> 5" using Suc.hyps(2) by linarith+
  ultimately obtain s' where "(task_step n ^^ (5 - Suc k)) u s'" "ended key n s'"
    using Suc.hyps(1) by blast
  moreover have "5 - k = Suc (5 - Suc k)" using Suc by simp
  ultimately show ?case using u relpowp_Suc_I2 by metis
qed

text \<open>
  C25: at most one maintenance pass is armed or running for a tenant, none runs while a handler
  holds the tenant's lock, and where the lock is free a slot is filled exactly when a pass is on
  its way, so no tenant is left that can never be armed again.
\<close>

theorem one_pass_per_tenant:
  assumes "sched_reachable enabled s"
  shows "(\<forall>n n'. n \<in> tasks_in s key live_phases \<longrightarrow> n' \<in> tasks_in s key live_phases \<longrightarrow> n = n') \<and>
    (\<forall>n m st. n \<in> tasks_in s key {Running} \<longrightarrow> sc_repo_locks s key = Some m \<longrightarrow>
       sc_held s m \<noteq> Some (Handler key st)) \<and>
    (lock_holder s key = None \<longrightarrow>
       (sc_pending s key = None \<longleftrightarrow> tasks_in s key live_phases = {}) \<and>
       (\<forall>n. sc_pending s key = Some (Some n) \<longrightarrow> n \<in> tasks_in s key live_phases))"
proof -
  have inv: "sched_inv s" using inv_reachable [OF assms] .
  then have tok: "tenant_ok s key" by (simp add: sched_inv_def)
  have "n = n'" if "n \<in> tasks_in s key live_phases" "n' \<in> tasks_in s key live_phases" for n n'
    using tok that by (auto simp: tenant_ok_def split: option.splits holder.splits handler_stage.splits)
  moreover have "sc_held s m \<noteq> Some (Handler key st)"
    if "n \<in> tasks_in s key {Running}" "sc_repo_locks s key = Some m" for n m st
  proof -
    from that(1) obtain t where "sc_tasks s n = Some t" "tk_key t = key" "tk_phase t = Running"
      by (auto simp: tasks_in_def)
    from running_holds [OF inv this(1)] this(2,3) that(2) show ?thesis by (simp add: lock_holder_def)
  qed
  moreover have "(sc_pending s key = None \<longleftrightarrow> tasks_in s key live_phases = {}) \<and>
      (\<forall>n. sc_pending s key = Some (Some n) \<longrightarrow> n \<in> tasks_in s key live_phases)"
    if "lock_holder s key = None"
    using tok that by (auto simp: tenant_ok_def split: option.splits)
  ultimately show ?thesis by blast
qed

text \<open>
  C26: an armed pass is never stuck: once its tenant's lock is free, the task named by the slot ends
  by steps of its own alone, without a handler's help. However far it has come by itself, it can
  always go on, five steps are all it ever makes, and it ends with the slot vacated and the lock
  released.
\<close>

theorem armed_pass_finishes:
  assumes "sched_reachable enabled s" and "sc_pending s key = Some slot" and "lock_holder s key = None"
  shows "\<exists>n. slot = Some n \<and>
    (\<forall>j s1. (task_step n ^^ j) s s1 \<longrightarrow> j \<le> 5 \<and> (\<exists>i s2. (task_step n ^^ i) s1 s2 \<and> ended key n s2))"
proof -
  have inv: "sched_inv s" using inv_reachable [OF assms(1)] .
  then have "tenant_ok s key" by (simp add: sched_inv_def)
  with assms(2,3) obtain n where n: "slot = Some n" "n \<in> tasks_in s key live_phases"
    "tasks_in s key locked_phases = {}"
    by (auto simp: tenant_ok_def split: option.splits)
  then obtain t where t: "sc_tasks s n = Some t" "tk_key t = key" "tk_phase t \<in> {Counting, Sleeping, Waiting}"
    by (auto simp: tasks_in_def)
  then have way: "on_its_way key n (rank (tk_phase t)) s" "rank (tk_phase t) \<le> 5"
    using inv assms(3) by (auto simp: on_its_way_def)
  have "j \<le> 5 \<and> (\<exists>i s2. (task_step n ^^ i) s1 s2 \<and> ended key n s2)" if run: "(task_step n ^^ j) s s1" for j s1
    using way_run [OF run way(1)] way(2) way_ends [of key n "j + rank (tk_phase t)" s1] by auto
  with n(1) show ?thesis by blast
qed

text \<open>A sample run: a handler takes the lock, arms a pass and lets the lock go.\<close>

definition armed_scheduler :: "string \<Rightarrow> scheduler" where
  "armed_scheduler key =
     (let s1 = snd (get_repo_lock key new_scheduler);
          s2 = hold 0 (Some (Handler key Working)) s1;
          s3 = hold 0 (Some (Handler key Claimed)) (snd (claim_slot True key s2));
          s4 = hold 0 (Some (Handler key (Spawned 0))) (snd (spawn_task key 0 s3));
          s5 = hold 0 (Some (Handler key Working)) (register_task key 0 s4)
      in hold 0 None s5)"

lemma armed_reachable: "sched_reachable True (armed_scheduler key)"
proof -
  let ?s1 = "snd (get_repo_lock key new_scheduler)"
  let ?s2 = "hold 0 (Some (Handler key Working)) ?s1"
  let ?s3 = "hold 0 (Some (Handler key Claimed)) (snd (claim_slot True key ?s2))"
  let ?s4 = "hold 0 (Some (Handler key (Spawned 0))) (snd (spawn_task key 0 ?s3))"
  let ?s5 = "hold 0 (Some (Handler key Working)) (register_task key 0 ?s4)"
  have l1: "sc_repo_locks ?s1 key = Some 0" "sc_held ?s1 0 = None"
    by (simp_all add: get_repo_lock_def new_scheduler_def)
  have "sched_reachable True ?s1" by (rule more [OF start fetch_lock])
  then have "sched_reachable True ?s2" using more acquire [OF l1] by blast
  moreover have "sched_step True key ?s2 ?s3"
    using claim [of ?s2 0 key True True "snd (claim_slot True key ?s2)"]
    by (simp add: claim_slot_def get_repo_lock_def new_scheduler_def)
  ultimately have "sched_reachable True ?s3" using more by blast
  moreover have "sched_step True key ?s3 ?s4"
    using spawn [of ?s3 0 key "fst (spawn_task key 0 ?s3)"]
    by (simp add: spawn_task_def claim_slot_def get_repo_lock_def new_scheduler_def)
  ultimately have "sched_reachable True ?s4" using more by blast
  moreover have "sched_step True key ?s4 ?s5" using register [of ?s4 0 key 0] by simp
  ultimately have "sched_reachable True ?s5" using more by blast
  moreover have "sched_step True key ?s5 (hold 0 None ?s5)" using release [of ?s5 0 key] by simp
  ultimately show ?thesis using more by (simp only: armed_scheduler_def Let_def)
qed

lemma armed_view:
  "sc_pending (armed_scheduler key) key = Some (Some 0)" "lock_holder (armed_scheduler key) key = None"
  by (simp_all add: armed_scheduler_def Let_def lock_holder_def register_task_def spawn_task_def claim_slot_def
      get_repo_lock_def new_scheduler_def)

theorem one_pass_per_tenant_witness:
  "0 \<in> tasks_in (armed_scheduler ''acme/t1'') ''acme/t1'' live_phases"
  using one_pass_per_tenant [OF armed_reachable, of "''acme/t1''" "''acme/t1''"] by (simp add: armed_view)

theorem armed_pass_finishes_witness:
  "\<exists>i s'. (task_step 0 ^^ i) (armed_scheduler ''acme/t1'') s' \<and> ended ''acme/t1'' 0 s'"
proof -
  from armed_pass_finishes [OF armed_reachable armed_view]
  have "\<forall>j s1. (task_step 0 ^^ j) (armed_scheduler ''acme/t1'') s1 \<longrightarrow>
      (\<exists>i s2. (task_step 0 ^^ i) s1 s2 \<and> ended ''acme/t1'' 0 s2)" by auto
  from this [rule_format, of 0 "armed_scheduler ''acme/t1''"] show ?thesis by simp
qed

end
