(* ===== verification/Replication_Git.thy ===== *)
theory Replication_Git
  imports Staging
begin

text \<open>
  \<open>GitReplication\<close> of \<open>src/git.rs\<close>, the primitives replication is built on: listing the
  repositories of a store, exporting a packfile, importing one, relating two heads and mirroring
  HEAD onto disk; and the healing pass of \<open>src/checkout.rs\<close>, which runs the last on every
  repository. Commit graph queries, the revision walk, packfiles and checkouts are libgit2's.
\<close>

section \<open>Parameters\<close>

text \<open>
  A pack is the bytes of a packfile; \<open>y_foreach\<close> hands it over in chunks with the number of its
  objects. A checkout compares against the index, so it is told how refreshing that went; it
  answers its error, the paths it announced and the files it leaves.
\<close>

record 'o sync_libs =
  y_oid :: "string \<Rightarrow> 'o option" \<comment> \<open>\<open>Oid::from_str\<close>\<close>
  y_descendant_of :: "'o repo \<Rightarrow> 'o \<Rightarrow> 'o \<Rightarrow> git_error + bool"
  y_revwalk :: "'o repo \<Rightarrow> git_error option"
  y_push :: "'o repo \<Rightarrow> 'o \<Rightarrow> git_error option"
  y_hide :: "'o repo \<Rightarrow> 'o \<Rightarrow> git_error option"
  y_insert_walk :: "'o repo \<Rightarrow> 'o \<Rightarrow> 'o option \<Rightarrow> git_error + 'o list"
  y_foreach :: "'o repo \<Rightarrow> 'o list \<Rightarrow> git_error + bytes list"
  y_packwriter :: "'o repo \<Rightarrow> git_error option" \<comment> \<open>\<open>odb\<close> and \<open>packwriter\<close>\<close>
  y_import :: "bytes \<Rightarrow> 'o repo \<Rightarrow> git_error + 'o repo" \<comment> \<open>the writer's commit\<close>
  y_symbolic_target :: "'o repo \<Rightarrow> git_error + string option" \<comment> \<open>of the reference \<open>HEAD\<close>\<close>
  y_reference :: "string \<Rightarrow> 'o \<Rightarrow> 'o repo \<Rightarrow> git_error + 'o repo"
  y_write_index :: "'o repo \<Rightarrow> 'o \<Rightarrow> git_error option"
  y_checkout_head :: "unit app_result \<Rightarrow> 'o disk \<Rightarrow> git_error option \<times> string list \<times> worktree"

text \<open>
  What a scan sees. An entry is \<open>None\<close> where it cannot be read. \<open>Path::is_dir\<close> and
  \<open>Path::exists\<close> answer false where the metadata cannot be read, so their answers are the
  system's own: \<open>so_stat\<close> tells where the metadata of a \<open>.git\<close> can be read.
\<close>

record scan_os =
  so_root :: "io_error + string option list"
  so_collection_is_dir :: "string \<Rightarrow> bool"
  so_collection :: "string \<Rightarrow> io_error + string option list"
  so_tenant_is_dir :: "place \<Rightarrow> bool"
  so_stat :: "place \<Rightarrow> bool"

section \<open>Data\<close>

record repository_head =
  rh_collection_id :: string
  rh_tenant_id :: string
  rh_head_sha :: string

record repository_scan =
  rs_repositories :: "repository_head list"
  rs_complete :: bool

definition default_scan :: repository_scan where
  "default_scan = \<lparr>rs_repositories = [], rs_complete = False\<rparr>"

datatype head_probe = At string | NotARepository | Unreadable

datatype pack_apply =
    FastForwarded "string option" string
  | UpToDate
  | Ahead string string
  | Diverged string string

datatype head_relation = UnknownHead | SameHead | AheadOf string | DivergedFrom string

section \<open>Listing\<close>

definition no_repository :: git_error where
  "no_repository = GitError GitNotFound ''could not find repository''"

definition open_at :: "'o libs \<Rightarrow> 'o directories \<Rightarrow> place \<Rightarrow> git_error + 'o repo" where
  "open_at L dirs p = (case dirs p of None \<Rightarrow> Inl no_repository | Some d \<Rightarrow> g_open L d)"

text \<open>Whether the directory has a \<open>.git\<close>, and whether \<open>Path::exists\<close> says so.\<close>

definition git_exists :: "'o directories \<Rightarrow> place \<Rightarrow> bool" where
  "git_exists dirs p \<longleftrightarrow> (case dirs p of None \<Rightarrow> False | Some d \<Rightarrow> dk_git d \<noteq> None)"

definition git_seen :: "(place \<Rightarrow> bool) \<Rightarrow> 'o directories \<Rightarrow> place \<Rightarrow> bool" where
  "git_seen stat dirs p \<longleftrightarrow> stat p \<and> git_exists dirs p"

text \<open>\<open>repo.head().ok().and_then(|head| head.target())\<close>.\<close>

definition head_target :: "'o repo \<Rightarrow> 'o option" where
  "head_target r = (case r_head r of Inl _ \<Rightarrow> None | Inr h \<Rightarrow> Some h)"

definition probe_head :: "'o libs \<Rightarrow> (place \<Rightarrow> bool) \<Rightarrow> 'o directories \<Rightarrow> place \<Rightarrow> head_probe" where
  "probe_head L stat dirs p =
     (if \<not> git_seen stat dirs p then NotARepository
      else (case open_at L dirs p of
          Inl _ \<Rightarrow> Unreadable
        | Inr r \<Rightarrow>
            (case r_head r of
               Inr h \<Rightarrow> At (g_oid_string L h)
             | Inl (GitError code _) \<Rightarrow>
                 if code = GitUnbornBranch then NotARepository else Unreadable)))"

definition head_sha :: "'o libs \<Rightarrow> (place \<Rightarrow> bool) \<Rightarrow> 'o directories \<Rightarrow> place \<Rightarrow> string option" where
  "head_sha L stat dirs p =
     (case probe_head L stat dirs p of At sha \<Rightarrow> Some sha | NotARepository \<Rightarrow> None | Unreadable \<Rightarrow> None)"

definition scannable_name :: "(string \<Rightarrow> string app_result) \<Rightarrow> string \<Rightarrow> string option" where
  "scannable_name validator name =
     (if \<not> valid_utf8 name then None
      else (case validator name of Inl _ \<Rightarrow> None | Inr v \<Rightarrow> Some v))"

text \<open>The two nested loops; each takes the scan so far.\<close>

definition mark_incomplete :: "repository_scan \<Rightarrow> repository_scan" where
  "mark_incomplete scan = scan\<lparr>rs_complete := False\<rparr>"

fun scan_tenants ::
  "'o libs \<Rightarrow> scan_os \<Rightarrow> 'o directories \<Rightarrow> string \<Rightarrow> string option list \<Rightarrow> repository_scan \<Rightarrow> repository_scan"
where
  "scan_tenants L so dirs collection [] scan = scan"
| "scan_tenants L so dirs collection (None # entries) scan =
     scan_tenants L so dirs collection entries (mark_incomplete scan)"
| "scan_tenants L so dirs collection (Some name # entries) scan =
     scan_tenants L so dirs collection entries
       (case scannable_name tenant_id name of
          None \<Rightarrow> scan
        | Some tenant \<Rightarrow>
            if \<not> so_tenant_is_dir so (collection, name) then scan
            else (case probe_head L (so_stat so) dirs (collection, name) of
                At sha \<Rightarrow> scan\<lparr>rs_repositories := rs_repositories scan @
                  [\<lparr>rh_collection_id = collection, rh_tenant_id = tenant, rh_head_sha = sha\<rparr>]\<rparr>
              | NotARepository \<Rightarrow> scan
              | Unreadable \<Rightarrow> mark_incomplete scan))"

fun scan_collections ::
  "'o libs \<Rightarrow> scan_os \<Rightarrow> 'o directories \<Rightarrow> string option list \<Rightarrow> repository_scan \<Rightarrow> repository_scan"
where
  "scan_collections L so dirs [] scan = scan"
| "scan_collections L so dirs (None # entries) scan =
     scan_collections L so dirs entries (mark_incomplete scan)"
| "scan_collections L so dirs (Some name # entries) scan =
     scan_collections L so dirs entries
       (case scannable_name collection_id name of
          None \<Rightarrow> scan
        | Some collection \<Rightarrow>
            if \<not> so_collection_is_dir so name then scan
            else (case so_collection so name of
                Inl _ \<Rightarrow> mark_incomplete scan
              | Inr tenants \<Rightarrow> scan_tenants L so dirs collection tenants scan))"

definition list_repositories :: "'o libs \<Rightarrow> scan_os \<Rightarrow> 'o directories \<Rightarrow> repository_scan" where
  "list_repositories L so dirs =
     (case so_root so of
        Inl _ \<Rightarrow> \<lparr>rs_repositories = [], rs_complete = False\<rparr>
      | Inr collections \<Rightarrow>
          scan_collections L so dirs collections \<lparr>rs_repositories = [], rs_complete = True\<rparr>)"

section \<open>Exporting\<close>

definition callback_abort :: git_error where
  "callback_abort = GitError GitOther ''the user aborted the operation''"

text \<open>
  \<open>packbuilder.foreach\<close>: the callback is told the chunks it took so far; the answer is the result
  and the chunks handed over.
\<close>

fun hand_chunks :: "(bytes list \<Rightarrow> bytes \<Rightarrow> bool) \<Rightarrow> bytes list \<Rightarrow> bytes list \<Rightarrow> unit app_result \<times> bytes list"
where
  "hand_chunks on_chunk sent [] = (Inr (), sent)"
| "hand_chunks on_chunk sent (chunk # chunks) =
     (if on_chunk sent chunk then hand_chunks on_chunk (sent @ [chunk]) chunks
      else (Inl (GitErr callback_abort), sent @ [chunk]))"

definition walk_hidden :: "'o sync_libs \<Rightarrow> 'o repo \<Rightarrow> string option \<Rightarrow> 'o option" where
  "walk_hidden Y r have =
     (case have of
        None \<Rightarrow> None
      | Some sha \<Rightarrow>
          (case y_oid Y sha of
             None \<Rightarrow> None
           | Some oid \<Rightarrow> if r_commits r oid \<noteq> None then Some oid else None))"

definition fault_result :: "git_error option \<Rightarrow> unit app_result" where
  "fault_result fault = (case fault of None \<Rightarrow> Inr () | Some e \<Rightarrow> Inl (GitErr e))"

definition walk_pack ::
  "'o sync_libs \<Rightarrow> 'o repo \<Rightarrow> string \<Rightarrow> string option \<Rightarrow> ('o list \<times> bytes list) app_result" where
  "walk_pack Y r at_sha have =
     and_then (case y_oid Y at_sha of None \<Rightarrow> Inl (CommitNotFound at_sha) | Some oid \<Rightarrow> Inr oid) (\<lambda>head.
     and_then (fault_result (y_revwalk Y r)) (\<lambda>_.
     and_then (fault_result (y_push Y r head)) (\<lambda>_.
     and_then (fault_result (Option.bind (walk_hidden Y r have) (y_hide Y r))) (\<lambda>_.
     and_then (git_result (y_insert_walk Y r head (walk_hidden Y r have))) (\<lambda>oids.
     and_then (git_result (y_foreach Y r oids)) (\<lambda>chunks.
       Inr (oids, chunks)))))))"

definition build_pack ::
  "'o libs \<Rightarrow> 'o sync_libs \<Rightarrow> 'o disk \<Rightarrow> string \<Rightarrow> string \<Rightarrow> string option \<Rightarrow>
     (bytes list \<Rightarrow> bytes \<Rightarrow> bool) \<Rightarrow> nat app_result \<times> bytes list" where
  "build_pack L Y d tenant at_sha have on_chunk =
     (case and_then (open_tenant_repo L tenant d) (\<lambda>r. walk_pack Y r at_sha have) of
        Inl e \<Rightarrow> (Inl e, [])
      | Inr (oids, chunks) \<Rightarrow>
          (case hand_chunks on_chunk [] chunks of
             (Inl e, sent) \<Rightarrow> (Inl e, sent)
           | (Inr _, sent) \<Rightarrow> (Inr (length oids), sent)))"

section \<open>Importing\<close>

definition head_reference_name :: "'o sync_libs \<Rightarrow> 'o repo \<Rightarrow> string app_result" where
  "head_reference_name Y r =
     and_then (git_result (y_symbolic_target Y r)) (\<lambda>target.
       Inr (case target of None \<Rightarrow> ''refs/heads/master'' | Some name \<Rightarrow> name))"

text \<open>The objects of the downloaded file: \<open>pack\<close> is what opening and reading it answers.\<close>

definition unpack :: "'o sync_libs \<Rightarrow> io_error + bytes \<Rightarrow> ('o, unit) git_action" where
  "unpack Y pack =
     bind_act (odb_read (\<lambda>r. fault_result (y_packwriter Y r))) (\<lambda>_.
     bind_act (act_lift (case pack of Inl e \<Rightarrow> Inl (IoErr e) | Inr content \<Rightarrow> Inr content)) (\<lambda>content.
       odb_step (\<lambda>r. case y_import Y content r of Inl e \<Rightarrow> Inl e | Inr r' \<Rightarrow> Inr ((), r'))))"

definition move_head :: "'o libs \<Rightarrow> 'o sync_libs \<Rightarrow> 'o \<Rightarrow> string \<Rightarrow> 'o option \<Rightarrow> ('o, pack_apply) git_action" where
  "move_head L Y new_oid new_head local_head =
     bind_act (odb_read (head_reference_name Y)) (\<lambda>name.
     bind_act (odb_step (\<lambda>r. case y_reference Y name new_oid r of Inl e \<Rightarrow> Inl e | Inr r' \<Rightarrow> Inr ((), r'))) (\<lambda>_.
       act_ok (FastForwarded (map_option (g_oid_string L) local_head) new_head)))"

definition advance :: "'o libs \<Rightarrow> 'o sync_libs \<Rightarrow> 'o \<Rightarrow> string \<Rightarrow> ('o, pack_apply) git_action" where
  "advance L Y new_oid new_head =
     bind_act (odb_read (\<lambda>r. if r_commits r new_oid = None then Inl (CommitNotFound new_head) else Inr (head_target r))) (\<lambda>local_head.
       (case local_head of
          None \<Rightarrow> move_head L Y new_oid new_head None
        | Some local_oid \<Rightarrow>
            if local_oid = new_oid then act_ok UpToDate
            else
              bind_act (odb_read (\<lambda>r. git_result (y_descendant_of Y r new_oid local_oid))) (\<lambda>forward.
                if forward then move_head L Y new_oid new_head (Some local_oid)
                else
                  bind_act (odb_read (\<lambda>r. git_result (y_descendant_of Y r local_oid new_oid))) (\<lambda>ahead.
                    act_ok (if ahead then Ahead (g_oid_string L local_oid) new_head
                            else Diverged (g_oid_string L local_oid) new_head)))))"

definition import_pack ::
  "'o libs \<Rightarrow> 'o sync_libs \<Rightarrow> io_error + bytes \<Rightarrow> string \<Rightarrow> ('o, pack_apply) git_action" where
  "import_pack L Y pack new_head =
     (case y_oid Y new_head of
        None \<Rightarrow> act_err (CommitNotFound new_head)
      | Some new_oid \<Rightarrow> bind_act (unpack Y pack) (\<lambda>_. advance L Y new_oid new_head))"

definition init_repo :: "'o libs \<Rightarrow> ('o, unit) git_action" where
  "init_repo L d =
     (case g_init L d of Inl e \<Rightarrow> (Inl (GitErr e), d) | Inr r \<Rightarrow> (Inr (), d\<lparr>dk_exists := True, dk_git := Some r\<rparr>))"

definition open_repo :: "'o libs \<Rightarrow> ('o, unit) git_action" where
  "open_repo L d = (case g_open L d of Inl e \<Rightarrow> (Inl (GitErr e), d) | Inr _ \<Rightarrow> (Inr (), d))"

definition apply_pack ::
  "'o libs \<Rightarrow> 'o sync_libs \<Rightarrow> 'o os \<Rightarrow> place \<Rightarrow> io_error + bytes \<Rightarrow> string \<Rightarrow> ('o, pack_apply) store_action"
where
  "apply_pack L Y fs repo_path pack new_head s =
     (if git_exists (sr_dirs s) repo_path then
        in_dir repo_path (bind_act (open_repo L) (\<lambda>_. import_pack L Y pack new_head)) s
      else if sr_dirs s repo_path \<noteq> None then
        in_dir repo_path (bind_act (init_repo L) (\<lambda>_. import_pack L Y pack new_head)) s
      else
        create fs repo_path (bind_act (init_repo L) (\<lambda>_. import_pack L Y pack new_head)) s)"

section \<open>Mirroring\<close>

definition refresh_index :: "'o sync_libs \<Rightarrow> 'o repo \<Rightarrow> unit app_result" where
  "refresh_index Y r = and_then (head_tree r) (\<lambda>(_, tree). fault_result (y_write_index Y r tree))"

text \<open>Only a lock that \<open>cleanup_stale_index_lock\<close> reports removed is gone.\<close>

definition clear_index_lock :: "'o os \<Rightarrow> int \<Rightarrow> place \<Rightarrow> 'o store \<Rightarrow> 'o store" where
  "clear_index_lock fs now p s =
     (let metadata = (case sr_locks s p of
            None \<Rightarrow> Inl (IoError IoNotFound ''No such file or directory (os error 2)'')
          | Some modified \<Rightarrow> Inr (Inr modified)) in
      case cleanup_stale_index_lock metadata now (os_unlink fs p) of
        Inr True \<Rightarrow> s\<lparr>sr_locks := (sr_locks s)(p := None)\<rparr>
      | _ \<Rightarrow> s)"

definition mirror_repository ::
  "'o sync_libs \<Rightarrow> 'o os \<Rightarrow> int \<Rightarrow> place \<Rightarrow> 'o disk \<Rightarrow> 'o repo \<Rightarrow> 'o store \<Rightarrow> nat \<times> 'o store" where
  "mirror_repository Y fs now p d r s =
     (if head_target r = None then (0, s)
      else (case y_checkout_head Y (refresh_index Y r) d of
          (_, touched, work) \<Rightarrow>
            (length touched, put_dir p (Some (d\<lparr>dk_work := work\<rparr>)) (clear_index_lock fs now p s))))"

definition mirror_working_tree ::
  "'o libs \<Rightarrow> 'o sync_libs \<Rightarrow> 'o os \<Rightarrow> int \<Rightarrow> place \<Rightarrow> 'o store \<Rightarrow> nat \<times> 'o store" where
  "mirror_working_tree L Y fs now p s =
     (case sr_dirs s p of
        None \<Rightarrow> (0, s)
      | Some d \<Rightarrow> (case g_open L d of Inl _ \<Rightarrow> (0, s) | Inr r \<Rightarrow> mirror_repository Y fs now p d r s))"

section \<open>Relating heads\<close>

definition relation_to :: "'o libs \<Rightarrow> 'o sync_libs \<Rightarrow> 'o directories \<Rightarrow> place \<Rightarrow> string \<Rightarrow> head_relation" where
  "relation_to L Y dirs p remote_sha =
     (case open_at L dirs p of
        Inl _ \<Rightarrow> UnknownHead
      | Inr r \<Rightarrow>
          (case head_target r of
             None \<Rightarrow> UnknownHead
           | Some local_oid \<Rightarrow>
               (case y_oid Y remote_sha of
                  None \<Rightarrow> UnknownHead
                | Some remote_oid \<Rightarrow>
                    if r_commits r remote_oid = None then UnknownHead
                    else if remote_oid = local_oid then SameHead
                    else (case y_descendant_of Y r local_oid remote_oid of
                        Inr True \<Rightarrow> AheadOf (g_oid_string L local_oid)
                      | Inr False \<Rightarrow> DivergedFrom (g_oid_string L local_oid)
                      | Inl _ \<Rightarrow> UnknownHead))))"

section \<open>Healing at start-up\<close>

text \<open>The counts are of the repositories and files healed; each repository is taken under its lock.\<close>

fun heal_repositories ::
  "'o libs \<Rightarrow> 'o sync_libs \<Rightarrow> 'o os \<Rightarrow> int \<Rightarrow> repository_head list \<Rightarrow> nat \<times> nat \<Rightarrow> 'o store \<Rightarrow> (nat \<times> nat) \<times> 'o store"
where
  "heal_repositories L Y fs now [] healed s = (healed, s)"
| "heal_repositories L Y fs now (repository # rest) (repositories, files) s =
     (case mirror_working_tree L Y fs now (rh_collection_id repository, rh_tenant_id repository) s of
        (touched, s') \<Rightarrow>
          heal_repositories L Y fs now rest
            (if touched > 0 then (repositories + 1, files + touched) else (repositories, files)) s')"

definition heal_on_start ::
  "'o libs \<Rightarrow> 'o sync_libs \<Rightarrow> 'o os \<Rightarrow> scan_os \<Rightarrow> int \<Rightarrow> bool \<Rightarrow> bool \<Rightarrow> 'o store \<Rightarrow> (nat \<times> nat) \<times> 'o store" where
  "heal_on_start L Y fs so now checkout_files autoheal s =
     (if \<not> checkout_files then ((0, 0), s)
      else if \<not> autoheal then ((0, 0), s)
      else heal_repositories L Y fs now (rs_repositories (list_repositories L so (sr_dirs s))) (0, 0) s)"

end
