(* ===== verification/Sync_Facts.thy ===== *)
theory Sync_Facts
  imports Replication_Git Staging_Facts Git_Laws
begin

text \<open>
  What replication may rely on from a pack: importing one only ever moves a repository forward
  along its own history, and a replica that imports the pack its master built for it reads the
  master's content. The law \<open>sync_ok\<close> is libgit2's documented behaviour.
\<close>

section \<open>Commit graphs\<close>

definition parent_of :: "'o repo \<Rightarrow> 'o \<Rightarrow> 'o \<Rightarrow> bool" where
  "parent_of r a p \<longleftrightarrow> (\<exists>c. r_commits r a = Some c \<and> p \<in> set (c_parents c))"

definition descends :: "'o repo \<Rightarrow> 'o \<Rightarrow> 'o \<Rightarrow> bool" where
  "descends r = (parent_of r)\<^sup>+\<^sup>+"

lemma parent_extends: "extends r r' \<Longrightarrow> parent_of r a p \<Longrightarrow> parent_of r' a p"
  by (auto simp: parent_of_def dest: extends_commit)

lemma descends_extends: "descends r a b \<Longrightarrow> extends r r' \<Longrightarrow> descends r' a b"
  unfolding descends_def
  by (induction rule: tranclp_induct)
    (blast intro: parent_extends tranclp.r_into_trancl tranclp.trancl_into_trancl)+

lemma descends_trans: "descends r a b \<Longrightarrow> descends r b c \<Longrightarrow> descends r a c"
  unfolding descends_def by (rule tranclp_trans)

text \<open>The objects below a commit or tree, submodules apart.\<close>

definition linked :: "'o repo \<Rightarrow> 'o \<Rightarrow> 'o \<Rightarrow> bool" where
  "linked r x y \<longleftrightarrow>
     (\<exists>c. r_commits r x = Some c \<and> (y \<in> set (c_parents c) \<or> y = c_tree c)) \<or>
     (\<exists>es e. r_trees r x = Some es \<and> e \<in> set es \<and> te_kind e \<noteq> OtherKind \<and> y = te_id e)"

definition reach :: "'o repo \<Rightarrow> 'o \<Rightarrow> 'o \<Rightarrow> bool" where
  "reach r = (linked r)\<^sup>*\<^sup>*"

type_synonym 'o stored = "'o commit option \<times> 'o tree_entry list option \<times> bytes option"

definition object_at :: "'o repo \<Rightarrow> 'o \<Rightarrow> 'o stored" where
  "object_at r x = (r_commits r x, r_trees r x, r_blobs r x)"

definition holds :: "'o repo \<Rightarrow> 'o \<Rightarrow> bool" where
  "holds r x \<longleftrightarrow> object_at r x \<noteq> (None, None, None)"

definition whole :: "'o repo \<Rightarrow> 'o \<Rightarrow> bool" where
  "whole r root \<longleftrightarrow> (\<forall>x. reach r root x \<longrightarrow> holds r x)"

text \<open>Ids address content: two repositories never hold different objects under one id.\<close>

definition agree :: "'o repo \<Rightarrow> 'o repo \<Rightarrow> bool" where
  "agree r r' \<longleftrightarrow> (\<forall>x. holds r x \<and> holds r' x \<longrightarrow> object_at r x = object_at r' x)"

definition alike :: "'o repo \<Rightarrow> 'o repo \<Rightarrow> 'o \<Rightarrow> bool" where
  "alike r r' root \<longleftrightarrow> (\<forall>x. reach r root x \<longrightarrow> object_at r x = object_at r' x)"

lemma object_at_eq:
  "object_at r x = object_at r' x \<longleftrightarrow>
     r_commits r x = r_commits r' x \<and> r_trees r x = r_trees r' x \<and> r_blobs r x = r_blobs r' x"
  by (simp add: object_at_def)

lemma linked_same: "object_at r x = object_at r' x \<Longrightarrow> linked r x = linked r' x"
  by (simp add: linked_def object_at_eq fun_eq_iff)

lemma linked_parent: "parent_of r a b \<Longrightarrow> linked r a b"
  by (auto simp: parent_of_def linked_def)

lemma reach_self [simp]: "reach r x x"
  by (simp add: reach_def)

lemma reach_step: "reach r a x \<Longrightarrow> linked r x y \<Longrightarrow> reach r a y"
  unfolding reach_def by (rule rtranclp.rtrancl_into_rtrancl)

lemma reach_trans: "reach r a b \<Longrightarrow> reach r b c \<Longrightarrow> reach r a c"
  unfolding reach_def by (rule rtranclp_trans)

lemma reach_induct [consumes 1, case_names self step]:
  assumes "reach r root x" and "P root"
    and "\<And>x y. reach r root x \<Longrightarrow> linked r x y \<Longrightarrow> P x \<Longrightarrow> P y"
  shows "P x"
  using assms unfolding reach_def by (induction rule: rtranclp_induct) auto

lemma alike_reach:
  assumes "alike r r' root" and "reach r root x"
  shows "reach r' root x"
  using assms(2)
proof (induction rule: reach_induct)
  case (step x y)
  then have "linked r' x y" using linked_same [of r x r'] assms(1) by (auto simp: alike_def)
  with step show ?case by (auto intro: reach_step)
qed simp

lemma alike_sub: "alike r r' root \<Longrightarrow> reach r root x \<Longrightarrow> alike r r' x"
  by (auto simp: alike_def intro: reach_trans)

lemma descends_reach: "descends r a b \<Longrightarrow> reach r a b"
  unfolding descends_def
  by (induction rule: tranclp_induct) (auto intro: reach_step reach_step [OF reach_self] linked_parent)

lemma alike_descends:
  assumes "alike r r' a" and "descends r a b"
  shows "descends r' a b"
  using assms(2) unfolding descends_def
proof (induction rule: tranclp_induct)
  case (base y)
  then have "parent_of r' a y" using assms(1) by (auto simp: alike_def object_at_eq parent_of_def)
  then show ?case ..
next
  case (step y z)
  then have "reach r a y" using descends_reach by (auto simp: descends_def)
  then have "parent_of r' y z" using step(2) assms(1) by (auto simp: alike_def object_at_eq parent_of_def)
  with step show ?case by auto
qed

text \<open>Two repositories whole below an object hold the same below it.\<close>

lemma whole_alike:
  assumes agree: "agree r r'" and whole: "whole r root" "whole r' root"
  shows "alike r r' root"
proof -
  have "reach r' root x \<and> object_at r x = object_at r' x" if "reach r root x" for x
    using that
  proof (induction rule: reach_induct)
    case self
    then show ?case using assms by (simp add: agree_def whole_def)
  next
    case (step x y)
    then have "reach r' root y" "reach r root y"
      using linked_same [of r x r'] by (auto intro: reach_step)
    then show ?case using assms by (auto simp: agree_def whole_def)
  qed
  then show ?thesis by (simp add: alike_def)
qed

section \<open>The laws\<close>

text \<open>The objects of a pack, added to a repository.\<close>

definition add_objects :: "'o repo \<Rightarrow> 'o list \<Rightarrow> 'o repo \<Rightarrow> 'o repo" where
  "add_objects m oids r =
     r\<lparr>r_commits := \<lambda>x. if x \<in> set oids \<and> holds m x then r_commits m x else r_commits r x,
       r_trees := \<lambda>x. if x \<in> set oids \<and> holds m x then r_trees m x else r_trees r x,
       r_blobs := \<lambda>x. if x \<in> set oids \<and> holds m x then r_blobs m x else r_blobs r x\<rparr>"

definition sync_ok :: "'o libs \<Rightarrow> 'o sync_libs \<Rightarrow> ('o repo \<Rightarrow> bool) \<Rightarrow> bool" where
  "sync_ok L Y I \<longleftrightarrow>
     open_law L \<and>
     (\<forall>d r. g_init L d = Inr r \<and> dk_git d = None \<longrightarrow> I r \<and> head_target r = None \<and> (\<forall>x. \<not> holds r x)) \<and>
     (\<forall>x. y_oid Y (g_oid_string L x) = Some x) \<and>
     (\<forall>r a b v. I r \<and> y_descendant_of Y r a b = Inr v \<longrightarrow> v = descends r a b) \<and>
     (\<forall>content r r'. I r \<and> y_import Y content r = Inr r' \<longrightarrow> I r' \<and> extends r r' \<and> r_head r' = r_head r) \<and>
     (\<forall>r name x r'. I r \<and> r_commits r x \<noteq> None \<and> head_reference_name Y r = Inr name \<and>
        y_reference Y name x r = Inr r' \<longrightarrow> I r' \<and> r' = r\<lparr>r_head := Inr x\<rparr>)"

text \<open>A packfile carries what its walk reaches, and imports as those objects.\<close>

definition pack_ok :: "'o sync_libs \<Rightarrow> ('o repo \<Rightarrow> bool) \<Rightarrow> bool" where
  "pack_ok Y I \<longleftrightarrow>
     (\<forall>m head hidden oids x. I m \<and> y_insert_walk Y m head hidden = Inr oids \<and> reach m head x \<longrightarrow>
        x \<in> set oids \<or> (\<exists>h. hidden = Some h \<and> reach m h x)) \<and>
     (\<forall>m r oids chunks r'. I m \<and> I r \<and> agree m r \<and> y_foreach Y m oids = Inr chunks \<and>
        y_import Y (List.concat chunks) r = Inr r' \<longrightarrow> r' = add_objects m oids r)"

text \<open>A path lookup reads the trees below its root and nothing else.\<close>

definition lookup_ok :: "'o libs \<Rightarrow> bool" where
  "lookup_ok L \<longleftrightarrow>
     (\<forall>r r' t p. alike r r' t \<longrightarrow> g_get_path L r t p = g_get_path L r' t p) \<and>
     (\<forall>r t p e. g_get_path L r t p = Some e \<and> te_kind e = Blob \<longrightarrow> reach r t (te_id e))"

lemma sync_rules:
  assumes "sync_ok L Y I"
  shows "g_open L d = Inr r \<Longrightarrow> dk_git d = Some r"
    and "g_init L d = Inr r \<Longrightarrow> dk_git d = None \<Longrightarrow> I r \<and> head_target r = None \<and> (\<forall>x. \<not> holds r x)"
    and "y_oid Y (g_oid_string L x) = Some x"
    and "I r \<Longrightarrow> y_descendant_of Y r a b = Inr v \<Longrightarrow> v \<longleftrightarrow> descends r a b"
    and "I r \<Longrightarrow> y_import Y content r = Inr r' \<Longrightarrow> I r' \<and> extends r r' \<and> r_head r' = r_head r"
    and "I r \<Longrightarrow> r_commits r x \<noteq> None \<Longrightarrow> head_reference_name Y r = Inr name \<Longrightarrow> y_reference Y name x r = Inr r' \<Longrightarrow>
      I r' \<and> r' = r\<lparr>r_head := Inr x\<rparr>"
proof -
  note ok = assms [unfolded sync_ok_def open_law_def]
  show "g_open L d = Inr r \<Longrightarrow> dk_git d = Some r" using ok by blast
  show "g_init L d = Inr r \<Longrightarrow> dk_git d = None \<Longrightarrow> I r \<and> head_target r = None \<and> (\<forall>x. \<not> holds r x)"
    using ok by blast
  show "y_oid Y (g_oid_string L x) = Some x" using ok by blast
  show "I r \<Longrightarrow> y_descendant_of Y r a b = Inr v \<Longrightarrow> v \<longleftrightarrow> descends r a b" using ok by blast
  show "I r \<Longrightarrow> y_import Y content r = Inr r' \<Longrightarrow> I r' \<and> extends r r' \<and> r_head r' = r_head r"
    using ok by blast
  show "I r \<Longrightarrow> r_commits r x \<noteq> None \<Longrightarrow> head_reference_name Y r = Inr name \<Longrightarrow> y_reference Y name x r = Inr r' \<Longrightarrow>
      I r' \<and> r' = r\<lparr>r_head := Inr x\<rparr>"
    using ok by blast
qed

section \<open>Only ever forward\<close>

definition forwards :: "('o repo \<Rightarrow> bool) \<Rightarrow> 'o disk \<Rightarrow> 'o disk \<Rightarrow> bool" where
  "forwards I d d' \<longleftrightarrow>
     (\<forall>r. dk_git d = Some r \<and> I r \<longrightarrow>
        (\<exists>r'. dk_git d' = Some r' \<and> I r' \<and> extends r r' \<and>
           (r_head r' = r_head r \<or>
            (\<exists>x. r_head r' = Inr x \<and> (\<forall>l. r_head r = Inr l \<longrightarrow> descends r' x l)))))"

lemma forwards_refl: "forwards I d d"
  by (auto simp: forwards_def)

lemma extends_head [simp]: "extends r (r\<lparr>r_head := x\<rparr>)"
  by (simp add: extends_def)

lemma descends_head [simp]: "descends (r\<lparr>r_head := x\<rparr>) = descends r"
proof -
  have "parent_of (r\<lparr>r_head := x\<rparr>) = parent_of r" by (simp add: parent_of_def fun_eq_iff)
  then show ?thesis by (simp add: descends_def)
qed

text \<open>A successful run of \<open>advance\<close>, case by case.\<close>

lemma move_head_effect:
  assumes ok: "sync_ok L Y I" and r: "dk_git d = Some r" "I r" "r_commits r x \<noteq> None"
    and run: "move_head L Y x new_head local_head d = (q, d')"
  shows "(\<exists>e. q = Inl e) \<and> d' = d \<or>
    q = Inr (FastForwarded (map_option (g_oid_string L) local_head) new_head) \<and>
    d' = d\<lparr>dk_git := Some (r\<lparr>r_head := Inr x\<rparr>)\<rparr> \<and> I (r\<lparr>r_head := Inr x\<rparr>)"
proof (cases "head_reference_name Y r")
  case (Inl e)
  then show ?thesis using run r by (auto simp: move_head_def bind_act_def odb_read_def)
next
  case (Inr name)
  show ?thesis
  proof (cases "y_reference Y name x r")
    case (Inl e)
    then show ?thesis using run r Inr by (auto simp: move_head_def bind_act_def odb_read_def odb_step_def)
  next
    case (Inr r')
    from sync_rules(6) [OF ok r(2,3) \<open>head_reference_name Y r = Inr name\<close> this]
    show ?thesis using run r Inr \<open>head_reference_name Y r = Inr name\<close>
      by (auto simp: move_head_def bind_act_def odb_read_def odb_step_def)
  qed
qed

lemma advance_effect:
  assumes ok: "sync_ok L Y I" and r: "dk_git d = Some r" "I r"
    and run: "advance L Y x new_head d = (q, d')"
  obtains (failed) e where "q = Inl e" "d' = d"
  | (current) "q = Inr UpToDate" "d' = d" "r_head r = Inr x" "r_commits r x \<noteq> None"
  | (ahead) l where "q = Inr (Ahead (g_oid_string L l) new_head)" "d' = d" "r_head r = Inr l" "l \<noteq> x"
      "descends r l x" "\<not> descends r x l"
  | (diverged) l where "q = Inr (Diverged (g_oid_string L l) new_head)" "d' = d" "r_head r = Inr l" "l \<noteq> x"
      "\<not> descends r l x" "\<not> descends r x l"
  | (moved) "q = Inr (FastForwarded (map_option (g_oid_string L) (head_target r)) new_head)"
      "d' = d\<lparr>dk_git := Some (r\<lparr>r_head := Inr x\<rparr>)\<rparr>" "I (r\<lparr>r_head := Inr x\<rparr>)" "r_commits r x \<noteq> None"
      "\<And>l. r_head r = Inr l \<Longrightarrow> descends r x l"
proof (cases "r_commits r x")
  case None
  then show thesis using run r failed by (auto simp: advance_def bind_act_def odb_read_def)
next
  case (Some c)
  then have held: "r_commits r x \<noteq> None" by simp
  show thesis
  proof (cases "r_head r")
    case (Inl e)
    then have "move_head L Y x new_head None d = (q, d')"
      using run r Some by (auto simp: advance_def bind_act_def odb_read_def head_target_def)
    from move_head_effect [OF ok r held this] show thesis
      using failed moved held Inl by (auto simp: head_target_def)
  next
    case (Inr l)
    note head = this
    show thesis
    proof (cases "l = x")
      case True
      then show thesis using run r Some head current
        by (auto simp: advance_def bind_act_def odb_read_def head_target_def)
    next
      case False
      have step: "(case git_result (y_descendant_of Y r x l) of Inl e \<Rightarrow> (Inl e, d)
          | Inr forward \<Rightarrow> if forward then move_head L Y x new_head (Some l) d
             else (case git_result (y_descendant_of Y r l x) of Inl e \<Rightarrow> (Inl e, d)
               | Inr ahead \<Rightarrow> (Inr (if ahead then Ahead (g_oid_string L l) new_head
                    else Diverged (g_oid_string L l) new_head), d))) = (q, d')"
        using run r Some head False
        by (auto simp: advance_def bind_act_def odb_read_def head_target_def git_result_def split: sum.splits)
      show thesis
      proof (cases "y_descendant_of Y r x l")
        case (Inl e)
        then show thesis using step failed by (auto simp: git_result_def)
      next
        case (Inr v)
        note v = sync_rules(4) [OF ok r(2) Inr]
        show thesis
        proof (cases v)
          case True
          then have "move_head L Y x new_head (Some l) d = (q, d')" using step Inr by (simp add: git_result_def)
          from move_head_effect [OF ok r held this] show thesis
            using failed moved held v True head by (auto simp: head_target_def)
        next
          case False
          show thesis
          proof (cases "y_descendant_of Y r l x")
            case (Inl e)
            then show thesis using step failed Inr False \<open>y_descendant_of Y r x l = Inr v\<close> by (auto simp: git_result_def)
          next
            case (Inr w)
            note w = sync_rules(4) [OF ok r(2) Inr]
            show thesis
              using step False \<open>l \<noteq> x\<close> \<open>y_descendant_of Y r x l = Inr v\<close> Inr v w ahead diverged head
              by (cases w) (auto simp: git_result_def)
          qed
        qed
      qed
    qed
  qed
qed

lemma unpack_effect:
  assumes ok: "sync_ok L Y I" and r: "dk_git d = Some r" "I r" and run: "unpack Y pack d = (q, d')"
  obtains (failed) e where "q = Inl e" "d' = d"
  | (added) content r' where "pack = Inr content" "y_import Y content r = Inr r'" "q = Inr ()"
      "d' = d\<lparr>dk_git := Some r'\<rparr>" "I r'" "extends r r'" "r_head r' = r_head r"
proof (cases "y_packwriter Y r")
  case (Some e)
  then show thesis using run r failed by (auto simp: unpack_def bind_act_def odb_read_def fault_result_def)
next
  case None
  have step: "bind_act (act_lift (case pack of Inl e \<Rightarrow> Inl (IoErr e) | Inr content \<Rightarrow> Inr content))
      (\<lambda>content. odb_step (\<lambda>r. case y_import Y content r of Inl e \<Rightarrow> Inl e | Inr r' \<Rightarrow> Inr ((), r'))) d = (q, d')"
    using run r None by (simp add: unpack_def bind_act_def odb_read_def fault_result_def)
  show thesis
  proof (cases pack)
    case (Inl e)
    then show thesis using step failed by (auto simp: bind_act_def)
  next
    case (Inr content)
    show thesis
    proof (cases "y_import Y content r")
      case (Inl e)
      then show thesis using step r Inr failed by (auto simp: bind_act_def odb_step_def)
    next
      case (Inr r')
      then show thesis using step r \<open>pack = Inr content\<close> added sync_rules(5) [OF ok r(2) Inr]
        by (auto simp: bind_act_def odb_step_def)
    qed
  qed
qed

lemma import_runs:
  assumes ok: "sync_ok L Y I" and r: "dk_git d = Some r" "I r"
    and run: "import_pack L Y pack new_head d = (q, d')"
  obtains (failed) e where "q = Inl e" "d' = d"
  | (added) x content r1 where "y_oid Y new_head = Some x" "pack = Inr content" "y_import Y content r = Inr r1"
      "I r1" "extends r r1" "r_head r1 = r_head r" "advance L Y x new_head (d\<lparr>dk_git := Some r1\<rparr>) = (q, d')"
proof (cases "y_oid Y new_head")
  case None
  then show thesis using run failed by (auto simp: import_pack_def)
next
  case (Some x)
  obtain u d1 where u: "unpack Y pack d = (u, d1)" by fastforce
  from ok r u show thesis
  proof (cases rule: unpack_effect)
    case failed
    then show thesis using run Some u that(1) by (auto simp: import_pack_def)
  next
    case (added content r1)
    then have "advance L Y x new_head (d\<lparr>dk_git := Some r1\<rparr>) = (q, d')"
      using run Some u by (auto simp: import_pack_def)
    with added Some that(2) show thesis by blast
  qed
qed

lemma import_effect:
  assumes ok: "sync_ok L Y I" and r: "dk_git d = Some r" "I r"
    and run: "import_pack L Y pack new_head d = (q, d')"
  shows "\<exists>r'. dk_git d' = Some r' \<and> I r' \<and> extends r r' \<and>
    (r_head r' = r_head r \<or>
     (\<exists>x from_sha. q = Inr (FastForwarded from_sha new_head) \<and> y_oid Y new_head = Some x \<and> r_head r' = Inr x \<and>
        (\<forall>l. r_head r = Inr l \<longrightarrow> descends r' x l)))"
  using ok r run
proof (cases rule: import_runs)
  case failed
  then show ?thesis using r by auto
next
  case (added x content r1)
  have r1: "dk_git (d\<lparr>dk_git := Some r1\<rparr>) = Some r1" by simp
  from ok r1 added(4) added(7) show ?thesis
  proof (cases rule: advance_effect)
    case moved
    then show ?thesis using added by (auto simp: intro: extends_trans)
  qed (use added in auto)
qed

section \<open>A pack and the replica it was built for\<close>

lemma add_objects_at:
  "object_at (add_objects m oids r) x = (if x \<in> set oids \<and> holds m x then object_at m x else object_at r x)"
  by (simp add: object_at_def add_objects_def)

lemma whole_sub: "whole r a \<Longrightarrow> reach r a b \<Longrightarrow> whole r b"
  by (auto simp: whole_def intro: reach_trans)

lemma pack_rules:
  assumes "pack_ok Y I"
  shows "I m \<Longrightarrow> y_insert_walk Y m head hidden = Inr oids \<Longrightarrow> reach m head x \<Longrightarrow>
      x \<in> set oids \<or> (\<exists>h. hidden = Some h \<and> reach m h x)"
    and "I m \<Longrightarrow> I r \<Longrightarrow> agree m r \<Longrightarrow> y_foreach Y m oids = Inr chunks \<Longrightarrow>
      y_import Y (List.concat chunks) r = Inr r' \<Longrightarrow> r' = add_objects m oids r"
  by (rule assms [unfolded pack_ok_def, THEN conjunct1, rule_format], simp)
    (rule assms [unfolded pack_ok_def, THEN conjunct2, rule_format], simp)

lemma pack_completes:
  assumes pack: "pack_ok Y I" and inv: "I m" "I r" and agree: "agree m r" and whole: "whole m h"
    and walk: "y_insert_walk Y m h hidden = Inr oids" and chunks: "y_foreach Y m oids = Inr chunks"
    and import: "y_import Y (List.concat chunks) r = Inr r'"
    and hidden: "\<And>l. hidden = Some l \<Longrightarrow> whole r l \<and> (l = h \<or> descends m h l)"
  shows "alike m r' h"
proof -
  have r': "r' = add_objects m oids r" using pack_rules(2) [OF pack inv agree chunks import] .
  have "object_at m x = object_at r' x" if x: "reach m h x" for x
  proof (cases "x \<in> set oids")
    case True
    then show ?thesis using x whole by (simp add: r' add_objects_at whole_def)
  next
    case False
    then obtain l where l: "hidden = Some l" "reach m l x" using pack_rules(1) [OF pack inv(1) walk x] by blast
    from hidden [OF l(1)] have rl: "whole r l" ..
    have "reach m h l" using hidden [OF l(1)] descends_reach [of m h l] reach_self [of m h] by metis
    with whole have "whole m l" by (rule whole_sub)
    from whole_alike [OF agree this rl] l(2) have "object_at m x = object_at r x" by (simp add: alike_def)
    with False show ?thesis by (simp add: r' add_objects_at)
  qed
  then show ?thesis by (simp add: alike_def)
qed

lemma import_catches_up:
  assumes ok: "sync_ok L Y I" and pack: "pack_ok Y I"
    and m: "I m" "r_commits m h \<noteq> None" "whole m h"
    and r: "dk_git d = Some r" "I r" "agree m r" "\<And>l. r_head r = Inr l \<Longrightarrow> whole r l \<and> (l = h \<or> descends m h l)"
    and walk: "y_insert_walk Y m h hidden = Inr oids" and chunks: "y_foreach Y m oids = Inr chunks"
    and hidden: "\<And>l. hidden = Some l \<Longrightarrow> r_head r = Inr l"
    and run: "import_pack L Y (Inr (List.concat chunks)) (g_oid_string L h) d = (Inr outcome, d')"
  shows "\<exists>r'. dk_git d' = Some r' \<and> r_head r' = Inr h \<and> alike m r' h \<and>
    (outcome = UpToDate \<or> (\<exists>from_sha. outcome = FastForwarded from_sha (g_oid_string L h)))"
  using ok r(1,2) run
proof (cases rule: import_runs)
  case (added x content r1)
  have x: "x = h" using added(1) sync_rules(3) [OF ok] by simp
  have alike: "alike m r1 h"
    using pack_completes [OF pack m(1) r(2,3) m(3) walk chunks _ ] added(2,3) hidden r(4) by auto
  have r1: "dk_git (d\<lparr>dk_git := Some r1\<rparr>) = Some r1" by simp
  have fwd: "descends r1 h l \<or> l = h" if "r_head r1 = Inr l" for l
    using that added(6) r(4) [of l] alike_descends [OF alike] by auto
  from ok r1 added(4) added(7) show ?thesis
  proof (cases rule: advance_effect)
    case current
    then show ?thesis using alike x by auto
  next
    case (ahead l)
    then show ?thesis using fwd [of l] x by auto
  next
    case (diverged l)
    then show ?thesis using fwd [of l] x by auto
  next
    case moved
    then show ?thesis using alike x by (auto simp: alike_def object_at_def)
  qed auto
qed simp

text \<open>Two repositories alike below their common head read alike.\<close>

lemma alike_content:
  assumes lookup: "lookup_ok L" and m: "dk_git dm = Some m" "head_tree m = Inr (h, t)"
    and r: "dk_git d = Some r" "r_head r = Inr h" and alike: "alike m r h"
  shows "head_content L d path = head_content L dm path"
proof -
  obtain c where c: "r_commits m h = Some c" "t = c_tree c" "r_trees m t \<noteq> None"
    using m(2) by (auto simp: head_tree_Inr)
  have t: "reach m h t" using reach_step [OF reach_self, of m h t] c by (auto simp: linked_def)
  have at: "object_at m h = object_at r h" "object_at m t = object_at r t"
    using alike t by (simp_all add: alike_def)
  then have "r_commits r h = Some c" "r_trees r t \<noteq> None" using c by (simp_all add: object_at_eq)
  then have head: "head_tree r = Inr (h, t)" using c r(2) by (auto simp: head_tree_Inr)
  have "alike m r t" using alike_sub [OF alike t] .
  then have path: "g_get_path L r t path = g_get_path L m t path" using lookup unfolding lookup_ok_def by metis
  have "r_blobs m b = r_blobs r b" if "blob_oid_in_tree L m t path = Some b" for b
  proof -
    from that obtain e where "g_get_path L m t path = Some e" "te_kind e = Blob" "b = te_id e"
      by (auto simp: blob_oid_in_tree_def split: option.splits if_splits)
    then have "reach m t b" using lookup unfolding lookup_ok_def by blast
    with \<open>alike m r t\<close> show ?thesis by (simp add: alike_def object_at_eq)
  qed
  then show ?thesis
    using m r(1) head path
    by (auto simp: head_content_def head_blob_eq blob_oid_in_tree_def split: option.splits)
qed

lemma hand_chunks_Inr: "hand_chunks f sent chunks = (Inr u, all_sent) \<Longrightarrow> all_sent = sent @ chunks"
  by (induction f sent chunks rule: hand_chunks.induct) (auto split: if_splits)

text \<open>A pack the master served, taken apart.\<close>

lemma build_pack_Inr:
  assumes ok: "sync_ok L Y I" and m: "dk_git dm = Some m"
    and run: "build_pack L Y dm tenant (g_oid_string L h) have on_chunk = (Inr n, sent)"
  obtains oids where "y_insert_walk Y m h (walk_hidden Y m have) = Inr oids" "y_foreach Y m oids = Inr sent"
    "n = length oids"
proof -
  from run obtain r oids chunks where o: "open_tenant_repo L tenant dm = Inr r"
    and w: "walk_pack Y r (g_oid_string L h) have = Inr (oids, chunks)"
    and c: "hand_chunks on_chunk [] chunks = (Inr (), sent)" "n = length oids"
    by (auto simp: build_pack_def and_then_eq_Inr split: sum.splits prod.splits)
  have "r = m"
    using o m sync_rules(1) [OF ok, of dm r]
    by (auto simp: open_tenant_repo_def split: if_splits sum.splits git_error.splits)
  then show thesis
    using w c hand_chunks_Inr [of on_chunk "[]" chunks "()" sent] that sync_rules(3) [OF ok]
    by (auto simp: walk_pack_def and_then_eq_Inr git_result_def split: sum.splits)
qed

section \<open>Packs applied to the store\<close>

lemma in_dir_Some: "sr_dirs s p = Some d \<Longrightarrow> in_dir p build s = (fst (build d), put_dir p (Some (snd (build d))) s)"
  by (simp add: in_dir_def split: prod.split)

lemma init_import:
  assumes ok: "sync_ok L Y I" and bare: "dk_git d = None"
    and run: "bind_act (init_repo L) (\<lambda>_. import_pack L Y pack new_head) d = (Inr v, d')"
  obtains d1 r where "dk_git d1 = Some r" "I r" "head_target r = None" "\<And>x. \<not> holds r x"
    "import_pack L Y pack new_head d1 = (Inr v, d')"
proof -
  from run obtain r where r: "g_init L d = Inr r"
    "import_pack L Y pack new_head (d\<lparr>dk_exists := True, dk_git := Some r\<rparr>) = (Inr v, d')"
    by (auto simp: bind_act_eq_Inr init_repo_def split: sum.splits)
  from sync_rules(2) [OF ok r(1) bare] r(2) show thesis
    using that [of "d\<lparr>dk_exists := True, dk_git := Some r\<rparr>" r] by simp
qed

text \<open>Where a successful import ran: on the repository there was, or on a fresh one.\<close>

lemma apply_pack_Inr:
  assumes ok: "sync_ok L Y I" and vis: "visible p"
    and run: "apply_pack L Y fs p pack new_head s = (Inr v, s')"
    and inv: "\<forall>d r. sr_dirs s p = Some d \<and> dk_git d = Some r \<longrightarrow> I r"
  obtains d r d' where "sr_dirs s' p = Some d'" "dk_git d = Some r" "I r"
    "import_pack L Y pack new_head d = (Inr v, d')"
    "sr_dirs s p = Some d \<or> (\<not> git_exists (sr_dirs s) p \<and> head_target r = None \<and> (\<forall>x. \<not> holds r x))"
proof (cases "sr_dirs s p")
  case None
  then have create: "create fs p (bind_act (init_repo L) (\<lambda>_. import_pack L Y pack new_head)) s = (Inr v, s')"
    using run by (simp add: apply_pack_def git_exists_def)
  obtain b d' where built: "bind_act (init_repo L) (\<lambda>_. import_pack L Y pack new_head) empty_disk = (b, d')"
    by fastforce
  from create_place [OF create None vis built] have b: "b = Inr v" and d': "sr_dirs s' p = Some d'" by auto
  have "dk_git empty_disk = None" by (simp add: empty_disk_def)
  from init_import [OF ok this built [unfolded b]] obtain d1 r where
    "dk_git d1 = Some r" "I r" "head_target r = None" "\<forall>x. \<not> holds r x"
    "import_pack L Y pack new_head d1 = (Inr v, d')" by metis
  with that [OF d'] None show thesis by (simp add: git_exists_def)
next
  case (Some d)
  show thesis
  proof (cases "dk_git d")
    case None
    then have "in_dir p (bind_act (init_repo L) (\<lambda>_. import_pack L Y pack new_head)) s = (Inr v, s')"
      using run Some by (simp add: apply_pack_def git_exists_def)
    then obtain d' where "bind_act (init_repo L) (\<lambda>_. import_pack L Y pack new_head) d = (Inr v, d')"
      "sr_dirs s' p = Some d'"
      using in_dir_Some [OF Some] by (metis fst_conv prod.collapse put_dir_simps(1) fun_upd_same snd_conv)
    moreover from init_import [OF ok None this(1)] obtain d1 r where
      "dk_git d1 = Some r" "I r" "head_target r = None" "\<forall>x. \<not> holds r x"
      "import_pack L Y pack new_head d1 = (Inr v, d')" by metis
    ultimately show thesis using that Some None by (simp add: git_exists_def)
  next
    case (Some r)
    note there = \<open>sr_dirs s p = Some d\<close>
    have "in_dir p (bind_act (open_repo L) (\<lambda>_. import_pack L Y pack new_head)) s = (Inr v, s')"
      using run Some there by (simp add: apply_pack_def git_exists_def)
    then obtain d' where "bind_act (open_repo L) (\<lambda>_. import_pack L Y pack new_head) d = (Inr v, d')"
      "sr_dirs s' p = Some d'"
      using in_dir_Some [OF there] by (metis fst_conv prod.collapse put_dir_simps(1) fun_upd_same snd_conv)
    then have "import_pack L Y pack new_head d = (Inr v, d')"
      by (auto simp: bind_act_eq_Inr open_repo_def split: sum.splits)
    with that Some there inv \<open>sr_dirs s' p = Some d'\<close> show thesis by blast
  qed
qed

lemma apply_pack_spares: "keeps (observes (elsewhere p D)) (apply_pack L Y fs p pack new_head)"
proof -
  have "keeps (observes (elsewhere p D)) (in_dir p build)" for build :: "('a, pack_apply) git_action"
    by (rule keeps_in_dir [OF blind_elsewhere]) simp
  moreover have "keeps (observes (elsewhere p D)) (create fs p build)" for build :: "('a, pack_apply) git_action"
    by (rule create_spares)
  ultimately show ?thesis by (simp add: keeps_def apply_pack_def)
qed

interpretation replication: tenant_swap "\<lambda>p. apply_pack L Y fs p pack new_head" for L Y fs pack new_head
  by unfold_locales (rule apply_pack_spares)

end
