(* ===== verification/Sync_Instance.thy ===== *)
theory Sync_Instance
  imports Sync_Facts
begin

text \<open>
  A small store on which the laws of \<open>Sync_Facts\<close> hold: numbers for object ids, two commits, the
  second on top of the first, each with a tree of one note. A repository holds some of these
  objects; a pack is the list of the ids it carries, one byte each.
\<close>

section \<open>The objects\<close>

definition tiny_signature :: signature where
  "tiny_signature = \<lparr>sig_name = ''Ada'', sig_email = ''ada@acme.io'', sig_time = 0\<rparr>"

definition tiny_commit :: "nat \<Rightarrow> nat commit option" where
  "tiny_commit n =
     (if n = 1 then Some \<lparr>c_tree = 2, c_parents = [], c_message = ''one'', c_signature = tiny_signature\<rparr>
      else if n = 4 then Some \<lparr>c_tree = 5, c_parents = [1], c_message = ''two'', c_signature = tiny_signature\<rparr>
      else None)"

definition tiny_entry :: "nat \<Rightarrow> nat tree_entry" where
  "tiny_entry n = \<lparr>te_name = Some ''a.md'', te_kind = Blob, te_id = n, te_mode = 33188\<rparr>"

definition tiny_tree :: "nat \<Rightarrow> nat tree_entry list option" where
  "tiny_tree n = (if n = 2 then Some [tiny_entry 3] else if n = 5 then Some [tiny_entry 6] else None)"

definition tiny_blob :: "nat \<Rightarrow> bytes option" where
  "tiny_blob n = (if n = 3 then Some ''hi'' else if n = 6 then Some ''ho'' else None)"

lemmas tiny_objects = tiny_commit_def tiny_tree_def tiny_blob_def

definition tiny_repo :: "nat list \<Rightarrow> git_error + nat \<Rightarrow> nat repo" where
  "tiny_repo S head =
     \<lparr>r_head = head, r_commits = (\<lambda>x. if x \<in> set S then tiny_commit x else None),
      r_trees = (\<lambda>x. if x \<in> set S then tiny_tree x else None),
      r_blobs = (\<lambda>x. if x \<in> set S then tiny_blob x else None)\<rparr>"

definition tiny_inv :: "nat repo \<Rightarrow> bool" where
  "tiny_inv r \<longleftrightarrow> (\<exists>S head. r = tiny_repo S head)"

definition unborn :: git_error where
  "unborn = GitError GitUnbornBranch ''reference 'refs/heads/master' not found''"

definition tiny_ids :: "nat list" where "tiny_ids = [1, 2, 3, 4, 5, 6]"

definition tiny_closure :: "nat \<Rightarrow> nat list" where
  "tiny_closure n = (if n = 4 then [4, 5, 6, 1, 2, 3] else if n = 1 then [1, 2, 3]
     else if n = 5 then [5, 6] else if n = 2 then [2, 3] else [n])"

text \<open>What hiding the first commit leaves out.\<close>

definition tiny_hidden :: "nat repo \<Rightarrow> nat option \<Rightarrow> nat \<Rightarrow> bool" where
  "tiny_hidden r hidden x \<longleftrightarrow>
     hidden = Some x \<or> (hidden = Some 1 \<and> r_commits r 1 \<noteq> None \<and> (x = 2 \<or> (x = 3 \<and> r_trees r 2 \<noteq> None)))"

definition in_tiny :: "nat repo \<Rightarrow> nat \<Rightarrow> bool" where
  "in_tiny r x \<longleftrightarrow> r_commits r x \<noteq> None \<or> r_trees r x \<noteq> None \<or> r_blobs r x \<noteq> None"

definition tiny_add :: "nat list \<Rightarrow> nat repo \<Rightarrow> nat repo" where
  "tiny_add oids r =
     r\<lparr>r_commits := (\<lambda>x. if x \<in> set oids then tiny_commit x else r_commits r x),
       r_trees := (\<lambda>x. if x \<in> set oids then tiny_tree x else r_trees r x),
       r_blobs := (\<lambda>x. if x \<in> set oids then tiny_blob x else r_blobs r x)\<rparr>"

section \<open>The libraries\<close>

definition tiny_libs :: "nat libs" where
  "tiny_libs =
     \<lparr>g_open = (\<lambda>d. case dk_git d of None \<Rightarrow> Inl no_repository | Some r \<Rightarrow> Inr r),
      g_init = (\<lambda>d. case dk_git d of None \<Rightarrow> Inr (tiny_repo [] (Inl unborn)) | Some r \<Rightarrow> Inr r),
      g_empty_tree = (\<lambda>r. Inl missing_object),
      g_get_path = (\<lambda>r t p. case r_trees r t of None \<Rightarrow> None | Some es \<Rightarrow> find (\<lambda>e. te_name e = Some p) es),
      g_walk = (\<lambda>r t. case r_trees r t of None \<Rightarrow> Inl missing_object | Some es \<Rightarrow> Inr (map (Pair []) es)),
      g_hash_blob = (\<lambda>c. Inl missing_object),
      g_blob = (\<lambda>c r. Inl missing_object),
      g_create_updated = (\<lambda>t us r. Inl missing_object),
      g_signature_now = (\<lambda>name email. Inr \<lparr>sig_name = name, sig_email = email, sig_time = 0\<rparr>),
      g_commit = (\<lambda>sg m t ps r. Inl missing_object),
      g_odb = (\<lambda>r. None),
      g_odb_reader = (\<lambda>r x. case r_blobs r x of None \<Rightarrow> Inl missing_object
         | Some c \<Rightarrow> Inr \<lparr>rd_bytes = c, rd_fail = None\<rparr>),
      g_oid_string = (\<lambda>n. ''000'' @ show_nat n),
      json_pretty_order = (\<lambda>es. None), json_parse_order = (\<lambda>s. None),
      os_fault = (\<lambda>w k. None), os_stage_fault = None, os_rename_fault = None\<rparr>"

definition tiny_sync :: "nat sync_libs" where
  "tiny_sync =
     \<lparr>y_oid = (\<lambda>s. Some (read_nat s)),
      y_descendant_of = (\<lambda>r a b. Inr (a = 4 \<and> b = 1 \<and> r_commits r 4 \<noteq> None)),
      y_revwalk = (\<lambda>r. None), y_push = (\<lambda>r x. None), y_hide = (\<lambda>r x. None),
      y_insert_walk = (\<lambda>r head hidden.
        let oids = filter (\<lambda>x. \<not> tiny_hidden r hidden x) (tiny_closure head) in
        if list_all (in_tiny r) oids then Inr oids else Inl missing_object),
      y_foreach = (\<lambda>r oids.
        if list_all (in_tiny r) oids then Inr (map (\<lambda>x. [char_of x]) oids) else Inl missing_object),
      y_packwriter = (\<lambda>r. None),
      y_import = (\<lambda>content r. Inr (tiny_add (map of_char content) r)),
      y_symbolic_target = (\<lambda>r. Inr (Some ''refs/heads/master'')),
      y_reference = (\<lambda>name x r. Inr (r\<lparr>r_head := Inr x\<rparr>)),
      y_write_index = (\<lambda>r t. None),
      y_checkout_head = (\<lambda>index d. (None, [], dk_work d))\<rparr>"

section \<open>The laws\<close>

lemma in_tiny_holds: "in_tiny r x \<longleftrightarrow> holds r x"
  by (simp add: in_tiny_def holds_def object_at_def)

lemma tiny_held: "in_tiny (tiny_repo S head) x \<longleftrightarrow> x \<in> set S \<and> x \<in> set tiny_ids"
  by (auto simp: in_tiny_def tiny_repo_def tiny_objects tiny_ids_def)

lemma tiny_add_repo: "tiny_add oids (tiny_repo S head) = tiny_repo (oids @ S) head"
  by (auto simp: tiny_add_def tiny_repo_def fun_eq_iff)

lemma tiny_parent: "tiny_inv r \<Longrightarrow> parent_of r a p \<longleftrightarrow> a = 4 \<and> p = 1 \<and> r_commits r 4 \<noteq> None"
  by (auto simp: tiny_inv_def parent_of_def tiny_repo_def tiny_commit_def split: if_splits)

lemma tiny_descends: "tiny_inv r \<Longrightarrow> descends r a b \<longleftrightarrow> a = 4 \<and> b = 1 \<and> r_commits r 4 \<noteq> None"
proof
  assume inv: "tiny_inv r" and "descends r a b"
  from this(2) show "a = 4 \<and> b = 1 \<and> r_commits r 4 \<noteq> None" unfolding descends_def
    by (induction rule: tranclp_induct) (simp_all add: tiny_parent [OF inv])
next
  assume "tiny_inv r" "a = 4 \<and> b = 1 \<and> r_commits r 4 \<noteq> None"
  then show "descends r a b" unfolding descends_def using tiny_parent by blast
qed

lemma tiny_head: "tiny_inv r \<Longrightarrow> tiny_inv (r\<lparr>r_head := x\<rparr>)"
  by (auto simp: tiny_inv_def tiny_repo_def)

lemma read_padded: "read_nat (''000'' @ show_nat n) = n"
  using read_show_nat [of n] by (simp add: read_nat_def)

lemma tiny_extends: "extends (tiny_repo S head) (tiny_repo (oids @ S) head)"
  by (auto simp: extends_def map_le_def tiny_repo_def split: if_splits)

lemma tiny_sync_ok: "sync_ok tiny_libs tiny_sync tiny_inv"
  unfolding sync_ok_def
proof (intro conjI allI impI; (elim conjE)?)
  show "open_law tiny_libs" by (auto simp: open_law_def tiny_libs_def split: option.splits)
  show "y_oid tiny_sync (g_oid_string tiny_libs x) = Some x" for x
    using read_padded [of x] by (simp add: tiny_libs_def tiny_sync_def)
next
  fix d r assume *: "g_init tiny_libs d = Inr r" "dk_git d = None"
  then show "tiny_inv r" by (auto simp: tiny_libs_def tiny_inv_def)
  from * show "head_target r = None" by (auto simp: tiny_libs_def tiny_repo_def head_target_def)
  from * show "\<not> holds r x" for x
    by (auto simp: tiny_libs_def tiny_repo_def holds_def object_at_def)
next
  fix r a b v assume "tiny_inv r" "y_descendant_of tiny_sync r a b = Inr v"
  then show "v = descends r a b" by (auto simp: tiny_descends tiny_sync_def)
next
  fix content r r' assume *: "tiny_inv r" "y_import tiny_sync content r = Inr r'"
  then obtain S head where r: "r = tiny_repo S head" and r': "r' = tiny_repo (map of_char content @ S) head"
    by (auto simp: tiny_inv_def tiny_sync_def tiny_add_repo)
  show "tiny_inv r'" using r' by (auto simp: tiny_inv_def)
  show "extends r r'" using r r' tiny_extends by simp
  show "r_head r' = r_head r" using r r' by (simp add: tiny_repo_def)
next
  fix r name x r' assume "tiny_inv r" "y_reference tiny_sync name x r = Inr r'"
  then show "tiny_inv r'" "r' = r\<lparr>r_head := Inr x\<rparr>" by (auto simp: tiny_sync_def tiny_head)
qed

lemma tiny_reach: "tiny_inv r \<Longrightarrow> reach r root x \<Longrightarrow> x \<in> set (tiny_closure root)"
proof -
  assume inv: "tiny_inv r" and "reach r root x"
  from this(2) show ?thesis
  proof (induction rule: reach_induct)
    case self
    then show ?case by (simp add: tiny_closure_def)
  next
    case (step x y)
    then show ?case using inv
      by (auto simp: linked_def tiny_inv_def tiny_repo_def tiny_objects tiny_entry_def tiny_closure_def
          split: if_splits)
  qed
qed

lemma tiny_hidden_reach: "tiny_inv r \<Longrightarrow> tiny_hidden r hidden x \<Longrightarrow> \<exists>h. hidden = Some h \<and> reach r h x"
proof -
  assume inv: "tiny_inv r" and hid: "tiny_hidden r hidden x"
  have 2: "reach r 1 2" if "r_commits r 1 \<noteq> None"
    using that inv by (intro reach_step [OF reach_self])
      (auto simp: linked_def tiny_inv_def tiny_repo_def tiny_commit_def split: if_splits)
  have "reach r 1 3" if "r_commits r 1 \<noteq> None" "r_trees r 2 \<noteq> None"
    using that(2) inv by (intro reach_step [OF 2 [OF that(1)]])
      (auto simp: linked_def tiny_inv_def tiny_repo_def tiny_tree_def tiny_entry_def split: if_splits)
  with 2 hid show ?thesis by (auto simp: tiny_hidden_def)
qed

lemma tiny_pack_ok: "pack_ok tiny_sync tiny_inv"
  unfolding pack_ok_def
proof (intro conjI allI impI; elim conjE)
  fix m head hidden oids x
  assume *: "tiny_inv m" "y_insert_walk tiny_sync m head hidden = Inr oids" "reach m head x"
  then have "oids = filter (\<lambda>x. \<not> tiny_hidden m hidden x) (tiny_closure head)"
    by (auto simp: tiny_sync_def Let_def split: if_splits)
  then show "x \<in> set oids \<or> (\<exists>h. hidden = Some h \<and> reach m h x)"
    using tiny_reach [OF *(1,3)] tiny_hidden_reach [OF *(1)] by auto
next
  fix m r :: "nat repo" and oids chunks r'
  assume m: "tiny_inv m" and r: "tiny_inv r" and agree: "agree m r"
    and chunks: "y_foreach tiny_sync m oids = Inr chunks"
    and import: "y_import tiny_sync (List.concat chunks) r = Inr r'"
  from m obtain S h where m: "m = tiny_repo S h" by (auto simp: tiny_inv_def)
  from chunks have held: "list_all (in_tiny m) oids" and c: "chunks = map (\<lambda>x. [char_of x]) oids"
    by (auto simp: tiny_sync_def split: if_splits)
  then have ids: "set oids \<subseteq> set S \<inter> {1..6}" unfolding m by (auto simp: list_all_iff tiny_held tiny_ids_def)
  have "map (of_char \<circ> char_of) oids = oids"
    using ids by (intro map_idI) (auto simp: of_char_of)
  then have "map of_char (List.concat chunks) = oids" by (simp add: c map_concat comp_def)
  then have r': "r' = tiny_add oids r" using import by (simp add: tiny_sync_def)
  have "\<And>x. x \<in> set oids \<Longrightarrow> holds m x \<and> x \<in> set S"
    using held ids by (auto simp: in_tiny_holds list_all_iff)
  then show "r' = add_objects m oids r"
    by (auto simp: r' tiny_add_def add_objects_def m tiny_repo_def fun_eq_iff)
qed

lemma tiny_lookup_ok: "lookup_ok tiny_libs"
proof -
  have "g_get_path tiny_libs r t p = g_get_path tiny_libs r' t p" if "alike r r' t" for r r' t p
  proof -
    have "r_trees r t = r_trees r' t" using that by (simp add: alike_def object_at_eq)
    then show ?thesis by (simp add: tiny_libs_def)
  qed
  moreover have "reach r t (te_id e)" if "g_get_path tiny_libs r t p = Some e" "te_kind e = Blob" for r t p e
  proof -
    from that obtain es where "r_trees r t = Some es" "find (\<lambda>e. te_name e = Some p) es = Some e"
      by (auto simp: tiny_libs_def split: option.splits)
    moreover from this(2) have "e \<in> set es" by (auto simp: find_Some_iff)
    ultimately have "linked r t (te_id e)" using that(2) unfolding linked_def by fastforce
    with reach_self show ?thesis by (rule reach_step)
  qed
  ultimately show ?thesis unfolding lookup_ok_def by blast
qed

section \<open>A master and a replica\<close>

definition tiny_disk :: "nat list \<Rightarrow> nat \<Rightarrow> nat disk" where
  "tiny_disk S h = \<lparr>dk_exists = True, dk_git = Some (tiny_repo S (Inr h)), dk_work = (\<lambda>_. None)\<rparr>"

definition tiny_place :: place where "tiny_place = (''acme'', ''docs'')"

lemma tiny_visible: "visible tiny_place"
  by (simp add: visible_def tiny_place_def)

lemma tiny_whole: "whole (tiny_repo tiny_ids head) n" if "n \<in> set tiny_ids"
proof -
  have inv: "tiny_inv (tiny_repo tiny_ids head)" by (auto simp: tiny_inv_def)
  have "holds (tiny_repo tiny_ids head) x" if x: "reach (tiny_repo tiny_ids head) n x" for x
  proof -
    have "x \<in> set tiny_ids" using tiny_reach [OF inv x] \<open>n \<in> set tiny_ids\<close>
      by (auto simp: tiny_closure_def tiny_ids_def split: if_splits)
    then show ?thesis by (simp flip: in_tiny_holds add: tiny_held)
  qed
  then show ?thesis by (simp add: whole_def)
qed

lemma tiny_agree: "agree (tiny_repo S h) (tiny_repo S' h')"
  by (auto simp: agree_def simp flip: in_tiny_holds simp: tiny_held)
    (simp add: object_at_def tiny_repo_def)

end
