(* ===== verification/Replica_Sync.thy ===== *)
theory Replica_Sync
  imports Sync_Instance
begin

text \<open>
  What a pack does to a replica, and what a listing says of a store.
\<close>

text \<open>
  A pack never rewrites a repository: whatever the import answers, every object stays, HEAD is
  where it was unless the answer is a fast-forward, and then it is the announced commit, which
  descends from the HEAD before; no other repository is shown differently to a reader at any moment.
\<close>

theorem packs_only_fast_forward:
  assumes ok: "sync_ok L Y I" and vis: "visible p"
    and d: "sr_dirs s p = Some d" "dk_git d = Some r" "I r"
    and run: "apply_pack L Y fs p pack new_head s = (result, s')"
  shows "(\<exists>d' r'. sr_dirs s' p = Some d' \<and> dk_git d' = Some r' \<and> extends r r' \<and>
      (r_head r' = r_head r \<or>
       (\<exists>x from_sha. result = Inr (FastForwarded from_sha new_head) \<and> y_oid Y new_head = Some x \<and>
          r_head r' = Inr x \<and> (\<forall>l. r_head r = Inr l \<longrightarrow> descends r' x l)))) \<and>
    (\<forall>dirs q. dirs \<in> snapshots s s' \<and> visible q \<and> q \<noteq> p \<longrightarrow> dirs q = sr_dirs s q)"
proof -
  let ?build = "bind_act (open_repo L) (\<lambda>_. import_pack L Y pack new_head)"
  have "in_dir p ?build s = (result, s')" using run d by (simp add: apply_pack_def git_exists_def)
  then have d': "?build d = (result, snd (?build d))" "sr_dirs s' p = Some (snd (?build d))"
    by (auto simp: in_dir_Some [OF d(1)])
  have "\<exists>r'. dk_git (snd (?build d)) = Some r' \<and> extends r r' \<and>
      (r_head r' = r_head r \<or>
       (\<exists>x from_sha. result = Inr (FastForwarded from_sha new_head) \<and> y_oid Y new_head = Some x \<and>
          r_head r' = Inr x \<and> (\<forall>l. r_head r = Inr l \<longrightarrow> descends r' x l)))"
  proof (cases "g_open L d")
    case (Inl e)
    then show ?thesis using d(2) by (auto simp: bind_act_def open_repo_def)
  next
    case (Inr r0)
    then have "import_pack L Y pack new_head d = (result, snd (?build d))"
      using d'(1) by (simp add: bind_act_def open_repo_def)
    from import_effect [OF ok d(2,3) this] show ?thesis by auto
  qed
  with d'(2) replication.others_undisturbed [OF run] show ?thesis by blast
qed

definition behind_store :: "nat store" where
  "behind_store = store_of [tiny_place \<mapsto> tiny_disk [1, 2, 3] 1]"

lemma behind_store_at: "sr_dirs behind_store tiny_place = Some (tiny_disk [1, 2, 3] 1)"
  by (simp add: behind_store_def store_of_def)

lemma tiny_disk_git: "dk_git (tiny_disk S h) = Some (tiny_repo S (Inr h))" "tiny_inv (tiny_repo S h')"
  by (auto simp: tiny_disk_def tiny_inv_def)

theorem packs_only_fast_forward_witness:
  "\<exists>d' r'. sr_dirs (snd (apply_pack tiny_libs tiny_sync quiet_os tiny_place (Inr ''xyz'') ''0004'' behind_store)) tiny_place = Some d' \<and>
     dk_git d' = Some r' \<and> extends (tiny_repo [1, 2, 3] (Inr 1)) r'"
  using packs_only_fast_forward [OF tiny_sync_ok tiny_visible behind_store_at tiny_disk_git
      prod.collapse [symmetric], of quiet_os "Inr ''xyz''" "''0004''"] by blast

text \<open>
  A replica catches up: importing the pack its master built against the replica's own head
  leaves the replica on the master's HEAD, reading the master's content on every path, whether
  the repository was new, behind or already there. It is never refused.
\<close>

lemma replica_catches_up:
  assumes ok: "sync_ok L Y I" "pack_ok Y I" "lookup_ok L" and vis: "visible p"
    and master: "dk_git dm = Some m" "I m" "head_tree m = Inr (h, t)" "whole m h"
    and replica: "\<forall>d r. sr_dirs s p = Some d \<and> dk_git d = Some r \<longrightarrow>
      I r \<and> agree m r \<and> (\<forall>l. r_head r = Inr l \<longrightarrow> whole r l \<and> (l = h \<or> descends m h l))"
    and served: "build_pack L Y dm tenant (g_oid_string L h) (head_sha L stat (sr_dirs s) p) on_chunk = (Inr n, sent)"
    and applied: "apply_pack L Y fs p (Inr (List.concat sent)) (g_oid_string L h) s = (Inr outcome, s')"
  shows "(outcome = UpToDate \<or> (\<exists>from_sha. outcome = FastForwarded from_sha (g_oid_string L h))) \<and>
    (\<exists>d'. sr_dirs s' p = Some d' \<and> (\<exists>r'. dk_git d' = Some r' \<and> r_head r' = Inr h) \<and>
      (\<forall>path. head_content L d' path = head_content L dm path))"
proof -
  from build_pack_Inr [OF ok(1) master(1) served] obtain oids where
    walk: "y_insert_walk Y m h (walk_hidden Y m (head_sha L stat (sr_dirs s) p)) = Inr oids"
    and chunks: "y_foreach Y m oids = Inr sent" by blast
  have inv: "\<forall>d r. sr_dirs s p = Some d \<and> dk_git d = Some r \<longrightarrow> I r" using replica by blast
  obtain d r d' where
    d': "sr_dirs s' p = Some d'" and r: "dk_git d = Some r" "I r"
    and run: "import_pack L Y (Inr (List.concat sent)) (g_oid_string L h) d = (Inr outcome, d')"
    and at: "sr_dirs s p = Some d \<or> (\<not> git_exists (sr_dirs s) p \<and> head_target r = None \<and> (\<forall>x. \<not> holds r x))"
    by (rule apply_pack_Inr [OF ok(1) vis applied inv])
  have agree: "agree m r" using at replica r(1) by (auto simp: agree_def)
  have behind: "whole r l \<and> (l = h \<or> descends m h l)" if "r_head r = Inr l" for l
    using at replica r(1) that by (auto simp: head_target_def)
  have hidden: "r_head r = Inr l" if w: "walk_hidden Y m (head_sha L stat (sr_dirs s) p) = Some l" for l
  proof -
    have "\<exists>sha. head_sha L stat (sr_dirs s) p = Some sha \<and> y_oid Y sha = Some l"
      using w by (auto simp: walk_hidden_def split: option.splits if_splits)
    then obtain k where "head_sha L stat (sr_dirs s) p = Some (g_oid_string L k)" "k = l" "git_exists (sr_dirs s) p"
      "\<exists>r0. open_at L (sr_dirs s) p = Inr r0 \<and> r_head r0 = Inr k"
      using sync_rules(3) [OF ok(1)]
      by (auto simp: head_sha_def probe_head_def git_seen_def split: head_probe.splits if_splits sum.splits git_error.splits)
    with at r(1) sync_rules(1) [OF ok(1), of d] show ?thesis by (auto simp: open_at_def)
  qed
  have commit: "r_commits m h \<noteq> None" using master(3) by (auto simp: head_tree_Inr)
  from import_catches_up [OF ok(1,2) master(2) commit master(4) r agree behind walk chunks hidden run]
  obtain r' where r': "dk_git d' = Some r'" "r_head r' = Inr h" "alike m r' h"
    and res: "outcome = UpToDate \<or> (\<exists>from_sha. outcome = FastForwarded from_sha (g_oid_string L h))"
    by blast
  from alike_content [OF ok(3) master(1,3) r'] d' r' res show ?thesis by blast
qed

definition ahead_disk :: "nat disk" where "ahead_disk = tiny_disk tiny_ids 4"

lemma tiny_served:
  "build_pack tiny_libs tiny_sync ahead_disk ''docs'' (g_oid_string tiny_libs 4)
     (head_sha tiny_libs (\<lambda>_. True) (sr_dirs behind_store) tiny_place) (\<lambda>_ _. True) = (Inr 3, [[CHR 4], [CHR 5], [CHR 6]])"
  by code_simp

lemma tiny_master:
  shows "dk_git ahead_disk = Some (tiny_repo tiny_ids (Inr 4))"
    and "head_tree (tiny_repo tiny_ids (Inr 4)) = Inr (4, 5)"
    and "whole (tiny_repo tiny_ids (Inr 4)) 4"
proof -
  show "dk_git ahead_disk = Some (tiny_repo tiny_ids (Inr 4))" by (simp add: ahead_disk_def tiny_disk_git)
  show "head_tree (tiny_repo tiny_ids (Inr 4)) = Inr (4, 5)" by code_simp
  show "whole (tiny_repo tiny_ids (Inr 4)) 4" by (rule tiny_whole) (simp add: tiny_ids_def)
qed

lemma tiny_behind:
  assumes "sr_dirs behind_store tiny_place = Some d" and "dk_git d = Some r"
  shows "tiny_inv r \<and> agree (tiny_repo tiny_ids (Inr 4)) r \<and>
      (\<forall>l. r_head r = Inr l \<longrightarrow> whole r l \<and> (l = 4 \<or> descends (tiny_repo tiny_ids (Inr 4)) 4 l)) \<and> r_commits r 4 = None"
proof -
  from assms have r: "r = tiny_repo [1, 2, 3] (Inr 1)" by (auto simp: behind_store_at tiny_disk_git)
  have "holds (tiny_repo [1, 2, 3] (Inr 1)) x" if "reach (tiny_repo [1, 2, 3] (Inr 1)) 1 x" for x
    using tiny_reach [OF tiny_disk_git(2) that]
    by (auto simp: tiny_closure_def tiny_ids_def simp flip: in_tiny_holds simp: tiny_held)
  then have "whole (tiny_repo [1, 2, 3] (Inr 1)) 1" by (simp add: whole_def)
  moreover have "descends (tiny_repo tiny_ids (Inr 4)) 4 1"
  proof -
    have "r_commits (tiny_repo tiny_ids (Inr 4)) 4 \<noteq> None"
      by (simp add: tiny_repo_def tiny_ids_def tiny_commit_def)
    then show ?thesis using tiny_descends [OF tiny_disk_git(2)] by blast
  qed
  moreover have "r_head (tiny_repo [1, 2, 3] (Inr 1)) = Inr 1" "r_commits (tiny_repo [1, 2, 3] (Inr 1)) 4 = None"
    by (simp_all add: tiny_repo_def)
  ultimately show ?thesis by (simp add: r tiny_disk_git tiny_agree)
qed

text \<open>
  An import that is interrupted before the reference moves leaves the announced commit behind
  without the HEAD; the next pass takes the repository for a diverged one, although the commit
  descends from its HEAD.
\<close>

lemma interrupted_import_looks_diverged:
  assumes ok: "sync_ok L Y I" and r: "open_at L dirs p = Inr r" "I r" "r_head r = Inr l" "r_commits r x \<noteq> None"
    and ahead: "descends r x l" and acyclic: "\<not> descends r l x" "x \<noteq> l"
    and answers: "y_descendant_of Y r l x = Inr v"
  shows "relation_to L Y dirs p (g_oid_string L x) = DivergedFrom (g_oid_string L l)"
proof -
  have "\<not> v" using sync_rules(4) [OF ok r(2) answers] acyclic by simp
  then show ?thesis
    using r acyclic answers sync_rules(3) [OF ok] by (simp add: relation_to_def head_target_def)
qed


lemma interrupted_import_example:
  "relation_to tiny_libs tiny_sync [tiny_place \<mapsto> tiny_disk tiny_ids 1] tiny_place ''0004'' = DivergedFrom ''0001''"
  by code_simp

section \<open>Listings\<close>

text \<open>What one directory entry adds to a scan, and whether the scan could tell.\<close>

definition tenant_found :: "'o libs \<Rightarrow> scan_os \<Rightarrow> 'o directories \<Rightarrow> string \<Rightarrow> string option \<Rightarrow> repository_head list" where
  "tenant_found L so dirs c entry =
     (case entry of None \<Rightarrow> []
      | Some name \<Rightarrow>
          if valid_utf8 name \<and> tenant_id name = Inr name \<and> so_tenant_is_dir so (c, name) then
            map (\<lambda>sha. \<lparr>rh_collection_id = c, rh_tenant_id = name, rh_head_sha = sha\<rparr>)
              (option_list (head_sha L (so_stat so) dirs (c, name)))
          else [])"

definition tenant_known :: "'o libs \<Rightarrow> scan_os \<Rightarrow> 'o directories \<Rightarrow> string \<Rightarrow> string option \<Rightarrow> bool" where
  "tenant_known L so dirs c entry \<longleftrightarrow>
     (case entry of None \<Rightarrow> False
      | Some name \<Rightarrow>
          \<not> (valid_utf8 name \<and> tenant_id name = Inr name \<and> so_tenant_is_dir so (c, name) \<and>
            probe_head L (so_stat so) dirs (c, name) = Unreadable))"

lemma scannable_tenant:
  "scannable_name tenant_id name = (if valid_utf8 name \<and> tenant_id name = Inr name then Some name else None)"
  using tenant.unchanged by (auto simp: scannable_name_def split: sum.splits)

lemma scannable_collection:
  "scannable_name collection_id name = (if valid_utf8 name \<and> collection_id name = Inr name then Some name else None)"
  using collection.unchanged by (auto simp: scannable_name_def split: sum.splits)

lemma scan_tenants_eq:
  "scan_tenants L so dirs c entries scan =
     \<lparr>rs_repositories = rs_repositories scan @ List.concat (map (tenant_found L so dirs c) entries),
      rs_complete = (rs_complete scan \<and> list_all (tenant_known L so dirs c) entries)\<rparr>"
proof (induction entries arbitrary: scan)
  case (Cons entry entries)
  show ?case
  proof (cases entry)
    case None
    then show ?thesis by (simp add: Cons tenant_found_def tenant_known_def mark_incomplete_def)
  next
    case (Some name)
    then show ?thesis
      by (cases "probe_head L (so_stat so) dirs (c, name)")
        (auto simp: Cons tenant_found_def tenant_known_def mark_incomplete_def scannable_tenant head_sha_def)
  qed
qed simp

definition collection_found :: "'o libs \<Rightarrow> scan_os \<Rightarrow> 'o directories \<Rightarrow> string option \<Rightarrow> repository_head list" where
  "collection_found L so dirs entry =
     (case entry of None \<Rightarrow> []
      | Some c \<Rightarrow>
          if valid_utf8 c \<and> collection_id c = Inr c \<and> so_collection_is_dir so c then
            List.concat (map (tenant_found L so dirs c)
              (case so_collection so c of Inl _ \<Rightarrow> [] | Inr tenants \<Rightarrow> tenants))
          else [])"

definition collection_known :: "'o libs \<Rightarrow> scan_os \<Rightarrow> 'o directories \<Rightarrow> string option \<Rightarrow> bool" where
  "collection_known L so dirs entry \<longleftrightarrow>
     (case entry of None \<Rightarrow> False
      | Some c \<Rightarrow>
          valid_utf8 c \<and> collection_id c = Inr c \<and> so_collection_is_dir so c \<longrightarrow>
            (case so_collection so c of Inl _ \<Rightarrow> False
             | Inr tenants \<Rightarrow> list_all (tenant_known L so dirs c) tenants))"

lemma scan_collections_eq:
  "scan_collections L so dirs entries scan =
     \<lparr>rs_repositories = rs_repositories scan @ List.concat (map (collection_found L so dirs) entries),
      rs_complete = (rs_complete scan \<and> list_all (collection_known L so dirs) entries)\<rparr>"
proof (induction entries arbitrary: scan)
  case (Cons entry entries)
  show ?case
  proof (cases entry)
    case None
    then show ?thesis by (simp add: Cons collection_found_def collection_known_def mark_incomplete_def)
  next
    case (Some c)
    then show ?thesis
      by (cases "so_collection so c")
        (auto simp: Cons collection_found_def collection_known_def mark_incomplete_def scannable_collection
          scan_tenants_eq)
  qed
qed simp

text \<open>
  The directory listings are those of the store: a directory it has is listed, unless an entry
  could not be read.
\<close>

definition listing_law :: "scan_os \<Rightarrow> 'o directories \<Rightarrow> bool" where
  "listing_law so dirs \<longleftrightarrow>
     (\<forall>c t es. dirs (c, t) \<noteq> None \<and> so_root so = Inr es \<longrightarrow> Some c \<in> set es \<or> None \<in> set es) \<and>
     (\<forall>c t ts. dirs (c, t) \<noteq> None \<and> so_collection so c = Inr ts \<longrightarrow> Some t \<in> set ts \<or> None \<in> set ts)"

text \<open>The directories whose metadata the scan could read, down to the \<open>.git\<close>.\<close>

definition discernible :: "scan_os \<Rightarrow> place \<Rightarrow> bool" where
  "discernible so p \<longleftrightarrow> so_collection_is_dir so (fst p) \<and> so_tenant_is_dir so p \<and> so_stat so p"

text \<open>What is at a place, were its metadata read.\<close>

abbreviation true_probe :: "'o libs \<Rightarrow> 'o directories \<Rightarrow> place \<Rightarrow> head_probe" where
  "true_probe L dirs p \<equiv> probe_head L (\<lambda>_. True) dirs p"

lemma probe_seen: "so_stat so p \<Longrightarrow> probe_head L (so_stat so) dirs p = true_probe L dirs p"
  by (simp add: probe_head_def git_seen_def)

lemma head_sha_probe: "head_sha L (so_stat so) dirs p = Some sha \<longleftrightarrow> so_stat so p \<and> true_probe L dirs p = head_probe.At sha"
  by (auto simp: head_sha_def probe_head_def git_seen_def split: head_probe.split)

text \<open>The repositories the API could have created.\<close>

definition nameable :: "place \<Rightarrow> bool" where
  "nameable p \<longleftrightarrow> valid_utf8 (fst p) \<and> collection_id (fst p) = Inr (fst p) \<and>
     valid_utf8 (snd p) \<and> tenant_id (snd p) = Inr (snd p)"

lemma probe_there: "true_probe L dirs p = probe \<Longrightarrow> probe \<noteq> NotARepository \<Longrightarrow> dirs p \<noteq> None"
  by (auto simp: probe_head_def git_seen_def git_exists_def split: if_splits option.splits)

lemma listed_tenant:
  "\<lparr>rh_collection_id = c', rh_tenant_id = t, rh_head_sha = sha\<rparr> \<in> set (tenant_found L so dirs c entry) \<longleftrightarrow>
     entry = Some t \<and> c' = c \<and> valid_utf8 t \<and> tenant_id t = Inr t \<and> so_tenant_is_dir so (c, t) \<and>
     head_sha L (so_stat so) dirs (c, t) = Some sha"
proof (cases entry)
  case (Some name)
  then show ?thesis by (cases "head_sha L (so_stat so) dirs (c, name)") (auto simp: tenant_found_def)
qed (simp add: tenant_found_def)

lemma listed_collection:
  "\<lparr>rh_collection_id = c, rh_tenant_id = t, rh_head_sha = sha\<rparr> \<in> set (collection_found L so dirs entry) \<longleftrightarrow>
     entry = Some c \<and> valid_utf8 c \<and> collection_id c = Inr c \<and> so_collection_is_dir so c \<and>
     (\<exists>ts. so_collection so c = Inr ts \<and> Some t \<in> set ts) \<and>
     valid_utf8 t \<and> tenant_id t = Inr t \<and> so_tenant_is_dir so (c, t) \<and> head_sha L (so_stat so) dirs (c, t) = Some sha"
proof (cases entry)
  case (Some name)
  then show ?thesis
    by (cases "so_collection so name") (auto simp: collection_found_def listed_tenant)
qed (simp add: collection_found_def)

text \<open>
  C27: a listing that calls itself complete names, of the repositories the API could have created
  whose metadata the scan could read, exactly those that have a commit, each with its HEAD: what it
  leaves out of these is not a repository, or has no commit yet. One of them that cannot be opened,
  or whose HEAD cannot be read, makes the listing incomplete, and so does a directory that cannot
  be listed.
\<close>

theorem complete_listing_exact:
  assumes law: "listing_law so dirs" and complete: "rs_complete (list_repositories L so dirs)"
  shows "(\<lparr>rh_collection_id = c, rh_tenant_id = t, rh_head_sha = sha\<rparr> \<in> set (rs_repositories (list_repositories L so dirs))
       \<longleftrightarrow> nameable (c, t) \<and> discernible so (c, t) \<and> true_probe L dirs (c, t) = head_probe.At sha) \<and>
    (nameable (c, t) \<and> discernible so (c, t) \<longrightarrow> true_probe L dirs (c, t) \<noteq> Unreadable)"
proof -
  obtain es where es: "so_root so = Inr es" and known: "list_all (collection_known L so dirs) es"
    and repos: "rs_repositories (list_repositories L so dirs) = List.concat (map (collection_found L so dirs) es)"
    using complete by (auto simp: list_repositories_def scan_collections_eq split: sum.splits)
  have no_None: "None \<notin> set es" using known by (auto simp: list_all_iff collection_known_def)
  have tenants: "\<exists>ts. so_collection so c = Inr ts \<and> list_all (tenant_known L so dirs c) ts"
    if "Some c \<in> set es" "valid_utf8 c" "collection_id c = Inr c" "so_collection_is_dir so c" for c
  proof -
    have "collection_known L so dirs (Some c)" using known that(1) by (simp add: list_all_iff)
    with that show ?thesis by (auto simp: collection_known_def split: sum.splits)
  qed
  have listed: "Some c \<in> set es \<and>
      (\<exists>ts. so_collection so c = Inr ts \<and> Some t \<in> set ts \<and> list_all (tenant_known L so dirs c) ts)"
    if "nameable (c, t)" "dirs (c, t) \<noteq> None" "discernible so (c, t)" for c t
  proof -
    have c: "Some c \<in> set es" using law es that(2) no_None unfolding listing_law_def by blast
    with tenants that(1,3) obtain ts where ts: "so_collection so c = Inr ts" "list_all (tenant_known L so dirs c) ts"
      by (auto simp: nameable_def discernible_def)
    then have "None \<notin> set ts" by (auto simp: list_all_iff tenant_known_def)
    then have "Some t \<in> set ts" using law ts that(2) unfolding listing_law_def by blast
    with c ts show ?thesis by blast
  qed
  have "true_probe L dirs (c, t) \<noteq> Unreadable" if "nameable (c, t)" "discernible so (c, t)"
  proof
    assume unread: "true_probe L dirs (c, t) = Unreadable"
    then have "dirs (c, t) \<noteq> None" by (rule probe_there) simp
    with listed [OF that(1) _ that(2)] obtain ts where "Some t \<in> set ts" "list_all (tenant_known L so dirs c) ts"
      by blast
    with unread that show False
      by (auto simp: list_all_iff tenant_known_def nameable_def discernible_def probe_seen)
  qed
  moreover have "\<lparr>rh_collection_id = c, rh_tenant_id = t, rh_head_sha = sha\<rparr> \<in> set (rs_repositories (list_repositories L so dirs))
      \<longleftrightarrow> nameable (c, t) \<and> discernible so (c, t) \<and> true_probe L dirs (c, t) = head_probe.At sha"
    using listed [of c t] probe_there [of L dirs "(c, t)" "head_probe.At sha"]
    unfolding repos set_concat set_map UN_iff image_iff bex_simps listed_collection head_sha_probe
    by (auto simp: nameable_def discernible_def listed_collection head_sha_probe)
  ultimately show ?thesis by blast
qed

definition tiny_scan :: scan_os where
  "tiny_scan =
     \<lparr>so_root = Inr [Some ''acme'', Some ''.replication.json''], so_collection_is_dir = (\<lambda>c. c = ''acme''),
      so_collection = (\<lambda>c. if c = ''acme'' then Inr [Some ''docs'', Some ''.docs.creating-0'']
         else Inl (IoError IoNotFound ''No such file or directory (os error 2)'')),
      so_tenant_is_dir = (\<lambda>p. True), so_stat = (\<lambda>p. True)\<rparr>"

theorem complete_listing_exact_witness:
  "\<lparr>rh_collection_id = ''acme'', rh_tenant_id = ''docs'', rh_head_sha = ''0001''\<rparr>
     \<in> set (rs_repositories (list_repositories tiny_libs tiny_scan (sr_dirs behind_store)))"
proof -
  have law: "listing_law tiny_scan (sr_dirs behind_store)"
    by (simp add: listing_law_def tiny_scan_def behind_store_def store_of_def tiny_place_def)
  have complete: "rs_complete (list_repositories tiny_libs tiny_scan (sr_dirs behind_store))" by code_simp
  have "nameable (''acme'', ''docs'') \<and> discernible tiny_scan (''acme'', ''docs'')" by code_simp
  moreover have "true_probe tiny_libs (sr_dirs behind_store) (''acme'', ''docs'') = head_probe.At ''0001''" by code_simp
  ultimately show ?thesis using complete_listing_exact [OF law complete] by blast
qed

text \<open>
  The proviso is needed: a collection, a tenant or a \<open>.git\<close> whose metadata cannot be read (a
  permission, an I/O error) is passed over as if there were nothing, and the listing still calls
  itself complete, so a replica takes a repository that is there for deleted.
\<close>

lemma unseen_repository_dropped:
  "true_probe tiny_libs (sr_dirs behind_store) (''acme'', ''docs'') = head_probe.At ''0001''"
  "list_repositories tiny_libs (tiny_scan\<lparr>so_stat := \<lambda>p. False\<rparr>) (sr_dirs behind_store) =
     \<lparr>rs_repositories = [], rs_complete = True\<rparr>"
  "list_repositories tiny_libs (tiny_scan\<lparr>so_tenant_is_dir := \<lambda>p. False\<rparr>) (sr_dirs behind_store) =
     \<lparr>rs_repositories = [], rs_complete = True\<rparr>"
  "list_repositories tiny_libs (tiny_scan\<lparr>so_collection_is_dir := \<lambda>c. False\<rparr>) (sr_dirs behind_store) =
     \<lparr>rs_repositories = [], rs_complete = True\<rparr>"
  by code_simp+

end
