(* ===== verification/Node_Status.thy ===== *)
theory Node_Status
  imports Config "HOL-Library.Word"
begin

text \<open>
  What a node reports of itself (\<open>src/replication.rs\<close>): the open issues, the roster of replicas a
  master keeps, the state a replica keeps of its own catch-up, and the verdicts of the health
  route. A shared map is an association list: \<open>BTreeMap\<close>'s is sorted by key. Time is seconds since
  the epoch, supplied where the code reads the clock.
\<close>

section \<open>Maps\<close>

fun put_entry :: "string \<Rightarrow> 'v \<Rightarrow> (string \<times> 'v) list \<Rightarrow> (string \<times> 'v) list" where
  "put_entry k v [] = [(k, v)]"
| "put_entry k v ((k', v') # rest) =
     (if k = k' then (k, v) # rest
      else if k < k' then (k, v) # (k', v') # rest
      else (k', v') # put_entry k v rest)"

definition drop_entry :: "string \<Rightarrow> (string \<times> 'v) list \<Rightarrow> (string \<times> 'v) list" where
  "drop_entry k m = filter (\<lambda>e. fst e \<noteq> k) m"

definition ordered :: "(string \<times> 'v) list \<Rightarrow> bool" where
  "ordered m \<longleftrightarrow> sorted_wrt (<) (map fst m)"

lemma put_entry_keys: "set (map fst (put_entry k v m)) = insert k (set (map fst m))"
  by (induction k v m rule: put_entry.induct) auto

lemma ordered_put: "ordered m \<Longrightarrow> ordered (put_entry k v m)"
proof (induction k v m rule: put_entry.induct)
  case (2 k v k' v' rest)
  have keys: "set (map fst (put_entry k v rest)) = insert k (set (map fst rest))" by (rule put_entry_keys)
  consider "k = k'" | "k < k'" | "k' < k" by fastforce
  then show ?case
  proof cases
    case 3
    with 2 have "ordered (put_entry k v rest)" by (auto simp: ordered_def)
    then show ?thesis using 2(2) 3 keys by (fastforce simp: ordered_def)
  qed (use 2 in \<open>auto simp: ordered_def\<close>)
qed (simp add: ordered_def)

lemma ordered_drop: "ordered m \<Longrightarrow> ordered (drop_entry k m)"
  by (simp add: ordered_def drop_entry_def sorted_wrt_map sorted_wrt_filter)

lemma map_of_put: "ordered m \<Longrightarrow> map_of (put_entry k v m) = (map_of m)(k \<mapsto> v)"
proof (induction k v m rule: put_entry.induct)
  case (2 k v k' v' rest)
  then have "map_of rest k = None" if "k < k'"
    using that by (auto simp: ordered_def map_of_eq_None_iff)
  with 2 show ?case by (auto simp: ordered_def fun_eq_iff)
qed auto

lemma map_of_drop [simp]: "map_of (drop_entry k m) = (map_of m)(k := None)"
  by (induction m) (auto simp: drop_entry_def)

section \<open>Issues\<close>

datatype issue =
    ReplicaAhead string string string string int
  | HistoryDiverged string string string string int
  | IdentityMismatch string string int
  | DeletionRefused nat nat int
  | IdentityFileMissing string int
  | IdentityFileChanged string string string int
  | NodeIdCollision string int

fun issue_since :: "issue \<Rightarrow> int" where
  "issue_since (ReplicaAhead collection tenant local remote since) = since"
| "issue_since (HistoryDiverged collection tenant local remote since) = since"
| "issue_since (IdentityMismatch pinned stated since) = since"
| "issue_since (DeletionRefused would_delete held since) = since"
| "issue_since (IdentityFileMissing path since) = since"
| "issue_since (IdentityFileChanged path expected found since) = since"
| "issue_since (NodeIdCollision node since) = since"

fun set_since :: "int \<Rightarrow> issue \<Rightarrow> issue" where
  "set_since t (ReplicaAhead collection tenant local remote since) = ReplicaAhead collection tenant local remote t"
| "set_since t (HistoryDiverged collection tenant local remote since) = HistoryDiverged collection tenant local remote t"
| "set_since t (IdentityMismatch pinned stated since) = IdentityMismatch pinned stated t"
| "set_since t (DeletionRefused would_delete held since) = DeletionRefused would_delete held t"
| "set_since t (IdentityFileMissing path since) = IdentityFileMissing path t"
| "set_since t (IdentityFileChanged path expected found since) = IdentityFileChanged path expected found t"
| "set_since t (NodeIdCollision node since) = NodeIdCollision node t"

type_synonym issues = "(string \<times> issue) list"

definition repository_key :: "string \<Rightarrow> string \<Rightarrow> string" where
  "repository_key collection tenant = ''repository:'' @ collection @ ''/'' @ tenant"

definition collision_key :: "string \<Rightarrow> string" where
  "collision_key node = ''node_id_collision:'' @ node"

definition raise_issue :: "string \<Rightarrow> issue \<Rightarrow> issues \<Rightarrow> bool \<times> issues" where
  "raise_issue key issue inner =
     (case map_of inner key of
        Some existing \<Rightarrow> (False, put_entry key (set_since (issue_since existing) issue) inner)
      | None \<Rightarrow> (True, put_entry key issue inner))"

definition clear_issue :: "string \<Rightarrow> issues \<Rightarrow> bool \<times> issues" where
  "clear_issue key inner = (map_of inner key \<noteq> None, drop_entry key inner)"

definition get_issue :: "string \<Rightarrow> issues \<Rightarrow> issue option" where
  "get_issue key inner = map_of inner key"

definition count_with_prefix :: "string \<Rightarrow> issues \<Rightarrow> nat" where
  "count_with_prefix p inner = length (filter (\<lambda>key. starts_with key p) (map fst inner))"

definition all_issues :: "issues \<Rightarrow> issue list" where
  "all_issues inner = sort_key issue_since (map snd inner)"

definition ISSUE_IDENTITY_MISMATCH :: string where "ISSUE_IDENTITY_MISMATCH = ''identity_mismatch''"
definition ISSUE_DELETION_REFUSED :: string where "ISSUE_DELETION_REFUSED = ''deletion_refused''"
definition ISSUE_IDENTITY_FILE :: string where "ISSUE_IDENTITY_FILE = ''identity_file''"
definition ISSUE_NODE_ID_COLLISION :: string where "ISSUE_NODE_ID_COLLISION = ''node_id_collision''"

lemmas issue_keys = ISSUE_IDENTITY_MISMATCH_def ISSUE_DELETION_REFUSED_def ISSUE_IDENTITY_FILE_def
  ISSUE_NODE_ID_COLLISION_def repository_key_def collision_key_def

section \<open>Statuses\<close>

datatype sync_status = Synced | Lagging | Stalled | HaltedSync

fun sync_as_str :: "sync_status \<Rightarrow> string" where
  "sync_as_str Synced = ''synced''"
| "sync_as_str Lagging = ''lagging''"
| "sync_as_str Stalled = ''stalled''"
| "sync_as_str HaltedSync = ''halted''"

definition sync_parse :: "string \<Rightarrow> sync_status option" where
  "sync_parse raw =
     (if raw = ''synced'' then Some Synced
      else if raw = ''lagging'' then Some Lagging
      else if raw = ''stalled'' then Some Stalled
      else if raw = ''halted'' then Some HaltedSync
      else None)"

datatype node_status = Healthy | Degraded | Halted

fun node_as_str :: "node_status \<Rightarrow> string" where
  "node_as_str Healthy = ''healthy''"
| "node_as_str Degraded = ''degraded''"
| "node_as_str Halted = ''halted''"

text \<open>The derived \<open>Ord\<close>: worse is greater.\<close>

instantiation node_status :: linorder
begin

definition less_eq_node_status :: "node_status \<Rightarrow> node_status \<Rightarrow> bool" where
  "less_eq_node_status a b \<longleftrightarrow> a = Healthy \<or> b = Halted \<or> a = b"

definition less_node_status :: "node_status \<Rightarrow> node_status \<Rightarrow> bool" where
  "less_node_status a b \<longleftrightarrow> a \<le> b \<and> (a :: node_status) \<noteq> b"

instance
proof
  fix a b c :: node_status
  show "a < b \<longleftrightarrow> a \<le> b \<and> \<not> b \<le> a"
    by (cases a; cases b) (auto simp: less_eq_node_status_def less_node_status_def)
  show "a \<le> b \<or> b \<le> a" by (cases a; cases b) (auto simp: less_eq_node_status_def)
qed (auto simp: less_eq_node_status_def)

end

section \<open>The roster\<close>

record replica_presence =
  rp_node_id :: string
  rp_stream_connected :: bool
  rp_connected_at :: "int option"
  rp_last_contact_at :: "int option"
  rp_packs_delivered :: "64 word"
  rp_repositories :: "nat option"
  rp_pending :: "nat option"
  rp_sync :: "string option"
  rp_reported_at :: "int option"
  rp_poll_interval_secs :: "nat option"
  rp_instance :: "string option"
  rp_last_collision_at :: "int option"
  rp_collision_since :: "int option"

definition new_presence :: "string \<Rightarrow> replica_presence" where
  "new_presence node =
     \<lparr>rp_node_id = node, rp_stream_connected = False, rp_connected_at = None, rp_last_contact_at = None,
      rp_packs_delivered = 0, rp_repositories = None, rp_pending = None, rp_sync = None,
      rp_reported_at = None, rp_poll_interval_secs = None, rp_instance = None,
      rp_last_collision_at = None, rp_collision_since = None\<rparr>"

type_synonym registry = "(string \<times> replica_presence) list"

definition registry_entry :: "string \<Rightarrow> registry \<Rightarrow> replica_presence" where
  "registry_entry node reg = (case map_of reg node of Some p \<Rightarrow> p | None \<Rightarrow> new_presence node)"

definition COLLISION_EXPIRY_SECS :: int where "COLLISION_EXPIRY_SECS = 150"
definition EVENT_HEARTBEAT_SECS :: int where "EVENT_HEARTBEAT_SECS = 20"
definition COLLISION_REPORT_AFTER_SECS :: int where "COLLISION_REPORT_AFTER_SECS = 2 * EVENT_HEARTBEAT_SECS"

definition note_request ::
  "int \<Rightarrow> string \<Rightarrow> nat option \<Rightarrow> nat option \<Rightarrow> string option \<Rightarrow> nat option \<Rightarrow> registry \<Rightarrow> registry" where
  "note_request now node repositories pending sync poll reg =
     (let p = (registry_entry node reg)\<lparr>rp_last_contact_at := Some now\<rparr>;
          p = (if repositories \<noteq> None \<or> pending \<noteq> None \<or> sync \<noteq> None
               then p\<lparr>rp_repositories := repositories, rp_pending := pending, rp_sync := sync,
                      rp_reported_at := Some now\<rparr>
               else p);
          p = (if poll \<noteq> None then p\<lparr>rp_poll_interval_secs := poll\<rparr> else p)
      in put_entry node p reg)"

definition note_pack_delivered :: "int \<Rightarrow> string \<Rightarrow> registry \<Rightarrow> registry" where
  "note_pack_delivered now node reg =
     (let p = registry_entry node reg in
      put_entry node
        (p\<lparr>rp_packs_delivered := rp_packs_delivered p + 1, rp_last_contact_at := Some now\<rparr>) reg)"

record stream_collision =
  col_node_id :: string
  col_persisting :: bool
  col_since :: int

definition held_by_other :: "string \<Rightarrow> replica_presence \<Rightarrow> bool" where
  "held_by_other ins p \<longleftrightarrow>
     rp_stream_connected p \<and> (case rp_instance p of None \<Rightarrow> False | Some holder \<Rightarrow> holder \<noteq> ins)"

definition stream_opened :: "int \<Rightarrow> string \<Rightarrow> string \<Rightarrow> registry \<Rightarrow> (stream_collision + unit) \<times> registry" where
  "stream_opened now node ins reg =
     (let p = registry_entry node reg in
      if held_by_other ins p then
        (let fresh = (case rp_last_collision_at p of None \<Rightarrow> True | Some t \<Rightarrow> now - t > COLLISION_EXPIRY_SECS);
             since = (if fresh then now else (case rp_collision_since p of None \<Rightarrow> now | Some t \<Rightarrow> t));
             p = p\<lparr>rp_collision_since := Some since, rp_last_collision_at := Some now\<rparr>
         in (Inl \<lparr>col_node_id = node, col_persisting = (now - since \<ge> COLLISION_REPORT_AFTER_SECS), col_since = since\<rparr>,
             put_entry node p reg))
      else
        (Inr (),
         put_entry node
           (p\<lparr>rp_stream_connected := True, rp_connected_at := Some now, rp_last_contact_at := Some now,
              rp_instance := Some ins, rp_collision_since := None\<rparr>) reg))"

definition stream_closed :: "int \<Rightarrow> string \<Rightarrow> string \<Rightarrow> registry \<Rightarrow> registry" where
  "stream_closed now node ins reg =
     (let p = registry_entry node reg in
      if rp_instance p \<noteq> Some ins then put_entry node p reg
      else put_entry node (p\<lparr>rp_stream_connected := False, rp_last_contact_at := Some now\<rparr>) reg)"

text \<open>Most recently heard from first, never-heard-from last, then by node id.\<close>

definition roster_before :: "replica_presence \<Rightarrow> replica_presence \<Rightarrow> bool" where
  "roster_before l r \<longleftrightarrow>
     (case (rp_last_contact_at r, rp_last_contact_at l) of
        (None, Some _) \<Rightarrow> True
      | (Some _, None) \<Rightarrow> False
      | (Some b, Some a) \<Rightarrow> b < a \<or> (b = a \<and> rp_node_id l \<le> rp_node_id r)
      | (None, None) \<Rightarrow> rp_node_id l \<le> rp_node_id r)"

fun insert_by :: "('a \<Rightarrow> 'a \<Rightarrow> bool) \<Rightarrow> 'a \<Rightarrow> 'a list \<Rightarrow> 'a list" where
  "insert_by before x [] = [x]"
| "insert_by before x (y # ys) = (if before x y then x # y # ys else y # insert_by before x ys)"

definition roster :: "registry \<Rightarrow> replica_presence list" where
  "roster reg = foldr (insert_by roster_before) (map snd reg) []"

definition expire_collisions :: "int \<Rightarrow> registry \<Rightarrow> issues \<Rightarrow> issues" where
  "expire_collisions now reg issues =
     foldl (\<lambda>inner (node, p).
       case rp_last_collision_at p of
         None \<Rightarrow> inner
       | Some t \<Rightarrow> if now - t > COLLISION_EXPIRY_SECS then snd (clear_issue (collision_key node) inner) else inner)
     issues reg"

section \<open>The replica's own status\<close>

record master_view =
  mv_node_id :: "string option"
  mv_replicas :: "replica_presence list"
  mv_observed_at :: "int option"
  mv_last_contact_at :: "int option"
  mv_last_error :: "string option"

record replica_status =
  st_is_replica :: bool
  st_bootstrapped :: bool
  st_stream_connected :: bool
  st_last_reconcile_unix :: int
  st_pending :: nat
  st_repositories :: nat
  st_identity_verified :: bool
  st_consecutive_failures :: "32 word"
  st_last_success_unix :: int
  st_master_view :: master_view

definition new_replica_status :: "config \<Rightarrow> replica_status" where
  "new_replica_status c =
     (let replica = (case cf_replication c of None \<Rightarrow> False | Some r \<Rightarrow> is_replica r) in
      \<lparr>st_is_replica = replica, st_bootstrapped = (\<not> replica), st_stream_connected = False,
       st_last_reconcile_unix = 0, st_pending = 0, st_repositories = 0, st_identity_verified = False,
       st_consecutive_failures = 0, st_last_success_unix = 0,
       st_master_view = \<lparr>mv_node_id = None, mv_replicas = [], mv_observed_at = None,
         mv_last_contact_at = None, mv_last_error = None\<rparr>\<rparr>)"

definition STALLED_AFTER_FAILURES :: "32 word" where "STALLED_AFTER_FAILURES = 3"

definition note_pass :: "int \<Rightarrow> bool \<Rightarrow> replica_status \<Rightarrow> replica_status" where
  "note_pass now failed s =
     (if failed then s\<lparr>st_consecutive_failures := st_consecutive_failures s + 1\<rparr>
      else s\<lparr>st_consecutive_failures := 0, st_last_success_unix := now\<rparr>)"

definition last_success :: "replica_status \<Rightarrow> int option" where
  "last_success s = (if st_last_success_unix s = 0 then None else Some (st_last_success_unix s))"

definition last_reconcile :: "replica_status \<Rightarrow> int option" where
  "last_reconcile s = (if st_last_reconcile_unix s = 0 then None else Some (st_last_reconcile_unix s))"

definition locked_repositories :: "issues \<Rightarrow> nat" where
  "locked_repositories issues = count_with_prefix ''repository:'' issues"

definition sync_status_of :: "issues \<Rightarrow> replica_status \<Rightarrow> sync_status" where
  "sync_status_of issues s =
     (if issues \<noteq> [] then HaltedSync
      else if st_consecutive_failures s \<ge> STALLED_AFTER_FAILURES then Stalled
      else if st_pending s > 0 \<or> last_success s = None then Lagging
      else Synced)"

definition mark_bootstrapped :: "replica_status \<Rightarrow> replica_status" where
  "mark_bootstrapped s = s\<lparr>st_bootstrapped := True\<rparr>"

definition record_master_health :: "int \<Rightarrow> string option \<Rightarrow> replica_presence list \<Rightarrow> replica_status \<Rightarrow> replica_status" where
  "record_master_health now node replicas s =
     s\<lparr>st_master_view := \<lparr>mv_node_id = node, mv_replicas = replicas, mv_observed_at = Some now,
       mv_last_contact_at = Some now, mv_last_error = None\<rparr>\<rparr>"

definition record_master_identity :: "int \<Rightarrow> string \<Rightarrow> replica_status \<Rightarrow> replica_status" where
  "record_master_identity now node s =
     s\<lparr>st_master_view := (st_master_view s)\<lparr>mv_node_id := Some node, mv_last_contact_at := Some now,
       mv_last_error := None\<rparr>\<rparr>"

definition record_master_contact :: "int \<Rightarrow> replica_status \<Rightarrow> replica_status" where
  "record_master_contact now s =
     s\<lparr>st_master_view := (st_master_view s)\<lparr>mv_last_contact_at := Some now, mv_last_error := None\<rparr>\<rparr>"

definition record_master_error :: "string \<Rightarrow> replica_status \<Rightarrow> replica_status" where
  "record_master_error e s = s\<lparr>st_master_view := (st_master_view s)\<lparr>mv_last_error := Some e\<rparr>\<rparr>"

section \<open>Verdicts\<close>

definition REPLICA_SILENT_INTERVALS :: int where "REPLICA_SILENT_INTERVALS = 2"
definition REPLICA_SILENT_MINIMUM_SECS :: int where "REPLICA_SILENT_MINIMUM_SECS = 120"
definition REPLICA_SILENT_MAXIMUM_SECS :: int where "REPLICA_SILENT_MAXIMUM_SECS = 900"

definition i64_max :: int where "i64_max = 2 ^ 63 - 1"

definition clamp :: "int \<Rightarrow> int \<Rightarrow> int \<Rightarrow> int" where
  "clamp lo hi x = (if x < lo then lo else if x > hi then hi else x)"

definition silent_after_secs :: "nat option \<Rightarrow> int" where
  "silent_after_secs poll =
     clamp REPLICA_SILENT_MINIMUM_SECS REPLICA_SILENT_MAXIMUM_SECS
       (case poll of
          None \<Rightarrow> REPLICA_SILENT_MINIMUM_SECS
        | Some secs \<Rightarrow>
            (let wide = (if int secs \<le> i64_max then int secs else i64_max) in
             if wide * REPLICA_SILENT_INTERVALS > i64_max then i64_max
             else wide * REPLICA_SILENT_INTERVALS))"

definition replica_verdict :: "int \<Rightarrow> replica_presence \<Rightarrow> node_status" where
  "replica_verdict now p =
     (case Option.bind (rp_sync p) sync_parse of
        Some HaltedSync \<Rightarrow> Halted
      | Some Stalled \<Rightarrow> Degraded
      | _ \<Rightarrow>
          (let threshold = silent_after_secs (rp_poll_interval_secs p);
               silent = (case rp_last_contact_at p of None \<Rightarrow> True | Some at \<Rightarrow> now - at > threshold)
           in if \<not> rp_stream_connected p \<and> silent then Degraded else Healthy))"

definition master_status :: "replica_presence list \<Rightarrow> bool \<Rightarrow> int \<Rightarrow> node_status" where
  "master_status replicas no_issues now =
     (if \<not> no_issues then Halted
      else foldl (\<lambda>status p. max status (replica_verdict now p)) Healthy replicas)"

record node_health =
  nh_node_id :: string
  nh_role :: string
  nh_identity :: "string option"
  nh_repositories :: nat

record master_health =
  mh_node_id :: "string option"
  mh_url :: "string option"
  mh_reachable :: bool
  mh_last_contact_at :: "int option"
  mh_last_error :: "string option"

record follower_health =
  fh_state :: string
  fh_sync :: string
  fh_stream_connected :: bool
  fh_last_reconcile_at :: "int option"
  fh_last_success_at :: "int option"
  fh_pending_repositories :: nat
  fh_locked_repositories :: nat
  fh_consecutive_failures :: "32 word"

record replication_health =
  he_protocol :: nat
  he_status :: string
  he_issues :: "issue list"
  he_node :: node_health
  he_master :: master_health
  he_replicas :: "replica_presence list"
  he_replica :: "follower_health option"
  he_observed_at :: int
  he_replicas_observed_at :: "int option"

definition PROTOCOL_VERSION :: nat where "PROTOCOL_VERSION = 1"

definition follower_verdict :: "issues \<Rightarrow> replica_status \<Rightarrow> node_status" where
  "follower_verdict issues s =
     (case sync_status_of issues s of
        HaltedSync \<Rightarrow> Halted
      | Stalled \<Rightarrow> Degraded
      | _ \<Rightarrow> if \<not> st_bootstrapped s then Degraded else Healthy)"

text \<open>
  \<open>build_health\<close>: the answer and the issues it leaves, since a master's answer expires the
  collisions first. \<open>redact\<close> is \<open>redact_url\<close> on the configured URL, around the third-party parser.
\<close>

definition self_as_master :: "int \<Rightarrow> string \<Rightarrow> master_health" where
  "self_as_master now node =
     \<lparr>mh_node_id = Some node, mh_url = None, mh_reachable = True, mh_last_contact_at = Some now, mh_last_error = None\<rparr>"

definition build_health ::
  "(string \<Rightarrow> string) \<Rightarrow> int \<Rightarrow> config \<Rightarrow> string option \<Rightarrow> registry \<Rightarrow> replica_status \<Rightarrow> nat \<Rightarrow> issues \<Rightarrow>
     replication_health \<times> issues" where
  "build_health redact now c identity reg st repositories issues =
     (case cf_replication c of
        None \<Rightarrow>
          (let node = sc_host (cf_server c) @ '':'' @ show_nat (sc_port (cf_server c)) in
           (\<lparr>he_protocol = PROTOCOL_VERSION, he_status = node_as_str Healthy, he_issues = all_issues issues,
             he_node = \<lparr>nh_node_id = node, nh_role = ''standalone'', nh_identity = None, nh_repositories = repositories\<rparr>,
             he_master = self_as_master now node, he_replicas = [], he_replica = None,
             he_observed_at = now, he_replicas_observed_at = Some now\<rparr>, issues))
      | Some rc \<Rightarrow>
          if \<not> is_replica rc then
            (let issues = expire_collisions now reg issues;
                 listed = all_issues issues; replicas = roster reg in
             (\<lparr>he_protocol = PROTOCOL_VERSION,
               he_status = node_as_str (master_status replicas (listed = []) now), he_issues = listed,
               he_node = \<lparr>nh_node_id = rc_node_id rc, nh_role = ''master'', nh_identity = identity,
                 nh_repositories = repositories\<rparr>,
               he_master = self_as_master now (rc_node_id rc), he_replicas = replicas, he_replica = None,
               he_observed_at = now, he_replicas_observed_at = Some now\<rparr>, issues))
          else
            (let view = st_master_view st; sync = sync_status_of issues st in
             (\<lparr>he_protocol = PROTOCOL_VERSION, he_status = node_as_str (follower_verdict issues st),
               he_issues = all_issues issues,
               he_node = \<lparr>nh_node_id = rc_node_id rc, nh_role = ''replica'', nh_identity = identity,
                 nh_repositories = repositories\<rparr>,
               he_master = \<lparr>mh_node_id = mv_node_id view, mh_url = map_option redact (rc_master_url rc),
                 mh_reachable = (mv_last_error view = None \<and> mv_last_contact_at view \<noteq> None),
                 mh_last_contact_at = mv_last_contact_at view, mh_last_error = mv_last_error view\<rparr>,
               he_replicas = mv_replicas view,
               he_replica = Some \<lparr>fh_state = (if st_bootstrapped st then ''ready'' else ''bootstrapping''),
                 fh_sync = sync_as_str sync, fh_stream_connected = st_stream_connected st,
                 fh_last_reconcile_at = last_reconcile st, fh_last_success_at = last_success st,
                 fh_pending_repositories = st_pending st, fh_locked_repositories = locked_repositories issues,
                 fh_consecutive_failures = st_consecutive_failures st\<rparr>,
               he_observed_at = now, he_replicas_observed_at = mv_observed_at view\<rparr>, issues)))"


section \<open>Issues\<close>

lemma raise_keeps_since:
  assumes "ordered m" and "map_of m key = Some old" and "raise_issue key issue m = (new, m')"
  shows "\<not> new \<and> (\<exists>i. get_issue key m' = Some i \<and> issue_since i = issue_since old)"
proof -
  have "issue_since (set_since t i) = t" for t i by (cases i) simp_all
  with assms show ?thesis by (auto simp: raise_issue_def get_issue_def map_of_put)
qed

lemma ordered_raise: "ordered m \<Longrightarrow> raise_issue key issue m = (new, m') \<Longrightarrow> ordered m'"
  by (auto simp: raise_issue_def intro: ordered_put split: option.splits)

lemma get_raise_other:
  "ordered m \<Longrightarrow> raise_issue key issue m = (new, m') \<Longrightarrow> k \<noteq> key \<Longrightarrow> get_issue k m' = get_issue k m"
  by (auto simp: raise_issue_def get_issue_def map_of_put split: option.splits)

lemma clear_issue_simps [simp]:
  "snd (clear_issue key m) = drop_entry key m" "fst (clear_issue key m) \<longleftrightarrow> map_of m key \<noteq> None"
  by (simp_all add: clear_issue_def)

lemma sync_parse_str [simp]: "sync_parse (sync_as_str s) = Some s"
  by (cases s) (simp_all add: sync_parse_def)

section \<open>The roster\<close>

lemma set_insert_by [simp]: "set (insert_by f x ys) = insert x (set ys)"
  by (induction ys) auto

lemma set_roster: "set (roster reg) = snd ` set reg"
  unfolding roster_def by (induction reg) auto

lemma put_entry_self: "(k, v) \<in> set (put_entry k v m)"
  by (induction k v m rule: put_entry.induct) auto

text \<open>A stream is its holder's until the holder closes it: another instance is turned away.\<close>

lemma stream_has_one_holder:
  assumes "map_of reg node = Some p" and "rp_stream_connected p" and "rp_instance p = Some holder"
    and "ins \<noteq> holder"
  shows "\<exists>col. fst (stream_opened now node ins reg) = Inl col"
    and "stream_closed now node ins reg = put_entry node p reg"
  using assms by (simp_all add: stream_opened_def stream_closed_def registry_entry_def held_by_other_def Let_def)

section \<open>Verdicts\<close>

lemma fold_max: "foldl (\<lambda>a x. max a (f x)) (a :: 'b :: linorder) xs = Max (insert a (f ` set xs))"
proof (induction xs arbitrary: a)
  case (Cons x xs)
  have "Max (insert (max a (f x)) (f ` set xs)) = Max (insert a (insert (f x) (f ` set xs)))"
    by (cases "f ` set xs = {}") (simp_all add: max.assoc)
  with Cons show ?case by simp
qed simp

text \<open>
  The master's verdict is the worst thing in the set: its own open issues, or the worst
  verdict on a replica of its roster, and healthy when there is neither.
\<close>

theorem master_reports_worst:
  "master_status replicas no_issues now =
     Max (insert (if no_issues then Healthy else Halted) (replica_verdict now ` set replicas))"
proof (cases no_issues)
  case True
  then show ?thesis by (simp add: master_status_def fold_max)
next
  case False
  have "Max (insert Halted (replica_verdict now ` set replicas)) = Halted"
    by (rule Max_eqI) (auto simp: less_eq_node_status_def)
  with False show ?thesis by (simp add: master_status_def)
qed

text \<open>The silence threshold follows the reported cadence between the floor and the ceiling.\<close>

lemma silent_after_secs_eq:
  "silent_after_secs poll = (case poll of None \<Rightarrow> 120 | Some secs \<Rightarrow> max 120 (min 900 (2 * int secs)))"
  by (auto simp: silent_after_secs_def clamp_def REPLICA_SILENT_INTERVALS_def REPLICA_SILENT_MINIMUM_SECS_def
      REPLICA_SILENT_MAXIMUM_SECS_def i64_max_def Let_def split: option.split)

lemma verdict_counts: "p \<in> set replicas \<Longrightarrow> replica_verdict now p \<le> master_status replicas no_issues now"
proof (cases no_issues)
  case True
  assume "p \<in> set replicas"
  then show ?thesis unfolding master_status_def fold_max using True by (simp add: Max_ge)
qed (simp add: master_status_def less_eq_node_status_def)

text \<open>
  One probe of the master is enough: a replica with an open issue halts it with its next
  report, however large the roster and whatever the stream and the clock say.
\<close>

theorem halted_replica_halts_master:
  assumes "issues \<noteq> []"
    and "reg' = note_request now node repositories pending (Some (sync_as_str (sync_status_of issues st))) poll reg"
  shows "master_status (roster reg') no_issues later = Halted"
proof -
  have "sync_status_of issues st = HaltedSync" using assms(1) by (simp add: sync_status_of_def)
  then obtain p where reg: "reg' = put_entry node p reg" and p: "rp_sync p = Some (sync_as_str HaltedSync)"
    using assms(2) by (auto simp: note_request_def Let_def simp del: sync_as_str.simps)
  have "(node, p) \<in> set reg'" unfolding reg by (rule put_entry_self)
  then have "p \<in> set (roster reg')" by (force simp: set_roster)
  moreover have "replica_verdict later p = Halted" by (simp add: replica_verdict_def p sync_parse_str del: sync_as_str.simps)
  ultimately have "Halted \<le> master_status (roster reg') no_issues later" using verdict_counts by metis
  then show ?thesis by (auto simp: less_eq_node_status_def)
qed

theorem halted_replica_halts_master_witness:
  "master_status (roster (note_request 5 ''replica-1'' None None
     (Some (sync_as_str (sync_status_of [(ISSUE_DELETION_REFUSED, DeletionRefused 3 4 1)] st))) None [])) True 9 = Halted"
  by (rule halted_replica_halts_master [OF _ refl]) simp

end
