(* ===== verification/Repository_Index.thy ===== *)
theory Repository_Index
  imports Replication_Git Node_Status
begin

text \<open>
  The identity of a node's data set and its index of repositories (\<open>src/replication.rs\<close>):
  \<open>ReplicationIdentity\<close> with the file it lives in, and \<open>RepositoryIndex\<close> with its scans. A rescan
  reads the sequence number, walks the disk without the lock, and merges: announcements may come
  in between, so its beginning and its end are definitions of their own.
\<close>

section \<open>The identity file\<close>

text \<open>
  \<open>serde_json\<close> and the operating system are parameters; \<open>'x\<close> is the map of the file's other keys.
  The file is the bytes at \<open>path\<close>, the temporary one those at its sibling.
\<close>

record 'x identity_libs =
  il_parse :: "bytes \<Rightarrow> string + string \<times> 'x"
  il_encode :: "string \<Rightarrow> 'x \<Rightarrow> string + bytes"
  il_no_extra :: 'x
  il_random :: "nat \<Rightarrow> string + nat list"
  il_read_fault :: "string option" \<comment> \<open>a failure other than a missing file\<close>
  il_mkdir_fault :: "string option"
  il_write_fault :: "string option"
  il_rename_fault :: "string option"

record identity_files =
  id_file :: "bytes option"
  id_temporary :: "bytes option"

record replication_identity_state =
  ri_path :: string
  ri_current :: "string option"

datatype identity_drift = Missing string | Changed string string string

definition IDENTITY_FILE :: string where "IDENTITY_FILE = ''.replication.json''"
definition IDENTITY_BYTES :: nat where "IDENTITY_BYTES = 32"

type_synonym 'a identity_action = "(identity_files, string, 'a) action"

definition reject :: "'e + 'a \<Rightarrow> ('e \<Rightarrow> string) \<Rightarrow> string + 'a" where
  "reject r message = (case r of Inl e \<Rightarrow> Inl (message e) | Inr a \<Rightarrow> Inr a)"

lemma reject_Inr [simp]: "reject r f = Inr a \<longleftrightarrow> r = Inr a" "reject (Inr a) f = Inr a"
  by (auto simp: reject_def split: sum.splits)

definition read_identity_file :: "'x identity_libs \<Rightarrow> string \<Rightarrow> identity_files \<Rightarrow> string + (string \<times> 'x) option" where
  "read_identity_file L path fs =
     (case id_file fs of
        None \<Rightarrow> Inr None
      | Some raw \<Rightarrow>
          (case il_read_fault L of
             Some e \<Rightarrow> Inl (''cannot read '' @ path @ '': '' @ e)
           | None \<Rightarrow>
               and_then (reject (il_parse L raw) (\<lambda>e. ''cannot parse '' @ path @ '': '' @ e)) (\<lambda>(identity, extra).
               and_then (reject (replication_identity identity)
                   (\<lambda>e. path @ '' holds an invalid identity: '' @ error_message e)) (\<lambda>_.
                 Inr (Some (identity, extra))))))"

definition write_identity_file :: "'x identity_libs \<Rightarrow> string \<Rightarrow> string \<Rightarrow> 'x \<Rightarrow> unit identity_action" where
  "write_identity_file L path identity extra =
     bind_act (act_lift (reject (il_encode L identity extra) (\<lambda>e. ''cannot encode '' @ path @ '': '' @ e))) (\<lambda>encoded.
     bind_act (\<lambda>fs. case il_mkdir_fault L of Some e \<Rightarrow> (Inl (''cannot create '' @ e), fs) | None \<Rightarrow> (Inr (), fs)) (\<lambda>_.
     bind_act (\<lambda>fs. case il_write_fault L of
         Some e \<Rightarrow> (Inl (''cannot write '' @ with_extension path ''json.tmp'' @ '': '' @ e), fs)
       | None \<Rightarrow> (Inr (), fs\<lparr>id_temporary := Some encoded\<rparr>)) (\<lambda>_.
     (\<lambda>fs. case il_rename_fault L of
         Some e \<Rightarrow> (Inl (''cannot move '' @ with_extension path ''json.tmp'' @ '' into place: '' @ e), fs)
       | None \<Rightarrow> (Inr (), \<lparr>id_file = id_temporary fs, id_temporary = None\<rparr>)))))"

definition hex_byte :: "nat \<Rightarrow> string" where
  "hex_byte b =
     (let d = (\<lambda>n. if n < 10 then char_of (48 + n) else char_of (87 + n)) in [d (b div 16), d (b mod 16)])"

definition generate_hex :: "'x identity_libs \<Rightarrow> nat \<Rightarrow> string + string" where
  "generate_hex L bytes = and_then (il_random L bytes) (\<lambda>buffer. Inr (List.concat (map hex_byte buffer)))"

definition generate_identity :: "'x identity_libs \<Rightarrow> string + string" where
  "generate_identity L =
     reject (generate_hex L IDENTITY_BYTES) (\<lambda>e. ''cannot generate replication identity: '' @ e)"

definition load_identity :: "'x identity_libs \<Rightarrow> string \<Rightarrow> config \<Rightarrow> replication_identity_state identity_action" where
  "load_identity L path c =
     (case cf_replication c of
        None \<Rightarrow> act_ok \<lparr>ri_path = path, ri_current = None\<rparr>
      | Some rc \<Rightarrow>
          bind_act (\<lambda>fs. (read_identity_file L path fs, fs)) (\<lambda>found.
            (case found of
               Some (identity, _) \<Rightarrow> act_ok \<lparr>ri_path = path, ri_current = Some identity\<rparr>
             | None \<Rightarrow>
                 if is_replica rc then act_ok \<lparr>ri_path = path, ri_current = None\<rparr>
                 else
                   bind_act (act_lift (generate_identity L)) (\<lambda>generated.
                   bind_act (write_identity_file L path generated (il_no_extra L)) (\<lambda>_.
                     act_ok \<lparr>ri_path = path, ri_current = Some generated\<rparr>)))))"

definition verify_on_disk :: "'x identity_libs \<Rightarrow> replication_identity_state \<Rightarrow> identity_files \<Rightarrow> identity_drift + unit" where
  "verify_on_disk L ident fs =
     (case ri_current ident of
        None \<Rightarrow> Inr ()
      | Some expected \<Rightarrow>
          (case read_identity_file L (ri_path ident) fs of
             Inr (Some (found, _)) \<Rightarrow>
               if found = expected then Inr () else Inl (Changed (ri_path ident) expected found)
           | Inr None \<Rightarrow> Inl (Missing (ri_path ident))
           | Inl _ \<Rightarrow> Inl (Missing (ri_path ident))))"

definition pin ::
  "'x identity_libs \<Rightarrow> string \<Rightarrow> (replication_identity_state \<times> identity_files, string, unit) action" where
  "pin L identity = (\<lambda>(ident, fs).
     (case and_then (reject (replication_identity identity) error_message)
             (\<lambda>_. read_identity_file L (ri_path ident) fs) of
        Inl e \<Rightarrow> (Inl e, (ident, fs))
      | Inr found \<Rightarrow>
          (case write_identity_file L (ri_path ident) identity
               (case found of None \<Rightarrow> il_no_extra L | Some (_, extra) \<Rightarrow> extra) fs of
             (Inl e, fs') \<Rightarrow> (Inl e, (ident, fs'))
           | (Inr _, fs') \<Rightarrow> (Inr (), (ident\<lparr>ri_current := Some identity\<rparr>, fs')))))"

section \<open>The index\<close>

record index_entry =
  ie_head :: repository_head
  ie_announced_at :: nat

record repository_index =
  ix_heads :: "(string \<times> index_entry) list"
  ix_complete :: bool
  ix_scanned :: bool
  ix_sequence :: nat
  ix_last_scan :: "int option"

definition new_index :: repository_index where
  "new_index = \<lparr>ix_heads = [], ix_complete = False, ix_scanned = False, ix_sequence = 0, ix_last_scan = None\<rparr>"

definition index_key :: "string \<Rightarrow> string \<Rightarrow> string" where
  "index_key collection tenant = collection @ ''/'' @ tenant"

definition record_head :: "string \<Rightarrow> string \<Rightarrow> string \<Rightarrow> repository_index \<Rightarrow> repository_index" where
  "record_head collection tenant sha ix =
     ix\<lparr>ix_sequence := ix_sequence ix + 1,
        ix_heads := put_entry (index_key collection tenant)
          \<lparr>ie_head = \<lparr>rh_collection_id = collection, rh_tenant_id = tenant, rh_head_sha = sha\<rparr>,
           ie_announced_at = ix_sequence ix + 1\<rparr> (ix_heads ix)\<rparr>"

definition remove_head :: "string \<Rightarrow> string \<Rightarrow> repository_index \<Rightarrow> repository_index" where
  "remove_head collection tenant ix =
     ix\<lparr>ix_sequence := ix_sequence ix + 1,
        ix_heads := drop_entry (index_key collection tenant) (ix_heads ix)\<rparr>"

definition INCOMPLETE_RESCAN_MIN_SECS :: int where "INCOMPLETE_RESCAN_MIN_SECS = 5"

definition needs_scan :: "int \<Rightarrow> repository_index \<Rightarrow> bool" where
  "needs_scan now ix =
     (if \<not> ix_scanned ix then True
      else if ix_complete ix then False
      else (case ix_last_scan ix of None \<Rightarrow> True | Some at \<Rightarrow> now - at \<ge> INCOMPLETE_RESCAN_MIN_SECS))"

text \<open>The answer and the issues it leaves.\<close>

definition verify_identity_file ::
  "'x identity_libs \<Rightarrow> int \<Rightarrow> replication_identity_state \<Rightarrow> identity_files \<Rightarrow> issues \<Rightarrow> bool \<times> issues" where
  "verify_identity_file L now ident fs issues =
     (case verify_on_disk L ident fs of
        Inr _ \<Rightarrow> (True, snd (clear_issue ISSUE_IDENTITY_FILE issues))
      | Inl (Missing path) \<Rightarrow>
          (False, snd (raise_issue ISSUE_IDENTITY_FILE (IdentityFileMissing path now) issues))
      | Inl (Changed path expected found) \<Rightarrow>
          (False, snd (raise_issue ISSUE_IDENTITY_FILE (IdentityFileChanged path expected found now) issues)))"

definition begin_scan :: "repository_index \<Rightarrow> nat" where
  "begin_scan ix = ix_sequence ix"

definition announced_since :: "nat \<Rightarrow> repository_index \<Rightarrow> string \<Rightarrow> bool" where
  "announced_since started ix key \<longleftrightarrow>
     (case map_of (ix_heads ix) key of None \<Rightarrow> False | Some e \<Rightarrow> ie_announced_at e > started)"

definition scan_map :: "repository_head list \<Rightarrow> (string \<times> repository_head) list" where
  "scan_map repositories =
     foldl (\<lambda>m h. put_entry (index_key (rh_collection_id h) (rh_tenant_id h)) h m) [] repositories"

fun merge_scanned :: "nat \<Rightarrow> (string \<times> repository_head) list \<Rightarrow> repository_index \<Rightarrow> repository_index" where
  "merge_scanned started [] ix = ix"
| "merge_scanned started ((key, head) # rest) ix =
     merge_scanned started rest
       (if announced_since started ix key then ix
        else ix\<lparr>ix_heads := put_entry key \<lparr>ie_head = head, ie_announced_at = 0\<rparr> (ix_heads ix)\<rparr>)"

definition finish_scan :: "int \<Rightarrow> nat \<Rightarrow> repository_scan \<Rightarrow> bool \<Rightarrow> repository_index \<Rightarrow> repository_index" where
  "finish_scan now started scan intact ix =
     (let complete = (rs_complete scan \<and> intact);
          scanned = scan_map (rs_repositories scan);
          ix = (if complete then
                  ix\<lparr>ix_heads := filter (\<lambda>(key, e). map_of scanned key \<noteq> None \<or> ie_announced_at e > started) (ix_heads ix)\<rparr>
                else ix)
      in (merge_scanned started scanned ix)\<lparr>ix_complete := complete, ix_scanned := True, ix_last_scan := Some now\<rparr>)"

definition rescan_locked ::
  "'x identity_libs \<Rightarrow> int \<Rightarrow> replication_identity_state \<Rightarrow> identity_files \<Rightarrow> repository_scan \<Rightarrow>
     issues \<times> repository_index \<Rightarrow> issues \<times> repository_index" where
  "rescan_locked L now ident fs scan = (\<lambda>(issues, ix).
     (case verify_identity_file L now ident fs issues of
        (intact, issues') \<Rightarrow> (issues', finish_scan now (begin_scan ix) scan intact ix)))"

definition snapshot ::
  "'x identity_libs \<Rightarrow> int \<Rightarrow> replication_identity_state \<Rightarrow> identity_files \<Rightarrow> repository_scan \<Rightarrow>
     issues \<times> repository_index \<Rightarrow> repository_scan \<times> (issues \<times> repository_index)" where
  "snapshot L now ident fs scan = (\<lambda>(issues, ix).
     (let (issues, ix) = (if needs_scan now ix then rescan_locked L now ident fs scan (issues, ix) else (issues, ix));
          (intact, issues) = verify_identity_file L now ident fs issues;
          repositories = sort_key (\<lambda>h. (rh_collection_id h, rh_tenant_id h)) (map (ie_head \<circ> snd) (ix_heads ix))
      in (\<lparr>rs_repositories = repositories, rs_complete = (ix_complete ix \<and> intact)\<rparr>, (issues, ix))))"

end
