(* ===== verification/Index_Facts.thy ===== *)
theory Index_Facts
  imports Repository_Index
begin

text \<open>
  The identity a node keeps across restarts, and what a rescan of the index may change: never a
  head announced while it ran.
\<close>

section \<open>Identity\<close>

text \<open>What is written can be read back, and the random source yields bytes.\<close>

definition identity_law :: "'x identity_libs \<Rightarrow> bool" where
  "identity_law L \<longleftrightarrow>
     (\<forall>i x b. il_encode L i x = Inr b \<longrightarrow> il_parse L b = Inr (i, x)) \<and>
     (\<forall>n bs. il_random L n = Inr bs \<longrightarrow> length bs = n \<and> (\<forall>b \<in> set bs. b < 256))"

lemma write_identity_effect:
  assumes "write_identity_file L path i x fs = (r, fs')"
  shows "case r of Inl e \<Rightarrow> id_file fs' = id_file fs
    | Inr u \<Rightarrow> (\<exists>b. il_encode L i x = Inr b \<and> fs' = \<lparr>id_file = Some b, id_temporary = None\<rparr>)"
  using assms
  by (auto simp: write_identity_file_def bind_act_def reject_def split: sum.splits option.splits)

lemma read_written:
  assumes "identity_law L" and "il_read_fault L = None" and "il_encode L i x = Inr b" and "replication_identity i = Inr v"
  shows "read_identity_file L path \<lparr>id_file = Some b, id_temporary = tmp\<rparr> = Inr (Some (i, x))"
  using assms by (simp add: read_identity_file_def identity_law_def)

lemma read_identity_valid: "read_identity_file L path fs = Inr (Some (i, x)) \<Longrightarrow> \<exists>v. replication_identity i = Inr v"
  by (auto simp: read_identity_file_def and_then_eq_Inr split: option.splits)

lemma load_existing:
  assumes "read_identity_file L path fs = Inr (Some (i, x))" and "cf_replication c = Some rc"
  shows "load_identity L path c fs = (Inr \<lparr>ri_path = path, ri_current = Some i\<rparr>, fs)"
  using assms by (simp add: load_identity_def bind_act_def)

lemma verify_existing:
  assumes "read_identity_file L (ri_path ident) fs = Inr (Some (i, x))" and "ri_current ident = Some i"
  shows "verify_on_disk L ident fs = Inr ()"
  using assms by (simp add: verify_on_disk_def)

text \<open>
  C32: an identity once pinned is kept: the pin is on disk when it is answered, with the file's
  other keys as they were, it verifies, and a restart loads it again in whatever role; a pin that
  fails changes neither the identity in use nor the file.
\<close>

theorem pin_survives_restart:
  assumes law: "identity_law L" and readable: "il_read_fault L = None"
    and run: "pin L i (ident, fs) = (r, (ident', fs'))"
  shows "case r of
      Inl e \<Rightarrow> ident' = ident \<and> id_file fs' = id_file fs
    | Inr u \<Rightarrow> ri_current ident' = Some i \<and> verify_on_disk L ident' fs' = Inr () \<and>
        read_identity_file L (ri_path ident') fs' =
          Inr (Some (i, case read_identity_file L (ri_path ident) fs of Inr (Some (_, x)) \<Rightarrow> x | _ \<Rightarrow> il_no_extra L)) \<and>
        (cf_replication c = Some rc \<longrightarrow>
           load_identity L (ri_path ident') c fs' = (Inr \<lparr>ri_path = ri_path ident', ri_current = Some i\<rparr>, fs'))"
proof -
  let ?q = "and_then (reject (replication_identity i) error_message) (\<lambda>_. read_identity_file L (ri_path ident) fs)"
  show ?thesis
  proof (cases ?q)
    case (Inl e)
    then show ?thesis using run by (auto simp: pin_def)
  next
    case (Inr found)
    then obtain v where valid: "replication_identity i = Inr v" and found: "read_identity_file L (ri_path ident) fs = Inr found"
      by (auto simp: and_then_eq_Inr)
    let ?x = "case found of None \<Rightarrow> il_no_extra L | Some (_, extra) \<Rightarrow> extra"
    obtain w fs1 where w: "write_identity_file L (ri_path ident) i ?x fs = (w, fs1)" by fastforce
    show ?thesis
    proof (cases w)
      case (Inl e)
      then show ?thesis using run Inr w write_identity_effect [OF w] by (auto simp: pin_def)
    next
      case (Inr u)
      with write_identity_effect [OF w] obtain b where b: "il_encode L i ?x = Inr b"
        "fs1 = \<lparr>id_file = Some b, id_temporary = None\<rparr>" by auto
      have r: "r = Inr ()" "ident' = ident\<lparr>ri_current := Some i\<rparr>" "fs' = fs1"
        using run \<open>?q = Inr found\<close> w Inr by (auto simp: pin_def)
      have read: "read_identity_file L (ri_path ident) fs1 = Inr (Some (i, ?x))"
        unfolding b(2) by (rule read_written [OF law readable b(1) valid])
      have "load_identity L (ri_path ident) c fs1 = (Inr \<lparr>ri_path = ri_path ident, ri_current = Some i\<rparr>, fs1)"
        if "cf_replication c = Some rc" using load_existing [OF read that] .
      moreover have "verify_on_disk L (ident\<lparr>ri_current := Some i\<rparr>) fs1 = Inr ()"
        by (rule verify_existing) (use read in simp_all)
      ultimately show ?thesis using read by (simp add: r found split: option.split)
    qed
  qed
qed

definition tiny_identity :: "unit identity_libs" where
  "tiny_identity =
     \<lparr>il_parse = (\<lambda>raw. Inr (raw, ())), il_encode = (\<lambda>i x. Inr i), il_no_extra = (),
      il_random = (\<lambda>n. Inr (replicate n 0)), il_read_fault = None, il_mkdir_fault = None,
      il_write_fault = None, il_rename_fault = None\<rparr>"

lemma tiny_identity_law: "identity_law tiny_identity" "il_read_fault tiny_identity = None"
  by (simp_all add: identity_law_def tiny_identity_def)

definition zero_identity :: string where "zero_identity = replicate 64 (CHR ''0'')"

theorem pin_survives_restart_witness:
  "verify_on_disk tiny_identity \<lparr>ri_path = IDENTITY_FILE, ri_current = Some zero_identity\<rparr>
     (snd (snd (pin tiny_identity zero_identity
       (\<lparr>ri_path = IDENTITY_FILE, ri_current = None\<rparr>, \<lparr>id_file = None, id_temporary = None\<rparr>)))) = Inr ()"
proof -
  have run: "pin tiny_identity zero_identity
      (\<lparr>ri_path = IDENTITY_FILE, ri_current = None\<rparr>, \<lparr>id_file = None, id_temporary = None\<rparr>)
    = (Inr (), (\<lparr>ri_path = IDENTITY_FILE, ri_current = Some zero_identity\<rparr>,
        \<lparr>id_file = Some zero_identity, id_temporary = None\<rparr>))"
    by code_simp
  from pin_survives_restart [OF tiny_identity_law run] show ?thesis by (simp add: run)
qed

lemma hex_digits: "b < 256 \<Longrightarrow> length (hex_byte b) = 2 \<and> list_all lower_hex_digit (hex_byte b)"
proof -
  assume b: "b < 256"
  have "lower_hex_digit (char_of (if n < 10 then 48 + n else 87 + n :: nat))" if "n < 16" for n
    using that by (simp add: lower_hex_digit_def in_range_def less_eq_char_def of_char_of)
  from this [of "b div 16"] this [of "b mod 16"] b show ?thesis
    by (auto simp: hex_byte_def Let_def split: if_splits)
qed

text \<open>The identity a master makes up for itself passes the validator its replicas apply.\<close>

lemma generated_identity_valid:
  assumes "identity_law L" and "generate_identity L = Inr i"
  shows "replication_identity i = Inr i"
proof -
  obtain bs where bs: "il_random L 32 = Inr bs" "i = List.concat (map hex_byte bs)"
    using assms(2) by (auto simp: generate_identity_def generate_hex_def and_then_eq_Inr IDENTITY_BYTES_def)
  then have len: "length bs = 32" and small: "\<forall>b \<in> set bs. b < 256"
    using assms(1) unfolding identity_law_def by blast+
  have "length i = 2 * length bs \<and> list_all lower_hex_digit i" unfolding bs(2)
    using small by (induction bs) (auto simp: hex_digits)
  with len show ?thesis by (simp add: replication_identity_def IDENTITY_LEN_def)
qed

section \<open>Scans\<close>

datatype announcement = Announce string string string | Withdraw string string

fun announce :: "announcement \<Rightarrow> repository_index \<Rightarrow> repository_index" where
  "announce (Announce c t sha) ix = record_head c t sha ix"
| "announce (Withdraw c t) ix = remove_head c t ix"

fun announcement_key :: "announcement \<Rightarrow> string" where
  "announcement_key (Announce c t sha) = index_key c t"
| "announcement_key (Withdraw c t) = index_key c t"

definition index_inv :: "repository_index \<Rightarrow> bool" where
  "index_inv ix \<longleftrightarrow> ordered (ix_heads ix) \<and>
     (\<forall>key e. map_of (ix_heads ix) key = Some e \<longrightarrow> ie_announced_at e \<le> ix_sequence ix)"

definition head_at :: "repository_index \<Rightarrow> string \<Rightarrow> index_entry option" where
  "head_at ix key = map_of (ix_heads ix) key"

lemma new_index_inv: "index_inv new_index"
  by (simp add: index_inv_def new_index_def ordered_def)

lemma announce_inv: "index_inv ix \<Longrightarrow> index_inv (announce a ix)"
  by (cases a) (auto simp: index_inv_def record_head_def remove_head_def map_of_put ordered_put ordered_drop
      intro: le_SucI split: if_splits)

lemma announce_sequence: "ix_sequence (announce a ix) = ix_sequence ix + 1"
  by (cases a) (simp_all add: record_head_def remove_head_def)

lemma announce_other:
  "index_inv ix \<Longrightarrow> announcement_key a \<noteq> key \<Longrightarrow> head_at (announce a ix) key = head_at ix key"
  by (cases a) (auto simp: head_at_def record_head_def remove_head_def map_of_put index_inv_def)

lemma announced:
  assumes "index_inv ix"
  shows "index_inv (fold announce as ix)" and "ix_sequence ix \<le> ix_sequence (fold announce as ix)"
    and "key \<notin> announcement_key ` set as \<Longrightarrow> head_at (fold announce as ix) key = head_at ix key"
proof -
  show "index_inv (fold announce as ix)" using assms
    by (induction as arbitrary: ix) (simp_all add: announce_inv)
  show "ix_sequence ix \<le> ix_sequence (fold announce as ix)"
  proof (induction as arbitrary: ix)
    case (Cons a as)
    from Cons [of "announce a ix"] show ?case by (simp add: announce_sequence)
  qed simp
  show "key \<notin> announcement_key ` set as \<Longrightarrow> head_at (fold announce as ix) key = head_at ix key" using assms
    by (induction as arbitrary: ix) (auto simp: announce_inv announce_other)
qed

lemma merge_ordered: "ordered (ix_heads ix) \<Longrightarrow> ordered (ix_heads (merge_scanned started m ix))"
  by (induction started m ix rule: merge_scanned.induct) (simp_all add: ordered_put)

lemma merge_at:
  assumes "ordered (ix_heads ix)" and "distinct (map fst m)"
  shows "head_at (merge_scanned started m ix) key =
    (if announced_since started ix key then head_at ix key
     else case map_of m key of None \<Rightarrow> head_at ix key | Some h \<Rightarrow> Some \<lparr>ie_head = h, ie_announced_at = 0\<rparr>)"
  using assms
proof (induction started m ix rule: merge_scanned.induct)
  case (2 started k head rest ix)
  let ?ix = "if announced_since started ix k then ix
    else ix\<lparr>ix_heads := put_entry k \<lparr>ie_head = head, ie_announced_at = 0\<rparr> (ix_heads ix)\<rparr>"
  have at: "head_at ?ix key = (if key = k \<and> \<not> announced_since started ix k
      then Some \<lparr>ie_head = head, ie_announced_at = 0\<rparr> else head_at ix key)"
    using 2(2) by (auto simp: head_at_def map_of_put)
  then have since: "announced_since started ?ix key \<longleftrightarrow> announced_since started ix key"
    unfolding announced_since_def head_at_def [symmetric] by (auto simp: announced_since_def head_at_def)
  have "map_of rest k = None" using 2(3) by (auto simp: map_of_eq_None_iff)
  moreover have "head_at (merge_scanned started rest ?ix) key =
      (if announced_since started ?ix key then head_at ?ix key
       else case map_of rest key of None \<Rightarrow> head_at ?ix key | Some h \<Rightarrow> Some \<lparr>ie_head = h, ie_announced_at = 0\<rparr>)"
    using 2(2,3) by (intro 2(1)) (simp_all add: ordered_put)
  ultimately show ?case unfolding since at by auto
qed simp

lemma scan_map_ordered: "ordered (scan_map repositories)"
proof -
  have "ordered m \<Longrightarrow> ordered (foldl (\<lambda>m h. put_entry (f h) h m) m hs)" for m hs and f :: "repository_head \<Rightarrow> string"
    by (induction hs arbitrary: m) (simp_all add: ordered_put)
  then show ?thesis unfolding scan_map_def by (simp add: ordered_def)
qed

lemma ordered_distinct: "ordered m \<Longrightarrow> distinct (map fst m)"
  by (auto simp: ordered_def strict_sorted_iff)

lemma map_of_filter_keys: "ordered m \<Longrightarrow> map_of (filter (\<lambda>(k, e). P k e) m) key =
    (case map_of m key of None \<Rightarrow> None | Some e \<Rightarrow> if P key e then Some e else None)"
  by (induction m) (auto simp: ordered_def map_of_eq_None_iff split: option.splits)

text \<open>What a scan leaves at a key.\<close>

lemma finish_scan_at:
  assumes "ordered (ix_heads ix)"
  shows "head_at (finish_scan now started scan intact ix) key =
    (if announced_since started ix key then head_at ix key
     else case map_of (scan_map (rs_repositories scan)) key of
         Some h \<Rightarrow> Some \<lparr>ie_head = h, ie_announced_at = 0\<rparr>
       | None \<Rightarrow> if rs_complete scan \<and> intact then None else head_at ix key)"
proof -
  let ?m = "scan_map (rs_repositories scan)"
  let ?kept = "ix\<lparr>ix_heads := filter (\<lambda>(key, e). map_of ?m key \<noteq> None \<or> ie_announced_at e > started) (ix_heads ix)\<rparr>"
  let ?ix = "if rs_complete scan \<and> intact then ?kept else ix"
  have m: "distinct (map fst ?m)" using ordered_distinct scan_map_ordered by blast
  have ordered: "ordered (ix_heads ?kept)"
    using assms by (simp add: ordered_def sorted_wrt_map sorted_wrt_filter)
  have kept: "head_at ?kept key = (case head_at ix key of None \<Rightarrow> None
      | Some e \<Rightarrow> if map_of ?m key \<noteq> None \<or> ie_announced_at e > started then Some e else None)"
    using map_of_filter_keys [OF assms, of "\<lambda>k e. map_of ?m k \<noteq> None \<or> ie_announced_at e > started" key]
    by (simp add: head_at_def split: option.split)
  then have since: "announced_since started ?kept key = announced_since started ix key"
    unfolding announced_since_def head_at_def [symmetric] by (auto split: option.splits)
  have "head_at (finish_scan now started scan intact ix) key = head_at (merge_scanned started ?m ?ix) key"
    by (simp add: finish_scan_def head_at_def Let_def)
  also have "\<dots> = (if announced_since started ?ix key then head_at ?ix key
      else case map_of ?m key of None \<Rightarrow> head_at ?ix key | Some h \<Rightarrow> Some \<lparr>ie_head = h, ie_announced_at = 0\<rparr>)"
    using ordered assms by (intro merge_at m) simp
  finally show ?thesis
    using since kept by (auto simp: announced_since_def head_at_def split: option.splits if_splits)
qed

text \<open>
  A scan never rolls a repository back: a head announced while the scan ran, and not announced
  again since, is what the index holds when the scan is merged, whatever the scan read.
\<close>

theorem scan_keeps_announced_heads:
  assumes "index_inv ix" and "index_key c t \<notin> announcement_key ` set later"
    and "ix' = fold announce later (record_head c t sha (fold announce earlier ix))"
  shows "map_option ie_head (head_at (finish_scan now (begin_scan ix) scan intact ix') (index_key c t)) =
    Some \<lparr>rh_collection_id = c, rh_tenant_id = t, rh_head_sha = sha\<rparr>"
proof -
  let ?ix1 = "fold announce earlier ix"
  let ?ix2 = "announce (Announce c t sha) ?ix1"
  note 1 = announced(1,2) [OF assms(1), where as = earlier]
  note inv2 = announce_inv [OF 1(1), of "Announce c t sha"]
  have ix': "ix' = fold announce later ?ix2" using assms(3) by simp
  have "head_at ix' (index_key c t) = head_at ?ix2 (index_key c t)"
    unfolding ix' by (rule announced(3) [OF inv2 assms(2)])
  also have "\<dots> = Some \<lparr>ie_head = \<lparr>rh_collection_id = c, rh_tenant_id = t, rh_head_sha = sha\<rparr>,
      ie_announced_at = ix_sequence ?ix1 + 1\<rparr>"
    using 1(1) by (simp add: head_at_def record_head_def map_of_put index_inv_def)
  finally have at: "head_at ix' (index_key c t) = \<dots>" .
  have "announced_since (begin_scan ix) ix' (index_key c t)"
    using at 1(2) by (simp add: announced_since_def head_at_def begin_scan_def)
  moreover have "ordered (ix_heads ix')"
    using announced(1) [OF inv2, where as = later] by (simp add: ix' index_inv_def)
  ultimately show ?thesis by (simp add: finish_scan_at at)
qed

theorem scan_keeps_announced_heads_witness:
  "map_option ie_head (head_at
     (finish_scan 9 (begin_scan new_index)
       \<lparr>rs_repositories = [\<lparr>rh_collection_id = ''acme'', rh_tenant_id = ''docs'', rh_head_sha = ''0001''\<rparr>], rs_complete = True\<rparr>
       True (fold announce [] (record_head ''acme'' ''docs'' ''0004'' (fold announce [] new_index))))
     (index_key ''acme'' ''docs''))
   = Some \<lparr>rh_collection_id = ''acme'', rh_tenant_id = ''docs'', rh_head_sha = ''0004''\<rparr>"
  by (rule scan_keeps_announced_heads [OF new_index_inv _ refl]) simp

text \<open>A scan nothing was announced during makes the index the scan, when it is complete.\<close>

lemma quiet_scan_exact:
  assumes "index_inv ix" and "rs_complete scan"
  shows "head_at (finish_scan now (begin_scan ix) scan True ix) key =
    map_option (\<lambda>h. \<lparr>ie_head = h, ie_announced_at = 0\<rparr>) (map_of (scan_map (rs_repositories scan)) key)"
proof -
  have "\<not> announced_since (begin_scan ix) ix key"
    using assms(1) by (force simp: announced_since_def begin_scan_def index_inv_def not_less split: option.splits)
  then show ?thesis using assms by (auto simp: finish_scan_at index_inv_def split: option.split)
qed

text \<open>
  A removal leaves no trace for a scan to respect: a scan that read the repository before it was
  deleted puts it back.
\<close>

lemma removed_repository_returns:
  assumes "index_inv ix" and "map_of (scan_map (rs_repositories scan)) (index_key c t) = Some h"
  shows "head_at (remove_head c t ix) (index_key c t) = None"
    and "head_at (finish_scan now (begin_scan ix) scan intact (remove_head c t ix)) (index_key c t) =
      Some \<lparr>ie_head = h, ie_announced_at = 0\<rparr>"
proof -
  show gone: "head_at (remove_head c t ix) (index_key c t) = None" by (simp add: head_at_def remove_head_def)
  have "ordered (ix_heads (remove_head c t ix))"
    using announce_inv [OF assms(1), of "Withdraw c t"] by (simp add: index_inv_def)
  moreover have "\<not> announced_since (begin_scan ix) (remove_head c t ix) (index_key c t)"
    using gone by (simp add: announced_since_def head_at_def)
  ultimately show "head_at (finish_scan now (begin_scan ix) scan intact (remove_head c t ix)) (index_key c t) =
      Some \<lparr>ie_head = h, ie_announced_at = 0\<rparr>"
    using assms(2) by (simp add: finish_scan_at)
qed

end
