(* ===== verification/Follower.thy ===== *)
theory Follower
  imports Repository_Index
begin

text \<open>
  \<open>ReplicaFollower\<close> and \<open>ReplicationNotifier\<close> of \<open>src/replication.rs\<close>: a replica that keeps its
  repositories current with a master. What the master answers (a listing, a pack, a frame of its
  notification stream) and the clock are arguments of the operation that asks; the repositories
  are the store of \<open>Staging\<close>. A download passes through a temporary file that is removed again
  and is not part of the store. Repositories of one pass are synced one after the other: each is
  synced under its own lock, and no two of them are the same.
\<close>

section \<open>Messages\<close>

datatype replication_event =
    Hello nat string "string option"
  | Heartbeat
  | RepositoryUpdated string string string
  | RepositoryDeleted string string

record repository_listing =
  li_protocol :: nat
  li_identity :: "string option"
  li_repositories :: "repository_head list"
  li_complete :: bool

datatype sync_target = TargetAt string | TargetDeleted

datatype sync_outcome = OutcomeSynced | OutcomeLocked | OutcomeFailed

record sync_pass =
  sp_attempted :: nat
  sp_succeeded :: nat
  sp_locked :: nat

definition empty_pass :: sync_pass where
  "empty_pass = \<lparr>sp_attempted = 0, sp_succeeded = 0, sp_locked = 0\<rparr>"

text \<open>The calls on the maintenance scheduler, which \<open>Scheduler\<close> models.\<close>

datatype maintenance_call = ScheduleMaintenance string | CancelMaintenance string

type_synonym pending_syncs = "(string \<times> (string \<times> string \<times> sync_target)) list"

section \<open>State\<close>

record 'o follower =
  fo_store :: "'o store"
  fo_index :: repository_index
  fo_issues :: issues
  fo_status :: replica_status
  fo_identity :: replication_identity_state
  fo_files :: identity_files
  fo_pending :: pending_syncs
  fo_reconcile_requested :: bool
  fo_woken :: bool
  fo_downloads :: nat
  fo_published :: "replication_event list"
  fo_maintenance :: "maintenance_call list"

text \<open>What a node is configured with, and the third parties it runs on.\<close>

record ('o, 'x) node =
  nd_libs :: "'o libs"
  nd_sync :: "'o sync_libs"
  nd_os :: "'o os"
  nd_identity :: "'x identity_libs"
  nd_config :: replication_config
  nd_checkout_files :: bool
  nd_master_url_display :: string

definition with_issues :: "(issues \<Rightarrow> bool \<times> issues) \<Rightarrow> 'o follower \<Rightarrow> 'o follower" where
  "with_issues f s = s\<lparr>fo_issues := snd (f (fo_issues s))\<rparr>"

definition with_status :: "(replica_status \<Rightarrow> replica_status) \<Rightarrow> 'o follower \<Rightarrow> 'o follower" where
  "with_status f s = s\<lparr>fo_status := f (fo_status s)\<rparr>"

definition put_pending :: "string \<Rightarrow> string \<Rightarrow> sync_target \<Rightarrow> 'o follower \<Rightarrow> 'o follower" where
  "put_pending collection tenant target s =
     s\<lparr>fo_pending := put_entry (index_key collection tenant) (collection, tenant, target) (fo_pending s)\<rparr>"

section \<open>The notifier\<close>

definition publish :: "bool \<Rightarrow> replication_event \<Rightarrow> 'o follower \<Rightarrow> 'o follower" where
  "publish enabled event s =
     (if \<not> enabled then s else s\<lparr>fo_published := fo_published s @ [event]\<rparr>)"

definition repository_updated :: "bool \<Rightarrow> string \<Rightarrow> string \<Rightarrow> string \<Rightarrow> 'o follower \<Rightarrow> 'o follower" where
  "repository_updated enabled collection tenant sha s =
     publish enabled (RepositoryUpdated collection tenant sha)
       (s\<lparr>fo_index := record_head collection tenant sha (fo_index s)\<rparr>)"

definition repository_deleted :: "bool \<Rightarrow> string \<Rightarrow> string \<Rightarrow> 'o follower \<Rightarrow> 'o follower" where
  "repository_deleted enabled collection tenant s =
     publish enabled (RepositoryDeleted collection tenant)
       (s\<lparr>fo_index := remove_head collection tenant (fo_index s)\<rparr>)"

section \<open>Locks\<close>

definition lock_ahead :: "int \<Rightarrow> string \<Rightarrow> string \<Rightarrow> string \<Rightarrow> string \<Rightarrow> 'o follower \<Rightarrow> sync_outcome \<times> 'o follower" where
  "lock_ahead now collection tenant local remote s =
     (OutcomeLocked, with_issues (raise_issue (repository_key collection tenant)
        (ReplicaAhead collection tenant local remote now)) s)"

definition lock_diverged :: "int \<Rightarrow> string \<Rightarrow> string \<Rightarrow> string \<Rightarrow> string \<Rightarrow> 'o follower \<Rightarrow> sync_outcome \<times> 'o follower" where
  "lock_diverged now collection tenant local remote s =
     (OutcomeLocked, with_issues (raise_issue (repository_key collection tenant)
        (HistoryDiverged collection tenant local remote now)) s)"

definition unlock :: "string \<Rightarrow> string \<Rightarrow> 'o follower \<Rightarrow> 'o follower" where
  "unlock collection tenant = with_issues (clear_issue (repository_key collection tenant))"

definition is_locked_at :: "string \<Rightarrow> string \<Rightarrow> string \<Rightarrow> 'o follower \<Rightarrow> bool" where
  "is_locked_at collection tenant announced s =
     (case get_issue (repository_key collection tenant) (fo_issues s) of
        Some (ReplicaAhead _ _ _ remote _) \<Rightarrow> remote = announced
      | Some (HistoryDiverged _ _ _ remote _) \<Rightarrow> remote = announced
      | _ \<Rightarrow> False)"

section \<open>Validation\<close>

definition validate_identifiers :: "string \<Rightarrow> string \<Rightarrow> string + unit" where
  "validate_identifiers collection tenant =
     and_then (reject (collection_id collection) (\<lambda>e. ''collection id: '' @ error_message e)) (\<lambda>_.
     and_then (reject (tenant_id tenant) (\<lambda>e. ''tenant id: '' @ error_message e)) (\<lambda>_. Inr ()))"

definition validate_entry :: "string \<Rightarrow> string \<Rightarrow> string \<Rightarrow> string + unit" where
  "validate_entry collection tenant sha =
     and_then (validate_identifiers collection tenant) (\<lambda>_.
     and_then (reject (commit_sha sha) (\<lambda>e. ''head sha: '' @ error_message e)) (\<lambda>_. Inr ()))"

section \<open>The master's identity\<close>

definition check_master_identity ::
  "('o, 'x) node \<Rightarrow> string option \<Rightarrow> bool \<Rightarrow> 'o follower \<Rightarrow> (string + unit) \<times> 'o follower" where
  "check_master_identity nd stated may_pin s =
     (case stated of
        None \<Rightarrow>
          (Inl (''master '' @ nd_master_url_display nd @
             '' stated no replication identity; a node that cannot say which data set it serves is not followed''), s)
      | Some identity \<Rightarrow>
          (case replication_identity identity of
             Inl e \<Rightarrow>
               (Inl (''master '' @ nd_master_url_display nd @ '' stated an invalid identity: '' @ error_message e), s)
           | Inr _ \<Rightarrow>
               (case ri_current (fo_identity s) of
                  Some pinned \<Rightarrow>
                    if pinned = identity then (Inr (), s)
                    else
                      (Inl (''master identity mismatch: this replica ('' @ rc_node_id (nd_config nd) @
                         '') is pinned to '' @ pinned @ '' in '' @ ri_path (fo_identity s) @ '' but the master '' @
                         (case mv_node_id (st_master_view (fo_status s)) of None \<Rightarrow> ''(unknown)'' | Some n \<Rightarrow> n) @
                         '' at '' @ nd_master_url_display nd @ '' states '' @ identity @
                         ''; refusing to sync. If the master was legitimately rebuilt or replaced, stop this replica, delete '' @
                         ri_path (fo_identity s) @ '' and restart it to pair with the new master''), s)
                | None \<Rightarrow>
                    if may_pin then
                      (case pin (nd_identity nd) identity (fo_identity s, fo_files s) of
                         (r, (ident, files)) \<Rightarrow> (r, s\<lparr>fo_identity := ident, fo_files := files\<rparr>))
                    else (Inr (), s))))"

definition verify_master_identity ::
  "('o, 'x) node \<Rightarrow> int \<Rightarrow> string option \<Rightarrow> bool \<Rightarrow> 'o follower \<Rightarrow> (string + unit) \<times> 'o follower" where
  "verify_master_identity nd now stated may_pin s =
     (case check_master_identity nd stated may_pin s of
        (Inr _, s') \<Rightarrow>
          (Inr (), with_issues (clear_issue ISSUE_IDENTITY_MISMATCH)
             (with_status (\<lambda>st. st\<lparr>st_identity_verified := True\<rparr>) s'))
      | (Inl e, s') \<Rightarrow>
          (let s' = with_status (\<lambda>st. record_master_error e (st\<lparr>st_identity_verified := False\<rparr>)) s' in
           (Inl e,
            (case (ri_current (fo_identity s'), stated) of
               (Some pinned, Some claimed) \<Rightarrow>
                 if pinned \<noteq> claimed
                 then with_issues (raise_issue ISSUE_IDENTITY_MISMATCH (IdentityMismatch pinned claimed now)) s'
                 else s'
             | _ \<Rightarrow> s'))))"

section \<open>Frames\<close>

definition request_full_reconcile :: "'o follower \<Rightarrow> 'o follower" where
  "request_full_reconcile s = s\<lparr>fo_reconcile_requested := True, fo_woken := True\<rparr>"

text \<open>Whether the stream stays open, and the state.\<close>

fun handle_event :: "('o, 'x) node \<Rightarrow> int \<Rightarrow> replication_event \<Rightarrow> 'o follower \<Rightarrow> bool \<times> 'o follower" where
  "handle_event nd now (Hello protocol node identity) s =
     (case identity of
        None \<Rightarrow> (True, with_status (record_master_identity now node) s)
      | Some stated \<Rightarrow>
          (case verify_master_identity nd now (Some stated) False s of
             (Inl _, s') \<Rightarrow> (False, s')
           | (Inr _, s') \<Rightarrow> (True, with_status (record_master_identity now node) s')))"
| "handle_event nd now Heartbeat s = (True, s)"
| "handle_event nd now (RepositoryUpdated collection tenant sha) s =
     (case validate_entry collection tenant sha of
        Inl _ \<Rightarrow> (True, s)
      | Inr _ \<Rightarrow> (True, (put_pending collection tenant (TargetAt sha) s)\<lparr>fo_woken := True\<rparr>))"
| "handle_event nd now (RepositoryDeleted collection tenant) s =
     (case validate_identifiers collection tenant of
        Inl _ \<Rightarrow> (True, s)
      | Inr _ \<Rightarrow> (True, request_full_reconcile s))"

text \<open>
  \<open>consume_events\<close>: the chunks of the stream until it ends. \<open>parse_frame\<close> is \<open>serde_json\<close> on the
  trimmed line; lines it rejects and blank ones are skipped.
\<close>

fun handle_lines ::
  "('o, 'x) node \<Rightarrow> int \<Rightarrow> (string \<Rightarrow> replication_event option) \<Rightarrow> string list \<Rightarrow> 'o follower \<Rightarrow> bool \<times> 'o follower"
where
  "handle_lines nd now parse_frame [] s = (True, s)"
| "handle_lines nd now parse_frame (line # lines) s =
     (if is_blank line then handle_lines nd now parse_frame lines s
      else (case parse_frame line of
          None \<Rightarrow> handle_lines nd now parse_frame lines s
        | Some event \<Rightarrow>
            (case handle_event nd now event s of
               (False, s') \<Rightarrow> (False, s')
             | (True, s') \<Rightarrow> handle_lines nd now parse_frame lines s')))"

fun consume_events ::
  "('o, 'x) node \<Rightarrow> int \<Rightarrow> (string \<Rightarrow> replication_event option) \<Rightarrow> string \<Rightarrow> bytes list \<Rightarrow> 'o follower \<Rightarrow> 'o follower"
where
  "consume_events nd now parse_frame buffer [] s = s"
| "consume_events nd now parse_frame buffer (chunk # chunks) s =
     (let pieces = split_on (CHR 0x0A) (buffer @ to_string_lossy chunk) in
      case handle_lines nd now parse_frame (butlast pieces) s of
        (False, s') \<Rightarrow> s'
      | (True, s') \<Rightarrow> consume_events nd now parse_frame (last pieces) chunks s')"

section \<open>Syncing one repository\<close>

text \<open>
  A download: the request failed, or it was answered with the pack's bytes (or the failure to
  store them) and the commit the header states.
\<close>

type_synonym pack_answer = "string + ((string + bytes) \<times> string option)"

definition download_pack :: "pack_answer \<Rightarrow> 'o follower \<Rightarrow> (string + bytes \<times> string option) \<times> 'o follower" where
  "download_pack answer s =
     (case answer of
        Inl e \<Rightarrow> (Inl e, s)
      | Inr (body, header) \<Rightarrow>
          (let stated = (case header of None \<Rightarrow> None
                | Some sha \<Rightarrow> (case commit_sha sha of Inl _ \<Rightarrow> None | Inr v \<Rightarrow> Some v));
               s' = s\<lparr>fo_downloads := fo_downloads s + 1\<rparr>
           in (case body of Inl e \<Rightarrow> (Inl e, s') | Inr content \<Rightarrow> (Inr (content, stated), s'))))"

definition land_pack :: "('o, 'x) node \<Rightarrow> int \<Rightarrow> string \<Rightarrow> string \<Rightarrow> string \<Rightarrow> 'o follower \<Rightarrow> 'o follower" where
  "land_pack nd now collection tenant head s =
     (let s = repository_updated True collection tenant head s;
          s = s\<lparr>fo_maintenance := fo_maintenance s @ [ScheduleMaintenance (index_key collection tenant)]\<rparr>
      in if nd_checkout_files nd
         then s\<lparr>fo_store := snd (mirror_working_tree (nd_libs nd) (nd_sync nd) (nd_os nd) now (collection, tenant) (fo_store s))\<rparr>
         else s)"

definition apply_and_land ::
  "('o, 'x) node \<Rightarrow> int \<Rightarrow> string \<Rightarrow> string \<Rightarrow> bytes \<Rightarrow> string \<Rightarrow> 'o follower \<Rightarrow> (string + sync_outcome) \<times> 'o follower"
where
  "apply_and_land nd now collection tenant content apply_head s =
     (case apply_pack (nd_libs nd) (nd_sync nd) (nd_os nd) (collection, tenant) (Inr content) apply_head (fo_store s) of
        (Inl e, store) \<Rightarrow> (Inl (error_message e), s\<lparr>fo_store := store\<rparr>)
      | (Inr outcome, store) \<Rightarrow>
          (let s = s\<lparr>fo_store := store\<rparr> in
           case outcome of
             FastForwarded _ head \<Rightarrow> (Inr OutcomeSynced, land_pack nd now collection tenant head s)
           | UpToDate \<Rightarrow> (Inr OutcomeSynced, s)
           | Ahead local remote \<Rightarrow> (case lock_ahead now collection tenant local remote s of (r, s') \<Rightarrow> (Inr r, s'))
           | Diverged local remote \<Rightarrow> (case lock_diverged now collection tenant local remote s of (r, s') \<Rightarrow> (Inr r, s'))))"

definition fetch_and_apply ::
  "('o, 'x) node \<Rightarrow> int \<Rightarrow> (string option \<Rightarrow> pack_answer) \<Rightarrow> string \<Rightarrow> string \<Rightarrow> string \<Rightarrow> 'o follower \<Rightarrow>
     (string + sync_outcome) \<times> 'o follower" where
  "fetch_and_apply nd now served collection tenant sha s =
     (let place = (collection, tenant); dirs = sr_dirs (fo_store s) in
      case relation_to (nd_libs nd) (nd_sync nd) dirs place sha of
        SameHead \<Rightarrow> (Inr OutcomeSynced, s)
      | AheadOf local \<Rightarrow> (case lock_ahead now collection tenant local sha s of (r, s') \<Rightarrow> (Inr r, s'))
      | DivergedFrom local \<Rightarrow> (case lock_diverged now collection tenant local sha s of (r, s') \<Rightarrow> (Inr r, s'))
      | UnknownHead \<Rightarrow>
          (case download_pack (served (head_sha (nd_libs nd) (os_stat (nd_os nd)) dirs place)) s of
             (Inl e, s') \<Rightarrow> (Inl e, s')
           | (Inr (content, stated), s') \<Rightarrow>
               apply_and_land nd now collection tenant content (case stated of None \<Rightarrow> sha | Some head \<Rightarrow> head) s'))"

definition delete_repository :: "('o, 'x) node \<Rightarrow> string \<Rightarrow> string \<Rightarrow> 'o follower \<Rightarrow> 'o follower" where
  "delete_repository nd collection tenant s =
     (if sr_dirs (fo_store s) (collection, tenant) = None then s
      else (case remove_repo (nd_os nd) (collection, tenant) (fo_store s) of
          (Inl e, store) \<Rightarrow> s\<lparr>fo_store := store\<rparr>
        | (Inr _, store) \<Rightarrow>
            repository_deleted True collection tenant
              (s\<lparr>fo_store := store,
                 fo_maintenance := fo_maintenance s @ [CancelMaintenance (index_key collection tenant)]\<rparr>)))"

definition sync_repository ::
  "('o, 'x) node \<Rightarrow> int \<Rightarrow> (string option \<Rightarrow> pack_answer) \<Rightarrow> string \<Rightarrow> string \<Rightarrow> sync_target \<Rightarrow> 'o follower \<Rightarrow>
     sync_outcome \<times> 'o follower" where
  "sync_repository nd now served collection tenant target s =
     (case target of
        TargetDeleted \<Rightarrow> (OutcomeSynced, delete_repository nd collection tenant s)
      | TargetAt sha \<Rightarrow>
          (case fetch_and_apply nd now served collection tenant sha s of
             (Inr outcome, s') \<Rightarrow>
               if outcome = OutcomeSynced then (OutcomeSynced, unlock collection tenant s') else (outcome, s')
           | (Inl _, s') \<Rightarrow> (OutcomeFailed, put_pending collection tenant (TargetAt sha) s')))"

section \<open>Draining\<close>

definition take_pending :: "string \<Rightarrow> 'o follower \<Rightarrow> 'o follower" where
  "take_pending key s = s\<lparr>fo_pending := drop_entry key (fo_pending s)\<rparr>"

definition count_outcome :: "sync_outcome \<Rightarrow> sync_pass \<Rightarrow> sync_pass" where
  "count_outcome outcome pass =
     (let pass = pass\<lparr>sp_attempted := sp_attempted pass + 1\<rparr> in
      case outcome of
        OutcomeSynced \<Rightarrow> pass\<lparr>sp_succeeded := sp_succeeded pass + 1\<rparr>
      | OutcomeLocked \<Rightarrow> pass\<lparr>sp_locked := sp_locked pass + 1\<rparr>
      | OutcomeFailed \<Rightarrow> pass)"

fun drain_targets ::
  "('o, 'x) node \<Rightarrow> int \<Rightarrow> (place \<Rightarrow> string option \<Rightarrow> pack_answer) \<Rightarrow> pending_syncs \<Rightarrow> sync_pass \<Rightarrow> 'o follower \<Rightarrow>
     sync_pass \<times> 'o follower"
where
  "drain_targets nd now served [] pass s = (pass, s)"
| "drain_targets nd now served ((key, (collection, tenant, target)) # targets) pass s =
     (case sync_repository nd now (served (collection, tenant)) collection tenant target (take_pending key s) of
        (outcome, s') \<Rightarrow> drain_targets nd now served targets (count_outcome outcome pass) s')"

definition drain_pending ::
  "('o, 'x) node \<Rightarrow> int \<Rightarrow> (place \<Rightarrow> string option \<Rightarrow> pack_answer) \<Rightarrow> 'o follower \<Rightarrow> sync_pass \<times> 'o follower" where
  "drain_pending nd now served s =
     (if \<not> st_identity_verified (fo_status s) then (empty_pass, s)
      else if fo_pending s = [] then (empty_pass, with_status (\<lambda>st. st\<lparr>st_pending := 0\<rparr>) s)
      else (case drain_targets nd now served (fo_pending s) empty_pass
              (with_status (\<lambda>st. st\<lparr>st_pending := length (fo_pending s)\<rparr>) s) of
          (pass, s') \<Rightarrow> (pass, with_status (\<lambda>st. st\<lparr>st_pending := length (fo_pending s')\<rparr>) s')))"

section \<open>Reconciling\<close>

definition local_heads :: "repository_head list \<Rightarrow> (string \<times> string) list" where
  "local_heads repositories =
     foldl (\<lambda>m h. put_entry (index_key (rh_collection_id h) (rh_tenant_id h)) (rh_head_sha h) m) [] repositories"

definition entry_key :: "repository_head \<Rightarrow> string" where
  "entry_key h = index_key (rh_collection_id h) (rh_tenant_id h)"

definition forget_removed :: "string \<Rightarrow> string \<Rightarrow> 'o follower \<Rightarrow> 'o follower" where
  "forget_removed collection tenant s =
     (unlock collection tenant s)\<lparr>fo_index := remove_head collection tenant (fo_index s)\<rparr>"

text \<open>One entry of the listing; the set is of the keys seen.\<close>

definition reconcile_entry ::
  "(string \<times> string) list \<Rightarrow> repository_head \<Rightarrow> string list \<times> 'o follower \<Rightarrow> string list \<times> 'o follower" where
  "reconcile_entry locals h = (\<lambda>(seen, s).
     (case validate_entry (rh_collection_id h) (rh_tenant_id h) (rh_head_sha h) of
        Inl _ \<Rightarrow> (seen, s)
      | Inr _ \<Rightarrow>
          (let seen = entry_key h # seen; place = (rh_collection_id h, rh_tenant_id h) in
           if map_of locals (entry_key h) = Some (rh_head_sha h) then (seen, s)
           else if is_locked_at (fst place) (snd place) (rh_head_sha h) s then
             (if git_exists (sr_dirs (fo_store s)) place then (seen, s)
              else (seen, put_pending (fst place) (snd place) (TargetAt (rh_head_sha h))
                     (forget_removed (fst place) (snd place) s)))
           else (seen, put_pending (fst place) (snd place) (TargetAt (rh_head_sha h)) s))))"

definition DELETION_GUARD_MINIMUM_HELD :: nat where "DELETION_GUARD_MINIMUM_HELD = 2"

definition deletions_of :: "(string \<times> string) list \<Rightarrow> string list \<Rightarrow> (string \<times> string \<times> string) list" where
  "deletions_of locals seen =
     List.concat (map (\<lambda>key. case split_once (CHR ''/'') key of
         None \<Rightarrow> [] | Some (collection, tenant) \<Rightarrow> [(key, collection, tenant)])
       (filter (\<lambda>key. key \<notin> set seen) (map fst locals)))"

definition mass_deletion :: "bool \<Rightarrow> nat \<Rightarrow> nat \<Rightarrow> bool" where
  "mass_deletion deletion_guard held deletions \<longleftrightarrow>
     deletion_guard \<and> held \<ge> DELETION_GUARD_MINIMUM_HELD \<and> deletions * 2 > held"

definition queue_deletion :: "string \<times> string \<times> string \<Rightarrow> 'o follower \<Rightarrow> 'o follower" where
  "queue_deletion d s = (case d of (key, collection, tenant) \<Rightarrow>
     s\<lparr>fo_pending := put_entry key (collection, tenant, TargetDeleted) (fo_pending s)\<rparr>)"

definition infer_deletions ::
  "bool \<Rightarrow> int \<Rightarrow> (string \<times> string) list \<Rightarrow> string list \<Rightarrow> 'o follower \<Rightarrow> 'o follower" where
  "infer_deletions deletion_guard now locals seen s =
     (let deletions = deletions_of locals seen in
      if mass_deletion deletion_guard (length locals) (length deletions) then
        with_issues (raise_issue ISSUE_DELETION_REFUSED
          (DeletionRefused (length deletions) (length locals) now)) s
      else
        foldl (\<lambda>s d. queue_deletion d s)
          (with_issues (clear_issue ISSUE_DELETION_REFUSED) s) deletions)"

text \<open>The master's own health, when the request and its parsing succeeded.\<close>

definition refresh_master_health :: "int \<Rightarrow> (string \<times> replica_presence list) option \<Rightarrow> 'o follower \<Rightarrow> 'o follower" where
  "refresh_master_health now answer s =
     (case answer of None \<Rightarrow> s
      | Some (node, replicas) \<Rightarrow> with_status (record_master_health now (Some node) replicas) s)"

definition index_snapshot :: "('o, 'x) node \<Rightarrow> int \<Rightarrow> repository_scan \<Rightarrow> 'o follower \<Rightarrow> repository_scan \<times> 'o follower" where
  "index_snapshot nd now scan s =
     (case snapshot (nd_identity nd) now (fo_identity s) (fo_files s) scan (fo_issues s, fo_index s) of
        (listed, (issues, ix)) \<Rightarrow> (listed, s\<lparr>fo_issues := issues, fo_index := ix\<rparr>))"

definition reconcile ::
  "('o, 'x) node \<Rightarrow> int \<Rightarrow> string + repository_listing \<Rightarrow> repository_scan \<Rightarrow> (string \<times> replica_presence list) option \<Rightarrow>
     'o follower \<Rightarrow> (string + unit) \<times> 'o follower" where
  "reconcile nd now fetched scan health s =
     (case fetched of
        Inl e \<Rightarrow> (Inl e, s)
      | Inr listing \<Rightarrow>
          (case verify_master_identity nd now (li_identity listing) True s of
             (Inl e, s) \<Rightarrow> (Inl e, s)
           | (Inr _, s) \<Rightarrow>
               (case index_snapshot nd now scan s of
                  (listed, s) \<Rightarrow>
                    (let locals = local_heads (rs_repositories listed);
                         (seen, s) = fold (reconcile_entry locals) (li_repositories listing) ([], s);
                         s = (if \<not> li_complete listing then s
                              else infer_deletions (rc_deletion_guard (nd_config nd)) now locals seen s);
                         s = with_status (\<lambda>st. record_master_contact now
                               (st\<lparr>st_repositories := length locals, st_last_reconcile_unix := now\<rparr>)) s
                     in (Inr (), refresh_master_health now health s)))))"

section \<open>The worker\<close>

record worker =
  wk_reconciled_once :: bool
  wk_stalled_passes :: "32 word"
  wk_landed_total :: nat

definition new_worker :: worker where
  "new_worker = \<lparr>wk_reconciled_once = False, wk_stalled_passes = 0, wk_landed_total = 0\<rparr>"

definition start_worker :: "('o, 'x) node \<Rightarrow> int \<Rightarrow> repository_scan \<Rightarrow> 'o follower \<Rightarrow> 'o follower" where
  "start_worker nd now scan s =
     (case index_snapshot nd now scan s of
        (listed, s) \<Rightarrow> if rs_repositories listed \<noteq> [] then with_status mark_bootstrapped s else s)"

text \<open>The reconcile at the head of a pass: whether it failed.\<close>

definition requested_reconcile ::
  "('o, 'x) node \<Rightarrow> int \<Rightarrow> string + repository_listing \<Rightarrow> repository_scan \<Rightarrow> (string \<times> replica_presence list) option \<Rightarrow>
     worker \<Rightarrow> 'o follower \<Rightarrow> bool \<times> worker \<times> 'o follower" where
  "requested_reconcile nd now fetched scan health w s =
     (if \<not> fo_reconcile_requested s then (False, w, s)
      else (case reconcile nd now fetched scan health (s\<lparr>fo_reconcile_requested := False\<rparr>) of
          (Inr _, s) \<Rightarrow> (False, w\<lparr>wk_reconciled_once := True\<rparr>, s)
        | (Inl e, s) \<Rightarrow>
            (True, w, (with_status (record_master_error e) s)\<lparr>fo_reconcile_requested := True\<rparr>)))"

definition lift_gate :: "worker \<Rightarrow> 'o follower \<Rightarrow> 'o follower" where
  "lift_gate w s =
     (if wk_reconciled_once w \<and> \<not> st_bootstrapped (fo_status s) then
        (if fo_pending s = [] then with_status mark_bootstrapped s
         else if wk_stalled_passes w \<ge> 2 \<and> wk_landed_total w > 0 then with_status mark_bootstrapped s
         else s)
      else s)"

datatype pause = NoPause | WaitForWork | BackoffThenWait nat

definition worker_pass ::
  "('o, 'x) node \<Rightarrow> int \<Rightarrow> string + repository_listing \<Rightarrow> repository_scan \<Rightarrow> (string \<times> replica_presence list) option \<Rightarrow>
     (place \<Rightarrow> string option \<Rightarrow> pack_answer) \<Rightarrow> worker \<Rightarrow> 'o follower \<Rightarrow> pause \<times> worker \<times> 'o follower" where
  "worker_pass nd now fetched scan health served w s =
     (case requested_reconcile nd now fetched scan health w s of
        (reconcile_failed, w, s) \<Rightarrow>
          (case drain_pending nd now served s of
             (pass, s) \<Rightarrow>
               (let w = w\<lparr>wk_landed_total := wk_landed_total w + sp_succeeded pass\<rparr>;
                    drain_failed = (sp_attempted pass - sp_locked pass > 0 \<and> sp_succeeded pass = 0);
                    s = with_status (note_pass now (reconcile_failed \<or> drain_failed)) s;
                    w = w\<lparr>wk_stalled_passes := (if drain_failed then wk_stalled_passes w + 1 else 0)\<rparr>;
                    s = lift_gate w s
                in (if sp_succeeded pass > 0 \<and> fo_pending s \<noteq> [] then NoPause
                    else if drain_failed then BackoffThenWait (rc_reconnect_backoff_ms (nd_config nd))
                    else WaitForWork, w, s))))"

text \<open>What ends the wait: the poll timer, or a notification.\<close>

definition end_wait :: "bool \<Rightarrow> 'o follower \<Rightarrow> 'o follower" where
  "end_wait timer s = (if timer then s\<lparr>fo_reconcile_requested := True\<rparr> else s\<lparr>fo_woken := False\<rparr>)"

section \<open>The notification stream\<close>

definition MAXIMUM_RECONNECT_BACKOFF_MS :: nat where "MAXIMUM_RECONNECT_BACKOFF_MS = 60000"

datatype stream_answer = Connected "bytes list" | Conflicting | Rejected | Unreachable

record stream_state =
  ss_backoff_ms :: nat
  ss_collision_since :: "int option"

text \<open>One turn of the loop: the time slept at its end, and the state of the next one.\<close>

definition stream_turn ::
  "('o, 'x) node \<Rightarrow> int \<Rightarrow> (string \<Rightarrow> replication_event option) \<Rightarrow> stream_answer \<Rightarrow> stream_state \<Rightarrow> 'o follower \<Rightarrow>
     nat \<times> stream_state \<times> 'o follower" where
  "stream_turn nd now parse_frame answer st s =
     (let (st, s) = (case answer of
          Connected chunks \<Rightarrow>
            (st\<lparr>ss_backoff_ms := rc_reconnect_backoff_ms (nd_config nd), ss_collision_since := None\<rparr>,
             consume_events nd now parse_frame [] chunks
               (request_full_reconcile
                 (with_status (\<lambda>q. q\<lparr>st_stream_connected := True\<rparr>)
                   (with_issues (clear_issue ISSUE_NODE_ID_COLLISION) s))))
        | Conflicting \<Rightarrow>
            (let since = (case ss_collision_since st of None \<Rightarrow> now | Some t \<Rightarrow> t) in
             (st\<lparr>ss_collision_since := Some since\<rparr>,
              if now - since \<ge> COLLISION_REPORT_AFTER_SECS
              then with_issues (raise_issue ISSUE_NODE_ID_COLLISION (NodeIdCollision (rc_node_id (nd_config nd)) now)) s
              else s))
        | Rejected \<Rightarrow> (st, s)
        | Unreachable \<Rightarrow> (st, s));
        s = with_status (\<lambda>q. q\<lparr>st_stream_connected := False\<rparr>) s
      in (ss_backoff_ms st,
          st\<lparr>ss_backoff_ms := min (ss_backoff_ms st * 2) MAXIMUM_RECONNECT_BACKOFF_MS\<rparr>, s))"

end
