(* ===== verification/Follower_Facts.thy ===== *)
theory Follower_Facts
  imports Follower Replica_Sync Index_Facts
begin

text \<open>
  What a replica may do to its repositories. Frames, listings and packs come from outside and are
  arbitrary; the worker's drain works on the targets it read at its start while frames go on
  arriving, so the steps run over the targets still to do and the follower.
\<close>

section \<open>What operations leave alone\<close>

lemma with_simps [simp]:
  "fo_store (with_issues f s) = fo_store s" "fo_pending (with_issues f s) = fo_pending s"
  "fo_status (with_issues f s) = fo_status s" "fo_index (with_issues f s) = fo_index s"
  "fo_issues (with_issues f s) = snd (f (fo_issues s))"
  "fo_store (with_status g s) = fo_store s" "fo_pending (with_status g s) = fo_pending s"
  "fo_status (with_status g s) = g (fo_status s)" "fo_index (with_status g s) = fo_index s"
  "fo_issues (with_status g s) = fo_issues s"
  by (simp_all add: with_issues_def with_status_def)

lemma pin_frame: "check_master_identity nd stated may_pin s = (r, s') \<Longrightarrow>
  fo_store s' = fo_store s \<and> fo_pending s' = fo_pending s \<and> fo_issues s' = fo_issues s \<and>
  fo_status s' = fo_status s \<and> fo_index s' = fo_index s"
  by (auto simp: check_master_identity_def split: option.splits sum.splits if_splits prod.splits)

lemma verify_frame:
  assumes "verify_master_identity nd now stated may_pin s = (r, s')"
  shows "fo_store s' = fo_store s" and "fo_pending s' = fo_pending s"
    and "st_bootstrapped (fo_status s') = st_bootstrapped (fo_status s)"
  using assms
  by (auto simp: verify_master_identity_def Let_def record_master_error_def dest!: pin_frame
      split: prod.splits sum.splits option.splits if_splits)

lemma snapshot_frame:
  assumes "index_snapshot nd now scan s = (listed, s')"
  shows "fo_store s' = fo_store s" and "fo_pending s' = fo_pending s" and "fo_status s' = fo_status s"
  using assms by (auto simp: index_snapshot_def split: prod.splits)

lemma put_pending_simps [simp]:
  "fo_store (put_pending c t target s) = fo_store s"
  "fo_pending (put_pending c t target s) = put_entry (index_key c t) (c, t, target) (fo_pending s)"
  "fo_status (put_pending c t target s) = fo_status s" "fo_issues (put_pending c t target s) = fo_issues s"
  by (simp_all add: put_pending_def)

lemma set_put_entry: "set (put_entry k v m) \<subseteq> insert (k, v) (set m)"
  by (induction k v m rule: put_entry.induct) auto

text \<open>No deletion of a place is queued.\<close>

definition undeleted :: "place \<Rightarrow> pending_syncs \<Rightarrow> bool" where
  "undeleted p m \<longleftrightarrow> (\<forall>key. (key, (fst p, snd p, TargetDeleted)) \<notin> set m)"

lemma undeleted_put_at: "undeleted p m \<Longrightarrow> undeleted p (put_entry k (c, t, TargetAt sha) m)"
  using set_put_entry [of k "(c, t, TargetAt sha)" m] by (auto simp: undeleted_def)

lemma undeleted_drop: "undeleted p m \<Longrightarrow> undeleted p (drop_entry k m)"
  by (auto simp: undeleted_def drop_entry_def)

lemma handle_event_frame:
  assumes "handle_event nd now e s = (stays, s')"
  shows "fo_store s' = fo_store s" and "undeleted p (fo_pending s) \<Longrightarrow> undeleted p (fo_pending s')"
    and "st_bootstrapped (fo_status s') = st_bootstrapped (fo_status s)"
  using assms
  by (cases e; auto simp: request_full_reconcile_def record_master_identity_def undeleted_put_at
      dest: verify_frame split: option.splits prod.splits sum.splits)+

section \<open>The store\<close>

text \<open>A repository that went on from another: nothing lost, HEAD where it was or further on.\<close>

definition continues :: "'o repo \<Rightarrow> 'o repo \<Rightarrow> bool" where
  "continues r r' \<longleftrightarrow> extends r r' \<and>
     (r_head r' = r_head r \<or> (\<exists>x. r_head r' = Inr x \<and> (\<forall>l. r_head r = Inr l \<longrightarrow> descends r' x l)))"

lemma continues_refl [simp]: "continues r r"
  by (simp add: continues_def)

lemma continues_trans:
  assumes "continues a b" and "continues b c"
  shows "continues a c"
proof -
  from assms have ext: "extends a b" "extends b c" by (simp_all add: continues_def)
  have "r_head c = r_head a \<or> (\<exists>x. r_head c = Inr x \<and> (\<forall>l. r_head a = Inr l \<longrightarrow> descends c x l))"
    using assms descends_extends [OF _ ext(2)] descends_trans [of c]
    unfolding continues_def by metis
  with extends_trans [OF ext] show ?thesis by (simp add: continues_def)
qed

definition kept :: "('o repo \<Rightarrow> bool) \<Rightarrow> place \<Rightarrow> 'o repo \<Rightarrow> 'o store \<Rightarrow> bool" where
  "kept I p r s \<longleftrightarrow> (\<exists>d r'. sr_dirs s p = Some d \<and> dk_git d = Some r' \<and> I r' \<and> continues r r')"

lemma apply_pack_keeps:
  assumes ok: "sync_ok L Y I" and vis: "visible p" and kept: "kept I p r s"
    and run: "apply_pack L Y fs q pack head s = (result, s')"
  shows "kept I p r s'"
proof (cases "q = p")
  case False
  have "sr_dirs s' p = sr_dirs s p"
    using replication.others_undisturbed [OF run _ vis] False by (auto simp: snapshots_def)
  with kept show ?thesis by (simp add: kept_def)
next
  case True
  from kept obtain d r1 where d: "sr_dirs s p = Some d" "dk_git d = Some r1" "I r1" "continues r r1"
    by (auto simp: kept_def)
  let ?build = "bind_act (open_repo L) (\<lambda>_. import_pack L Y pack head)"
  have "in_dir p ?build s = (result, s')" using run d True by (simp add: apply_pack_def git_exists_def)
  then have d': "sr_dirs s' p = Some (snd (?build d))" by (auto simp: in_dir_Some [OF d(1)])
  have "\<exists>r'. dk_git (snd (?build d)) = Some r' \<and> I r' \<and> continues r1 r'"
  proof (cases "g_open L d")
    case (Inl e)
    then show ?thesis using d by (auto simp: bind_act_def open_repo_def)
  next
    case (Inr r0)
    then have "import_pack L Y pack head d = (fst (?build d), snd (?build d))"
      by (simp add: bind_act_def open_repo_def)
    from import_effect [OF ok d(2,3) this] show ?thesis by (auto simp: continues_def)
  qed
  with d' d(4) show ?thesis by (auto simp: kept_def intro: continues_trans)
qed

lemma mirror_keeps:
  assumes "open_law L" and "kept I p r s"
  shows "kept I p r (snd (mirror_working_tree L Y fs now q s))"
proof -
  have lock: "sr_dirs (clear_index_lock fs now q s) = sr_dirs s"
    by (auto simp: clear_index_lock_def Let_def split: sum.splits option.splits bool.splits)
  then show ?thesis using assms(2)
    by (auto simp: mirror_working_tree_def mirror_repository_def kept_def split: option.splits sum.splits prod.splits)
qed

lemma remove_keeps:
  assumes "visible p" and "q \<noteq> p" and "kept I p r s" and "remove_repo fs q s = (result, s')"
  shows "kept I p r s'"
proof -
  have "observes (elsewhere q (sr_dirs s)) s s'" by (rule keepsD [OF remove_spares assms(4)])
  then have "elsewhere q (sr_dirs s) (sr_dirs s')" by (rule observes_dirs) (simp add: elsewhere_def)
  then have "sr_dirs s' p = sr_dirs s p" using assms(1,2) unfolding elsewhere_def by metis
  with assms(3) show ?thesis by (simp add: kept_def)
qed

lemma land_keeps:
  assumes "open_law (nd_libs nd)" and "kept I p r (fo_store s)"
  shows "kept I p r (fo_store (land_pack nd now c t head s))" "fo_pending (land_pack nd now c t head s) = fo_pending s"
  using mirror_keeps [OF assms]
  by (simp_all add: land_pack_def repository_updated_def publish_def Let_def)
    (use assms(2) in blast)

lemma sync_keeps:
  assumes ok: "sync_ok (nd_libs nd) (nd_sync nd) I" and vis: "visible p" and kept: "kept I p r (fo_store s)"
    and target: "(c, t, target) \<noteq> (fst p, snd p, TargetDeleted)"
    and run: "sync_repository nd now served c t target s = (outcome, s')"
  shows "kept I p r (fo_store s')" and "undeleted q (fo_pending s) \<Longrightarrow> undeleted q (fo_pending s')"
proof -
  have law: "open_law (nd_libs nd)" using ok by (simp add: sync_ok_def)
  have "kept I p r (fo_store s') \<and> (undeleted q (fo_pending s) \<longrightarrow> undeleted q (fo_pending s'))"
  proof (cases target)
    case TargetDeleted
    with target have "(c, t) \<noteq> p" by auto
    then show ?thesis using run TargetDeleted kept remove_keeps [OF vis _ kept, of "(c, t)"]
      by (auto simp: sync_repository_def delete_repository_def repository_deleted_def publish_def
          split: prod.splits sum.splits if_splits)
  next
    case (TargetAt sha)
    obtain result s1 where f: "fetch_and_apply nd now served c t sha s = (result, s1)" by fastforce
    have landed: "kept I p r (fo_store s3) \<and> fo_pending s3 = fo_pending s2"
      if "apply_and_land nd now c t content head s2 = (res, s3)" "kept I p r (fo_store s2)"
      for content head s2 res s3
    proof -
      obtain out store where a: "apply_pack (nd_libs nd) (nd_sync nd) (nd_os nd) (c, t) (Inr content) head (fo_store s2) = (out, store)"
        by fastforce
      have "kept I p r (fo_store (s2\<lparr>fo_store := store\<rparr>))" using apply_pack_keeps [OF ok vis that(2) a] by simp
      from land_keeps [OF law this] that(1) a this show ?thesis
        by (auto simp: apply_and_land_def Let_def lock_ahead_def lock_diverged_def split: sum.splits pack_apply.splits)
    qed
    have "kept I p r (fo_store s1) \<and> fo_pending s1 = fo_pending s"
      using f kept
      by (auto simp: fetch_and_apply_def Let_def lock_ahead_def lock_diverged_def download_pack_def
          dest!: landed split: head_relation.splits sum.splits prod.splits option.splits)
    then show ?thesis using run f TargetAt
      by (auto simp: sync_repository_def unlock_def undeleted_put_at split: sum.splits if_splits)
  qed
  then show "kept I p r (fo_store s')" "undeleted q (fo_pending s) \<Longrightarrow> undeleted q (fo_pending s')" by blast+
qed


section \<open>Reconciling\<close>

definition valid_entry :: "repository_head \<Rightarrow> bool" where
  "valid_entry h \<longleftrightarrow> (\<exists>u. validate_entry (rh_collection_id h) (rh_tenant_id h) (rh_head_sha h) = Inr u)"

lemma entry_frame:
  assumes "reconcile_entry locals h (seen, s) = (seen', s')"
  shows "fo_store s' = fo_store s" and "fo_status s' = fo_status s" and "set seen \<subseteq> set seen'"
    and "undeleted p (fo_pending s) \<Longrightarrow> undeleted p (fo_pending s')"
    and "valid_entry h \<Longrightarrow> entry_key h \<in> set seen'"
  using assms
  by (auto simp: reconcile_entry_def forget_removed_def unlock_def undeleted_put_at valid_entry_def Let_def
      split: sum.splits if_splits)

lemma entries_frame:
  assumes "fold (reconcile_entry locals) hs (seen, s) = (seen', s')"
  shows "fo_store s' = fo_store s \<and> fo_status s' = fo_status s \<and> set seen \<subseteq> set seen' \<and>
    (undeleted p (fo_pending s) \<longrightarrow> undeleted p (fo_pending s')) \<and>
    (\<forall>h \<in> set hs. valid_entry h \<longrightarrow> entry_key h \<in> set seen')"
  using assms
proof (induction hs arbitrary: seen s)
  case (Cons h hs)
  obtain seen1 s1 where one: "reconcile_entry locals h (seen, s) = (seen1, s1)" by fastforce
  with Cons.prems have "fold (reconcile_entry locals) hs (seen1, s1) = (seen', s')" by simp
  from Cons.IH [OF this] entry_frame [OF one] show ?case by auto
qed simp

lemma split_once_join: "split_once x key = Some (a, b) \<Longrightarrow> key = a @ x # b"
proof (cases "dropWhile (\<lambda>y. y \<noteq> x) key")
  case (Cons y ys)
  then have "y = x" using hd_dropWhile [of "\<lambda>y. y \<noteq> x" key] by simp
  then show "split_once x key = Some (a, b) \<Longrightarrow> key = a @ x # b"
    using Cons takeWhile_dropWhile_id [of "\<lambda>y. y \<noteq> x" key] by (auto simp: split_once_def)
qed (simp add: split_once_def)

lemma deletion_unnamed:
  "(key, c, t) \<in> set (deletions_of locals seen) \<Longrightarrow>
     key = index_key c t \<and> key \<notin> set seen \<and> key \<in> set (map fst locals)"
  by (auto simp: deletions_of_def index_key_def dest: split_once_join [OF sym] split: option.splits)

lemma queue_frame:
  "fo_store (foldl (\<lambda>s d. queue_deletion d s) s ds) = fo_store s"
  "fo_status (foldl (\<lambda>s d. queue_deletion d s) s ds) = fo_status s"
  by (induction ds arbitrary: s) (auto simp: queue_deletion_def)

lemma undeleted_put:
  "undeleted p m \<Longrightarrow> (c, t) \<noteq> p \<Longrightarrow> undeleted p (put_entry key (c, t, target) m)"
  using set_put_entry [of key "(c, t, target)" m] by (cases p) (auto simp: undeleted_def)

lemma undeleted_queue:
  assumes "undeleted p (fo_pending s)" and "\<forall>key. (key, fst p, snd p) \<notin> set ds"
  shows "undeleted p (fo_pending (foldl (\<lambda>s d. queue_deletion d s) s ds))"
  using assms
proof (induction ds arbitrary: s)
  case (Cons d ds)
  obtain key c t where d: "d = (key, c, t)" by (cases d) auto
  have "(c, t) \<noteq> p" using Cons.prems(2) d by (cases p) auto
  with Cons show ?case by (auto simp: d queue_deletion_def undeleted_put)
qed simp

lemma infer_frame:
  "fo_store (infer_deletions g now locals seen s) = fo_store s"
  "fo_status (infer_deletions g now locals seen s) = fo_status s"
  by (simp_all add: infer_deletions_def Let_def queue_frame)

lemma infer_undeleted:
  assumes "undeleted p (fo_pending s)" and "index_key (fst p) (snd p) \<in> set seen"
  shows "undeleted p (fo_pending (infer_deletions g now locals seen s))"
proof -
  have "\<forall>key. (key, fst p, snd p) \<notin> set (deletions_of locals seen)"
    using assms(2) deletion_unnamed by blast
  with assms(1) show ?thesis by (simp add: infer_deletions_def Let_def undeleted_queue)
qed

lemma health_frame:
  "fo_store (refresh_master_health now health s) = fo_store s"
  "fo_pending (refresh_master_health now health s) = fo_pending s"
  "st_bootstrapped (fo_status (refresh_master_health now health s)) = st_bootstrapped (fo_status s)"
  "st_repositories (fo_status (refresh_master_health now health s)) = st_repositories (fo_status s)"
  by (simp_all add: refresh_master_health_def record_master_health_def split: option.split prod.split)

text \<open>A successful reconcile, taken apart.\<close>

lemma reconcile_Inr:
  assumes run: "reconcile nd now fetched scan health s = (Inr u, s')"
  obtains listing s1 listed s2 seen s3 where "fetched = Inr listing"
    "verify_master_identity nd now (li_identity listing) True s = (Inr (), s1)"
    "index_snapshot nd now scan s1 = (listed, s2)"
    "fold (reconcile_entry (local_heads (rs_repositories listed))) (li_repositories listing) ([], s2) = (seen, s3)"
    "fo_store s' = fo_store s3"
    "fo_pending s' = (if li_complete listing then fo_pending (infer_deletions (rc_deletion_guard (nd_config nd)) now
       (local_heads (rs_repositories listed)) seen s3) else fo_pending s3)"
    "st_repositories (fo_status s') = length (local_heads (rs_repositories listed))"
    "st_bootstrapped (fo_status s') = st_bootstrapped (fo_status s3)"
proof -
  from run obtain listing s1 where l: "fetched = Inr listing"
    and v: "verify_master_identity nd now (li_identity listing) True s = (Inr (), s1)"
    by (auto simp: reconcile_def split: sum.splits prod.splits)
  obtain listed s2 where i: "index_snapshot nd now scan s1 = (listed, s2)" by fastforce
  obtain seen s3 where f: "fold (reconcile_entry (local_heads (rs_repositories listed))) (li_repositories listing) ([], s2) = (seen, s3)"
    by fastforce
  let ?s4 = "if \<not> li_complete listing then s3
    else infer_deletions (rc_deletion_guard (nd_config nd)) now (local_heads (rs_repositories listed)) seen s3"
  have s': "s' = refresh_master_health now health (with_status (\<lambda>st. record_master_contact now
      (st\<lparr>st_repositories := length (local_heads (rs_repositories listed)), st_last_reconcile_unix := now\<rparr>)) ?s4)"
    using run by (simp add: reconcile_def l v i f Let_def)
  show thesis
    by (rule that [OF l v i f]) (simp_all add: s' health_frame infer_frame record_master_contact_def)
qed

lemma reconcile_frame:
  assumes run: "reconcile nd now fetched scan health s = (r, s')"
  shows "fo_store s' = fo_store s" and "st_bootstrapped (fo_status s') = st_bootstrapped (fo_status s)"
proof -
  have "fo_store s' = fo_store s \<and> st_bootstrapped (fo_status s') = st_bootstrapped (fo_status s)"
  proof (cases r)
    case (Inl e)
    then show ?thesis using run
      by (auto simp: reconcile_def Let_def dest: verify_frame split: sum.splits prod.splits)
  next
    case (Inr u)
    from run [unfolded Inr] show ?thesis
    proof (rule reconcile_Inr)
      fix listing s1 listed s2 seen s3
      assume v: "verify_master_identity nd now (li_identity listing) True s = (Inr (), s1)"
        and i: "index_snapshot nd now scan s1 = (listed, s2)"
        and f: "fold (reconcile_entry (local_heads (rs_repositories listed))) (li_repositories listing) ([], s2) = (seen, s3)"
        and s': "fo_store s' = fo_store s3" "st_bootstrapped (fo_status s') = st_bootstrapped (fo_status s3)"
      from entries_frame [OF f] verify_frame [OF v] snapshot_frame [OF i] s' show ?thesis by simp
    qed
  qed
  then show "fo_store s' = fo_store s" "st_bootstrapped (fo_status s') = st_bootstrapped (fo_status s)" by simp_all
qed

text \<open>A listing that cannot make the replica delete a repository: none, an incomplete one, or one that names it.\<close>

definition spares_listed :: "place \<Rightarrow> string + repository_listing \<Rightarrow> bool" where
  "spares_listed p fetched =
     (case fetched of
        Inl _ \<Rightarrow> True
      | Inr listing \<Rightarrow> \<not> li_complete listing \<or>
          list_ex (\<lambda>h. valid_entry h \<and> (rh_collection_id h, rh_tenant_id h) = p) (li_repositories listing))"

lemma reconcile_undeleted:
  assumes run: "reconcile nd now fetched scan health s = (r, s')" and spares: "spares_listed p fetched"
    and clean: "undeleted p (fo_pending s)"
  shows "undeleted p (fo_pending s')"
proof (cases r)
  case (Inl e)
  then show ?thesis using run clean
    by (auto simp: reconcile_def Let_def dest: verify_frame split: sum.splits prod.splits)
next
  case (Inr u)
  from run [unfolded Inr] show ?thesis
  proof (rule reconcile_Inr)
    fix listing s1 listed s2 seen s3
    assume l: "fetched = Inr listing"
      and v: "verify_master_identity nd now (li_identity listing) True s = (Inr (), s1)"
      and i: "index_snapshot nd now scan s1 = (listed, s2)"
      and f: "fold (reconcile_entry (local_heads (rs_repositories listed))) (li_repositories listing) ([], s2) = (seen, s3)"
      and pend: "fo_pending s' = (if li_complete listing then fo_pending (infer_deletions (rc_deletion_guard (nd_config nd)) now
         (local_heads (rs_repositories listed)) seen s3) else fo_pending s3)"
    have pend2: "fo_pending s2 = fo_pending s" using verify_frame(2) [OF v] snapshot_frame(2) [OF i] by simp
    note frame = entries_frame [OF f, of p]
    have s3: "undeleted p (fo_pending s3)" using frame clean by (simp add: pend2)
    show ?thesis
    proof (cases "li_complete listing")
      case True
      then obtain h where h: "h \<in> set (li_repositories listing)" "valid_entry h" "(rh_collection_id h, rh_tenant_id h) = p"
        using spares l by (auto simp: spares_listed_def list_ex_iff)
      then have "index_key (fst p) (snd p) \<in> set seen" using frame by (auto simp: entry_key_def)
      with s3 True show ?thesis by (simp add: pend infer_undeleted)
    qed (simp add: pend s3)
  qed
qed

section \<open>Runs\<close>

inductive follower_step ::
  "('o, 'x) node \<Rightarrow> (string + repository_listing \<Rightarrow> bool) \<Rightarrow> pending_syncs \<times> 'o follower \<Rightarrow> pending_syncs \<times> 'o follower \<Rightarrow> bool"
for nd admits where
  frame: "follower_step nd admits (ts, s) (ts, snd (handle_event nd now e s))"
| listed: "admits fetched \<Longrightarrow> follower_step nd admits ([], s) ([], snd (reconcile nd now fetched scan health s))"
| drain: "st_identity_verified (fo_status s) \<Longrightarrow> follower_step nd admits ([], s) (fo_pending s, s)"
| sync: "(key, (c, t, target)) \<in> set ts \<Longrightarrow>
    follower_step nd admits (ts, s)
      (drop_entry key ts, snd (sync_repository nd now served c t target (take_pending key s)))"

lemma step_keeps:
  assumes step: "follower_step nd (spares_listed p) a b"
    and ok: "sync_ok (nd_libs nd) (nd_sync nd) I" and vis: "visible p"
    and kept: "kept I p r (fo_store (snd a))" and clean: "undeleted p (fst a)" "undeleted p (fo_pending (snd a))"
  shows "kept I p r (fo_store (snd b)) \<and> undeleted p (fst b) \<and> undeleted p (fo_pending (snd b))"
  using step kept clean
proof (cases rule: follower_step.cases)
  case (frame ts s now e)
  obtain stays s' where "handle_event nd now e s = (stays, s')" by fastforce
  from handle_event_frame [OF this] show ?thesis using frame kept clean \<open>handle_event nd now e s = (stays, s')\<close> by simp
next
  case (listed fetched s now scan health)
  obtain q s' where run: "reconcile nd now fetched scan health s = (q, s')" by fastforce
  from reconcile_frame(1) [OF run] reconcile_undeleted [OF run listed(3)] listed run kept clean show ?thesis by simp
next
  case (sync key c t target ts s now served)
  let ?s = "take_pending key s"
  obtain outcome s' where run: "sync_repository nd now served c t target ?s = (outcome, s')" by fastforce
  have "(c, t, target) \<noteq> (fst p, snd p, TargetDeleted)" using sync clean(1) by (auto simp: undeleted_def)
  moreover have "undeleted p (fo_pending ?s)" using clean(2) sync by (simp add: take_pending_def undeleted_drop)
  moreover have "kept I p r (fo_store ?s)" using kept sync by (simp add: take_pending_def)
  ultimately show ?thesis
    using sync_keeps [OF ok vis _ _ run] run sync clean(1) by (simp add: undeleted_drop)
qed auto

lemma run_keeps:
  assumes "(follower_step nd (spares_listed p))\<^sup>*\<^sup>* a b"
    and "sync_ok (nd_libs nd) (nd_sync nd) I" and "visible p"
    and "kept I p r (fo_store (snd a))" and "undeleted p (fst a)" and "undeleted p (fo_pending (snd a))"
  shows "kept I p r (fo_store (snd b)) \<and> undeleted p (fst b) \<and> undeleted p (fo_pending (snd b))"
  using assms(1)
proof (induction rule: rtranclp_induct)
  case base
  then show ?case using assms by simp
next
  case (step y z)
  then show ?case using step_keeps [OF step(2) assms(2,3)] by blast
qed


section \<open>What the listings decide\<close>

text \<open>
  C29: a repository its master goes on naming is never lost: as long as every complete listing the
  replica acts on names it validly, no frame, no listing, no pack and no failure, in whatever
  order, removes it, drops an object of it or moves its HEAD other than forward.
\<close>

theorem listed_repositories_kept:
  assumes ok: "sync_ok (nd_libs nd) (nd_sync nd) I" and vis: "visible p"
    and there: "sr_dirs (fo_store s) p = Some d" "dk_git d = Some r" "I r"
    and clean: "undeleted p (fo_pending s)"
    and run: "(follower_step nd (spares_listed p))\<^sup>*\<^sup>* ([], s) (ts, s')"
  shows "\<exists>d' r'. sr_dirs (fo_store s') p = Some d' \<and> dk_git d' = Some r' \<and> extends r r' \<and>
    (r_head r' = r_head r \<or> (\<exists>x. r_head r' = Inr x \<and> (\<forall>l. r_head r = Inr l \<longrightarrow> descends r' x l)))"
proof -
  have "kept I p r (fo_store s)" using there by (auto simp: kept_def)
  from run_keeps [OF run ok vis, of r] this clean have "kept I p r (fo_store s')" by (simp add: undeleted_def)
  then show ?thesis by (auto simp: kept_def continues_def)
qed

text \<open>A small replica, for the witnesses.\<close>

definition tiny_node :: "(nat, unit) node" where
  "tiny_node =
     \<lparr>nd_libs = tiny_libs, nd_sync = tiny_sync, nd_os = quiet_os, nd_identity = tiny_identity,
      nd_config = \<lparr>rc_role = Replica, rc_secret = ''s'', rc_node_id = ''b'', rc_master_url = Some ''http://a'',
        rc_host = None, rc_port = 5356, rc_poll_interval_secs = 60, rc_parallelism = 4,
        rc_reconnect_backoff_ms = 1000, rc_deletion_guard = True\<rparr>,
      nd_checkout_files = True, nd_master_url_display = ''http://a''\<rparr>"

definition tiny_status :: replica_status where
  "tiny_status =
     \<lparr>st_is_replica = True, st_bootstrapped = False, st_stream_connected = True, st_last_reconcile_unix = 0,
      st_pending = 0, st_repositories = 0, st_identity_verified = False, st_consecutive_failures = 0,
      st_last_success_unix = 0, st_master_view = \<lparr>mv_node_id = None, mv_replicas = [], mv_observed_at = None,
        mv_last_contact_at = None, mv_last_error = None\<rparr>\<rparr>"

definition tiny_follower :: "nat store \<Rightarrow> nat follower" where
  "tiny_follower store =
     \<lparr>fo_store = store, fo_index = new_index, fo_issues = [], fo_status = tiny_status,
      fo_identity = \<lparr>ri_path = IDENTITY_FILE, ri_current = None\<rparr>, fo_files = \<lparr>id_file = None, id_temporary = None\<rparr>,
      fo_pending = [], fo_reconcile_requested = True, fo_woken = False, fo_downloads = 0, fo_published = [],
      fo_maintenance = []\<rparr>"

lemma tiny_node_simps [simp]:
  "nd_libs tiny_node = tiny_libs" "nd_sync tiny_node = tiny_sync" "rc_deletion_guard (nd_config tiny_node)"
  by (simp_all add: tiny_node_def)

lemma tiny_follower_simps [simp]:
  "fo_store (tiny_follower store) = store" "fo_pending (tiny_follower store) = []"
  by (simp_all add: tiny_follower_def)

definition tiny_head :: "string \<Rightarrow> repository_head" where
  "tiny_head t = \<lparr>rh_collection_id = ''acme'', rh_tenant_id = t, rh_head_sha = replicate 40 (CHR ''a'')\<rparr>"

definition tiny_listing :: "repository_head list \<Rightarrow> repository_listing" where
  "tiny_listing hs = \<lparr>li_protocol = 1, li_identity = Some zero_identity, li_repositories = hs, li_complete = True\<rparr>"

definition no_scan :: repository_scan where
  "no_scan = \<lparr>rs_repositories = [], rs_complete = True\<rparr>"

definition after_listing :: "nat follower" where
  "after_listing = snd (reconcile tiny_node 5 (Inr (tiny_listing [tiny_head ''docs''])) no_scan None (tiny_follower behind_store))"

lemma after_listing_queued:
  "fo_pending after_listing =
     [(''acme/docs'', (''acme'', ''docs'', TargetAt (replicate 40 (CHR ''a''))))]"
  by code_simp

theorem listed_repositories_kept_witness:
  "\<exists>d' r'. sr_dirs (fo_store (snd (handle_event tiny_node 6 (RepositoryDeleted ''acme'' ''docs'') after_listing))) tiny_place = Some d' \<and>
     dk_git d' = Some r' \<and> extends (tiny_repo [1, 2, 3] (Inr 1)) r'"
proof -
  have "spares_listed tiny_place (Inr (tiny_listing [tiny_head ''docs'']))"
  proof -
    have "validate_entry ''acme'' ''docs'' (replicate 40 (CHR ''a'')) = Inr ()" by code_simp
    then show ?thesis by (simp add: spares_listed_def tiny_listing_def tiny_head_def valid_entry_def tiny_place_def)
  qed
  then have run: "(follower_step tiny_node (spares_listed tiny_place))\<^sup>*\<^sup>* ([], tiny_follower behind_store)
      ([], snd (handle_event tiny_node 6 (RepositoryDeleted ''acme'' ''docs'') after_listing))"
    unfolding after_listing_def
    by (intro rtranclp.rtrancl_into_rtrancl [OF rtranclp.rtrancl_into_rtrancl [OF rtranclp.rtrancl_refl]])
      (rule follower_step.listed, assumption, rule follower_step.frame)
  have ok: "sync_ok (nd_libs tiny_node) (nd_sync tiny_node) tiny_inv" by (simp add: tiny_sync_ok)
  have there: "sr_dirs (fo_store (tiny_follower behind_store)) tiny_place = Some (tiny_disk [1, 2, 3] 1)"
    by (simp add: behind_store_at)
  have clean: "undeleted tiny_place (fo_pending (tiny_follower behind_store))" by (simp add: undeleted_def)
  from listed_repositories_kept [OF ok tiny_visible there tiny_disk_git clean run] show ?thesis by blast
qed

definition doomed :: "pending_syncs \<Rightarrow> string set" where
  "doomed m = {key. \<exists>c t. (key, (c, t, TargetDeleted)) \<in> set m}"

lemma doomed_none: "\<forall>p. undeleted p m \<Longrightarrow> doomed m = {}"
  by (auto simp: doomed_def undeleted_def)

lemma doomed_queue: "doomed (fo_pending (foldl (\<lambda>s d. queue_deletion d s) s ds)) \<subseteq> doomed (fo_pending s) \<union> fst ` set ds"
proof (induction ds arbitrary: s)
  case (Cons d ds)
  obtain key c t where d: "d = (key, c, t)" by (cases d) auto
  have "doomed (fo_pending (queue_deletion d s)) \<subseteq> insert key (doomed (fo_pending s))"
    using set_put_entry [of key "(c, t, TargetDeleted)" "fo_pending s"] by (auto simp: d queue_deletion_def doomed_def)
  with Cons [of "queue_deletion d s"] d show ?case by auto
qed simp

text \<open>
  C30: with the guard on, one listing never makes a replica that holds at least two repositories
  queue more than half of them for deletion, whatever it says of itself.
\<close>

theorem mass_deletion_refused:
  assumes guard: "rc_deletion_guard (nd_config nd)" and clean: "\<forall>p. undeleted p (fo_pending s)"
    and run: "reconcile nd now fetched scan health s = (Inr (), s')"
  shows "2 * card (doomed (fo_pending s')) \<le> st_repositories (fo_status s') \<or> st_repositories (fo_status s') < 2"
  using run
proof (rule reconcile_Inr)
  fix listing and listed :: repository_scan and s1 s2 seen s3
  let ?locals = "local_heads (rs_repositories listed)" and ?ds = "deletions_of (local_heads (rs_repositories listed)) seen"
  assume v: "verify_master_identity nd now (li_identity listing) True s = (Inr (), s1)"
    and i: "index_snapshot nd now scan s1 = (listed, s2)"
    and f: "fold (reconcile_entry ?locals) (li_repositories listing) ([], s2) = (seen, s3)"
    and pend: "fo_pending s' = (if li_complete listing then fo_pending (infer_deletions (rc_deletion_guard (nd_config nd)) now ?locals seen s3)
       else fo_pending s3)"
    and held: "st_repositories (fo_status s') = length ?locals"
  have "fo_pending s2 = fo_pending s" using verify_frame(2) [OF v] snapshot_frame(2) [OF i] by simp
  then have "\<forall>p. undeleted p (fo_pending s3)" using entries_frame [OF f] clean by simp
  then have s3: "doomed (fo_pending s3) = {}" by (rule doomed_none)
  show ?thesis
  proof (cases "li_complete listing \<and> \<not> mass_deletion True (length ?locals) (length ?ds)")
    case True
    then have "fo_pending s' = fo_pending (foldl (\<lambda>s d. queue_deletion d s) (with_issues (clear_issue ISSUE_DELETION_REFUSED) s3) ?ds)"
      using guard by (simp add: pend infer_deletions_def Let_def)
    then have "doomed (fo_pending s') \<subseteq> fst ` set ?ds"
      using doomed_queue [of "with_issues (clear_issue ISSUE_DELETION_REFUSED) s3" ?ds] s3 by simp
    then have "card (doomed (fo_pending s')) \<le> card (fst ` set ?ds)" by (intro card_mono) simp_all
    also have "\<dots> \<le> length ?ds" using card_image_le [of "set ?ds" fst] card_length [of ?ds] by simp
    finally show ?thesis using True by (auto simp: held mass_deletion_def DELETION_GUARD_MINIMUM_HELD_def)
  next
    case False
    then have "doomed (fo_pending s') = {}" using s3 guard by (auto simp: pend infer_deletions_def Let_def)
    then show ?thesis by simp
  qed
qed

theorem mass_deletion_refused_witness:
  "\<exists>s'. reconcile tiny_node 5 (Inr (tiny_listing [])) \<lparr>rs_repositories = [tiny_head ''docs'', tiny_head ''wiki''], rs_complete = True\<rparr>
       None (tiny_follower behind_store) = (Inr (), s') \<and>
     (2 * card (doomed (fo_pending s')) \<le> st_repositories (fo_status s') \<or> st_repositories (fo_status s') < 2)"
proof -
  have "fst (reconcile tiny_node 5 (Inr (tiny_listing [])) \<lparr>rs_repositories = [tiny_head ''docs'', tiny_head ''wiki''], rs_complete = True\<rparr>
       None (tiny_follower behind_store)) = Inr ()" by code_simp
  then obtain s' where run: "reconcile tiny_node 5 (Inr (tiny_listing [])) \<lparr>rs_repositories = [tiny_head ''docs'', tiny_head ''wiki''], rs_complete = True\<rparr>
       None (tiny_follower behind_store) = (Inr (), s')" by (metis prod.collapse)
  with mass_deletion_refused [OF _ _ run] show ?thesis by (simp add: undeleted_def)
qed

section \<open>Catching up\<close>

lemma head_content_work [simp]: "head_content L (d\<lparr>dk_work := w\<rparr>) = head_content L d"
proof -
  have "head_blob L (d\<lparr>dk_work := w\<rparr>) = head_blob L d" by (intro ext) (simp add: head_blob_def)
  then show ?thesis by (intro ext) (simp add: head_content_def split: option.split)
qed

lemma same_work [simp]: "\<exists>w. d = d\<lparr>dk_work := w\<rparr>"
  by (rule exI [of _ "dk_work d"]) simp

lemma mirror_content:
  assumes "sr_dirs s p = Some d"
  shows "\<exists>w. sr_dirs (snd (mirror_working_tree L Y fs now q s)) p = Some (d\<lparr>dk_work := w\<rparr>)"
proof -
  have lock: "sr_dirs (clear_index_lock fs now q s) = sr_dirs s"
    by (auto simp: clear_index_lock_def Let_def split: sum.splits option.splits bool.splits)
  show ?thesis
    using assms lock
    by (auto simp: mirror_working_tree_def mirror_repository_def split: option.split sum.split prod.split)
qed

lemma land_content:
  assumes "sr_dirs (fo_store s) p = Some d"
  shows "\<exists>w. sr_dirs (fo_store (land_pack nd now c t head s)) p = Some (d\<lparr>dk_work := w\<rparr>)"
  using mirror_content [OF assms] assms
  by (simp add: land_pack_def repository_updated_def publish_def Let_def)

lemma relation_held:
  assumes "y_oid Y sha = Some h" and "\<And>r. open_at L dirs p = Inr r \<Longrightarrow> r_commits r h \<noteq> None \<Longrightarrow> r_head r = Inr h"
  shows "relation_to L Y dirs p sha = UnknownHead \<or>
    (\<exists>r. relation_to L Y dirs p sha = SameHead \<and> open_at L dirs p = Inr r \<and> r_head r = Inr h)"
proof (cases "open_at L dirs p")
  case (Inr r)
  show ?thesis
  proof (cases "r_commits r h")
    case None
    then show ?thesis using Inr assms(1) by (simp add: relation_to_def split: option.split)
  next
    case (Some c)
    then have "r_head r = Inr h" using assms(2) [OF Inr] by simp
    then show ?thesis using Inr Some assms(1) by (simp add: relation_to_def head_target_def)
  qed
qed (simp add: relation_to_def)

text \<open>
  C28: a replica whose HEAD, if it has one, is the announced commit or an ancestor of it, and which
  does not hold the announced commit with its HEAD elsewhere, reaches the head its master
  announced: given the pack the master built against the replica's head, a sync that does not fail
  transiently ends as synced, leaves the replica reading the master's content on every path and
  lifts the repository's lock. A replica that is ahead, has diverged or was left with a half-done
  import is outside the claim: it is locked (\<open>late_frame_locks\<close> in \<open>Follower_Gate\<close>,
  \<open>interrupted_import_looks_diverged\<close> in \<open>Replica_Sync\<close>).
\<close>

theorem announced_head_reached:
  assumes ok: "sync_ok L Y I" "pack_ok Y I" "lookup_ok L" and nd: "L = nd_libs nd" "Y = nd_sync nd"
    and vis: "visible (c, t)"
    and master: "dk_git dm = Some m" "I m" "head_tree m = Inr (h, tree)" "whole m h"
    and replica: "\<forall>d r. sr_dirs (fo_store s) (c, t) = Some d \<and> dk_git d = Some r \<longrightarrow>
      I r \<and> agree m r \<and> (\<forall>l. r_head r = Inr l \<longrightarrow> whole r l \<and> (l = h \<or> descends m h l)) \<and>
      (r_commits r h \<noteq> None \<longrightarrow> r_head r = Inr h)"
    and pack: "build_pack L Y dm t (g_oid_string L h) (head_sha L (os_stat (nd_os nd)) (sr_dirs (fo_store s)) (c, t)) on_chunk = (Inr n, sent)"
    and served: "served (head_sha L (os_stat (nd_os nd)) (sr_dirs (fo_store s)) (c, t)) = Inr (Inr (List.concat sent), Some (g_oid_string L h))"
    and run: "sync_repository nd now served c t (TargetAt (g_oid_string L h)) s = (outcome, s')"
    and landed: "outcome \<noteq> OutcomeFailed"
  shows "outcome = OutcomeSynced \<and> get_issue (repository_key c t) (fo_issues s') = None \<and>
    (\<exists>d'. sr_dirs (fo_store s') (c, t) = Some d' \<and> (\<forall>path. head_content L d' path = head_content L dm path))"
proof -
  let ?sha = "g_oid_string L h" and ?dirs = "sr_dirs (fo_store s)"
  obtain result s1 where f: "fetch_and_apply nd now served c t ?sha s = (result, s1)" by fastforce
  note oid = sync_rules(3) [OF ok(1)]
  have reads: "\<exists>d'. sr_dirs (fo_store s1) (c, t) = Some d' \<and> (\<forall>path. head_content L d' path = head_content L dm path)"
    and synced: "result = Inr OutcomeSynced" if fine: "\<exists>q. result = Inr q"
  proof -
    have opened: "\<exists>d. ?dirs (c, t) = Some d \<and> dk_git d = Some r" if "open_at L ?dirs (c, t) = Inr r" for r
      using that sync_rules(1) [OF ok(1)] by (auto simp: open_at_def split: option.splits)
    have held: "r_head r = Inr h" if "open_at L ?dirs (c, t) = Inr r" "r_commits r h \<noteq> None" for r
      using opened [OF that(1)] that(2) replica by blast
    consider (same) r where "relation_to L Y ?dirs (c, t) ?sha = SameHead" "open_at L ?dirs (c, t) = Inr r" "r_head r = Inr h"
      | (unknown) "relation_to L Y ?dirs (c, t) ?sha = UnknownHead"
      using relation_held [OF oid held] by blast
    then have "(\<exists>d'. sr_dirs (fo_store s1) (c, t) = Some d' \<and> (\<forall>path. head_content L d' path = head_content L dm path)) \<and>
        result = Inr OutcomeSynced"
    proof cases
      case same
      obtain d where d: "?dirs (c, t) = Some d" "dk_git d = Some r"
        using opened [OF same(2)] by (elim exE conjE)
      have facts: "agree m r" "whole r h" using replica [rule_format, OF conjI [OF d]] same(3) by simp_all
      have "alike m r h" by (rule whole_alike [OF facts(1) master(4) facts(2)])
      note reads = alike_content [OF ok(3) master(1,3) d(2) same(3) this]
      have "result = Inr OutcomeSynced" "s1 = s"
        using f same(1) by (simp_all add: fetch_and_apply_def nd [symmetric] Let_def)
      with d(1) reads show ?thesis by blast
    next
      case unknown
      let ?s = "s\<lparr>fo_downloads := fo_downloads s + 1\<rparr>"
      have "(case (case commit_sha ?sha of Inl _ \<Rightarrow> None | Inr v \<Rightarrow> Some v) of None \<Rightarrow> ?sha | Some head \<Rightarrow> head) = ?sha"
        using sha.unchanged [of ?sha] by (auto split: sum.split)
      then have land: "apply_and_land nd now c t (List.concat sent) ?sha ?s = (result, s1)"
        using f unknown served by (simp add: fetch_and_apply_def nd [symmetric] Let_def download_pack_def)
      obtain out store where a: "apply_pack L Y (nd_os nd) (c, t) (Inr (List.concat sent)) ?sha (fo_store s) = (out, store)"
        by fastforce
      then obtain applied where out: "out = Inr applied"
        using land fine by (cases out) (auto simp: apply_and_land_def nd [symmetric])
      have behind: "\<forall>d r. ?dirs (c, t) = Some d \<and> dk_git d = Some r \<longrightarrow>
          I r \<and> agree m r \<and> (\<forall>l. r_head r = Inr l \<longrightarrow> whole r l \<and> (l = h \<or> descends m h l))"
        by (intro allI impI, drule replica [rule_format]) simp
      note catch = replica_catches_up [OF ok vis master behind pack a [unfolded out]]
      then obtain d' where d': "sr_dirs store (c, t) = Some d'" "\<forall>path. head_content L d' path = head_content L dm path"
        by (elim conjE exE)
      have there: "sr_dirs (fo_store (?s\<lparr>fo_store := store\<rparr>)) (c, t) = Some d'" using d' by simp
      obtain w where "result = Inr OutcomeSynced" and "sr_dirs (fo_store s1) (c, t) = Some (d'\<lparr>dk_work := w\<rparr>)"
        using catch land a out land_content [OF there, of nd now c t ?sha] same_work [of d'] d'(1)
        by (force simp: apply_and_land_def nd [symmetric] Let_def)
      with d'(2) show ?thesis by simp
    qed
    then show "\<exists>d'. sr_dirs (fo_store s1) (c, t) = Some d' \<and> (\<forall>path. head_content L d' path = head_content L dm path)"
      "result = Inr OutcomeSynced" by blast+
  qed
  from run f landed obtain q where q: "result = Inr q"
    by (auto simp: sync_repository_def split: sum.splits)
  with synced run f have "outcome = OutcomeSynced" "s' = unlock c t s1"
    by (auto simp: sync_repository_def split: sum.splits if_splits)
  with reads q show ?thesis by (auto simp: unlock_def get_issue_def)
qed


theorem announced_head_reached_witness:
  "\<exists>d'. sr_dirs (fo_store (snd (sync_repository tiny_node 5
       (\<lambda>since. Inr (Inr (List.concat [[CHR 4], [CHR 5], [CHR 6]]), Some (g_oid_string tiny_libs 4)))
       ''acme'' ''docs'' (TargetAt (g_oid_string tiny_libs 4)) (tiny_follower behind_store)))) (''acme'', ''docs'') = Some d' \<and>
     (\<forall>path. head_content tiny_libs d' path = head_content tiny_libs ahead_disk path)"
proof -
  let ?served = "\<lambda>since :: string option. Inr (Inr (List.concat [[CHR 4], [CHR 5], [CHR 6]]), Some (g_oid_string tiny_libs 4)) :: pack_answer"
  have "fst (sync_repository tiny_node 5 ?served ''acme'' ''docs'' (TargetAt (g_oid_string tiny_libs 4)) (tiny_follower behind_store))
      = OutcomeSynced" by code_simp
  then obtain s' where run: "sync_repository tiny_node 5 ?served ''acme'' ''docs'' (TargetAt (g_oid_string tiny_libs 4)) (tiny_follower behind_store)
      = (OutcomeSynced, s')" by (metis prod.collapse)
  have replica: "\<forall>d r. sr_dirs (fo_store (tiny_follower behind_store)) (''acme'', ''docs'') = Some d \<and> dk_git d = Some r \<longrightarrow>
      tiny_inv r \<and> agree (tiny_repo tiny_ids (Inr 4)) r \<and>
      (\<forall>l. r_head r = Inr l \<longrightarrow> whole r l \<and> (l = 4 \<or> descends (tiny_repo tiny_ids (Inr 4)) 4 l)) \<and>
      (r_commits r 4 \<noteq> None \<longrightarrow> r_head r = Inr 4)"
    using tiny_behind by (simp add: tiny_place_def)
  have pack: "build_pack tiny_libs tiny_sync ahead_disk ''docs'' (g_oid_string tiny_libs 4)
      (head_sha tiny_libs (os_stat (nd_os tiny_node)) (sr_dirs (fo_store (tiny_follower behind_store))) (''acme'', ''docs'')) (\<lambda>_ _. True)
    = (Inr 3, [[CHR 4], [CHR 5], [CHR 6]])"
    using tiny_served by (simp add: tiny_place_def tiny_node_def quiet_os_def)
  from announced_head_reached [OF tiny_sync_ok tiny_pack_ok tiny_lookup_ok tiny_node_simps(1,2) [symmetric]
      tiny_visible [unfolded tiny_place_def] tiny_master(1) tiny_disk_git(2) tiny_master(2,3) replica pack refl run]
  show ?thesis using run by simp
qed

end
