(* ===== verification/Follower_Gate.thy ===== *)
theory Follower_Gate
  imports Follower_Facts
begin

text \<open>
  The worker and the notification stream of a replica: when a cold one starts answering reads, how
  the stream's bytes become frames, and what locks and queued targets do in the corner cases.
\<close>

section \<open>The stream\<close>

lemma split_on_append:
  "split_on c (a @ b) = butlast (split_on c a) @ split_on c (last (split_on c a) @ b)"
proof (induction a)
  case (Cons x a)
  obtain w ws where a: "split_on c a = w # ws" by (cases "split_on c a") auto
  show ?case
  proof (cases ws)
    case Nil
    with Cons a have "c \<notin> set w" using split_on_no_sep [of w c a] by simp
    then show ?thesis using Cons a Nil by auto
  qed (use Cons a in auto)
qed simp

lemma handle_lines_append:
  "handle_lines nd now pf (xs @ ys) s =
     (case handle_lines nd now pf xs s of
        (False, s') \<Rightarrow> (False, s')
      | (True, s') \<Rightarrow> handle_lines nd now pf ys s')"
  by (induction xs arbitrary: s) (simp_all split: option.split prod.split bool.split)

lemma consume_lines:
  assumes "list_all valid_utf8 chunks" and "CHR 0x0A \<notin> set buffer"
  shows "consume_events nd now pf buffer chunks s =
    snd (handle_lines nd now pf (butlast (split_on (CHR 0x0A) (buffer @ List.concat chunks))) s)"
  using assms
proof (induction chunks arbitrary: buffer s)
  case (Cons chunk chunks)
  let ?pieces = "split_on (CHR 0x0A) (buffer @ chunk)"
  have last: "CHR 0x0A \<notin> set (last ?pieces)" by (rule split_on_no_sep [OF last_in_set]) simp
  have split: "butlast (split_on (CHR 0x0A) (buffer @ chunk @ List.concat chunks))
      = butlast ?pieces @ butlast (split_on (CHR 0x0A) (last ?pieces @ List.concat chunks))"
    using split_on_append [of "CHR 0x0A" "buffer @ chunk" "List.concat chunks"] by (simp add: butlast_append)
  have "to_string_lossy chunk = chunk" using Cons.prems(1) by (simp add: to_string_lossy_valid)
  moreover have "consume_events nd now pf (last ?pieces) chunks s' =
      snd (handle_lines nd now pf (butlast (split_on (CHR 0x0A) (last ?pieces @ List.concat chunks))) s')" for s'
    using Cons.IH [OF _ last] Cons.prems(1) by simp
  ultimately show ?case by (simp add: split handle_lines_append Let_def split: prod.split bool.split)
qed (simp add: split_on_free)

text \<open>
  How the network cuts the notification stream does not matter: two ways to cut the same
  bytes into chunks, neither of them inside a character, leave the replica in the same state, each
  frame handled once and in order, a frame cut over several chunks included.
\<close>

theorem chunking_immaterial:
  assumes "List.concat chunks = List.concat chunks'"
    and "list_all valid_utf8 chunks" and "list_all valid_utf8 chunks'"
  shows "consume_events nd now pf [] chunks s = consume_events nd now pf [] chunks' s"
  using assms by (simp add: consume_lines)

theorem chunking_immaterial_witness:
  "consume_events tiny_node 5 (\<lambda>line. None) [] [''a'', ''b''] (tiny_follower behind_store) =
     consume_events tiny_node 5 (\<lambda>line. None) [] [''ab''] (tiny_follower behind_store)"
  by (rule chunking_immaterial) (simp_all add: valid_utf8_ascii byte_def)

text \<open>A character cut in two is replaced, on both sides, and the frame it was in is lost.\<close>

lemma cut_character_lost:
  "List.concat (map to_string_lossy [[CHR 0xC3], [CHR 0xA9]]) \<noteq> to_string_lossy [CHR 0xC3, CHR 0xA9]"
  by (simp add: to_string_lossy.simps [of "_ # _"] to_string_lossy.simps [of "[]"] utf8_step_def utf8_malformed_def
      replacement_character_def byte_def between_def cont_def)

section \<open>The bootstrap gate\<close>

inductive worker_step :: "('o, 'x) node \<Rightarrow> worker \<times> 'o follower \<Rightarrow> worker \<times> 'o follower \<Rightarrow> bool" for nd where
  frame: "worker_step nd (w, s) (w, snd (handle_event nd now e s))"
| waited: "worker_step nd (w, s) (w, end_wait timer s)"
| pass: "worker_step nd (w, s) (snd (worker_pass nd now fetched scan health served w s))"

lemma sync_bootstrapped:
  "st_bootstrapped (fo_status (snd (sync_repository nd now served c t target s))) = st_bootstrapped (fo_status s)"
  by (auto simp: sync_repository_def delete_repository_def repository_deleted_def publish_def fetch_and_apply_def
      lock_ahead_def lock_diverged_def apply_and_land_def land_pack_def repository_updated_def unlock_def
      download_pack_def put_pending_def Let_def
      split: sync_target.split prod.split sum.split head_relation.split option.split pack_apply.split)

lemma drain_bootstrapped:
  "st_bootstrapped (fo_status (snd (drain_targets nd now served ts pass s))) = st_bootstrapped (fo_status s)"
proof (induction ts arbitrary: pass s)
  case (Cons a ts)
  obtain key c t target where a: "a = (key, (c, t, target))" by (cases a) auto
  obtain outcome s' where one: "sync_repository nd now (served (c, t)) c t target (take_pending key s) = (outcome, s')"
    by fastforce
  then have "st_bootstrapped (fo_status s') = st_bootstrapped (fo_status s)"
    using sync_bootstrapped [of nd now "served (c, t)" c t target "take_pending key s"] by (simp add: take_pending_def)
  then show ?case using Cons by (simp add: a one)
qed simp

lemma requested_bootstrapped:
  assumes "requested_reconcile nd now fetched scan health w s = (failed, w', s')"
  shows "st_bootstrapped (fo_status s') = st_bootstrapped (fo_status s)"
  using assms reconcile_frame(2) [of nd now fetched scan health "s\<lparr>fo_reconcile_requested := False\<rparr>"]
  by (auto simp: requested_reconcile_def record_master_error_def split: if_splits prod.splits sum.splits)

text \<open>The gate is open only where it may be.\<close>

definition may_open :: "worker \<times> 'o follower \<Rightarrow> bool" where
  "may_open q \<longleftrightarrow> wk_reconciled_once (fst q) \<and>
     (fo_pending (snd q) = [] \<or> wk_landed_total (fst q) > 0 \<and> wk_stalled_passes (fst q) \<ge> 2)"

lemma gate_opens:
  "\<not> st_bootstrapped (fo_status s) \<Longrightarrow> st_bootstrapped (fo_status (lift_gate w s)) \<Longrightarrow> may_open (w, lift_gate w s)"
  by (auto simp: lift_gate_def may_open_def split: if_splits)

lemma pass_opens:
  assumes run: "worker_pass nd now fetched scan health served w s = (p, w', s')"
    and shut: "\<not> st_bootstrapped (fo_status s)" and opened: "st_bootstrapped (fo_status s')"
  shows "may_open (w', s')"
proof -
  obtain failed w1 s1 where r: "requested_reconcile nd now fetched scan health w s = (failed, w1, s1)"
    by (cases "requested_reconcile nd now fetched scan health w s")
  obtain pass s2 where d: "drain_pending nd now served s1 = (pass, s2)" by fastforce
  have "\<not> st_bootstrapped (fo_status s1)" using shut requested_bootstrapped [OF r] by simp
  then have s2: "\<not> st_bootstrapped (fo_status s2)"
    using d drain_bootstrapped [of nd now served "fo_pending s1" empty_pass
        "with_status (\<lambda>st. st\<lparr>st_pending := length (fo_pending s1)\<rparr>) s1"]
    by (auto simp: drain_pending_def split: if_splits prod.splits)
  let ?b = "failed \<or> (sp_attempted pass - sp_locked pass > 0 \<and> sp_succeeded pass = 0)"
  have "lift_gate w' (with_status (note_pass now ?b) s2) = s'"
    using run unfolding worker_pass_def r d Let_def prod.case by (elim Pair_inject) blast
  with gate_opens [of "with_status (note_pass now ?b) s2" w'] s2 opened show ?thesis by (simp add: note_pass_def)
qed



section \<open>Locks and queued targets\<close>

text \<open>
  A lock that is resolved by making the upstream's copy the replica's own stays: an entry at the
  local head is passed over before the lock is looked at, so the node goes on reporting halted.
\<close>

lemma resolved_lock_stays:
  assumes "map_of locals (entry_key h) = Some (rh_head_sha h)"
  shows "snd (reconcile_entry locals h (seen, s)) = s"
  using assms by (simp add: reconcile_entry_def split: sum.split)

lemma converged_replica_halted:
  "let s = (tiny_follower behind_store)\<lparr>fo_issues :=
         [(repository_key ''acme'' ''docs'', ReplicaAhead ''acme'' ''docs'' (replicate 40 (CHR ''a'')) (replicate 40 (CHR ''b'')) 0)]\<rparr>;
       scan = \<lparr>rs_repositories = [tiny_head ''docs''], rs_complete = True\<rparr>;
       (r, s') = reconcile tiny_node 5 (Inr (tiny_listing [tiny_head ''docs''])) scan None s
   in r = Inr () \<and> fo_pending s' = [] \<and> follower_verdict (fo_issues s') (fo_status s') = Halted"
  by code_simp

text \<open>
  A frame that arrives after the pack of a later commit was imported names an ancestor of the
  local HEAD: the repository is locked and the node halted, until the next frame or sync.
\<close>

lemma late_frame_locks:
  "let s = tiny_follower (store_of [tiny_place \<mapsto> tiny_disk tiny_ids 4]);
       (outcome, s') = sync_repository tiny_node 5 (\<lambda>_. Inl ''unused'') ''acme'' ''docs'' (TargetAt ''0001'') s
   in outcome = OutcomeLocked \<and> follower_verdict (fo_issues s') (fo_status s') = Halted"
  by code_simp

text \<open>
  A pass reads its targets, then takes each out of the queue as its turn comes: a frame that
  arrives in between is taken out with the older target, and its head is not synced.
\<close>

lemma newer_frame_swallowed:
  "let s = put_pending ''acme'' ''docs'' (TargetAt ''old'') (tiny_follower behind_store);
       targets = fo_pending s;
       s' = put_pending ''acme'' ''docs'' (TargetAt ''new'') s
   in targets = [(''acme/docs'', (''acme'', ''docs'', TargetAt ''old''))] \<and> fo_pending (take_pending ''acme/docs'' s') = []"
  by code_simp

end
