(* ===== verification/Server.thy ===== *)
theory Server
  imports Follower Hooks Git_Listing Git_Commits
begin

text \<open>
  \<open>AppState\<close> and what every handler of \<open>src/routes\<close> shares: the sanitised address of a tenant,
  a git operation under its write lock, a read without it, and what follows a commit. A handler
  holds its tenant's lock from the first access to the repository to its answer, so it is one
  step on the state. A request comes in as axum's extractors and serde hand it over.
\<close>

section \<open>State\<close>

text \<open>The parts of \<open>AppState\<close> that change; the first is shared with the follower of a replica.\<close>

record 'o app_state =
  as_node :: "'o follower"
  as_queues :: hook_queues
  as_registry :: registry

text \<open>The configuration and the third parties a node runs on.\<close>

record ('o, 'x) service =
  sv_config :: config
  sv_libs :: "'o libs"
  sv_history :: "'o history_libs"
  sv_commits :: "'o commit_libs"
  sv_sync :: "'o sync_libs"
  sv_os :: "'o os"
  sv_identity :: "'x identity_libs"
  sv_lower :: "string \<Rightarrow> string"
  sv_strings :: "string \<Rightarrow> string list option" \<comment> \<open>\<open>serde_json\<close> on a JSON array of strings\<close>
  sv_rfc3339 :: "string \<Rightarrow> int option"
  sv_redact :: "string \<Rightarrow> string"

type_synonym ('o, 'a) handler = "('o app_state, app_error, 'a) action"

definition checkout_files :: "('o, 'x) service \<Rightarrow> bool" where
  "checkout_files S = sc_checkout_files (cf_server (sv_config S))"

definition allowed_extensions :: "('o, 'x) service \<Rightarrow> string list option" where
  "allowed_extensions S = lc_allowed_extensions (cf_limits (sv_config S))"

record author_request =
  au_name :: string
  au_email :: string

section \<open>Tenants\<close>

definition tenant_address :: "string \<Rightarrow> string \<Rightarrow> place app_result" where
  "tenant_address collection tenant =
     and_then (collection_id collection) (\<lambda>c. and_then (tenant_id tenant) (\<lambda>t. Inr (c, t)))"

lemma tenant_address_same: "tenant_address collection tenant = Inr p \<Longrightarrow> p = (collection, tenant)"
  using collection.unchanged tenant.unchanged by (auto simp: tenant_address_def and_then_eq_Inr)

definition missing_disk :: "'o disk" where
  "missing_disk = \<lparr>dk_exists = False, dk_git = None, dk_work = (\<lambda>_. None)\<rparr>"

definition tenant_disk :: "place \<Rightarrow> 'o store \<Rightarrow> 'o disk" where
  "tenant_disk p s = (case sr_dirs s p of None \<Rightarrow> missing_disk | Some d \<Rightarrow> d)"

definition with_store :: "('o store \<Rightarrow> 'a \<times> 'o store) \<Rightarrow> 'o app_state \<Rightarrow> 'a \<times> 'o app_state" where
  "with_store f st =
     (case f (fo_store (as_node st)) of
        (r, store) \<Rightarrow> (r, st\<lparr>as_node := (as_node st)\<lparr>fo_store := store\<rparr>\<rparr>))"

text \<open>A git operation on the tenant's directory, with its lock held.\<close>

definition at_tenant :: "place \<Rightarrow> ('o, 'a) git_action \<Rightarrow> ('o, 'a) store_action" where
  "at_tenant p m s =
     (case m (tenant_disk p s) of
        (r, d) \<Rightarrow> (r, if dk_exists d then put_dir p (Some d) s else s))"

definition on_tenant :: "place \<Rightarrow> ('o, 'a) git_action \<Rightarrow> ('o, 'a) handler" where
  "on_tenant p m = with_store (at_tenant p m)"

definition peek_tenant :: "place \<Rightarrow> ('o disk \<Rightarrow> 'a app_result) \<Rightarrow> ('o, 'a) handler" where
  "peek_tenant p f st = (f (tenant_disk p (fo_store (as_node st))), st)"

text \<open>A read that takes no lock: without a \<open>.git\<close>, git and I/O failures are a missing tenant.\<close>

definition read_tenant :: "place \<Rightarrow> ('o disk \<Rightarrow> 'a app_result) \<Rightarrow> ('o, 'a) handler" where
  "read_tenant p f st =
     (run_tenant_read (git_exists (sr_dirs (fo_store (as_node st))) p) (snd p)
        (Inr (f (tenant_disk p (fo_store (as_node st))))), st)"

section \<open>After a commit\<close>

definition lock_key :: "place \<Rightarrow> string" where
  "lock_key p = index_key (fst p) (snd p)"

definition announce_commit ::
  "('o, 'x) service \<Rightarrow> int \<Rightarrow> place \<Rightarrow> string \<Rightarrow> file_change list \<Rightarrow> 'o app_state \<Rightarrow> 'o app_state" where
  "announce_commit S now p sha changes st =
     (let node = repository_updated (cf_replication (sv_config S) \<noteq> None) (fst p) (snd p) sha (as_node st);
          queues = enqueue (cf_hooks (sv_config S)) (lock_key p)
            (new_hook_job (sv_libs S) (fst p) (snd p) sha now changes) (as_queues st)
      in st\<lparr>as_node := node\<lparr>fo_maintenance := fo_maintenance node @ [ScheduleMaintenance (lock_key p)]\<rparr>,
            as_queues := queues\<rparr>)"

definition announced :: "('o, 'x) service \<Rightarrow> int \<Rightarrow> place \<Rightarrow> string \<Rightarrow> file_change list \<Rightarrow> ('o, unit) handler" where
  "announced S now p sha changes st = (Inr (), announce_commit S now p sha changes st)"

text \<open>The end of a handler: nothing follows a request that made no commit.\<close>

definition announce_if_changed ::
  "('o, 'x) service \<Rightarrow> int \<Rightarrow> place \<Rightarrow> string \<times> file_change list \<Rightarrow> ('o, string) handler" where
  "announce_if_changed S now p = (\<lambda>(sha, changes).
     if changes = [] then act_ok sha
     else bind_act (announced S now p sha changes) (\<lambda>_. act_ok sha))"

end
