(* ===== verification/Routes_Write.thy ===== *)
theory Routes_Write
  imports Server
begin

text \<open>
  The handlers that change a repository: \<open>routes/files.rs\<close> (write, delete, move, reorder),
  \<open>routes/order.rs\<close>, \<open>routes/commits.rs\<close> (revert, rollback) and \<open>routes/tenant.rs\<close>. Each answers
  the commit's sha.
\<close>

section \<open>Files\<close>

record write_file_request =
  wf_author :: author_request
  wf_content :: string
  wf_message :: "string option"

record delete_file_request =
  df_author :: author_request
  df_message :: "string option"
  df_recurse :: "bool option"

record move_file_request =
  mf_author :: author_request
  mf_destination :: string
  mf_message :: "string option"
  mf_recurse :: "bool option"

record reorder_file_request =
  ro_author :: author_request
  ro_position :: int
  ro_default_index :: "int option"
  ro_allow_hidden :: "bool option"
  ro_message :: "string option"
  ro_allow_prefix_path :: "bool option"

definition flag :: "bool option \<Rightarrow> bool" where
  "flag b = (case b of None \<Rightarrow> False | Some v \<Rightarrow> v)"

definition path_of_kind :: "bool \<Rightarrow> string \<Rightarrow> string app_result" where
  "path_of_kind folders raw = (if folders then file_or_folder_path raw else file_path raw)"

definition put_file ::
  "('o, 'x) service \<Rightarrow> int \<Rightarrow> string \<Rightarrow> string \<Rightarrow> string \<Rightarrow> write_file_request \<Rightarrow> ('o, string) handler" where
  "put_file S now collection tenant raw_path body =
     bind_act (act_lift (tenant_address collection tenant)) (\<lambda>p.
     bind_act (act_lift (file_path raw_path)) (\<lambda>path.
     bind_act (act_lift (file_extension path (allowed_extensions S))) (\<lambda>_.
     bind_act (on_tenant p (write_file (sv_libs S) path (wf_content body) (wf_message body)
         (au_name (wf_author body)) (au_email (wf_author body)) (checkout_files S))) (\<lambda>(sha, change).
       announce_if_changed S now p (sha, option_list change)))))"

text \<open>Whether the folder operation runs, decided from HEAD under the lock.\<close>

definition recurse_directory ::
  "('o, 'x) service \<Rightarrow> place \<Rightarrow> bool \<Rightarrow> string \<Rightarrow> ('o, bool) handler" where
  "recurse_directory S p allowed path =
     (if allowed then
        bind_act (peek_tenant p (\<lambda>d. path_kind (sv_libs S) d (snd p) path))
          (\<lambda>kind. act_ok (kind = DirectoryKind))
      else act_ok False)"

definition delete_file_route ::
  "('o, 'x) service \<Rightarrow> int \<Rightarrow> string \<Rightarrow> string \<Rightarrow> string \<Rightarrow> delete_file_request \<Rightarrow> ('o, string) handler" where
  "delete_file_route S now collection tenant raw_path body =
     bind_act (act_lift (tenant_address collection tenant)) (\<lambda>p.
     bind_act (act_lift (path_of_kind (flag (df_recurse body)) raw_path)) (\<lambda>path.
     bind_act (recurse_directory S p (flag (df_recurse body)) path) (\<lambda>recurse.
     bind_act (on_tenant p
         ((if recurse then delete_directory else delete_file) (sv_libs S) (snd p) path (df_message body)
            (au_name (df_author body)) (au_email (df_author body)) (checkout_files S)))
       (announce_if_changed S now p))))"

definition move_file_route ::
  "('o, 'x) service \<Rightarrow> int \<Rightarrow> string \<Rightarrow> string \<Rightarrow> string \<Rightarrow> move_file_request \<Rightarrow> ('o, string) handler" where
  "move_file_route S now collection tenant from_path_raw body =
     (let allowed = flag (mf_recurse body) in
      bind_act (act_lift (tenant_address collection tenant)) (\<lambda>p.
      bind_act (act_lift (path_of_kind allowed from_path_raw)) (\<lambda>from_path.
      bind_act (act_lift (path_of_kind allowed (mf_destination body))) (\<lambda>to_path.
      bind_act (act_lift (if \<not> allowed then file_extension to_path (allowed_extensions S) else Inr ())) (\<lambda>_.
      bind_act (recurse_directory S p allowed from_path) (\<lambda>recurse.
      bind_act (act_lift (if allowed \<and> \<not> recurse then file_extension to_path (allowed_extensions S) else Inr ())) (\<lambda>_.
      bind_act (on_tenant p
          ((if recurse then move_directory else move_file) (sv_libs S) (snd p) from_path to_path (mf_message body)
             (au_name (mf_author body)) (au_email (mf_author body)) (checkout_files S)))
        (announce_if_changed S now p))))))))"

definition show_int :: "int \<Rightarrow> string" where
  "show_int i = (if i < 0 then ''-'' @ show_nat (nat (- i)) else show_nat (nat i))"

definition reorder_position :: "int \<Rightarrow> order_position app_result" where
  "reorder_position position =
     (if position \<ge> 0 then Inr (At (nat position))
      else if position = UNLISTED_POSITION then Inr Unlisted
      else Inl (InvalidOperation (''position must be zero or greater, or '' @ show_int UNLISTED_POSITION @
        '' to drop the entry from the index: '' @ show_int position)))"

definition reorder_file ::
  "('o, 'x) service \<Rightarrow> int \<Rightarrow> string \<Rightarrow> string \<Rightarrow> string \<Rightarrow> reorder_file_request \<Rightarrow> ('o, string) handler" where
  "reorder_file S now collection tenant entry_path_raw body =
     bind_act (act_lift (tenant_address collection tenant)) (\<lambda>p.
     bind_act (act_lift (path_of_kind (flag (ro_allow_prefix_path body)) entry_path_raw)) (\<lambda>entry_path.
     bind_act (act_lift (reorder_position (ro_position body))) (\<lambda>position.
     bind_act (act_lift (guard (position = Unlisted \<or> flag (ro_allow_hidden body) \<or> \<not> is_hidden (snd (split_parent entry_path)))
       (InvalidOperation (''entry is a hidden file; set implicit_allow_hidden_files to give it a position: '' @ entry_path)))) (\<lambda>_.
     bind_act (on_tenant p (reorder_entry (sv_libs S) (snd p) entry_path position (ro_default_index body)
         (flag (ro_allow_hidden body)) (flag (ro_allow_prefix_path body)) (ro_message body)
         (au_name (ro_author body)) (au_email (ro_author body)) (checkout_files S))) (\<lambda>(sha, change).
       announce_if_changed S now p (sha, option_list change))))))"

text \<open>
  \<open>post_file\<close> dispatches on the path's suffix; the body's two readings are \<open>serde_json\<close>'s.
\<close>

definition strip_tail :: "string \<Rightarrow> string \<Rightarrow> string option" where
  "strip_tail tail s =
     (if length tail \<le> length s \<and> drop (length s - length tail) s = tail
      then Some (take (length s - length tail) s) else None)"

definition parse_body :: "string + 'b \<Rightarrow> 'b app_result" where
  "parse_body parsed =
     (case parsed of Inl e \<Rightarrow> Inl (InvalidOperation (''invalid request body: '' @ e)) | Inr body \<Rightarrow> Inr body)"

definition post_file ::
  "('o, 'x) service \<Rightarrow> int \<Rightarrow> string \<Rightarrow> string \<Rightarrow> string \<Rightarrow> string + move_file_request \<Rightarrow>
     string + reorder_file_request \<Rightarrow> ('o, string) handler" where
  "post_file S now collection tenant raw_path as_move as_reorder =
     (case strip_tail ''/move'' raw_path of
        Some from_path \<Rightarrow>
          bind_act (act_lift (parse_body as_move)) (move_file_route S now collection tenant from_path)
      | None \<Rightarrow>
          (case strip_tail ''/reorder'' raw_path of
             Some path \<Rightarrow>
               bind_act (act_lift (parse_body as_reorder)) (reorder_file S now collection tenant path)
           | None \<Rightarrow> act_err (InvalidPath ''POST on a file path must end with /move or /reorder'')))"

section \<open>Orders\<close>

record write_order_request =
  wo_author :: author_request
  wo_order :: "string list"
  wo_allow_hidden :: "bool option"
  wo_message :: "string option"

record plain_request =
  pr_author :: author_request
  pr_message :: "string option"

definition write_order_route ::
  "('o, 'x) service \<Rightarrow> int \<Rightarrow> string \<Rightarrow> string \<Rightarrow> string \<Rightarrow> write_order_request \<Rightarrow> ('o, string) handler" where
  "write_order_route S now collection tenant raw_directory body =
     bind_act (act_lift (tenant_address collection tenant)) (\<lambda>p.
     bind_act (act_lift (folder_path raw_directory)) (\<lambda>directory.
     bind_act (act_lift (validate_order (wo_order body) (flag (wo_allow_hidden body)))) (\<lambda>_.
     bind_act (on_tenant p (write_order (sv_libs S) (snd p) directory (wo_order body) (wo_message body)
         (au_name (wo_author body)) (au_email (wo_author body)) (checkout_files S))) (\<lambda>(sha, change).
       announce_if_changed S now p (sha, option_list change)))))"

definition delete_order_route ::
  "('o, 'x) service \<Rightarrow> int \<Rightarrow> string \<Rightarrow> string \<Rightarrow> string \<Rightarrow> plain_request \<Rightarrow> ('o, string) handler" where
  "delete_order_route S now collection tenant raw_directory body =
     bind_act (act_lift (tenant_address collection tenant)) (\<lambda>p.
     bind_act (act_lift (folder_path raw_directory)) (\<lambda>directory.
     bind_act (on_tenant p (delete_order (sv_libs S) (snd p) directory (pr_message body)
         (au_name (pr_author body)) (au_email (pr_author body)) (checkout_files S))) (\<lambda>(sha, change).
     bind_act (announced S now p sha [change]) (\<lambda>_. act_ok sha))))"

section \<open>Commits\<close>

definition revert_commit_route ::
  "('o, 'x) service \<Rightarrow> int \<Rightarrow> string \<Rightarrow> string \<Rightarrow> string \<Rightarrow> plain_request \<Rightarrow> ('o, string) handler" where
  "revert_commit_route S now collection tenant raw_sha body =
     bind_act (act_lift (tenant_address collection tenant)) (\<lambda>p.
     bind_act (act_lift (commit_sha raw_sha)) (\<lambda>sha.
     bind_act (on_tenant p (revert_commit (sv_libs S) (sv_commits S) (snd p) sha (pr_message body)
         (au_name (pr_author body)) (au_email (pr_author body)) (checkout_files S))) (\<lambda>(new_sha, changes).
     bind_act (announced S now p new_sha changes) (\<lambda>_. act_ok new_sha))))"

definition rollback_commit_route ::
  "('o, 'x) service \<Rightarrow> int \<Rightarrow> string \<Rightarrow> string \<Rightarrow> string \<Rightarrow> plain_request \<Rightarrow> ('o, string) handler" where
  "rollback_commit_route S now collection tenant raw_sha body =
     bind_act (act_lift (tenant_address collection tenant)) (\<lambda>p.
     bind_act (act_lift (commit_sha raw_sha)) (\<lambda>sha.
     bind_act (on_tenant p (rollback_commit (sv_libs S) (sv_commits S) (snd p) sha (pr_message body)
         (au_name (pr_author body)) (au_email (pr_author body)) (checkout_files S)))
       (announce_if_changed S now p)))"

section \<open>The write routes\<close>

text \<open>One request of each, on the tenant its URL names.\<close>

datatype write_request =
    PutFile string write_file_request
  | DeletePath string delete_file_request
  | PostPath string "string + move_file_request" "string + reorder_file_request"
  | PutOrder string write_order_request
  | DropOrder string plain_request
  | Revert string plain_request
  | Rollback string plain_request

fun handle_write ::
  "('o, 'x) service \<Rightarrow> int \<Rightarrow> string \<Rightarrow> string \<Rightarrow> write_request \<Rightarrow> ('o, string) handler" where
  "handle_write S now c t (PutFile path body) = put_file S now c t path body"
| "handle_write S now c t (DeletePath path body) = delete_file_route S now c t path body"
| "handle_write S now c t (PostPath path as_move as_reorder) = post_file S now c t path as_move as_reorder"
| "handle_write S now c t (PutOrder directory body) = write_order_route S now c t directory body"
| "handle_write S now c t (DropOrder directory body) = delete_order_route S now c t directory body"
| "handle_write S now c t (Revert sha body) = revert_commit_route S now c t sha body"
| "handle_write S now c t (Rollback sha body) = rollback_commit_route S now c t sha body"

section \<open>Tenants\<close>

definition announce_deletion :: "('o, 'x) service \<Rightarrow> place \<Rightarrow> 'o app_state \<Rightarrow> 'o app_state" where
  "announce_deletion S p st =
     (let node = (as_node st)\<lparr>fo_maintenance := fo_maintenance (as_node st) @ [CancelMaintenance (lock_key p)]\<rparr>
      in st\<lparr>as_node := repository_deleted (cf_replication (sv_config S) \<noteq> None) (fst p) (snd p) node\<rparr>)"

text \<open>Answers the tenant's id.\<close>

definition delete_tenant :: "('o, 'x) service \<Rightarrow> string \<Rightarrow> string \<Rightarrow> ('o, string) handler" where
  "delete_tenant S collection tenant =
     bind_act (act_lift (tenant_address collection tenant)) (\<lambda>p.
     bind_act (with_store (delete_repo (sv_os S) p (snd p))) (\<lambda>_.
     bind_act (\<lambda>st. (Inr (), announce_deletion S p st)) (\<lambda>_. act_ok (snd p))))"

end
