(* ===== verification/Git_Reports.thy ===== *)
theory Git_Reports
  imports Git_History
begin

text \<open>
  What a mutating operation answers about HEAD: when it reports changes, HEAD has moved to a commit
  on top of the HEAD before, and the answered sha is that commit's; when it reports none, or
  fails, HEAD is where it was. \<open>silent\<close> tells which reports a handler takes for no change.
\<close>

definition moved_head :: "('o repo \<Rightarrow> bool) \<Rightarrow> 'o libs \<Rightarrow> 'o disk \<Rightarrow> string \<Rightarrow> 'o disk \<Rightarrow> bool" where
  "moved_head I L d sha d' \<longleftrightarrow>
     (\<exists>r h r' oid cm. dk_git d = Some r \<and> r_head r = Inr h \<and>
        dk_git d' = Some r' \<and> I r' \<and> extends r r' \<and> r_head r' = Inr oid \<and>
        sha = g_oid_string L oid \<and> r_commits r' oid = Some cm \<and> c_parents cm = [h])"

definition reported ::
  "('o repo \<Rightarrow> bool) \<Rightarrow> 'o libs \<Rightarrow> ('c \<Rightarrow> bool) \<Rightarrow> 'o disk \<Rightarrow> app_error + string \<times> 'c \<Rightarrow> 'o disk \<Rightarrow> bool" where
  "reported I L silent d x d' \<longleftrightarrow>
     (case x of
        Inl _ \<Rightarrow> grows I d d'
      | Inr (sha, c) \<Rightarrow> if silent c then grows I d d' else dk_exists d' = dk_exists d \<and> moved_head I L d sha d')"

definition reports ::
  "('o repo \<Rightarrow> bool) \<Rightarrow> 'o libs \<Rightarrow> ('c \<Rightarrow> bool) \<Rightarrow> ('o, string \<times> 'c) git_action \<Rightarrow> bool" where
  "reports I L silent m \<longleftrightarrow>
     (\<forall>d r x d'. dk_git d = Some r \<and> I r \<and> m d = (x, d') \<longrightarrow> reported I L silent d x d')"

text \<open>The same, inside an opened repository \<open>r\<close>: what runs before the commit leaves HEAD alone.\<close>

definition reports_in ::
  "('o repo \<Rightarrow> bool) \<Rightarrow> 'o libs \<Rightarrow> ('c \<Rightarrow> bool) \<Rightarrow> 'o repo \<Rightarrow> ('o, string \<times> 'c) git_action \<Rightarrow> bool" where
  "reports_in I L silent r m \<longleftrightarrow>
     (\<forall>d q x d'. dk_git d = Some q \<and> I q \<and> r_head q = r_head r \<and> m d = (x, d') \<longrightarrow> reported I L silent d x d')"

lemma reportsD:
  "reports I L silent m \<Longrightarrow> dk_git d = Some r \<Longrightarrow> I r \<Longrightarrow> m d = (x, d') \<Longrightarrow> reported I L silent d x d'"
  by (simp add: reports_def)

lemma reports_inD:
  "reports_in I L silent r m \<Longrightarrow> dk_git d = Some q \<Longrightarrow> I q \<Longrightarrow> r_head q = r_head r \<Longrightarrow> m d = (x, d') \<Longrightarrow>
     reported I L silent d x d'"
  by (simp add: reports_in_def)

lemma reported_grows:
  assumes g: "grows I d e" and r: "dk_git d = Some r" "I r" and rep: "reported I L silent e x d'"
  shows "reported I L silent d x d'"
proof -
  obtain q where q: "dk_git e = Some q" "extends r q" "r_head q = r_head r"
    using g r by (auto simp: grows_def)
  have "moved_head I L d sha d'" if "moved_head I L e sha d'" for sha
  proof -
    from that q obtain h r' oid cm where m: "r_head r = Inr h" "dk_git d' = Some r'" "I r'" "extends q r'"
      "r_head r' = Inr oid" "sha = g_oid_string L oid" "r_commits r' oid = Some cm" "c_parents cm = [h]"
      by (auto simp: moved_head_def)
    have "extends r r'" using q(2) m(4) by (rule extends_trans)
    with r m show ?thesis unfolding moved_head_def by blast
  qed
  moreover have "grows I d d'" if "grows I e d'" using transpD [OF grows_trans g that] .
  moreover have "dk_exists e = dk_exists d" using g by (simp add: grows_def)
  ultimately show ?thesis using rep by (auto simp: reported_def split: sum.splits prod.splits if_splits)
qed

lemma reports_bind_of:
  assumes m: "keeps (grows I) m" and k: "\<And>d a d'. m d = (Inr a, d') \<Longrightarrow> reports_in I L silent r (k a)"
  shows "reports_in I L silent r (bind_act m k)"
  unfolding reports_in_def
proof (intro allI impI, elim conjE)
  fix d q x d' assume q: "dk_git d = Some q" "I q" "r_head q = r_head r" and run: "bind_act m k d = (x, d')"
  obtain y e where e: "m d = (y, e)" by fastforce
  have g: "grows I d e" by (rule keepsD [OF m e])
  show "reported I L silent d x d'"
  proof (cases y)
    case (Inl err)
    with run e g show ?thesis by (auto simp: bind_act_def reported_def)
  next
    case (Inr a)
    obtain r' where r': "dk_git e = Some r'" "I r'" "r_head r' = r_head r" using g q by (auto simp: grows_def)
    have "k a e = (x, d')" using run e Inr by (simp add: bind_act_def)
    then have "reported I L silent e x d'" by (rule reports_inD [OF k [OF e [unfolded Inr]] r'])
    then show ?thesis by (rule reported_grows [OF g q(1,2)])
  qed
qed

lemmas reports_bind = reports_bind_of [where k = k for k]

lemma reports_lift:
  "(\<And>a. y = Inr a \<Longrightarrow> reports_in I L silent r (k a)) \<Longrightarrow> reports_in I L silent r (bind_act (act_lift y) k)"
  using reflpD [OF grows_refl]
  by (cases y) (auto simp: reports_in_def bind_act_def reported_def)

lemma reports_error: "reports I L silent (act_err e)" "reports_in I L silent r (act_err e)"
  using grows_refl by (auto simp: reports_def reports_in_def reported_def dest: reflpD)

lemma reports_nothing: "silent c \<Longrightarrow> reports_in I L silent r (act_ok (sha, c))"
  using grows_refl by (auto simp: reports_in_def reported_def dest: reflpD)

lemma reports_opened:
  assumes L: "git2_ok L I" and body: "\<And>r. reports_in I L silent r (body r)"
  shows "reports I L silent (bind_act (opened L tenant) body)"
  unfolding reports_def
proof (intro allI impI, elim conjE)
  fix d r x d' assume r: "dk_git d = Some r" "I r" and run: "bind_act (opened L tenant) body d = (x, d')"
  show "reported I L silent d x d'"
  proof (cases "open_tenant_repo L tenant d")
    case (Inl e)
    with run reflpD [OF grows_refl] show ?thesis by (auto simp: bind_act_def opened_def reported_def)
  next
    case (Inr q)
    then have "q = r" using open_tenant_git [OF L Inr] r(1) by simp
    with run Inr have "body r d = (x, d')" by (simp add: bind_act_def opened_def)
    with reports_inD [OF body r] show ?thesis by blast
  qed
qed

lemma reports_commit:
  assumes L: "git2_ok L I" and c: "\<not> silent c" and h: "r_head r = Inr h"
  shows "reports_in I L silent r (bind_act (commit_updates L h tree us m an ae) (\<lambda>oid. act_ok (g_oid_string L oid, c)))"
  unfolding reports_in_def
proof (intro allI impI, elim conjE)
  fix d q x d'
  assume q: "dk_git d = Some q" "I q" "r_head q = r_head r"
    and run: "bind_act (commit_updates L h tree us m an ae) (\<lambda>oid. act_ok (g_oid_string L oid, c)) d = (x, d')"
  obtain y e where cu: "commit_updates L h tree us m an ae d = (y, e)" by fastforce
  show "reported I L silent d x d'"
  proof (cases y)
    case (Inl err)
    with run cu have "bind_act (commit_updates L h tree us m an ae) (\<lambda>oid. act_ok (g_oid_string L oid, c)) d = (Inl err, d')"
      "x = Inl err" by (auto simp: bind_act_def)
    with failsD [OF fails_commit [OF L]] show ?thesis by (simp add: reported_def)
  next
    case (Inr oid)
    with cu q(1) obtain t1 r1 sg r2 where *: "g_create_updated L tree us q = Inr (t1, r1)" "r_trees r1 t1 \<noteq> None"
      "g_commit L sg m t1 [h] r1 = Inr (oid, r2)" "e = d\<lparr>dk_git := Some r2\<rparr>"
      by (cases rule: commit_updates_cases) auto
    note r1 = create_updated_rule(1-3) [OF L q(2) *(1)]
    note r2 = commit_rule [OF L r1(1) *(2,3)]
    have "moved_head I L d (g_oid_string L oid) e"
      using q h * r1 r2 by (auto simp: moved_head_def intro: extends_trans)
    with run cu Inr *(4) c show ?thesis by (auto simp: bind_act_def reported_def)
  qed
qed

lemma head_tree_head: "head_tree r = Inr (h, t) \<Longrightarrow> r_head r = Inr h"
  by (simp add: head_tree_Inr)

section \<open>The operations\<close>

text \<open>Everything before the commit only grows the object database.\<close>

lemmas reports_before = reports_lift reports_bind [OF grows_wt_write] reports_bind [OF grows_wt_remove_file]
  reports_bind [OF grows_wt_remove_directory] reports_bind [OF grows_odb_read]

lemmas reports_upkeep = reports_bind [OF grows_g_blob] reports_bind [OF grows_stage_entries(1)]
  reports_bind [OF grows_stage_entries(2)] reports_bind [OF grows_stage_entries(3)]
  reports_bind [OF grows_stage_move_upkeep] reports_bind [OF grows_stage_index]
  reports_bind_of [OF grows_stage_moved_blobs]

lemma stage_moved_blobs_reports:
  "stage_moved_blobs L r t f p co bs d = (Inr ([], us), d') \<Longrightarrow> bs = []"
  by (cases bs) (auto simp: Let_def bind_act_eq_Inr)

lemma reports_writes:
  assumes L: "git2_ok L I"
  shows "reports I L (\<lambda>c. c = []) (delete_file L tenant p m an ae co)"
    and "reports I L (\<lambda>c. c = []) (delete_directory L tenant p m an ae co)"
    and "reports I L (\<lambda>c. c = []) (move_file L tenant p q m an ae co)"
    and "reports I L (\<lambda>c. c = None) (write_order L tenant p es m an ae co)"
    and "reports I L (\<lambda>c. c = None) (reorder_entry L tenant p pos di hid pre m an ae co)"
    and "reports I L (\<lambda>c. False) (delete_order L tenant p m an ae co)"
  unfolding delete_file_def delete_directory_def move_file_def write_order_def reorder_entry_def
    delete_order_def Let_def split_def
  by (auto intro!: reports_error reports_nothing reports_commit [OF L] reports_opened [OF L] reports_before
      reports_upkeep [OF L] dest!: head_tree_head)

lemma reports_move_directory:
  assumes L: "git2_ok L I"
  shows "reports I L (\<lambda>c. c = []) (move_directory L tenant p q m an ae co)"
  unfolding move_directory_def Let_def
  by (auto intro!: reports_error reports_nothing reports_commit [OF L] reports_opened [OF L] reports_before
      reports_upkeep [OF L] dest!: head_tree_head stage_moved_blobs_reports split: prod.splits)

lemma reports_history:
  assumes L: "git2_ok L I"
  shows "reports I L (\<lambda>c. False) (revert_commit L Q tenant sha m an ae co)"
    and "reports I L (\<lambda>c. c = []) (rollback_commit L Q tenant sha m an ae co)"
  unfolding revert_commit_def rollback_commit_def split_def
  by (auto intro!: reports_error reports_nothing reports_commit [OF L] reports_opened [OF L] reports_before
      reports_bind [OF grows_stage_deltas] grows_deltas dest!: head_tree_head)

lemma reports_write_file:
  assumes L: "git2_ok L I"
  shows "reports I L (\<lambda>c. c = None) (write_file L p content m an ae co)"
  unfolding reports_def
proof (intro allI impI, elim conjE)
  fix d r x d' assume r: "dk_git d = Some r" "I r" and run: "write_file L p content m an ae co d = (x, d')"
  let ?rest = "\<lambda>r. bind_act (act_lift (head_tree r)) (\<lambda>(parent, tree).
        bind_act (act_lift
          (case g_get_path L r tree p of
             Some e \<Rightarrow>
               (if te_kind e = Blob then
                  and_then (git_result (g_hash_blob L content)) (\<lambda>incoming_oid.
                    Inr (if te_id e = incoming_oid then None else Some False))
                else Inl (InvalidOperation (''path is a folder: '' @ p)))
           | None \<Rightarrow> Inr (Some True))) (\<lambda>decision.
          (case decision of
             None \<Rightarrow> act_ok (g_oid_string L parent, None)
           | Some is_new_file \<Rightarrow>
               bind_act (wt_write L co p content) (\<lambda>_.
               bind_act (odb_step (g_blob L content)) (\<lambda>blob_oid.
               bind_act (commit_updates L parent tree [Upsert p blob_oid]
                   (message_or m ((if is_new_file then ''create: '' else ''update: '') @ p)) an ae) (\<lambda>commit_oid.
                 act_ok (g_oid_string L commit_oid,
                   Some (if is_new_file then Created p content else Updated p content))))))))"
  have rest: "reports_in I L (\<lambda>c. c = None) r (?rest r)" for r
    unfolding split_def
    by (auto intro!: reports_error reports_nothing reports_commit [OF L] reports_before reports_upkeep [OF L]
        dest!: head_tree_head split: option.split)
  show "reported I L (\<lambda>c. c = None) d x d'"
  proof (cases "is_order_file p \<or> (\<exists>e. g_open L d = Inl e)")
    case True
    then have "\<exists>e. x = Inl e \<and> d' = d"
    proof
      assume "is_order_file p"
      with run show ?thesis by (auto simp: write_file_def)
    next
      assume "\<exists>e. g_open L d = Inl e"
      with run r(1) show ?thesis
        by (cases "is_order_file p")
          (auto simp: write_file_def act_err_def bind_act_def [of "open_or_init_repo L an ae"] open_or_init_existing git_result_def)
    qed
    then show ?thesis by (auto simp: reported_def grows_same_git)
  next
    case False
    then obtain r' where open': "\<not> is_order_file p" "g_open L d = Inr r'" by (cases "g_open L d") auto
    then have "r' = r" using open_rule [OF L] r(1) by fastforce
    with open' run r(1) have "?rest r d = (x, d')"
      by (simp add: write_file_def bind_act_def [of "open_or_init_repo L an ae"] open_or_init_existing git_result_def)
    with reports_inD [OF rest r refl] show ?thesis by blast
  qed
qed

end
