(* ===== verification/Service_Instance.thy ===== *)
theory Service_Instance
  imports Server Git_Instance Git_Diffs Commit_Facts Hook_Facts Index_Facts
begin

text \<open>
  A node to apply the properties of the routes to: the objects of \<open>Git_Instance\<close>, a file system
  that never fails, hooks and replication configured, one tenant.
\<close>

definition sample_sync :: "gobj sync_libs" where
  "sample_sync =
     \<lparr>y_oid = (\<lambda>s. None), y_descendant_of = (\<lambda>r a b. Inr False),
      y_revwalk = (\<lambda>r. None), y_push = (\<lambda>r x. None), y_hide = (\<lambda>r x. None),
      y_insert_walk = (\<lambda>r head hidden. Inr [head]), y_foreach = (\<lambda>r oids. Inr [''PACK'']),
      y_packwriter = (\<lambda>r. None), y_import = (\<lambda>content r. Inr r),
      y_symbolic_target = (\<lambda>r. Inr (Some ''refs/heads/master'')),
      y_reference = (\<lambda>name x r. Inr (r\<lparr>r_head := Inr x\<rparr>)),
      y_write_index = (\<lambda>r t. None), y_checkout_head = (\<lambda>index d. (None, [], dk_work d))\<rparr>"

definition sample_os :: "gobj os" where
  "sample_os = \<lparr>os_mkdir_all = (\<lambda>_. None), os_mkdir = (\<lambda>_. None), os_rename = (\<lambda>_ _. None),
     os_remove_all = (\<lambda>_. None), os_read_root = Some [''acme''], os_is_dir = (\<lambda>_. True),
     os_read_collection = (\<lambda>_. Some [''docs'']), os_unlink = (\<lambda>_. None), os_stat = (\<lambda>_. True)\<rparr>"

definition sample_role :: "replication_role \<Rightarrow> replication_config" where
  "sample_role role =
     \<lparr>rc_role = role, rc_secret = ''shared'', rc_node_id = ''n1'', rc_master_url = None,
      rc_host = None, rc_port = 5356, rc_poll_interval_secs = 60, rc_parallelism = 4,
      rc_reconnect_backoff_ms = 1000, rc_deletion_guard = True\<rparr>"

definition sample_service :: "replication_role \<Rightarrow> (gobj, unit) service" where
  "sample_service role =
     \<lparr>sv_config = sample_config\<lparr>cf_hooks := Some sample_hooks, cf_replication := Some (sample_role role)\<rparr>,
      sv_libs = sample_libs, sv_history = sample_history_libs, sv_commits = sample_commit_libs,
      sv_sync = sample_sync, sv_os = sample_os, sv_identity = tiny_identity,
      sv_lower = (\<lambda>s. s), sv_strings = (\<lambda>s. None), sv_rfc3339 = (\<lambda>s. None), sv_redact = (\<lambda>s. s)\<rparr>"

definition sample_status :: "replication_role \<Rightarrow> bool \<Rightarrow> replica_status" where
  "sample_status role bootstrapped =
     \<lparr>st_is_replica = (role = Replica), st_bootstrapped = bootstrapped, st_stream_connected = False,
      st_last_reconcile_unix = 0, st_pending = 0, st_repositories = 0, st_identity_verified = False,
      st_consecutive_failures = 0, st_last_success_unix = 0,
      st_master_view = \<lparr>mv_node_id = None, mv_replicas = [], mv_observed_at = None,
        mv_last_contact_at = None, mv_last_error = None\<rparr>\<rparr>"

definition sample_state :: "replication_role \<Rightarrow> bool \<Rightarrow> gobj disk \<Rightarrow> gobj app_state" where
  "sample_state role bootstrapped d =
     \<lparr>as_node =
        \<lparr>fo_store = \<lparr>sr_dirs = [(''acme'', ''docs'') \<mapsto> d], sr_locks = (\<lambda>_. None), sr_sequence = 0, sr_seen = []\<rparr>,
         fo_index = new_index, fo_issues = [], fo_status = sample_status role bootstrapped,
         fo_identity = \<lparr>ri_path = IDENTITY_FILE, ri_current = None\<rparr>,
         fo_files = \<lparr>id_file = None, id_temporary = None\<rparr>,
         fo_pending = [], fo_reconcile_requested = False, fo_woken = False, fo_downloads = 0,
         fo_published = [], fo_maintenance = []\<rparr>,
      as_queues = \<lparr>hq_pending = (\<lambda>_. None), hq_effects = (\<lambda>_. [])\<rparr>,
      as_registry = []\<rparr>"

lemma sample_address:
  "tenant_address ''acme'' ''docs'' = Inr (''acme'', ''docs'')" "file_path ''docs/a.md'' = Inr ''docs/a.md''"
  by code_simp+

lemma sample_service_simps [simp]:
  "sv_libs (sample_service role) = sample_libs" "sv_history (sample_service role) = sample_history_libs"
  "sv_sync (sample_service role) = sample_sync" "sv_identity (sample_service role) = tiny_identity"
  "sv_strings (sample_service role) = (\<lambda>s. None)"
  "cf_replication (sv_config (sample_service role)) = Some (sample_role role)"
  "cf_hooks (sv_config (sample_service role)) = Some sample_hooks"
  "lc_batch_read_maximum_files (cf_limits (sv_config (sample_service role))) = 100"
  "sc_api_key (cf_server (sv_config (sample_service role))) = ''key''"
  by (simp_all add: sample_service_def sample_config_def default_limits_def)

lemma demo_disk_there: "dk_git demo_disk \<noteq> None" "dk_exists demo_disk"
  by (simp_all add: demo_disk_def sample_disk_def)

lemma sample_tenant_disk: "tenant_disk (''acme'', ''docs'') (fo_store (as_node (sample_state role b d))) = d"
  by (simp add: tenant_disk_def sample_state_def)

lemma sample_read_tenant:
  "dk_git d \<noteq> None \<Longrightarrow> dk_exists d \<Longrightarrow> read_tenant (''acme'', ''docs'') f (sample_state role b d) = (f d, sample_state role b d)"
  unfolding read_tenant_def sample_tenant_disk
  by (cases "f d")
    (auto simp: run_tenant_read_def run_blocking_def git_exists_def sample_state_def split: app_error.split)

lemmas sample_reads = sample_address sample_read_tenant [OF demo_disk_there]

end
