(* ===== verification/Write_Facts.thy ===== *)
theory Write_Facts
  imports Routes_Write Git_Reports Service_Instance
begin

text \<open>
  What follows a request that changes a repository: a commit is announced, once, under the sha HEAD
  has moved to and with the changes the git operation reported; a request that made none announces
  nothing.
\<close>

section \<open>What a request asks of the store\<close>

text \<open>
  The git operation a request names, run from disk \<open>d\<close> to \<open>d'\<close>, reported these changes under
  this sha, and there were some.
\<close>

inductive performed ::
  "('o, 'x) service \<Rightarrow> string \<Rightarrow> write_request \<Rightarrow> 'o disk \<Rightarrow> string \<Rightarrow> file_change list \<Rightarrow> 'o disk \<Rightarrow> bool"
  for S t
where
  performed_put: "file_path raw = Inr path
    \<Longrightarrow> write_file (sv_libs S) path (wf_content body) (wf_message body) (au_name (wf_author body))
          (au_email (wf_author body)) (checkout_files S) d = (Inr (sha, Some ch), d')
    \<Longrightarrow> performed S t (PutFile raw body) d sha [ch] d'"
| performed_delete: "path_of_kind (flag (df_recurse body)) raw = Inr path \<Longrightarrow> folder \<longrightarrow> flag (df_recurse body)
    \<Longrightarrow> (if folder then delete_directory else delete_file) (sv_libs S) t path (df_message body)
          (au_name (df_author body)) (au_email (df_author body)) (checkout_files S) d = (Inr (sha, chs), d')
    \<Longrightarrow> chs \<noteq> [] \<Longrightarrow> performed S t (DeletePath raw body) d sha chs d'"
| performed_move: "strip_tail ''/move'' raw = Some from_raw
    \<Longrightarrow> path_of_kind (flag (mf_recurse body)) from_raw = Inr from_path
    \<Longrightarrow> path_of_kind (flag (mf_recurse body)) (mf_destination body) = Inr to_path \<Longrightarrow> folder \<longrightarrow> flag (mf_recurse body)
    \<Longrightarrow> (if folder then move_directory else move_file) (sv_libs S) t from_path to_path (mf_message body)
          (au_name (mf_author body)) (au_email (mf_author body)) (checkout_files S) d = (Inr (sha, chs), d')
    \<Longrightarrow> chs \<noteq> [] \<Longrightarrow> performed S t (PostPath raw (Inr body) as_reorder) d sha chs d'"
| performed_reorder: "strip_tail ''/move'' raw = None \<Longrightarrow> strip_tail ''/reorder'' raw = Some entry_raw
    \<Longrightarrow> path_of_kind (flag (ro_allow_prefix_path body)) entry_raw = Inr entry
    \<Longrightarrow> reorder_position (ro_position body) = Inr position
    \<Longrightarrow> reorder_entry (sv_libs S) t entry position (ro_default_index body) (flag (ro_allow_hidden body))
          (flag (ro_allow_prefix_path body)) (ro_message body) (au_name (ro_author body))
          (au_email (ro_author body)) (checkout_files S) d = (Inr (sha, Some ch), d')
    \<Longrightarrow> performed S t (PostPath raw as_move (Inr body)) d sha [ch] d'"
| performed_order: "folder_path raw = Inr directory
    \<Longrightarrow> write_order (sv_libs S) t directory (wo_order wo) (wo_message wo) (au_name (wo_author wo))
          (au_email (wo_author wo)) (checkout_files S) d = (Inr (sha, Some ch), d')
    \<Longrightarrow> performed S t (PutOrder raw wo) d sha [ch] d'"
| performed_drop: "folder_path raw = Inr directory
    \<Longrightarrow> delete_order (sv_libs S) t directory (pr_message pr) (au_name (pr_author pr))
          (au_email (pr_author pr)) (checkout_files S) d = (Inr (sha, ch), d')
    \<Longrightarrow> performed S t (DropOrder raw pr) d sha [ch] d'"
| performed_revert: "commit_sha raw = Inr target
    \<Longrightarrow> revert_commit (sv_libs S) (sv_commits S) t target (pr_message pr) (au_name (pr_author pr))
          (au_email (pr_author pr)) (checkout_files S) d = (Inr (sha, chs), d')
    \<Longrightarrow> performed S t (Revert raw pr) d sha chs d'"
| performed_rollback: "commit_sha raw = Inr target
    \<Longrightarrow> rollback_commit (sv_libs S) (sv_commits S) t target (pr_message pr) (au_name (pr_author pr))
          (au_email (pr_author pr)) (checkout_files S) d = (Inr (sha, chs), d')
    \<Longrightarrow> chs \<noteq> [] \<Longrightarrow> performed S t (Rollback raw pr) d sha chs d'"

section \<open>Handlers on an existing tenant\<close>

type_synonym 'o report = "'o disk \<Rightarrow> string \<Rightarrow> file_change list \<Rightarrow> 'o disk \<Rightarrow> bool"

definition keeps_quiet :: "'o app_state \<Rightarrow> 'o app_state \<Rightarrow> bool" where
  "keeps_quiet st st' \<longleftrightarrow> as_queues st' = as_queues st \<and> as_registry st' = as_registry st \<and>
     (\<exists>store. as_node st' = (as_node st)\<lparr>fo_store := store\<rparr>)"

definition unmoved :: "('o repo \<Rightarrow> bool) \<Rightarrow> place \<Rightarrow> 'o app_state \<Rightarrow> 'o app_state \<Rightarrow> bool" where
  "unmoved I p st st' \<longleftrightarrow>
     grows I (tenant_disk p (fo_store (as_node st))) (tenant_disk p (fo_store (as_node st')))"

definition announces ::
  "('o repo \<Rightarrow> bool) \<Rightarrow> ('o, 'x) service \<Rightarrow> int \<Rightarrow> place \<Rightarrow> 'o report \<Rightarrow> string \<Rightarrow> file_change list \<Rightarrow>
     'o app_state \<Rightarrow> 'o app_state \<Rightarrow> bool" where
  "announces I S now p P sha changes st st' \<longleftrightarrow>
     (let before = tenant_disk p (fo_store (as_node st)); after = tenant_disk p (fo_store (as_node st'))
      in moved_head I (sv_libs S) before sha after \<and> P before sha changes after \<and>
         (\<exists>mid. keeps_quiet st mid \<and> st' = announce_commit S now p sha changes mid))"

definition outcome_told ::
  "('o repo \<Rightarrow> bool) \<Rightarrow> ('o, 'x) service \<Rightarrow> int \<Rightarrow> place \<Rightarrow> 'o report \<Rightarrow> 'o app_state \<Rightarrow> app_error + string \<Rightarrow>
     'o app_state \<Rightarrow> bool" where
  "outcome_told I S now p P st x st' \<longleftrightarrow>
     unmoved I p st st' \<and> keeps_quiet st st' \<or> (\<exists>sha changes. x = Inr sha \<and> announces I S now p P sha changes st st')"

definition there :: "('o repo \<Rightarrow> bool) \<Rightarrow> place \<Rightarrow> 'o app_state \<Rightarrow> bool" where
  "there I p st \<longleftrightarrow> (\<exists>d r. sr_dirs (fo_store (as_node st)) p = Some d \<and> dk_exists d \<and> dk_git d = Some r \<and> I r)"

definition tells ::
  "('o repo \<Rightarrow> bool) \<Rightarrow> ('o, 'x) service \<Rightarrow> int \<Rightarrow> place \<Rightarrow> 'o report \<Rightarrow> ('o, string) handler \<Rightarrow> bool" where
  "tells I S now p P m \<longleftrightarrow> (\<forall>st x st'. there I p st \<and> m st = (x, st') \<longrightarrow> outcome_told I S now p P st x st')"

text \<open>A report of \<open>m\<close> that is not silent is one \<open>P\<close> knows.\<close>

definition reports_as ::
  "'o report \<Rightarrow> ('c \<Rightarrow> bool) \<Rightarrow> ('c \<Rightarrow> file_change list) \<Rightarrow> ('o, string \<times> 'c) git_action \<Rightarrow> bool" where
  "reports_as P silent changes m \<longleftrightarrow>
     (\<forall>d sha c d'. m d = (Inr (sha, c), d') \<and> \<not> silent c \<longrightarrow> P d sha (changes c) d')"

lemma unmoved_refl [simp]: "unmoved I p st st"
  using grows_refl by (auto simp: unmoved_def dest: reflpD)

lemma keeps_quiet_refl [simp]: "keeps_quiet st st"
  by (auto simp: keeps_quiet_def intro: exI [of _ "fo_store (as_node st)"])

lemma tells_lift: "(\<And>a. r = Inr a \<Longrightarrow> tells I S now p P (k a)) \<Longrightarrow> tells I S now p P (bind_act (act_lift r) k)"
  by (cases r) (auto simp: tells_def bind_act_def outcome_told_def)

lemma tells_peek: "(\<And>a. tells I S now p P (k a)) \<Longrightarrow> tells I S now p P (bind_act (peek_tenant p f) k)"
  by (auto simp: tells_def bind_act_def peek_tenant_def outcome_told_def split: sum.splits)

lemma tells_error: "tells I S now p P (act_err e)"
  by (simp add: tells_def outcome_told_def)

lemma tells_operation:
  assumes op: "reports I (sv_libs S) silent m" and as: "reports_as P silent changes m"
    and tail: "\<And>sha c st. (if silent c then k (sha, c) st = (Inr sha, st)
      else k (sha, c) st = (Inr sha, announce_commit S now p sha (changes c) st))"
  shows "tells I S now p P (bind_act (on_tenant p m) k)"
  unfolding tells_def
proof (intro allI impI, elim conjE)
  fix st x st' assume "there I p st" and run: "bind_act (on_tenant p m) k st = (x, st')"
  then obtain d r where d: "sr_dirs (fo_store (as_node st)) p = Some d" "dk_exists d" "dk_git d = Some r" "I r"
    by (auto simp: there_def)
  obtain y e where m: "m d = (y, e)" by fastforce
  let ?mid = "st\<lparr>as_node := (as_node st)\<lparr>fo_store := put_dir p (Some e) (fo_store (as_node st))\<rparr>\<rparr>"
  have rep: "reported I (sv_libs S) silent d y e" by (rule reportsD [OF op d(3,4) m])
  then have "dk_exists e" using d(2) by (auto simp: reported_def grows_def split: sum.splits prod.splits if_splits)
  then have on: "on_tenant p m st = (y, ?mid)"
    by (simp add: on_tenant_def with_store_def at_tenant_def tenant_disk_def d m)
  have disks: "tenant_disk p (fo_store (as_node st)) = d" "tenant_disk p (fo_store (as_node ?mid)) = e"
    by (simp_all add: tenant_disk_def d)
  have quiet: "keeps_quiet st ?mid" by (auto simp: keeps_quiet_def)
  show "outcome_told I S now p P st x st'"
  proof (cases y)
    case (Inl err)
    with run on have "st' = ?mid" by (simp add: bind_act_def)
    with Inl rep quiet disks show ?thesis by (simp add: outcome_told_def unmoved_def reported_def)
  next
    case (Inr v)
    obtain sha c where v: "v = (sha, c)" by (cases v)
    have k: "k (sha, c) ?mid = (x, st')" using run on Inr v by (simp add: bind_act_def)
    show ?thesis
    proof (cases "silent c")
      case True
      with k tail [where c = c and sha = sha and st = ?mid] have "st' = ?mid" by simp
      with True Inr v rep quiet disks show ?thesis by (simp add: outcome_told_def unmoved_def reported_def)
    next
      case False
      with k tail [where c = c and sha = sha and st = ?mid] have x: "x = Inr sha" "st' = announce_commit S now p sha (changes c) ?mid"
        by simp_all
      have "fo_store (as_node st') = fo_store (as_node ?mid)"
        by (simp add: x announce_commit_def repository_updated_def publish_def Let_def)
      then have "tenant_disk p (fo_store (as_node st')) = e" using disks(2) by simp
      moreover have "moved_head I (sv_libs S) d sha e" using False Inr v rep by (simp add: reported_def)
      moreover have "P d sha (changes c) e" using as m False Inr v by (simp add: reports_as_def)
      ultimately show ?thesis
        using x quiet disks(1) unfolding outcome_told_def announces_def Let_def by auto
    qed
  qed
qed

lemma tells_if_changed:
  "reports I (sv_libs S) (\<lambda>c. c = []) m \<Longrightarrow> reports_as P (\<lambda>c. c = []) (\<lambda>c. c) m \<Longrightarrow>
     tells I S now p P (bind_act (on_tenant p m) (announce_if_changed S now p))"
  by (erule tells_operation, assumption) (auto simp: announce_if_changed_def announced_def bind_act_def)

lemma tells_if_some:
  "reports I (sv_libs S) (\<lambda>c. c = None) m \<Longrightarrow> reports_as P (\<lambda>c. c = None) option_list m \<Longrightarrow>
     tells I S now p P (bind_act (on_tenant p m) (\<lambda>(sha, c). announce_if_changed S now p (sha, option_list c)))"
  by (erule tells_operation, assumption)
    (auto simp: announce_if_changed_def announced_def bind_act_def option_list_def split: option.splits)

lemma tells_always:
  "reports I (sv_libs S) (\<lambda>c. False) m \<Longrightarrow> reports_as P (\<lambda>c. False) f m \<Longrightarrow>
     tells I S now p P (bind_act (on_tenant p m) (\<lambda>(sha, c). bind_act (announced S now p sha (f c)) (\<lambda>_. act_ok sha)))"
  by (erule tells_operation, assumption) (auto simp: announced_def bind_act_def)

lemma tells_recurse:
  "(\<And>recurse. recurse \<longrightarrow> allowed \<Longrightarrow> tells I S now p P (k recurse)) \<Longrightarrow>
     tells I S now p P (bind_act (recurse_directory S p allowed path) k)"
  unfolding recurse_directory_def
  by (auto simp: tells_def bind_act_def peek_tenant_def outcome_told_def split: sum.splits)

lemma reports_as_some: "(\<And>d sha ch d'. m d = (Inr (sha, Some ch), d') \<Longrightarrow> P d sha [ch] d') \<Longrightarrow>
  reports_as P (\<lambda>c. c = None) option_list m"
  by (auto simp: reports_as_def option_list_def)

lemma reports_as_changed: "(\<And>d sha chs d'. m d = (Inr (sha, chs), d') \<Longrightarrow> chs \<noteq> [] \<Longrightarrow> P d sha chs d') \<Longrightarrow>
  reports_as P (\<lambda>c. c = []) (\<lambda>c. c) m"
  by (auto simp: reports_as_def)

lemma reports_as_always: "(\<And>d sha c d'. m d = (Inr (sha, c), d') \<Longrightarrow> P d sha (f c) d') \<Longrightarrow>
  reports_as P (\<lambda>c. False) f m"
  by (auto simp: reports_as_def)

lemmas reports_as_rules = reports_as_some reports_as_changed reports_as_always

lemma reports_either:
  assumes L: "git2_ok L I"
  shows "reports I L (\<lambda>c. c = []) ((if folder then delete_directory else delete_file) L t p m an ae co)"
    and "reports I L (\<lambda>c. c = []) ((if folder then move_directory else move_file) L t p q m an ae co)"
  by (simp_all add: reports_writes [OF L] reports_move_directory [OF L])

lemmas reports_all = reports_writes reports_either reports_history reports_write_file

lemma tells_address:
  "tells I S now (c, t) P (k (c, t)) \<Longrightarrow> tells I S now (c, t) P (bind_act (act_lift (tenant_address c t)) k)"
  by (rule tells_lift) (auto dest: tenant_address_same)

lemma tells_changes:
  assumes L: "git2_ok (sv_libs S) I"
  shows "tells I S now (c, t) (performed S t (PutFile raw wfr)) (put_file S now c t raw wfr)"
    and "tells I S now (c, t) (performed S t (DeletePath raw df)) (delete_file_route S now c t raw df)"
    and "strip_tail ''/move'' raw = Some from_raw \<Longrightarrow>
      tells I S now (c, t) (performed S t (PostPath raw (Inr mf) as_reorder)) (move_file_route S now c t from_raw mf)"
    and "strip_tail ''/move'' raw = None \<Longrightarrow> strip_tail ''/reorder'' raw = Some entry_raw \<Longrightarrow>
      tells I S now (c, t) (performed S t (PostPath raw as_move (Inr ro))) (reorder_file S now c t entry_raw ro)"
    and "tells I S now (c, t) (performed S t (PutOrder raw wo)) (write_order_route S now c t raw wo)"
    and "tells I S now (c, t) (performed S t (DropOrder raw pr)) (delete_order_route S now c t raw pr)"
    and "tells I S now (c, t) (performed S t (Revert raw pr)) (revert_commit_route S now c t raw pr)"
    and "tells I S now (c, t) (performed S t (Rollback raw pr)) (rollback_commit_route S now c t raw pr)"
  unfolding put_file_def delete_file_route_def move_file_route_def reorder_file_def write_order_route_def
    delete_order_route_def revert_commit_route_def rollback_commit_route_def Let_def
  by (rule tells_address, (simp only: snd_conv)?,
      intro tells_lift tells_recurse tells_if_changed tells_if_some tells_always reports_as_rules reports_all [OF L],
      rule performed.intros; assumption)+

lemma tells_handle_write:
  assumes L: "git2_ok (sv_libs S) I"
  shows "tells I S now (c, t) (performed S t req) (handle_write S now c t req)"
proof (cases req)
  case (PostPath raw as_move as_reorder)
  then show ?thesis
    by (auto simp: post_file_def parse_body_def intro!: tells_lift tells_error tells_changes [OF L]
        split: option.split sum.splits)
qed (simp_all add: tells_changes [OF L])


definition sample_put :: write_request where
  "sample_put = PutFile ''docs/new.md''
     \<lparr>wf_author = \<lparr>au_name = ''Ann'', au_email = ''a@x''\<rparr>, wf_content = ''hi'', wf_message = None\<rparr>"

lemma sample_put_commits:
  "\<exists>sha d. write_file sample_libs ''docs/new.md'' ''hi'' None ''Ann'' ''a@x'' True demo_disk =
     (Inr (sha, Some (Created ''docs/new.md'' ''hi'')), d)"
proof -
  have "snd (projr (fst (write_file sample_libs ''docs/new.md'' ''hi'' None ''Ann'' ''a@x'' True demo_disk))) =
      Some (Created ''docs/new.md'' ''hi'')"
    and "\<not> isl (fst (write_file sample_libs ''docs/new.md'' ''hi'' None ''Ann'' ''a@x'' True demo_disk))"
    by code_simp+
  then show ?thesis
    by (cases "fst (write_file sample_libs ''docs/new.md'' ''hi'' None ''Ann'' ''a@x'' True demo_disk)")
      (auto simp: prod_eq_iff)
qed

lemma sample_put_told:
  "\<exists>sha st'. handle_write (sample_service Master) 7 ''acme'' ''docs'' sample_put (sample_state Master True demo_disk)
     = (Inr sha, st') \<and> fo_maintenance (as_node st') \<noteq> []"
proof -
  have valid: "file_path ''docs/new.md'' = Inr ''docs/new.md''"
    "file_extension ''docs/new.md'' (Some [''.md'', ''mdx'']) = Inr ()" by code_simp+
  have config: "checkout_files (sample_service Master)"
    "allowed_extensions (sample_service Master) = Some [''.md'', ''mdx'']"
    by (simp_all add: sample_service_def checkout_files_def allowed_extensions_def sample_config_def)
  obtain sha d where w: "write_file sample_libs ''docs/new.md'' ''hi'' None ''Ann'' ''a@x'' True demo_disk =
     (Inr (sha, Some (Created ''docs/new.md'' ''hi'')), d)" using sample_put_commits by blast
  show ?thesis
    by (simp add: sample_put_def put_file_def sample_address valid config bind_act_def on_tenant_def with_store_def at_tenant_def
        sample_tenant_disk w announce_if_changed_def announced_def option_list_def announce_commit_def Let_def)
qed


end
