(* ===== verification/Routes_Read.thy ===== *)
theory Routes_Read
  imports Server
begin

text \<open>
  The handlers that only read: \<open>routes/files.rs\<close> (list, count, read, batch read, existence),
  \<open>routes/order.rs\<close> (read), \<open>routes/commits.rs\<close> (log, detail) and the probes of
  \<open>routes/root.rs\<close> and \<open>routes/health.rs\<close>. A record stands for the JSON object answered. None
  of them takes the tenant's lock.
\<close>

section \<open>Query values\<close>

text \<open>\<open>trim_start().starts_with('[')\<close>: the leading Unicode white space is skipped.\<close>

fun opens_array :: "string \<Rightarrow> bool" where
  "opens_array [] = False"
| "opens_array (c # s) =
     (if c = CHR ''['' then True
      else if is_blank [c] then opens_array s
      else (case s of
          [] \<Rightarrow> False
        | d # s' \<Rightarrow>
            if is_blank [c, d] then opens_array s'
            else (case s' of [] \<Rightarrow> False | e # s'' \<Rightarrow> is_blank [c, d, e] \<and> opens_array s'')))"

definition several :: "(string \<Rightarrow> string list option) \<Rightarrow> string \<Rightarrow> string \<Rightarrow> string list app_result" where
  "several parse_strings malformed raw =
     (if opens_array raw then
        (case parse_strings raw of None \<Rightarrow> Inl (InvalidOperation malformed) | Some vs \<Rightarrow> Inr vs)
      else Inr [raw])"

definition quoted :: "string \<Rightarrow> string" where
  "quoted s = [CHR 0x22] @ s @ [CHR 0x22]"

definition parse_file_name_prefixes :: "(string \<Rightarrow> string list option) \<Rightarrow> string \<Rightarrow> string list app_result" where
  "parse_file_name_prefixes parse_strings raw =
     and_then (several parse_strings
         (''file_name_starts_with must be a string or a JSON array of strings, e.g. ['' @ quoted ''intro'' @ '', '' @ quoted ''readme'' @ '']'')
         raw) (\<lambda>prefixes.
       if prefixes = [] then Inl (InvalidOperation ''file_name_starts_with must contain at least one prefix'')
       else if list_ex (\<lambda>q. q = []) prefixes then Inl (InvalidOperation ''file_name_starts_with must not be empty'')
       else Inr prefixes)"

definition parse_file_paths :: "(string \<Rightarrow> string list option) \<Rightarrow> string \<Rightarrow> string list app_result" where
  "parse_file_paths parse_strings raw =
     and_then (several parse_strings
         (''file_paths must be a string or a JSON array of strings, e.g. ['' @ quoted ''intro.md'' @ '', '' @ quoted ''docs/setup.md'' @ '']'')
         raw) (\<lambda>paths.
       if paths = [] then Inl (InvalidOperation ''file_paths must contain at least one path'')
       else map_results file_or_folder_path paths)"

definition parse_rfc3339 :: "(string \<Rightarrow> int option) \<Rightarrow> string \<Rightarrow> string \<Rightarrow> int app_result" where
  "parse_rfc3339 parse_date raw parameter =
     (case parse_date raw of
        None \<Rightarrow> Inl (InvalidOperation (parameter @ '' must be an RFC 3339 date-time, e.g. 2026-06-16T10:00:00Z''))
      | Some t \<Rightarrow> Inr t)"

text \<open>\<open>Option::map(..).transpose()\<close>.\<close>

definition optionally :: "('a \<Rightarrow> 'b app_result) \<Rightarrow> 'a option \<Rightarrow> 'b option app_result" where
  "optionally f v = (case v of None \<Rightarrow> Inr None | Some a \<Rightarrow> and_then (f a) (\<lambda>b. Inr (Some b)))"

definition parse_date_kind :: "string option \<Rightarrow> date_kind app_result" where
  "parse_date_kind date_type =
     (case date_type of
        None \<Rightarrow> Inr DateUpdated
      | Some t \<Rightarrow>
          if t = ''updated'' then Inr DateUpdated
          else if t = ''created'' then Inr DateCreated
          else Inl (InvalidOperation (''include_date_type must be 'updated' or 'created': '' @ t)))"

definition parse_date_filter ::
  "(string \<Rightarrow> int option) \<Rightarrow> string option \<Rightarrow> string option \<Rightarrow> string option \<Rightarrow> int option \<Rightarrow>
     date_filter option app_result" where
  "parse_date_filter parse_date raw_from raw_to date_type budget =
     and_then (parse_date_kind date_type) (\<lambda>kind.
     and_then (optionally (\<lambda>raw. parse_rfc3339 parse_date raw ''include_date_from'') raw_from) (\<lambda>lower.
     and_then (optionally (\<lambda>raw. parse_rfc3339 parse_date raw ''include_date_to'') raw_to) (\<lambda>upper.
       if lower = None \<and> upper = None then Inr None
       else if lower \<noteq> None \<and> upper \<noteq> None \<and> the lower \<ge> the upper then
         Inl (InvalidOperation ''include_date_from must be strictly before include_date_to'')
       else Inr (Some \<lparr>df_from = lower, df_to = upper, df_kind = kind, df_budget = budget\<rparr>))))"

definition parse_restrict_file_extensions :: "(string \<Rightarrow> string list option) \<Rightarrow> string \<Rightarrow> string list app_result" where
  "parse_restrict_file_extensions parse_strings raw =
     (case parse_strings raw of
        None \<Rightarrow> Inl (InvalidOperation (''restrict_file_extensions must be a JSON array of strings, e.g. [''
          @ quoted ''md'' @ '', '' @ quoted ''mdx'' @ '']''))
      | Some extensions \<Rightarrow>
          if extensions = [] then Inl (InvalidOperation ''restrict_file_extensions must contain at least one extension'')
          else
            (let normalized = map (trim_start CHR ''.'') extensions in
             if list_ex (\<lambda>e. e = []) normalized
             then Inl (InvalidOperation ''restrict_file_extensions extensions must not be empty'')
             else Inr normalized))"

definition DEFAULT_PER_PAGE :: usize where "DEFAULT_PER_PAGE = 100"
definition MAX_PER_PAGE :: usize where "MAX_PER_PAGE = 500"

definition page_of :: "usize option \<Rightarrow> usize" where
  "page_of page = max (case page of None \<Rightarrow> 1 | Some n \<Rightarrow> n) 1"

definition per_page_of :: "usize option \<Rightarrow> usize" where
  "per_page_of per_page = min (max (case per_page of None \<Rightarrow> DEFAULT_PER_PAGE | Some n \<Rightarrow> n) 1) MAX_PER_PAGE"

definition path_prefix_of :: "string option \<Rightarrow> string option app_result" where
  "path_prefix_of raw =
     and_then (optionally folder_path raw) (\<lambda>q. Inr (if q = Some [] then None else q))"

definition maximum_depth_of :: "32 word option \<Rightarrow> nat option app_result" where
  "maximum_depth_of depth =
     (case depth of
        None \<Rightarrow> Inr None
      | Some n \<Rightarrow> if n = 0 then Inl (InvalidOperation ''maximum_depth must be at least 1'') else Inr (Some (unat n)))"

section \<open>Files\<close>

record list_files_query =
  lq_prefix_path :: "string option"
  lq_maximum_depth :: "32 word option"
  lq_include_hidden_files :: "bool option"
  lq_file_name_starts_with :: "string option"
  lq_file_paths :: "string option"
  lq_include_date_from :: "string option"
  lq_include_date_to :: "string option"
  lq_include_date_type :: "string option"
  lq_apply_order_index :: "bool option"
  lq_implicit_order_default_index :: "int option"
  lq_page :: "usize option"
  lq_per_page :: "usize option"

record files_page =
  fp_page :: usize
  fp_per_page :: usize
  fp_has_more :: bool
  fp_partial :: bool
  fp_files :: "tree_node list"

definition date_budget :: "('o, 'x) service \<Rightarrow> int option" where
  "date_budget S =
     (let maximum = lc_date_filter_maximum_ms (cf_limits (sv_config S)) in
      if maximum = 0 then None else Some (int maximum))"

definition list_files_route ::
  "('o, 'x) service \<Rightarrow> string \<Rightarrow> string \<Rightarrow> list_files_query \<Rightarrow> ('o, files_page) handler" where
  "list_files_route S collection tenant query =
     bind_act (act_lift (tenant_address collection tenant)) (\<lambda>p.
     bind_act (act_lift (path_prefix_of (lq_prefix_path query))) (\<lambda>path_prefix.
     bind_act (act_lift (maximum_depth_of (lq_maximum_depth query))) (\<lambda>maximum_depth.
     bind_act (act_lift (optionally (parse_file_name_prefixes (sv_strings S)) (lq_file_name_starts_with query))) (\<lambda>prefixes.
     bind_act (act_lift (guard (lq_file_name_starts_with query = None \<or> lq_file_paths query = None)
       (InvalidOperation ''file_name_starts_with and file_paths must not be combined''))) (\<lambda>_.
     bind_act (act_lift (optionally (parse_file_paths (sv_strings S)) (lq_file_paths query))) (\<lambda>paths.
     bind_act (act_lift (parse_date_filter (sv_rfc3339 S) (lq_include_date_from query) (lq_include_date_to query)
       (lq_include_date_type query) (date_budget S))) (\<lambda>dates.
     (let order = (if (case lq_apply_order_index query of None \<Rightarrow> False | Some b \<Rightarrow> b)
                   then Some \<lparr>implicit_default_index = lq_implicit_order_default_index query\<rparr> else None);
          page = page_of (lq_page query); per_page = per_page_of (lq_per_page query)
      in bind_act (read_tenant p (\<lambda>d. list_files (sv_libs S) (sv_history S) (sv_lower S) d (snd p) path_prefix
             maximum_depth (case lq_include_hidden_files query of None \<Rightarrow> False | Some b \<Rightarrow> b)
             prefixes paths dates order page per_page)) (\<lambda>listing.
           act_ok \<lparr>fp_page = page, fp_per_page = per_page, fp_has_more = has_more listing,
             fp_partial = partial listing, fp_files = nodes listing\<rparr>)))))))))"

record count_files_query =
  cq_prefix_path :: "string option"
  cq_maximum_depth :: "32 word option"
  cq_include_hidden_files :: "bool option"
  cq_restrict_file_extensions :: "string option"

definition count_files_route ::
  "('o, 'x) service \<Rightarrow> string \<Rightarrow> string \<Rightarrow> count_files_query \<Rightarrow> ('o, file_counts) handler" where
  "count_files_route S collection tenant query =
     bind_act (act_lift (tenant_address collection tenant)) (\<lambda>p.
     bind_act (act_lift (path_prefix_of (cq_prefix_path query))) (\<lambda>path_prefix.
     bind_act (act_lift (maximum_depth_of (cq_maximum_depth query))) (\<lambda>maximum_depth.
     bind_act (act_lift (optionally (parse_restrict_file_extensions (sv_strings S)) (cq_restrict_file_extensions query))) (\<lambda>restrict.
       read_tenant p (\<lambda>d. count_files (sv_libs S) d (snd p) path_prefix maximum_depth
         (case cq_include_hidden_files query of None \<Rightarrow> False | Some b \<Rightarrow> b) restrict)))))"

record read_file_answer =
  ra_path :: string
  ra_content :: string
  ra_position :: int

definition read_file_route ::
  "('o, 'x) service \<Rightarrow> string \<Rightarrow> string \<Rightarrow> string \<Rightarrow> seek_options \<Rightarrow> ('o, read_file_answer) handler" where
  "read_file_route S collection tenant raw_path seek =
     bind_act (act_lift (tenant_address collection tenant)) (\<lambda>p.
     bind_act (act_lift (file_path raw_path)) (\<lambda>path.
     bind_act (act_lift (seek_options_parse (sv_strings S) seek)) (\<lambda>window.
     bind_act (read_tenant p (\<lambda>d. read_file (sv_libs S) d (snd p) path window)) (\<lambda>read.
       act_ok \<lparr>ra_path = path, ra_content = fr_content read, ra_position = fr_position read\<rparr>))))"

datatype batch_read_entry = PathEntry string | OptionsEntry string "seek_body option"

fun entry_parts :: "batch_read_entry \<Rightarrow> string \<times> seek_body option" where
  "entry_parts (PathEntry path) = (path, None)"
| "entry_parts (OptionsEntry path seek) = (path, seek)"

record batch_read_request =
  br_files :: "batch_read_entry list"
  br_seek :: "seek_body option"

definition empty_seek_body :: seek_body where
  "empty_seek_body = \<lparr>from_line_starts_with = None, to_line_starts_with = None, body_lines_maximum = None\<rparr>"

definition entry_seek :: "nat \<Rightarrow> seek_filter \<Rightarrow> seek_body option \<Rightarrow> seek_filter app_result" where
  "entry_seek index global seek =
     (case seek of
        None \<Rightarrow> Inr global
      | Some s \<Rightarrow>
          (case seek_body_parse s of
             Inl (InvalidOperation reason) \<Rightarrow> Inl (InvalidOperation (''files['' @ show_nat index @ '']: '' @ reason))
           | outcome \<Rightarrow> outcome))"

fun batch_reads ::
  "seek_filter \<Rightarrow> nat \<Rightarrow> string set \<Rightarrow> batch_read_entry list \<Rightarrow> (string \<times> seek_filter) list app_result" where
  "batch_reads global index seen [] = Inr []"
| "batch_reads global index seen (entry # entries) =
     (case entry_parts entry of (raw_path, seek) \<Rightarrow>
        and_then (file_path raw_path) (\<lambda>path.
        and_then (guard (path \<notin> seen) (InvalidOperation (''files must be unique: '' @ [CHR 0x27] @ path @ [CHR 0x27] @ '' is requested twice''))) (\<lambda>_.
        and_then (entry_seek index global seek) (\<lambda>window.
        and_then (batch_reads global (Suc index) (insert path seen) entries) (\<lambda>rest.
          Inr ((path, window) # rest))))))"

definition batch_read_files_route ::
  "('o, 'x) service \<Rightarrow> string \<Rightarrow> string \<Rightarrow> batch_read_request \<Rightarrow> ('o, (string \<times> string) option list) handler" where
  "batch_read_files_route S collection tenant body =
     (let maximum_files = lc_batch_read_maximum_files (cf_limits (sv_config S)) in
      bind_act (act_lift (tenant_address collection tenant)) (\<lambda>p.
      bind_act (act_lift (guard (br_files body \<noteq> []) (InvalidOperation ''files must contain at least one path''))) (\<lambda>_.
      bind_act (act_lift (guard (length (br_files body) \<le> maximum_files)
        (InvalidOperation (''files must not contain more than '' @ show_nat maximum_files @ '' paths ('' @
          show_nat (length (br_files body)) @ '' requested)'')))) (\<lambda>_.
      bind_act (act_lift (seek_body_parse (case br_seek body of None \<Rightarrow> empty_seek_body | Some s \<Rightarrow> s))) (\<lambda>global.
      bind_act (act_lift (batch_reads global 0 {} (br_files body))) (\<lambda>reads.
      bind_act (read_tenant p (\<lambda>d. batch_read_files (sv_libs S) d (snd p) reads)) (\<lambda>contents.
        act_ok (map (\<lambda>((path, _), content). map_option (\<lambda>c. (path, c)) content) (zip reads contents)))))))))"

definition file_exists_route ::
  "('o, 'x) service \<Rightarrow> string \<Rightarrow> string \<Rightarrow> string \<Rightarrow> bool option \<Rightarrow> ('o, unit) handler" where
  "file_exists_route S collection tenant raw_path check =
     (let check_prefix_path = (case check of None \<Rightarrow> False | Some b \<Rightarrow> b) in
      bind_act (act_lift (tenant_address collection tenant)) (\<lambda>p.
      bind_act (act_lift (if check_prefix_path then file_or_folder_path raw_path else file_path raw_path)) (\<lambda>path.
      bind_act (read_tenant p (\<lambda>d. path_kind (sv_libs S) d (snd p) path)) (\<lambda>kind.
        if kind = FileKind \<or> kind = DirectoryKind \<and> check_prefix_path then act_ok ()
        else act_err (FileNotFound path)))))"

section \<open>Orders and commits\<close>

definition read_order_route ::
  "('o, 'x) service \<Rightarrow> string \<Rightarrow> string \<Rightarrow> string \<Rightarrow> ('o, string \<times> string list) handler" where
  "read_order_route S collection tenant raw_directory =
     bind_act (act_lift (tenant_address collection tenant)) (\<lambda>p.
     bind_act (act_lift (folder_path raw_directory)) (\<lambda>directory.
     bind_act (read_tenant p (\<lambda>d. read_order (sv_libs S) d (snd p) directory)) (\<lambda>order.
       act_ok (directory, order))))"

record list_commits_query =
  kq_page :: "usize option"
  kq_per_page :: "usize option"
  kq_file_path :: "string option"
  kq_include_statistics :: "bool option"

record commits_page =
  cp_page :: usize
  cp_per_page :: usize
  cp_has_more :: bool
  cp_commits :: "commit_summary list"

definition list_commits_route ::
  "('o, 'x) service \<Rightarrow> string \<Rightarrow> string \<Rightarrow> list_commits_query \<Rightarrow> ('o, commits_page) handler" where
  "list_commits_route S collection tenant query =
     (let page = page_of (kq_page query); per_page = per_page_of (kq_per_page query) in
      bind_act (act_lift (tenant_address collection tenant)) (\<lambda>p.
      bind_act (act_lift (optionally file_path (kq_file_path query))) (\<lambda>path.
      bind_act (read_tenant p (\<lambda>d. list_commits (sv_libs S) (sv_history S) (sv_commits S) d (snd p) page per_page path
          (case kq_include_statistics query of None \<Rightarrow> False | Some b \<Rightarrow> b))) (\<lambda>(commits, more).
        act_ok \<lparr>cp_page = page, cp_per_page = per_page, cp_has_more = more, cp_commits = commits\<rparr>))))"

definition get_commit_route ::
  "('o, 'x) service \<Rightarrow> string \<Rightarrow> string \<Rightarrow> string \<Rightarrow> ('o, commit_detail) handler" where
  "get_commit_route S collection tenant raw_sha =
     bind_act (act_lift (tenant_address collection tenant)) (\<lambda>p.
     bind_act (act_lift (commit_sha raw_sha)) (\<lambda>sha.
       read_tenant p (\<lambda>d. get_commit (sv_libs S) (sv_history S) (sv_commits S) d (snd p) sha)))"

section \<open>Probes\<close>

text \<open>The fields that change; the build's name and version are constants of the package.\<close>

record replica_ping =
  rq_state :: string
  rq_stream_connected :: bool
  rq_last_reconcile_at :: "int option"
  rq_pending :: nat
  rq_sync :: string

definition ping :: "'o app_state \<Rightarrow> replica_ping option" where
  "ping st =
     (let status = fo_status (as_node st) in
      if \<not> st_is_replica status then None
      else Some \<lparr>rq_state = (if st_bootstrapped status then ''ready'' else ''bootstrapping''),
        rq_stream_connected = st_stream_connected status, rq_last_reconcile_at = last_reconcile status,
        rq_pending = st_pending status, rq_sync = sync_as_str (sync_status_of (fo_issues (as_node st)) status)\<rparr>)"

record status_answer =
  sa_status :: string
  sa_role :: string
  sa_writable :: bool
  sa_started_at :: int
  sa_uptime_secs :: int

definition health_status :: "('o, 'x) service \<Rightarrow> int \<Rightarrow> int \<Rightarrow> 'o app_state \<Rightarrow> status_answer" where
  "health_status S started_at now st =
     (let status = fo_status (as_node st) in
      \<lparr>sa_status = (if st_is_replica status \<and> \<not> st_bootstrapped status then ''bootstrapping'' else ''healthy''),
       sa_role = (case cf_replication (sv_config S) of
           None \<Rightarrow> ''standalone''
         | Some r \<Rightarrow> if is_replica r then ''replica'' else ''master''),
       sa_writable = (\<not> st_is_replica status),
       sa_started_at = started_at,
       sa_uptime_secs = max (now - started_at) 0\<rparr>)"

end
