(* ===== verification/Read_Facts.thy ===== *)
theory Read_Facts
  imports Routes_Read Service_Instance
begin

text \<open>
  What the read handlers answer: they leave the node as it was, and a slot of a batch read is
  what the single read answers for its path.
\<close>

section \<open>Reads change nothing\<close>

definition inert :: "('o, 'a) handler \<Rightarrow> bool" where
  "inert m \<longleftrightarrow> (\<forall>st. snd (m st) = st)"

lemma inertD: "inert m \<Longrightarrow> m st = (x, st') \<Longrightarrow> st' = st"
  by (metis inert_def snd_conv)

lemma inert_intros:
  "inert (act_ok a)" "inert (act_err e)" "inert (act_lift r)" "inert (read_tenant p f)"
  "inert m \<Longrightarrow> (\<And>a. inert (k a)) \<Longrightarrow> inert (bind_act m k)"
  "inert m \<Longrightarrow> inert m' \<Longrightarrow> inert (if b then m else m')"
  by (auto simp: inert_def read_tenant_def bind_act_def split: prod.splits sum.splits) (metis snd_conv)+

lemma inert_routes:
  "inert (list_files_route S c t lq)" "inert (count_files_route S c t cq)" "inert (read_file_route S c t path seek)"
  "inert (batch_read_files_route S c t br)" "inert (file_exists_route S c t path check)"
  "inert (read_order_route S c t path)" "inert (list_commits_route S c t kq)" "inert (get_commit_route S c t sha)"
  unfolding list_files_route_def count_files_route_def read_file_route_def batch_read_files_route_def
    file_exists_route_def read_order_route_def list_commits_route_def get_commit_route_def Let_def split_def
  by (intro inert_intros)+

section \<open>Batch reads\<close>

lemma batch_reads_entries:
  "batch_reads global k seen entries = Inr reads \<Longrightarrow>
     length reads = length entries \<and> distinct (map fst reads) \<and> fst ` set reads \<inter> seen = {} \<and>
     (\<forall>i < length entries.
        file_path (fst (entry_parts (entries ! i))) = Inr (fst (reads ! i)) \<and>
        entry_seek (k + i) global (snd (entry_parts (entries ! i))) = Inr (snd (reads ! i)))"
proof (induction entries arbitrary: k seen reads)
  case (Cons entry entries)
  obtain path window rest where rest: "batch_reads global (Suc k) (insert path seen) entries = Inr rest"
    and reads: "reads = (path, window) # rest"
    and first: "file_path (fst (entry_parts entry)) = Inr path" "path \<notin> seen"
      "entry_seek k global (snd (entry_parts entry)) = Inr window"
    using Cons.prems by (auto simp: and_then_eq_Inr split: prod.splits)
  note IH = Cons.IH [OF rest]
  have "file_path (fst (entry_parts ((entry # entries) ! i))) = Inr (fst (reads ! i)) \<and>
      entry_seek (k + i) global (snd (entry_parts ((entry # entries) ! i))) = Inr (snd (reads ! i))"
    if "i < length (entry # entries)" for i
    using that IH first by (cases i) (auto simp: reads)
  with IH first show ?case by (auto simp: reads)
qed simp

lemma run_tenant_read_Inr: "run_tenant_read g t (Inr r) = Inr a \<longleftrightarrow> r = Inr a"
  by (auto simp: run_tenant_read_def run_blocking_def split: sum.splits app_error.splits if_splits)

lemma batch_slot:
  assumes "batch_read_files L d t reads = Inr contents" and i: "i < length reads" "reads ! i = (path, w)"
  shows "read_file L d t path w =
      (case contents ! i of None \<Rightarrow> Inl (FileNotFound path)
       | Some c \<Rightarrow> Inr \<lparr>fr_content = c, fr_position =
           (let (directory, name) = split_parent path; r = projr (open_tenant_repo L t d)
            in entry_position L r (snd (projr (head_tree r))) directory name)\<rparr>)"
proof -
  let ?one = "\<lambda>r tree (file_path, seek). if is_order_file file_path then Inr None
         else (case blob_oid_in_tree L r tree file_path of
             None \<Rightarrow> Inr None
           | Some blob_oid \<Rightarrow>
               and_then (windowed_blob_content L r blob_oid file_path seek) (\<lambda>c. Inr (Some c)))"
  obtain r h tree where o: "open_tenant_repo L t d = Inr r" "head_tree r = Inr (h, tree)"
    and all: "map_results (?one r tree) reads = Inr contents"
    using assms(1) unfolding batch_read_files_def by (auto simp: and_then_eq_Inr)
  have "?one r tree (path, w) = Inr (contents ! i)" using map_results_Inr_nth [OF all i(1)] i(2) by simp
  then show ?thesis
    using o by (auto simp: read_file_def and_then_eq_Inr Let_def split: if_splits option.splits prod.splits)
qed

text \<open>
  C34: a batch read answers one slot per entry, in the order of the request. A slot is null exactly
  when the single read of its path, with the window the entry has in the batch, answers that the
  file was not found, and else holds that read's path and content; no path takes two slots.
\<close>

theorem batch_agrees_with_single:
  assumes run: "batch_read_files_route S c t body st = (Inr slots, st')"
    and global: "seek_body_parse (case br_seek body of None \<Rightarrow> empty_seek_body | Some s \<Rightarrow> s) = Inr global"
    and i: "i < length (br_files body)"
    and window: "entry_seek i global (snd (entry_parts (br_files body ! i))) = Inr w"
    and query: "seek_options_parse (sv_strings S) seek = Inr w"
  shows "st' = st \<and> length slots = length (br_files body) \<and>
    (\<exists>path. file_path (fst (entry_parts (br_files body ! i))) = Inr path \<and>
       (case fst (read_file_route S c t (fst (entry_parts (br_files body ! i))) seek st) of
          Inr a \<Rightarrow> slots ! i = Some (path, ra_content a) \<and> ra_path a = path
        | Inl e \<Rightarrow> slots ! i = None \<and> e = FileNotFound path)) \<and>
    distinct (map (file_path \<circ> fst \<circ> entry_parts) (br_files body))"
proof -
  obtain p reads contents where p: "tenant_address c t = Inr p"
    and reads: "batch_reads global 0 {} (br_files body) = Inr reads"
    and contents: "read_tenant p (\<lambda>d. batch_read_files (sv_libs S) d (snd p) reads) st = (Inr contents, st)"
    and slots: "slots = map (\<lambda>((path, _), content). map_option (\<lambda>c. (path, c)) content) (zip reads contents)" "st' = st"
    using run global by (auto simp: batch_read_files_route_def Let_def bind_act_eq_Inr read_tenant_def)
  let ?d = "tenant_disk p (fo_store (as_node st))"
  let ?raw = "fst (entry_parts (br_files body ! i))"
  note entries = batch_reads_entries [OF reads]
  then have len: "length reads = length (br_files body)" by blast
  have path: "file_path ?raw = Inr (fst (reads ! i))" and w: "snd (reads ! i) = w"
    using entries i window by auto
  have batch: "batch_read_files (sv_libs S) ?d (snd p) reads = Inr contents"
    using contents by (simp add: read_tenant_def run_tenant_read_Inr)
  then have len': "length contents = length reads"
    by (auto simp: batch_read_files_def and_then_eq_Inr dest: map_results_Inr_length)
  have one: "reads ! i = (fst (reads ! i), w)" using w by (metis prod.collapse)
  note single = batch_slot [OF batch _ one, unfolded len, OF i]
  have slot: "slots ! i = map_option (\<lambda>c. (fst (reads ! i), c)) (contents ! i)"
    using i len len' by (simp add: slots split_def)
  have "case fst (read_file_route S c t ?raw seek st) of
       Inr a \<Rightarrow> slots ! i = Some (fst (reads ! i), ra_content a) \<and> ra_path a = fst (reads ! i)
     | Inl e \<Rightarrow> slots ! i = None \<and> e = FileNotFound (fst (reads ! i))"
    by (simp add: read_file_route_def p path query read_tenant_def single slot bind_act_def
        run_tenant_read_def run_blocking_def split: option.split)
  moreover have "map (file_path \<circ> fst \<circ> entry_parts) (br_files body) = map Inr (map fst reads)"
    using entries by (auto intro!: nth_equalityI)
  then have "distinct (map (file_path \<circ> fst \<circ> entry_parts) (br_files body))"
    using entries by (simp add: distinct_map comp_inj_on_iff [symmetric])
  ultimately show ?thesis using path len len' by (simp add: slots)
qed

definition sample_batch :: batch_read_request where
  "sample_batch = \<lparr>br_files = [PathEntry ''docs/a.md'', OptionsEntry ''/docs/none.md'' None], br_seek = None\<rparr>"

definition no_seek :: seek_options where
  "no_seek = \<lparr>seek_from_line_starts_with = None, seek_to_line_starts_with = None, seek_lines_maximum = None\<rparr>"

theorem batch_agrees_with_single_witness:
  "\<exists>slots. fst (batch_read_files_route (sample_service Master) ''acme'' ''docs'' sample_batch (sample_state Master True demo_disk)) = Inr slots \<and>
     slots ! 0 = Some (''docs/a.md'', ''one'')"
proof -
  let ?st = "sample_state Master True demo_disk"
  let ?run = "batch_read_files_route (sample_service Master) ''acme'' ''docs'' sample_batch ?st"
  let ?w = "\<lparr>from_prefixes = None, to_prefixes = None, lines_maximum = None\<rparr>"
  have global: "seek_body_parse (case br_seek sample_batch of None \<Rightarrow> empty_seek_body | Some s \<Rightarrow> s) = Inr ?w"
    and reads: "batch_reads ?w 0 {} (br_files sample_batch) = Inr [(''docs/a.md'', ?w), (''docs/none.md'', ?w)]"
    and files: "batch_read_files sample_libs demo_disk ''docs'' [(''docs/a.md'', ?w), (''docs/none.md'', ?w)] = Inr [Some ''one'', None]"
    and ok: "0 < length (br_files sample_batch)" "entry_seek 0 ?w (snd (entry_parts (br_files sample_batch ! 0))) = Inr ?w"
    and query: "seek_options_parse (\<lambda>s. None) no_seek = Inr ?w"
    and raw: "fst (entry_parts (br_files sample_batch ! 0)) = ''docs/a.md''" "length (br_files sample_batch) = 2"
    and one: "map_sum (\<lambda>e. ()) fr_content (read_file sample_libs demo_disk ''docs'' ''docs/a.md'' ?w) = Inr ''one''"
    by code_simp+
  obtain slots where run: "?run = (Inr slots, ?st)"
    using raw ok(1) length_greater_0_conv [of "br_files sample_batch"] by (simp add: batch_read_files_route_def sample_reads global reads files guard_def)
  have "seek_options_parse (sv_strings (sample_service Master)) no_seek = Inr ?w"
    using query by (simp add: sample_reads)
  note slot = batch_agrees_with_single [OF run global ok this, unfolded raw, simplified sample_address]
  have "map_sum (\<lambda>e. ()) ra_content (fst (read_file_route (sample_service Master) ''acme'' ''docs'' ''docs/a.md'' no_seek ?st)) = Inr ''one''"
    using one by (cases "read_file sample_libs demo_disk ''docs'' ''docs/a.md'' ?w")
      (simp_all add: read_file_route_def sample_reads query bind_act_def)
  with slot run show ?thesis by (auto split: sum.splits)
qed

end
