(* ===== verification/Routes_Replay.thy ===== *)
theory Routes_Replay
  imports Server Traverse
begin

text \<open>
  \<open>routes/replay.rs\<close>: the caller sends the paths it holds, and the side of their intersection
  with HEAD that the direction asks for is enqueued, with every stored order in scope. The
  tenant's lock is held from the snapshot to the enqueue.
\<close>

definition MAX_DELAY_MS :: nat where "MAX_DELAY_MS = 60000"

datatype replay_direction = DirectionDelete | DirectionCreate

fun keeps_present :: "replay_direction \<Rightarrow> bool" where
  "keeps_present DirectionDelete = False"
| "keeps_present DirectionCreate = True"

fun direction_kind :: "replay_direction \<Rightarrow> replay_kind" where
  "direction_kind DirectionDelete = ReplayDeleted"
| "direction_kind DirectionCreate = ReplayCreated"

record replay_hook_request =
  rr_direction :: replay_direction
  rr_files :: "string list option"
  rr_prefix_path :: "string option"
  rr_include_hidden_files :: bool
  rr_delay_ms :: "nat option"

record replay_answer =
  rn_sha :: string
  rn_files :: nat
  rn_orders :: nat

definition require_hook_receiver :: "('o, 'x) service \<Rightarrow> unit app_result" where
  "require_hook_receiver S =
     guard (cf_hooks (sv_config S) \<noteq> None)
       (InvalidOperation ''no webhook receiver is configured; a replay would deliver nothing'')"

definition validate_delay :: "nat option \<Rightarrow> nat option app_result" where
  "validate_delay delay =
     (case delay of
        None \<Rightarrow> Inr None
      | Some ms \<Rightarrow>
          if ms > MAX_DELAY_MS
          then Inl (InvalidOperation (''delay_ms must not exceed '' @ show_nat MAX_DELAY_MS @ '' milliseconds, got '' @ show_nat ms))
          else Inr (Some ms))"

text \<open>\<open>path\<close> lies strictly below \<open>prefix\<close>.\<close>

definition inside :: "string \<Rightarrow> string \<Rightarrow> bool" where
  "inside scope path \<longleftrightarrow>
     take (length scope) path = scope \<and>
     (case drop (length scope) path of c # rest \<Rightarrow> c = CHR ''/'' \<and> rest \<noteq> [] | [] \<Rightarrow> False)"

definition in_quotes :: "string \<Rightarrow> string" where
  "in_quotes s = [CHR 0x27] @ s @ [CHR 0x27]"

fun sanitize_entries :: "string option \<Rightarrow> string set \<Rightarrow> string list \<Rightarrow> string list app_result" where
  "sanitize_entries prefix_path seen [] = Inr []"
| "sanitize_entries prefix_path seen (raw_file # raw_files) =
     and_then (file_path raw_file) (\<lambda>path.
     and_then (guard (\<not> is_order_file path) (InvalidOperation
       (''files must not reference an order index: '' @ raw_file @ ''; file order is a separate resource under /order''))) (\<lambda>_.
     and_then (case prefix_path of
         None \<Rightarrow> Inr ()
       | Some scope \<Rightarrow>
           guard (scope = [] \<or> inside scope path)
             (InvalidOperation (''files entry '' @ in_quotes raw_file @ '' must sit under prefix_path '' @ in_quotes scope))) (\<lambda>_.
     and_then (guard (path \<notin> seen) (InvalidOperation (''files must be unique: '' @ in_quotes path @ '' is listed twice''))) (\<lambda>_.
     and_then (sanitize_entries prefix_path (insert path seen) raw_files) (\<lambda>rest. Inr (path # rest))))))"

definition sanitize_files :: "string option \<Rightarrow> string list \<Rightarrow> string list app_result" where
  "sanitize_files prefix_path raw_files =
     (if raw_files = []
      then Inl (InvalidOperation ''files must contain at least one path; omit it entirely to default to every file'')
      else sanitize_entries prefix_path {} raw_files)"

text \<open>The set operation, in delivery order.\<close>

definition affected_paths :: "replay_direction \<Rightarrow> string list option \<Rightarrow> string list \<Rightarrow> string list" where
  "affected_paths direction files present =
     sort_files (filter (\<lambda>path. (path \<in> set present) = keeps_present direction)
       (case files of None \<Rightarrow> present | Some candidates \<Rightarrow> candidates))"

definition schedule_replay ::
  "('o, 'x) service \<Rightarrow> int \<Rightarrow> place \<Rightarrow> string \<Rightarrow> replay_job \<Rightarrow> 'o app_state \<Rightarrow> 'o app_state" where
  "schedule_replay S now p sha job st =
     (if length (rp_paths job) > 0 \<or> length (rp_order_directories job) > 0 then
        st\<lparr>as_queues := enqueue (cf_hooks (sv_config S)) (lock_key p)
          (replay_hook_job (fst p) (snd p) sha now job) (as_queues st)\<rparr>
      else st)"

definition replay_hook ::
  "('o, 'x) service \<Rightarrow> int \<Rightarrow> string \<Rightarrow> string \<Rightarrow> replay_hook_request \<Rightarrow> ('o, replay_answer) handler" where
  "replay_hook S now collection tenant body =
     bind_act (act_lift (tenant_address collection tenant)) (\<lambda>p.
     bind_act (act_lift (validate_delay (rr_delay_ms body))) (\<lambda>delay_ms.
     bind_act (act_lift (case rr_prefix_path body of None \<Rightarrow> Inr None
       | Some raw \<Rightarrow> and_then (folder_path raw) (\<lambda>q. Inr (Some q)))) (\<lambda>prefix_path.
     bind_act (act_lift (case rr_files body of None \<Rightarrow> Inr None
       | Some raw \<Rightarrow> and_then (sanitize_files prefix_path raw) (\<lambda>fs. Inr (Some fs)))) (\<lambda>files.
     bind_act (act_lift (require_hook_receiver S)) (\<lambda>_.
     (let hidden = (files \<noteq> None \<or> rr_include_hidden_files body) in
      bind_act (peek_tenant p (\<lambda>d. list_all_file_paths (sv_libs S) d (snd p) prefix_path hidden)) (\<lambda>(sha, present).
      bind_act (peek_tenant p (\<lambda>d. list_order_directories (sv_libs S) d (snd p) prefix_path hidden)) (\<lambda>directories.
      (let job = \<lparr>rp_kind = direction_kind (rr_direction body),
             rp_paths = affected_paths (rr_direction body) files present,
             rp_order_directories = sort_directories directories, rp_delay_ms = delay_ms\<rparr>
       in bind_act (\<lambda>st. (Inr (), schedule_replay S now p sha job st)) (\<lambda>_.
            act_ok \<lparr>rn_sha = sha, rn_files = length (rp_paths job),
              rn_orders = length (rp_order_directories job)\<rparr>))))))))))"

end
