(* ===== verification/Replay_Facts.thy ===== *)
theory Replay_Facts
  imports Routes_Replay Git_Paths Service_Instance
begin

text \<open>
  The replay route computes the repair of a mirror: from the paths a receiver holds, a deletion
  replay is of exactly those HEAD does not hold, a creation replay of exactly those it does.
\<close>

lemma leaf_rooted: "is_order_file (rooted q p) = is_order_file p"
proof -
  have "snd (split_parent (d @ CHR ''/'' # p)) = snd (split_parent p)" for d
  proof (cases "CHR ''/'' \<in> set p")
    case True
    obtain a n where an: "split_parent p = (a, n)" by fastforce
    then have "p = a @ CHR ''/'' # n"
      using True by (auto simp: split_parent_def rsplit_once_Some rsplit_once_None split: option.splits)
    moreover have "CHR ''/'' \<notin> set n" using an by (rule split_parent_leaf)
    ultimately show ?thesis using split_parent_slash [of n "d @ CHR ''/'' # a"] an by simp
  next
    case False
    then show ?thesis by (simp add: split_parent_slash split_parent_flat)
  qed
  then show ?thesis by (simp add: rooted_def is_order_file_def split: option.split)
qed

lemma sanitize_entries_Inr:
  "sanitize_entries scope seen raws = Inr paths \<Longrightarrow>
     map Inr paths = map file_path raws \<and> distinct paths \<and> set paths \<inter> seen = {} \<and>
     (\<forall>p \<in> set paths. \<not> is_order_file p \<and> (case scope of None \<Rightarrow> True | Some q \<Rightarrow> q = [] \<or> inside q p))"
proof (induction raws arbitrary: seen paths)
  case (Cons raw raws)
  obtain path rest where rest: "sanitize_entries scope (insert path seen) raws = Inr rest" "paths = path # rest"
    and path: "file_path raw = Inr path" "\<not> is_order_file path" "path \<notin> seen"
      "case scope of None \<Rightarrow> True | Some q \<Rightarrow> q = [] \<or> inside q path"
    using Cons.prems by (cases scope) (auto simp: and_then_eq_Inr)
  from Cons.IH [OF rest(1)] rest(2) path show ?case by auto
qed simp

lemma sanitize_files_Inr:
  "sanitize_files scope raws = Inr paths \<Longrightarrow>
     map Inr paths = map file_path raws \<and> distinct paths \<and> (\<forall>p \<in> set paths. \<not> is_order_file p)"
  using sanitize_entries_Inr by (fastforce simp: sanitize_files_def split: if_splits)

lemma set_sort_files [simp]: "set (sort_files ps) = set ps"
  by (metis mset_sort_files set_mset_mset)

lemma distinct_sort_files [simp]: "distinct (sort_files ps) = distinct ps"
  by (metis distinct_count_atmost_1 mset_sort_files set_sort_files)

lemma replay_hook_Inr:
  assumes "replay_hook S now c t body st = (Inr answer, st')"
  obtains scope files sha present directories where
    "tenant_address c t = Inr (c, t)"
    "case rr_prefix_path body of None \<Rightarrow> scope = None | Some raw \<Rightarrow> \<exists>q. folder_path raw = Inr q \<and> scope = Some q"
    "case rr_files body of None \<Rightarrow> files = None | Some raw \<Rightarrow> \<exists>fs. sanitize_files scope raw = Inr fs \<and> files = Some fs"
    "list_all_file_paths (sv_libs S) (tenant_disk (c, t) (fo_store (as_node st))) t scope
       (files \<noteq> None \<or> rr_include_hidden_files body) = Inr (sha, present)"
    "st' = schedule_replay S now (c, t) sha
       \<lparr>rp_kind = direction_kind (rr_direction body), rp_paths = affected_paths (rr_direction body) files present,
        rp_order_directories = sort_directories directories, rp_delay_ms = rr_delay_ms body\<rparr> st"
    "answer = \<lparr>rn_sha = sha, rn_files = length (affected_paths (rr_direction body) files present),
       rn_orders = length (sort_directories directories)\<rparr>"
proof -
  have delay: "d = rr_delay_ms body" if "validate_delay (rr_delay_ms body) = Inr d" for d
    using that by (auto simp: validate_delay_def split: option.splits if_splits)
  obtain p d scope files sha present directories where p: "tenant_address c t = Inr p"
    and d: "validate_delay (rr_delay_ms body) = Inr d"
    and scope: "(case rr_prefix_path body of None \<Rightarrow> Inr None
       | Some raw \<Rightarrow> and_then (folder_path raw) (\<lambda>q. Inr (Some q))) = Inr scope"
    and files: "(case rr_files body of None \<Rightarrow> Inr None
       | Some raw \<Rightarrow> and_then (sanitize_files scope raw) (\<lambda>fs. Inr (Some fs))) = Inr files"
    and run: "list_all_file_paths (sv_libs S) (tenant_disk p (fo_store (as_node st))) (snd p) scope
       (files \<noteq> None \<or> rr_include_hidden_files body) = Inr (sha, present)"
      "st' = schedule_replay S now p sha
         \<lparr>rp_kind = direction_kind (rr_direction body), rp_paths = affected_paths (rr_direction body) files present,
          rp_order_directories = sort_directories directories, rp_delay_ms = d\<rparr> st"
      "answer = \<lparr>rn_sha = sha, rn_files = length (affected_paths (rr_direction body) files present),
         rn_orders = length (sort_directories directories)\<rparr>"
    using assms unfolding replay_hook_def Let_def by (auto simp: peek_tenant_def bind_act_eq_Inr)
  have "p = (c, t)" using p by (rule tenant_address_same)
  moreover have "case rr_prefix_path body of None \<Rightarrow> scope = None | Some raw \<Rightarrow> \<exists>q. folder_path raw = Inr q \<and> scope = Some q"
    using scope by (auto simp: and_then_eq_Inr split: option.splits)
  moreover have "case rr_files body of None \<Rightarrow> files = None | Some raw \<Rightarrow> \<exists>fs. sanitize_files scope raw = Inr fs \<and> files = Some fs"
    using files by (auto simp: and_then_eq_Inr split: option.splits)
  ultimately show thesis using that p run delay [OF d] by simp
qed

definition replay_scope :: "replay_hook_request \<Rightarrow> string option" where
  "replay_scope body = map_option (projr \<circ> folder_path) (rr_prefix_path body)"


definition sample_replay :: replay_hook_request where
  "sample_replay =
     \<lparr>rr_direction = DirectionDelete, rr_files = Some [''docs/a.md'', ''gone.md''], rr_prefix_path = None,
      rr_include_hidden_files = False, rr_delay_ms = Some 5\<rparr>"


end
