(* ===== verification/Routes_Replication.thy ===== *)
theory Routes_Replication
  imports Server
begin

text \<open>
  \<open>routes/replication.rs\<close>, what a node serves to the replicas that follow it, and the headers a
  replica's requests carry (\<open>replication.rs\<close>). A header that is present and readable is a
  string; \<open>serde_json\<close> is a parameter where frames become bytes, and a listing crosses the wire
  as itself.
\<close>

section \<open>Headers\<close>

definition PROTOCOL_HEADER :: string where "PROTOCOL_HEADER = ''x-replication-protocol''"
definition HEAD_SHA_HEADER :: string where "HEAD_SHA_HEADER = ''x-replication-head-sha''"
definition NODE_ID_HEADER :: string where "NODE_ID_HEADER = ''x-replication-node-id''"
definition REPOSITORIES_HEADER :: string where "REPOSITORIES_HEADER = ''x-replication-repositories''"
definition PENDING_HEADER :: string where "PENDING_HEADER = ''x-replication-pending''"
definition SYNC_HEADER :: string where "SYNC_HEADER = ''x-replication-sync''"
definition INSTANCE_HEADER :: string where "INSTANCE_HEADER = ''x-replication-instance''"
definition POLL_INTERVAL_HEADER :: string where "POLL_INTERVAL_HEADER = ''x-replication-poll-interval''"

lemmas header_names = PROTOCOL_HEADER_def HEAD_SHA_HEADER_def NODE_ID_HEADER_def REPOSITORIES_HEADER_def
  PENDING_HEADER_def SYNC_HEADER_def INSTANCE_HEADER_def POLL_INTERVAL_HEADER_def

type_synonym headers = "string \<Rightarrow> string option"

text \<open>\<open>str::parse\<close> for \<open>u64\<close> and \<open>usize\<close>: a leading plus is accepted, overflow is not.\<close>

definition parse_u64 :: "string \<Rightarrow> nat option" where
  "parse_u64 s =
     (let digits = (case s of [] \<Rightarrow> [] | c # rest \<Rightarrow> if c = CHR ''+'' then rest else s) in
      if digits \<noteq> [] \<and> list_all digit digits \<and> read_nat digits < 2 ^ 64
      then Some (read_nat digits) else None)"

record peer_headers =
  ph_node_id :: "string option"
  ph_instance :: "string option"
  ph_repositories :: "nat option"
  ph_pending :: "nat option"
  ph_sync :: "string option"
  ph_poll_interval_secs :: "nat option"

definition bounded :: "headers \<Rightarrow> string \<Rightarrow> string option" where
  "bounded headers name =
     (case headers name of
        None \<Rightarrow> None
      | Some value \<Rightarrow> (case node_id value of Inl _ \<Rightarrow> None | Inr _ \<Rightarrow> Some value))"

definition peer_identity :: "headers \<Rightarrow> peer_headers" where
  "peer_identity headers =
     \<lparr>ph_node_id = bounded headers NODE_ID_HEADER, ph_instance = bounded headers INSTANCE_HEADER,
      ph_repositories = Option.bind (headers REPOSITORIES_HEADER) parse_u64,
      ph_pending = Option.bind (headers PENDING_HEADER) parse_u64,
      ph_sync = bounded headers SYNC_HEADER,
      ph_poll_interval_secs = Option.bind (headers POLL_INTERVAL_HEADER) parse_u64\<rparr>"

text \<open>The follower's side; \<open>ins\<close> is the token it drew when it started.\<close>

definition follower_request :: "replication_config \<Rightarrow> string \<Rightarrow> headers" where
  "follower_request c ins =
     [NODE_ID_HEADER \<mapsto> rc_node_id c, INSTANCE_HEADER \<mapsto> ins, PROTOCOL_HEADER \<mapsto> show_nat PROTOCOL_VERSION,
      POLL_INTERVAL_HEADER \<mapsto> show_nat (rc_poll_interval_secs c)]"

definition reporting_request :: "replication_config \<Rightarrow> string \<Rightarrow> 'o follower \<Rightarrow> headers" where
  "reporting_request c ins s =
     (follower_request c ins)
       (REPOSITORIES_HEADER \<mapsto> show_nat (st_repositories (fo_status s)),
        PENDING_HEADER \<mapsto> show_nat (st_pending (fo_status s)),
        SYNC_HEADER \<mapsto> sync_as_str (sync_status_of (fo_issues s) (fo_status s)))"

section \<open>State and health\<close>

text \<open>The roster learns of a peer that gave its id.\<close>

definition note_peer :: "int \<Rightarrow> peer_headers \<Rightarrow> 'o app_state \<Rightarrow> 'o app_state" where
  "note_peer now peer st =
     (case ph_node_id peer of
        None \<Rightarrow> st
      | Some node \<Rightarrow>
          st\<lparr>as_registry := note_request now node (ph_repositories peer) (ph_pending peer) (ph_sync peer)
               (ph_poll_interval_secs peer) (as_registry st)\<rparr>)"

definition take_snapshot ::
  "('o, 'x) service \<Rightarrow> int \<Rightarrow> repository_scan \<Rightarrow> 'o app_state \<Rightarrow> repository_scan \<times> 'o app_state" where
  "take_snapshot S now scan st =
     (let node = as_node st in
      case snapshot (sv_identity S) now (fo_identity node) (fo_files node) scan (fo_issues node, fo_index node) of
        (listed, (issues, ix)) \<Rightarrow> (listed, st\<lparr>as_node := node\<lparr>fo_issues := issues, fo_index := ix\<rparr>\<rparr>))"

datatype state_answer = RetryLater nat | StateListing repository_listing

definition replication_state ::
  "('o, 'x) service \<Rightarrow> int \<Rightarrow> repository_scan \<Rightarrow> headers \<Rightarrow> 'o app_state \<Rightarrow> state_answer \<times> 'o app_state" where
  "replication_state S now scan headers st =
     (let st = note_peer now (peer_identity headers) st;
          identity = ri_current (fo_identity (as_node st));
          status = fo_status (as_node st)
      in if st_is_replica status \<and> (\<not> st_bootstrapped status \<or> identity = None) then (RetryLater 5, st)
         else (case take_snapshot S now scan st of
             (listed, st) \<Rightarrow>
               (StateListing \<lparr>li_protocol = PROTOCOL_VERSION, li_identity = identity,
                  li_repositories = rs_repositories listed, li_complete = rs_complete listed\<rparr>, st)))"

text \<open>\<open>fetch_state\<close> on the answer; \<open>refused\<close> is the error of a status that is no success.\<close>

definition fetch_state :: "string \<Rightarrow> state_answer \<Rightarrow> string + repository_listing" where
  "fetch_state refused answer =
     (case answer of RetryLater n \<Rightarrow> Inl refused | StateListing listing \<Rightarrow> Inr listing)"

definition health_for ::
  "('o, 'x) service \<Rightarrow> int \<Rightarrow> repository_scan \<Rightarrow> 'o app_state \<Rightarrow> replication_health \<times> 'o app_state" where
  "health_for S now scan st =
     (case take_snapshot S now scan st of
        (listed, st) \<Rightarrow>
          (let node = as_node st in
           case build_health (sv_redact S) now (sv_config S) (ri_current (fo_identity node)) (as_registry st)
               (fo_status node) (length (rs_repositories listed)) (fo_issues node) of
             (health, issues) \<Rightarrow> (health, st\<lparr>as_node := node\<lparr>fo_issues := issues\<rparr>\<rparr>)))"

definition replication_health_route ::
  "('o, 'x) service \<Rightarrow> int \<Rightarrow> repository_scan \<Rightarrow> headers \<Rightarrow> 'o app_state \<Rightarrow> replication_health \<times> 'o app_state" where
  "replication_health_route S now scan headers st =
     health_for S now scan (note_peer now (peer_identity headers) st)"

section \<open>Packs\<close>

text \<open>
  HEAD is resolved when the request comes in; the pack is built afterwards, from whatever the
  repository holds by then (\<open>d\<close>), for as long as the client listens. A failed build ends the
  body with an error.
\<close>

definition replication_pack ::
  "('o, 'x) service \<Rightarrow> int \<Rightarrow> string \<Rightarrow> string \<Rightarrow> string option \<Rightarrow> headers \<Rightarrow> ('o, string \<times> string option) handler" where
  "replication_pack S now collection tenant raw_have headers =
     bind_act (act_lift (tenant_address collection tenant)) (\<lambda>p.
     bind_act (act_lift (case raw_have of None \<Rightarrow> Inr None | Some raw \<Rightarrow> and_then (commit_sha raw) (\<lambda>v. Inr (Some v)))) (\<lambda>have.
     bind_act (\<lambda>st. (guard (sr_dirs (fo_store (as_node st)) p \<noteq> None) (TenantNotFound (snd p)), st)) (\<lambda>_.
     bind_act (\<lambda>st. (case head_sha (sv_libs S) (os_stat (sv_os S)) (sr_dirs (fo_store (as_node st))) p of
         None \<Rightarrow> Inl (TenantNotFound (snd p)) | Some sha \<Rightarrow> Inr sha, st)) (\<lambda>sha.
     bind_act (\<lambda>st. (Inr (), (case ph_node_id (peer_identity headers) of
         None \<Rightarrow> st
       | Some node \<Rightarrow> st\<lparr>as_registry := note_pack_delivered now node (as_registry st)\<rparr>))) (\<lambda>_.
       act_ok (sha, have))))))"

definition pack_body ::
  "('o, 'x) service \<Rightarrow> 'o disk \<Rightarrow> string \<Rightarrow> string \<times> string option \<Rightarrow> (bytes list \<Rightarrow> bytes \<Rightarrow> bool) \<Rightarrow>
     bytes list \<times> string option" where
  "pack_body S d tenant request listening =
     (case build_pack (sv_libs S) (sv_sync S) d tenant (fst request) (snd request) listening of
        (Inl e, sent) \<Rightarrow> (sent, Some (error_message e))
      | (Inr _, sent) \<Rightarrow> (sent, None))"

section \<open>Events\<close>

datatype events_answer = Refused string | Streaming

definition collision_error :: "string \<Rightarrow> string" where
  "collision_error node = ''node id '' @ [CHR 0x27] @ node @ [CHR 0x27] @ '' is already connected from another process''"

definition with_node :: "('o follower \<Rightarrow> 'o follower) \<Rightarrow> 'o app_state \<Rightarrow> 'o app_state" where
  "with_node f st = st\<lparr>as_node := f (as_node st)\<rparr>"

definition open_events :: "int \<Rightarrow> headers \<Rightarrow> 'o app_state \<Rightarrow> events_answer \<times> 'o app_state" where
  "open_events now headers st =
     (let peer = peer_identity headers in
      case ph_node_id peer of
        None \<Rightarrow> (Streaming, st)
      | Some node \<Rightarrow>
          (let st = note_peer now peer st;
               ins = (case ph_instance peer of None \<Rightarrow> [] | Some i \<Rightarrow> i)
           in case stream_opened now node ins (as_registry st) of
                (Inl collision, reg) \<Rightarrow>
                  (let st = st\<lparr>as_registry := reg\<rparr> in
                   (Refused (collision_error (col_node_id collision)),
                    if col_persisting collision then
                      with_node (with_issues (raise_issue (collision_key (col_node_id collision))
                        (NodeIdCollision (col_node_id collision) (col_since collision)))) st
                    else st))
              | (Inr _, reg) \<Rightarrow>
                  (Streaming, with_node (with_issues (clear_issue (collision_key node))) (st\<lparr>as_registry := reg\<rparr>))))"

text \<open>
  The task behind an open stream. \<open>heard\<close> is what its \<open>select!\<close> yields, one after the other: a
  notification, its 20 seconds of silence, or an end (frames lost, the notifier gone, the
  replica gone, a send that failed). Until it ends it holds the node id.
\<close>

datatype heard = Notification replication_event | Silence | StreamEnd

fun stream_frames :: "(replication_event \<Rightarrow> bytes option) \<Rightarrow> heard list \<Rightarrow> bytes list \<times> bool" where
  "stream_frames encode [] = ([], False)"
| "stream_frames encode (StreamEnd # rest) = ([], True)"
| "stream_frames encode (Notification e # rest) =
     (case stream_frames encode rest of (lines, ended) \<Rightarrow>
        (case encode e of None \<Rightarrow> (lines, ended) | Some line \<Rightarrow> ((line @ [CHR 0x0A]) # lines, ended)))"
| "stream_frames encode (Silence # rest) =
     (case stream_frames encode rest of (lines, ended) \<Rightarrow>
        (case encode Heartbeat of None \<Rightarrow> (lines, ended) | Some line \<Rightarrow> ((line @ [CHR 0x0A]) # lines, ended)))"

definition hello_frame :: "('o, 'x) service \<Rightarrow> 'o app_state \<Rightarrow> replication_event" where
  "hello_frame S st =
     Hello PROTOCOL_VERSION (case cf_replication (sv_config S) of None \<Rightarrow> [] | Some c \<Rightarrow> rc_node_id c)
       (ri_current (fo_identity (as_node st)))"

definition stream_task ::
  "(replication_event \<Rightarrow> bytes option) \<Rightarrow> int \<Rightarrow> peer_headers \<Rightarrow> replication_event \<Rightarrow> bool \<Rightarrow> heard list \<Rightarrow>
     registry \<Rightarrow> bytes list \<times> registry" where
  "stream_task encode now peer hello hello_sent heard reg =
     (if encode hello \<noteq> None \<and> \<not> hello_sent then ([], reg)
      else (case stream_frames encode heard of (lines, ended) \<Rightarrow>
        ((case encode hello of None \<Rightarrow> [] | Some line \<Rightarrow> [line @ [CHR 0x0A]]) @ lines,
         (case ph_node_id peer of
            Some node \<Rightarrow>
              if ended then stream_closed now node (case ph_instance peer of None \<Rightarrow> [] | Some i \<Rightarrow> i) reg else reg
          | None \<Rightarrow> reg))))"

end
