(* ===== verification/Serving_Facts.thy ===== *)
theory Serving_Facts
  imports Routes_Replication Follower_Facts Service_Instance
begin

text \<open>
  The two ends of replication together: what a master reads off a replica's request is what the
  replica reported, a listing that is served never costs the replica below it a repository the
  server holds, and a node id belongs to one process at a time.
\<close>

section \<open>Headers\<close>

lemma digit_not_plus: "digit c \<Longrightarrow> c \<noteq> CHR ''+''"
  by (auto simp: digit_def less_eq_char_def)

lemma parse_u64_show: "n < 2 ^ 64 \<Longrightarrow> parse_u64 (show_nat n) = Some n"
proof -
  assume n: "n < 2 ^ 64"
  obtain c rest where s: "show_nat n = c # rest" using show_nat_ne [of n] by (cases "show_nat n") auto
  with show_nat_digits [of n] have "c \<noteq> CHR ''+''" by (auto dest: digit_not_plus)
  moreover have "read_nat (c # rest) = n" using read_show_nat [of n] s by simp
  ultimately show ?thesis using show_nat_digits [of n] n by (simp add: parse_u64_def s)
qed

lemma header_names_distinct:
  "distinct [PROTOCOL_HEADER, HEAD_SHA_HEADER, NODE_ID_HEADER, REPOSITORIES_HEADER, PENDING_HEADER, SYNC_HEADER,
     INSTANCE_HEADER, POLL_INTERVAL_HEADER]"
  by code_simp

lemma sync_word_valid: "node_id (sync_as_str y) = Inr (sync_as_str y)"
  by (cases y) (simp_all only: sync_as_str.simps, code_simp+)

text \<open>
  The request a replica reports itself with is read back by the node it asks as what the replica
  said: its id, its process, how many repositories it holds and waits for, its condition and its
  poll interval.
\<close>

theorem peer_headers_roundtrip:
  assumes "node_id (rc_node_id c) = Inr (rc_node_id c)" "node_id ins = Inr ins"
    and "rc_poll_interval_secs c < 2 ^ 64" "st_repositories (fo_status s) < 2 ^ 64" "st_pending (fo_status s) < 2 ^ 64"
  shows "peer_identity (reporting_request c ins s) =
     \<lparr>ph_node_id = Some (rc_node_id c), ph_instance = Some ins,
      ph_repositories = Some (st_repositories (fo_status s)), ph_pending = Some (st_pending (fo_status s)),
      ph_sync = Some (sync_as_str (sync_status_of (fo_issues s) (fo_status s))),
      ph_poll_interval_secs = Some (rc_poll_interval_secs c)\<rparr>"
  using assms header_names_distinct
  by (auto simp: peer_identity_def bounded_def reporting_request_def follower_request_def parse_u64_show sync_word_valid)

theorem peer_headers_roundtrip_witness:
  "ph_pending (peer_identity (reporting_request (sample_role Replica) ''00ff''
     (as_node (sample_state Replica False demo_disk)))) = Some 0"
proof -
  have "node_id (rc_node_id (sample_role Replica)) = Inr (rc_node_id (sample_role Replica))" "node_id ''00ff'' = Inr ''00ff''"
    by code_simp+
  moreover have "rc_poll_interval_secs (sample_role Replica) < 2 ^ 64"
    "st_repositories (fo_status (as_node (sample_state Replica False demo_disk))) < 2 ^ 64"
    "st_pending (fo_status (as_node (sample_state Replica False demo_disk))) < 2 ^ 64"
    by (simp_all add: sample_role_def sample_state_def sample_status_def)
  ultimately show ?thesis
    using peer_headers_roundtrip [of "sample_role Replica" "''00ff''" "as_node (sample_state Replica False demo_disk)"]
    by (simp add: sample_state_def sample_status_def)
qed

section \<open>Listings\<close>

lemma snapshot_lists:
  assumes "take_snapshot S now scan st = (listed, st')" and "(key, e) \<in> set (ix_heads (fo_index (as_node st')))"
  shows "ie_head e \<in> set (rs_repositories listed)"
  using assms by (force simp: take_snapshot_def snapshot_def Let_def split: prod.splits if_splits)

definition cold :: "'o app_state \<Rightarrow> bool" where
  "cold st \<longleftrightarrow> st_is_replica (fo_status (as_node st)) \<and>
     (\<not> st_bootstrapped (fo_status (as_node st)) \<or> ri_current (fo_identity (as_node st)) = None)"

lemma note_peer_node [simp]: "as_node (note_peer now peer st) = as_node st"
  by (simp add: note_peer_def split: option.split)

text \<open>
  C36: a replica that reconciles with what a node serves of its state keeps every repository that
  node's index holds: it queues none of them for deletion. From a replica that is still
  catching up, or has not paired, it learns nothing at all.
\<close>

theorem served_listing_spares:
  assumes served: "replication_state S now scan headers up = (answer, up')"
    and run: "reconcile nd now' (fetch_state refused answer) local_scan health s = (r, s')"
    and clean: "undeleted (rh_collection_id h, rh_tenant_id h) (fo_pending s)"
    and held: "(key, \<lparr>ie_head = h, ie_announced_at = n\<rparr>) \<in> set (ix_heads (fo_index (as_node up')))"
    and valid: "valid_entry h"
  shows "(if cold up then s' = s \<and> r = Inl refused
      else undeleted (rh_collection_id h, rh_tenant_id h) (fo_pending s'))"
proof (cases "cold up")
  case True
  then have "answer = RetryLater 5" using served by (auto simp: replication_state_def Let_def cold_def)
  then show ?thesis using run True by (simp add: fetch_state_def reconcile_def)
next
  case False
  then obtain listed where snap: "take_snapshot S now scan (note_peer now (peer_identity headers) up) = (listed, up')"
    and answer: "answer = StateListing \<lparr>li_protocol = PROTOCOL_VERSION, li_identity = ri_current (fo_identity (as_node up)),
      li_repositories = rs_repositories listed, li_complete = rs_complete listed\<rparr>"
    using served by (auto simp: replication_state_def Let_def cold_def split: prod.splits if_splits)
  have "h \<in> set (rs_repositories listed)" using snapshot_lists [OF snap held] by simp
  then have "spares_listed (rh_collection_id h, rh_tenant_id h) (fetch_state refused answer)"
    using valid by (auto simp: spares_listed_def fetch_state_def answer list_ex_iff)
  from reconcile_undeleted [OF run this clean] False show ?thesis by simp
qed

definition serving_head :: repository_head where
  "serving_head = \<lparr>rh_collection_id = ''acme'', rh_tenant_id = ''docs'', rh_head_sha = ''abcdef''\<rparr>"

definition serving_state :: "gobj app_state" where
  "serving_state = with_node (\<lambda>s. s\<lparr>fo_index := new_index\<lparr>ix_heads := [(''acme/docs'', \<lparr>ie_head = serving_head, ie_announced_at = 1\<rparr>)],
     ix_sequence := 1, ix_scanned := True, ix_complete := True\<rparr>\<rparr>) (sample_state Master True demo_disk)"

theorem served_listing_spares_witness:
  "undeleted (''acme'', ''docs'') (fo_pending (snd (reconcile tiny_node 5
     (fetch_state ''503'' (fst (replication_state (sample_service Master) 5 no_scan (\<lambda>_. None) serving_state)))
     no_scan None (tiny_follower behind_store))))"
proof -
  let ?up = "replication_state (sample_service Master) 5 no_scan (\<lambda>_. None) serving_state"
  let ?run = "reconcile tiny_node 5 (fetch_state ''503'' (fst ?up)) no_scan None (tiny_follower behind_store)"
  have warm: "\<not> cold serving_state" by (simp add: cold_def serving_state_def with_node_def sample_state_def sample_status_def)
  have held: "(''acme/docs'', \<lparr>ie_head = serving_head, ie_announced_at = 1\<rparr>) \<in> set (ix_heads (fo_index (as_node (snd ?up))))"
    using warm
    by (auto simp: replication_state_def Let_def cold_def take_snapshot_def snapshot_def serving_state_def with_node_def needs_scan_def
        peer_identity_def bounded_def note_peer_def split: prod.splits)
  have "undeleted (rh_collection_id serving_head, rh_tenant_id serving_head) (fo_pending (tiny_follower behind_store))"
    by (simp add: undeleted_def)
  moreover have "valid_entry serving_head" unfolding serving_head_def by code_simp
  ultimately show ?thesis
    using served_listing_spares [OF prod.collapse [symmetric] prod.collapse [symmetric] _ held, where nd = tiny_node
        and now' = 5 and refused = "''503''" and local_scan = no_scan and health = None and s = "tiny_follower behind_store"] warm
    by (simp add: serving_head_def)
qed

section \<open>Node ids\<close>

text \<open>What reaches the roster, from any route and any stream, at any time.\<close>

datatype roster_event =
    AsksFor int peer_headers
  | PackServed int string
  | StreamOpens int string string
  | StreamCloses int string string

fun roster_step :: "roster_event \<Rightarrow> registry \<Rightarrow> registry" where
  "roster_step (AsksFor now peer) reg =
     (case ph_node_id peer of None \<Rightarrow> reg
      | Some node \<Rightarrow> note_request now node (ph_repositories peer) (ph_pending peer) (ph_sync peer) (ph_poll_interval_secs peer) reg)"
| "roster_step (PackServed now node) reg = note_pack_delivered now node reg"
| "roster_step (StreamOpens now node ins) reg = snd (stream_opened now node ins reg)"
| "roster_step (StreamCloses now node ins) reg = stream_closed now node ins reg"

definition holds_id :: "string \<Rightarrow> string \<Rightarrow> registry \<Rightarrow> bool" where
  "holds_id node ins reg \<longleftrightarrow>
     rp_stream_connected (registry_entry node reg) \<and> rp_instance (registry_entry node reg) = Some ins"

lemma entry_put: "registry_entry node (put_entry key p reg) = (if node = key then p else registry_entry node reg)"
proof -
  have "map_of (put_entry key p reg) node = (if node = key then Some p else map_of reg node)"
    by (induction key p reg rule: put_entry.induct) auto
  then show ?thesis by (simp add: registry_entry_def)
qed

lemma roster_step_holds:
  assumes "holds_id node ins reg" and "\<forall>now. e \<noteq> StreamCloses now node ins"
  shows "holds_id node ins (roster_step e reg)"
  using assms
  by (cases e)
    (auto simp: holds_id_def note_request_def note_pack_delivered_def stream_opened_def stream_closed_def held_by_other_def
      entry_put Let_def split: option.splits if_splits)

lemma roster_run_holds:
  "holds_id node ins reg \<Longrightarrow> \<forall>now. StreamCloses now node ins \<notin> set es \<Longrightarrow> holds_id node ins (fold roster_step es reg)"
proof (induction es arbitrary: reg)
  case (Cons e es)
  then have "\<forall>now. e \<noteq> StreamCloses now node ins" "\<forall>now. StreamCloses now node ins \<notin> set es" by auto
  then show ?case using Cons.IH roster_step_holds [OF Cons.prems(1)] by simp
qed simp

text \<open>The token a request states for the process that sends it, empty when it states none.\<close>

definition process_token :: "headers \<Rightarrow> string" where
  "process_token headers = (case ph_instance (peer_identity headers) of None \<Rightarrow> [] | Some i \<Rightarrow> i)"

lemma opened_holds:
  assumes "ph_node_id (peer_identity headers) = Some node" "process_token headers = ins"
    and "open_events now headers st = (Streaming, st')"
  shows "holds_id node ins (as_registry st')"
proof -
  have "as_registry (with_node f (st\<lparr>as_registry := reg\<rparr>)) = reg" for f and st :: "'a app_state" and reg
    by (simp add: with_node_def)
  with assms show ?thesis
    by (auto simp: open_events_def process_token_def Let_def stream_opened_def holds_id_def entry_put split: prod.splits sum.splits if_splits)
qed

lemma other_process_refused:
  assumes held: "holds_id node ins (as_registry st)"
    and other: "ph_node_id (peer_identity headers) = Some node" "process_token headers = ins'" "ins' \<noteq> ins"
    and asked: "open_events now headers st = (answer, st')"
  shows "answer = Refused (collision_error node) \<and> holds_id node ins (as_registry st')"
proof -
  let ?noted = "note_peer now (peer_identity headers) st"
  have noted: "holds_id node ins (as_registry ?noted)"
    using roster_step_holds [OF held, of "AsksFor now (peer_identity headers)"] other(1) by (simp add: note_peer_def)
  obtain c reg where refused: "stream_opened now node ins' (as_registry ?noted) = (Inl c, reg)" "col_node_id c = node"
    using noted other(3) by (auto simp: stream_opened_def held_by_other_def holds_id_def Let_def)
  have "holds_id node ins reg"
    using roster_step_holds [OF noted, of "StreamOpens now node ins'"] refused(1) by simp
  with asked other refused show ?thesis by (auto simp: open_events_def process_token_def Let_def with_node_def)
qed

text \<open>
  C37: a node id belongs to one process, told apart by the instance token it states (the empty one
  where it states none): once a stream is open under the id and a token, a stream asked for under
  the same id and another token is refused, and the first keeps the id, whatever else reaches the
  roster in between, for as long as no stream opened under that id and that token ends.
\<close>

theorem node_id_exclusive:
  assumes "ph_node_id (peer_identity headers) = Some node" "process_token headers = ins"
      "open_events now headers st = (Streaming, st')"
    and "as_registry later = fold roster_step es (as_registry st')" "\<forall>at. StreamCloses at node ins \<notin> set es"
    and "ph_node_id (peer_identity headers') = Some node" "process_token headers' = ins'" "ins' \<noteq> ins"
    and "open_events now' headers' later = (answer, later')"
  shows "answer = Refused (collision_error node) \<and> holds_id node ins (as_registry later')"
  using other_process_refused [OF _ assms(6-9)] roster_run_holds [OF opened_holds [OF assms(1-3)] assms(5)] assms(4)
  by simp

theorem node_id_exclusive_witness:
  "fst (open_events 9 [NODE_ID_HEADER \<mapsto> ''b'', INSTANCE_HEADER \<mapsto> ''22'']
     (snd (open_events 5 [NODE_ID_HEADER \<mapsto> ''b'', INSTANCE_HEADER \<mapsto> ''11''] (sample_state Master True demo_disk)))) =
   Refused (collision_error ''b'')"
proof -
  let ?h = "[NODE_ID_HEADER \<mapsto> ''b'', INSTANCE_HEADER \<mapsto> ''11'']" and ?h' = "[NODE_ID_HEADER \<mapsto> ''b'', INSTANCE_HEADER \<mapsto> ''22'']"
  let ?first = "open_events 5 ?h (sample_state Master True demo_disk)"
  have peers: "ph_node_id (peer_identity ?h) = Some ''b''" "process_token ?h = ''11''"
    "ph_node_id (peer_identity ?h') = Some ''b''" "process_token ?h' = ''22''" by code_simp+
  have "fst ?first = Streaming"
    using peers by (simp add: open_events_def process_token_def note_peer_def stream_opened_def held_by_other_def sample_state_def
        note_request_def registry_entry_def new_presence_def Let_def)
  then have first: "?first = (Streaming, snd ?first)" by (simp add: prod_eq_iff)
  show ?thesis
    using node_id_exclusive [OF peers(1,2) first, where es = "[]", OF _ _ peers(3,4) _ prod.collapse [symmetric], where now' = 9 and later = "snd ?first"] by simp
qed

text \<open>
  The proviso is the code's. An older connection of the same process that ends after the process
  has reconnected frees the id, since only the token is compared: the open stream is reported as
  gone, and another process is let in beside it. Processes that state no token share the empty one.
\<close>

lemma older_close_frees_id:
  assumes "fst (stream_opened t1 node ins reg) = Inr ()"
    and "fst (stream_opened t2 node ins (snd (stream_opened t1 node ins reg))) = Inr ()"
    and "closed = stream_closed t3 node ins (snd (stream_opened t2 node ins (snd (stream_opened t1 node ins reg))))"
  shows "\<not> rp_stream_connected (registry_entry node closed)" "fst (stream_opened t4 node ins' closed) = Inr ()"
  using assms
  by (auto simp: stream_opened_def stream_closed_def held_by_other_def entry_put Let_def split: if_splits)

lemma tokenless_processes_share:
  assumes "fst (stream_opened t1 node [] reg) = Inr ()"
  shows "fst (stream_opened t2 node [] (snd (stream_opened t1 node [] reg))) = Inr ()"
  using assms by (auto simp: stream_opened_def held_by_other_def entry_put Let_def split: if_splits)

text \<open>
  A stream whose greeting cannot be sent any more ends its task without releasing the id: the
  same replica, once restarted, is another process, and is refused from then on.
\<close>

lemma unsent_hello_keeps_id:
  assumes opened: "ph_node_id (peer_identity headers) = Some node" "process_token headers = ins"
      "open_events now headers st = (Streaming, st')"
    and task: "encode hello \<noteq> None" "stream_task encode now (peer_identity headers) hello False heard (as_registry st') = (frames, reg)"
    and restarted: "ph_node_id (peer_identity headers') = Some node" "process_token headers' = ins'" "ins' \<noteq> ins"
  shows "frames = [] \<and> fst (open_events now' headers' (st'\<lparr>as_registry := reg\<rparr>)) = Refused (collision_error node)"
proof -
  have reg: "frames = []" "reg = as_registry st'" using task by (auto simp: stream_task_def)
  have "holds_id node ins (as_registry (st'\<lparr>as_registry := reg\<rparr>))" using opened_holds [OF opened] reg by simp
  from other_process_refused [OF this restarted prod.collapse [symmetric]] reg show ?thesis by blast
qed

lemma ended_stream_frees_id:
  assumes "ph_node_id peer = Some node" "ph_instance peer = Some ins" "holds_id node ins reg"
    and "encode hello = None \<or> sent" "stream_task encode now peer hello sent heard reg = (frames, reg')" "StreamEnd \<in> set heard"
  shows "\<not> rp_stream_connected (registry_entry node reg')"
proof -
  have "snd (stream_frames encode heard)" using assms(6)
    by (induction encode heard rule: stream_frames.induct) (auto split: prod.splits option.splits)
  then show ?thesis
    using assms by (auto simp: stream_task_def stream_closed_def holds_id_def entry_put Let_def split: prod.splits if_splits)
qed

section \<open>The roster\<close>

text \<open>
  A row under its own id; the id, the process token and the condition are valid node ids (64
  bytes of a small alphabet at most), and the counts are machine words.
\<close>

definition wf_presence :: "replica_presence \<Rightarrow> bool" where
  "wf_presence p \<longleftrightarrow> node_id (rp_node_id p) = Inr (rp_node_id p) \<and>
     (\<forall>w. rp_sync p = Some w \<longrightarrow> node_id w = Inr w) \<and>
     (\<forall>i. rp_instance p = Some i \<longrightarrow> i = [] \<or> node_id i = Inr i) \<and>
     (\<forall>n. rp_repositories p = Some n \<longrightarrow> n < 2 ^ 64) \<and> (\<forall>n. rp_pending p = Some n \<longrightarrow> n < 2 ^ 64) \<and>
     (\<forall>n. rp_poll_interval_secs p = Some n \<longrightarrow> n < 2 ^ 64)"

definition wf_roster :: "registry \<Rightarrow> bool" where
  "wf_roster reg \<longleftrightarrow> ordered reg \<and> (\<forall>(key, p) \<in> set reg. rp_node_id p = key \<and> wf_presence p)"

lemma bounded_valid: "bounded headers name = Some v \<Longrightarrow> node_id v = Inr v"
  using node.unchanged by (fastforce simp: bounded_def split: option.splits sum.splits)

lemma parse_u64_bound: "parse_u64 v = Some n \<Longrightarrow> n < 2 ^ 64"
  by (auto simp: parse_u64_def Let_def split: if_splits)

lemma peer_bounds:
  "ph_node_id (peer_identity headers) = Some v \<Longrightarrow> node_id v = Inr v"
  "ph_instance (peer_identity headers) = Some v \<Longrightarrow> node_id v = Inr v"
  "ph_sync (peer_identity headers) = Some v \<Longrightarrow> node_id v = Inr v"
  "ph_repositories (peer_identity headers) = Some n \<Longrightarrow> n < 2 ^ 64"
  "ph_pending (peer_identity headers) = Some n \<Longrightarrow> n < 2 ^ 64"
  "ph_poll_interval_secs (peer_identity headers) = Some n \<Longrightarrow> n < 2 ^ 64"
  by (auto simp: peer_identity_def dest: bounded_valid parse_u64_bound split: Option.bind_splits)

lemma wf_entry: "wf_roster reg \<Longrightarrow> node_id node = Inr node \<Longrightarrow>
    rp_node_id (registry_entry node reg) = node \<and> wf_presence (registry_entry node reg)"
  by (auto simp: wf_roster_def registry_entry_def new_presence_def wf_presence_def split: option.split dest!: map_of_SomeD)

lemma wf_put: "wf_roster reg \<Longrightarrow> rp_node_id p = node \<Longrightarrow> wf_presence p \<Longrightarrow> wf_roster (put_entry node p reg)"
  using set_put_entry [of node p reg] by (auto simp: wf_roster_def ordered_put)

lemma wf_noted:
  assumes "wf_roster (as_registry st)"
  shows "wf_roster (as_registry (note_peer now (peer_identity headers) st))"
proof (cases "ph_node_id (peer_identity headers)")
  case None
  with assms show ?thesis by (simp add: note_peer_def)
next
  case (Some node)
  note row = wf_entry [OF assms peer_bounds(1) [OF Some]]
  have "wf_roster (note_request now node (ph_repositories (peer_identity headers)) (ph_pending (peer_identity headers))
      (ph_sync (peer_identity headers)) (ph_poll_interval_secs (peer_identity headers)) (as_registry st))"
    unfolding note_request_def Let_def
    using row peer_bounds [of headers] by (intro wf_put [OF assms]) (auto simp: wf_presence_def)
  with Some show ?thesis by (simp add: note_peer_def)
qed

lemma wf_opened:
  assumes "wf_roster reg" "node_id node = Inr node" "ins = [] \<or> node_id ins = Inr ins"
  shows "wf_roster (snd (stream_opened now node ins reg))"
  using wf_entry [OF assms(1,2)] assms
  by (auto simp: stream_opened_def Let_def wf_presence_def intro!: wf_put)

lemma wf_closed: "wf_roster reg \<Longrightarrow> node_id node = Inr node \<Longrightarrow> wf_roster (stream_closed now node ins reg)"
  using wf_entry [of reg node] by (auto simp: stream_closed_def Let_def wf_presence_def intro!: wf_put)

lemma wf_packed: "wf_roster reg \<Longrightarrow> node_id node = Inr node \<Longrightarrow> wf_roster (note_pack_delivered now node reg)"
  using wf_entry [of reg node] by (auto simp: note_pack_delivered_def Let_def wf_presence_def intro!: wf_put)

lemma snapshot_registry: "take_snapshot S now scan st = (listed, st') \<Longrightarrow> as_registry st' = as_registry st"
  by (auto simp: take_snapshot_def Let_def split: prod.splits)

lemma pack_registry:
  "replication_pack S now c t have headers st = (x, st') \<Longrightarrow>
     as_registry st' = as_registry st \<or>
     (\<exists>node. ph_node_id (peer_identity headers) = Some node \<and> as_registry st' = note_pack_delivered now node (as_registry st))"
  by (auto simp: replication_pack_def bind_act_def split: sum.splits option.splits prod.splits)

text \<open>
  C38: whatever headers a peer sends, no route and no end of a stream puts anything into the roster
  but rows of that shape, one per id, in order.
\<close>

theorem roster_well_formed:
  assumes wf: "wf_roster (as_registry st)"
  shows "wf_roster (as_registry (snd (replication_state S now scan headers st))) \<and>
    wf_roster (as_registry (snd (replication_health_route S now scan headers st))) \<and>
    wf_roster (as_registry (snd (replication_pack S now c t have headers st))) \<and>
    wf_roster (as_registry (snd (open_events now headers st))) \<and>
    wf_roster (snd (stream_task encode now (peer_identity headers) hello sent heard (as_registry st)))"
proof (intro conjI)
  note noted = wf_noted [OF wf, of now headers]
  show "wf_roster (as_registry (snd (replication_state S now scan headers st)))"
    using noted by (auto simp: replication_state_def Let_def split: prod.split dest: snapshot_registry)
  show "wf_roster (as_registry (snd (replication_health_route S now scan headers st)))"
    using noted by (auto simp: replication_health_route_def health_for_def Let_def split: prod.split dest: snapshot_registry)
  show "wf_roster (as_registry (snd (replication_pack S now c t have headers st)))"
    using pack_registry [OF prod.collapse [symmetric], of S now c t "have" headers st] wf wf_packed [OF wf] peer_bounds(1) by metis
  show "wf_roster (as_registry (snd (open_events now headers st)))"
  proof (cases "ph_node_id (peer_identity headers)")
    case None
    then show ?thesis using wf by (simp add: open_events_def)
  next
    case (Some node)
    let ?ins = "case ph_instance (peer_identity headers) of None \<Rightarrow> [] | Some i \<Rightarrow> i"
    have "wf_roster (snd (stream_opened now node ?ins (as_registry (note_peer now (peer_identity headers) st))))"
      by (rule wf_opened [OF noted peer_bounds(1) [OF Some]]) (auto split: option.split dest: peer_bounds(2))
    then show ?thesis
      by (auto simp: open_events_def Let_def Some with_node_def split: prod.splits sum.splits)
  qed
  show "wf_roster (snd (stream_task encode now (peer_identity headers) hello sent heard (as_registry st)))"
    using wf wf_closed [OF wf] peer_bounds(1) by (auto simp: stream_task_def split: prod.split option.split)
qed

theorem roster_well_formed_witness:
  "wf_roster (as_registry (snd (open_events 5 [NODE_ID_HEADER \<mapsto> ''b'', INSTANCE_HEADER \<mapsto> ''11'']
     (sample_state Master True demo_disk))))"
proof -
  have "wf_roster (as_registry (sample_state Master True demo_disk))"
    by (simp add: sample_state_def wf_roster_def ordered_def)
  then show ?thesis
    using roster_well_formed [of "sample_state Master True demo_disk"] by blast
qed

end
