(* ===== verification/Guard.thy ===== *)
theory Guard
  imports Routes_Write Routes_Read Routes_Replay Routes_Replication
begin

text \<open>
  \<open>src/middleware.rs\<close> and the route tables of \<open>src/main.rs\<close>: from a request to its handler. The
  router is axum's and a parameter (\<open>router\<close>), which \<open>routes_of\<close> ties to the tables; so is the
  percent-decoding of what a route captures. What serde and axum's extractors make of the body
  and the query string comes with the request. axum runs the layers once a path has matched, so a
  path no route matches reaches none of them and a method its route does not serve reaches both.
\<close>

section \<open>Requests\<close>

datatype http_method = GET | HEAD | OPTIONS | POST | PUT | DELETE | OtherMethod string

record http_request =
  hr_method :: http_method
  hr_path :: string
  hr_authorization :: "string option" \<comment> \<open>the header, when its value is readable text\<close>
  hr_have :: "string option" \<comment> \<open>the query of a pack request\<close>
  hr_headers :: headers

text \<open>Each field is what the extractor of that route answers: its rejection, or the value.\<close>

record extracted =
  ex_list_files :: "string + list_files_query"
  ex_count_files :: "string + count_files_query"
  ex_seek :: "string + seek_options"
  ex_batch :: "string + batch_read_request"
  ex_exists :: "string + bool option"
  ex_write :: "string + write_file_request"
  ex_delete :: "string + delete_file_request"
  ex_json :: "string + unit"
  ex_move :: "string + move_file_request"
  ex_reorder :: "string + reorder_file_request"
  ex_replay :: "string + replay_hook_request"
  ex_order :: "string + write_order_request"
  ex_plain :: "string + plain_request"
  ex_commits :: "string + list_commits_query"

datatype reply =
    Unauthorized
  | LockedReadOnly
  | Bootstrapping nat
  | NotRouted
  | Rejection string
  | Failure app_error
  | Pong "replica_ping option"
  | TenantDeleted string
  | FilesPage files_page
  | Counts file_counts
  | FileRead read_file_answer
  | BatchRead "(string \<times> string) option list"
  | Exists
  | Committed string
  | Replayed replay_answer
  | StoredOrder "string \<times> string list"
  | CommitsPage commits_page
  | CommitDetail commit_detail

section \<open>Guards\<close>

definition BEARER_PREFIX :: string where "BEARER_PREFIX = ''Bearer ''"

definition provided_key :: "http_request \<Rightarrow> string option" where
  "provided_key req =
     (case hr_authorization req of
        None \<Rightarrow> None
      | Some value \<Rightarrow>
          if starts_with value BEARER_PREFIX then Some (drop (length BEARER_PREFIX) value) else None)"

definition as_bytes :: "string \<Rightarrow> 8 word list" where
  "as_bytes s = map of_char s"

definition api_key_accepted :: "('o, 'x) service \<Rightarrow> http_request \<Rightarrow> bool" where
  "api_key_accepted S req =
     (case provided_key req of
        None \<Rightarrow> False
      | Some given \<Rightarrow> constant_time_eq (as_bytes given) (as_bytes (sc_api_key (cf_server (sv_config S)))))"

definition replication_key_accepted :: "('o, 'x) service \<Rightarrow> http_request \<Rightarrow> bool" where
  "replication_key_accepted S req =
     (case (cf_replication (sv_config S), provided_key req) of
        (Some c, Some given) \<Rightarrow> constant_time_eq (as_bytes given) (as_bytes (rc_secret c))
      | _ \<Rightarrow> False)"

definition is_read :: "http_method \<Rightarrow> string \<Rightarrow> bool" where
  "is_read m path =
     (case m of GET \<Rightarrow> True | HEAD \<Rightarrow> True | OPTIONS \<Rightarrow> True
      | POST \<Rightarrow> strip_tail ''/batch/files/read'' path \<noteq> None
      | _ \<Rightarrow> False)"

text \<open>The refusal of the guard, if any.\<close>

definition replica_read_only :: "http_method \<Rightarrow> string \<Rightarrow> 'o app_state \<Rightarrow> reply option" where
  "replica_read_only m path st =
     (let status = fo_status (as_node st) in
      if \<not> st_is_replica status then None
      else if \<not> is_read m path then Some LockedReadOnly
      else if \<not> (m = GET \<and> (path = ''/'' \<or> path = ''/v1'')) \<and> \<not> st_bootstrapped status then Some (Bootstrapping 5)
      else None)"

section \<open>Routes\<close>

datatype segment = Literal string | Capture | Rest

datatype endpoint =
    EndPing | EndDeleteTenant | EndListFiles | EndCountFiles | EndBatchRead
  | EndReadFile | EndFileExists | EndWriteFile | EndDeleteFile | EndPostFile | EndReplay
  | EndReadOrderRoot | EndWriteOrderRoot | EndDeleteOrderRoot | EndReadOrder | EndWriteOrder | EndDeleteOrder
  | EndListCommits | EndGetCommit | EndRevert | EndRollback

type_synonym 'e route_table = "(segment list \<times> (http_method \<times> 'e) list) list"

definition api_routes :: "endpoint route_table" where
  "api_routes =
     [([Literal ''''], [(GET, EndPing)]),
      ([Capture, Capture], [(DELETE, EndDeleteTenant)]),
      ([Capture, Capture, Literal ''files''], [(GET, EndListFiles)]),
      ([Capture, Capture, Literal ''count'', Literal ''files''], [(GET, EndCountFiles)]),
      ([Capture, Capture, Literal ''batch'', Literal ''files'', Literal ''read''], [(POST, EndBatchRead)]),
      ([Capture, Capture, Literal ''files'', Rest],
        [(GET, EndReadFile), (HEAD, EndFileExists), (PUT, EndWriteFile), (DELETE, EndDeleteFile), (POST, EndPostFile)]),
      ([Capture, Capture, Literal ''batch'', Literal ''replay'', Literal ''hook''], [(POST, EndReplay)]),
      ([Capture, Capture, Literal ''order''],
        [(GET, EndReadOrderRoot), (PUT, EndWriteOrderRoot), (DELETE, EndDeleteOrderRoot)]),
      ([Capture, Capture, Literal ''order'', Rest],
        [(GET, EndReadOrder), (PUT, EndWriteOrder), (DELETE, EndDeleteOrder)]),
      ([Capture, Capture, Literal ''commits''], [(GET, EndListCommits)]),
      ([Capture, Capture, Literal ''commits'', Capture], [(GET, EndGetCommit)]),
      ([Capture, Capture, Literal ''commits'', Capture, Literal ''revert''], [(POST, EndRevert)]),
      ([Capture, Capture, Literal ''commits'', Capture, Literal ''rollback''], [(POST, EndRollback)])]"

text \<open>A path's segments: what follows each slash.\<close>

definition segments :: "string \<Rightarrow> string list" where
  "segments path = tl (split_on CHR ''/'' path)"

fun captures :: "segment list \<Rightarrow> string list \<Rightarrow> string list option" where
  "captures [] [] = Some []"
| "captures [Rest] (s # ss) = Some [join_with CHR ''/'' (s # ss)]"
| "captures (Literal l # ps) (s # ss) = (if s = l then captures ps ss else None)"
| "captures (Capture # ps) (s # ss) = (if s = [] then None else map_option (\<lambda>cs. s # cs) (captures ps ss))"
| "captures _ _ = None"


text \<open>axum hands a HEAD without a handler of its own to the GET's.\<close>

definition endpoint_for :: "(http_method \<times> 'e) list \<Rightarrow> http_method \<Rightarrow> 'e option" where
  "endpoint_for methods m =
     (case map_of methods m of
        Some e \<Rightarrow> Some e
      | None \<Rightarrow> if m = HEAD then map_of methods GET else None)"

definition routes_of :: "'e route_table \<Rightarrow> (string \<Rightarrow> ((http_method \<times> 'e) list \<times> string list) option) \<Rightarrow> bool" where
  "routes_of table router \<longleftrightarrow>
     (\<forall>path. case router path of
        None \<Rightarrow> \<forall>(pattern, methods) \<in> set table. captures pattern (segments path) = None
      | Some (methods, raw) \<Rightarrow> \<exists>pattern. (pattern, methods) \<in> set table \<and> captures pattern (segments path) = Some raw)"

text \<open>Text without a percent sign decodes to itself, at the end of a longer text too.\<close>

definition percent_decoding :: "(string \<Rightarrow> string option) \<Rightarrow> bool" where
  "percent_decoding decode \<longleftrightarrow>
     (\<forall>b. CHR ''%'' \<notin> set b \<longrightarrow> decode b = Some b \<and>
        (\<forall>a. decode (a @ CHR ''/'' # b) = map_option (\<lambda>x. x @ CHR ''/'' # b) (decode a)))"

section \<open>The content API\<close>

definition replied :: "('a \<Rightarrow> reply) \<Rightarrow> app_error + 'a \<Rightarrow> reply" where
  "replied f answer = (case answer of Inl e \<Rightarrow> Failure e | Inr a \<Rightarrow> f a)"

text \<open>A handler runs on what its extractor answered, or the rejection is the reply.\<close>

definition handled ::
  "string + 'i \<Rightarrow> ('a \<Rightarrow> reply) \<Rightarrow> ('i \<Rightarrow> ('o, 'a) handler) \<Rightarrow> 'o app_state \<Rightarrow> reply \<times> 'o app_state" where
  "handled input f run st =
     (case input of
        Inl e \<Rightarrow> (Rejection e, st)
      | Inr i \<Rightarrow> (case run i st of (answer, st') \<Rightarrow> (replied f answer, st')))"

definition parameter :: "string list \<Rightarrow> nat \<Rightarrow> string" where
  "parameter args i = (if i < length args then args ! i else [])"

text \<open>The root's order has the empty directory: its routes capture no third segment.\<close>

definition answer ::
  "('o, 'x) service \<Rightarrow> int \<Rightarrow> endpoint \<Rightarrow> string list \<Rightarrow> extracted \<Rightarrow> 'o app_state \<Rightarrow> reply \<times> 'o app_state" where
  "answer S now e args x st =
     (let c = parameter args 0; t = parameter args 1; p = parameter args 2 in
      case e of
        EndPing \<Rightarrow> (Pong (ping st), st)
      | EndDeleteTenant \<Rightarrow> handled (Inr ()) TenantDeleted (\<lambda>_. delete_tenant S c t) st
      | EndListFiles \<Rightarrow> handled (ex_list_files x) FilesPage (list_files_route S c t) st
      | EndCountFiles \<Rightarrow> handled (ex_count_files x) Counts (count_files_route S c t) st
      | EndBatchRead \<Rightarrow> handled (ex_batch x) BatchRead (batch_read_files_route S c t) st
      | EndReadFile \<Rightarrow> handled (ex_seek x) FileRead (read_file_route S c t p) st
      | EndFileExists \<Rightarrow> handled (ex_exists x) (\<lambda>_. Exists) (file_exists_route S c t p) st
      | EndWriteFile \<Rightarrow> handled (ex_write x) Committed (put_file S now c t p) st
      | EndDeleteFile \<Rightarrow> handled (ex_delete x) Committed (delete_file_route S now c t p) st
      | EndPostFile \<Rightarrow> handled (ex_json x) Committed (\<lambda>_. post_file S now c t p (ex_move x) (ex_reorder x)) st
      | EndReplay \<Rightarrow> handled (ex_replay x) Replayed (replay_hook S now c t) st
      | EndReadOrderRoot \<Rightarrow> handled (Inr ()) StoredOrder (\<lambda>_. read_order_route S c t []) st
      | EndReadOrder \<Rightarrow> handled (Inr ()) StoredOrder (\<lambda>_. read_order_route S c t p) st
      | EndWriteOrderRoot \<Rightarrow> handled (ex_order x) Committed (write_order_route S now c t []) st
      | EndWriteOrder \<Rightarrow> handled (ex_order x) Committed (write_order_route S now c t p) st
      | EndDeleteOrderRoot \<Rightarrow> handled (ex_plain x) Committed (delete_order_route S now c t []) st
      | EndDeleteOrder \<Rightarrow> handled (ex_plain x) Committed (delete_order_route S now c t p) st
      | EndListCommits \<Rightarrow> handled (ex_commits x) CommitsPage (list_commits_route S c t) st
      | EndGetCommit \<Rightarrow> handled (Inr ()) CommitDetail (\<lambda>_. get_commit_route S c t p) st
      | EndRevert \<Rightarrow> handled (ex_plain x) Committed (revert_commit_route S now c t p) st
      | EndRollback \<Rightarrow> handled (ex_plain x) Committed (rollback_commit_route S now c t p) st)"

text \<open>A request below \<open>/v1\<close>, its path as the nested router hands it on.\<close>

definition serve_api ::
  "(string \<Rightarrow> ((http_method \<times> endpoint) list \<times> string list) option) \<Rightarrow> (string \<Rightarrow> string option) \<Rightarrow>
     ('o, 'x) service \<Rightarrow> int \<Rightarrow> http_request \<Rightarrow> extracted \<Rightarrow> 'o app_state \<Rightarrow> reply \<times> 'o app_state" where
  "serve_api router decode S now req x st =
     (case router (hr_path req) of
        None \<Rightarrow> (NotRouted, st)
      | Some (methods, raw) \<Rightarrow>
          if \<not> api_key_accepted S req then (Unauthorized, st)
          else (case replica_read_only (hr_method req) (hr_path req) st of
              Some refusal \<Rightarrow> (refusal, st)
            | None \<Rightarrow>
                (case endpoint_for methods (hr_method req) of
                   None \<Rightarrow> (NotRouted, st)
                 | Some e \<Rightarrow>
                     (case those (map decode raw) of
                        None \<Rightarrow> (Rejection ''Invalid URL'', st)
                      | Some args \<Rightarrow> answer S now e args x st))))"

section \<open>The replication server\<close>

text \<open>What the scan of the disk answers comes with the request.\<close>

datatype peer_endpoint = PeerState | PeerHealth | PeerEvents | PeerPack

definition replication_routes :: "peer_endpoint route_table" where
  "replication_routes =
     [([Literal ''state''], [(GET, PeerState)]),
      ([Literal ''health''], [(GET, PeerHealth)]),
      ([Literal ''events''], [(GET, PeerEvents)]),
      ([Capture, Capture, Literal ''pack''], [(GET, PeerPack)])]"

datatype peer_reply =
    PeerUnauthorized
  | PeerNotRouted
  | PeerRejection string
  | PeerStateIs state_answer
  | PeerHealthIs replication_health
  | PeerEventsAre events_answer
  | PeerPackIs "app_error + string \<times> string option"

definition answer_peer ::
  "('o, 'x) service \<Rightarrow> int \<Rightarrow> repository_scan \<Rightarrow> http_request \<Rightarrow> peer_endpoint \<Rightarrow> string list \<Rightarrow>
     'o app_state \<Rightarrow> peer_reply \<times> 'o app_state" where
  "answer_peer S now scan req e args st =
     (case e of
        PeerState \<Rightarrow> map_prod PeerStateIs id (replication_state S now scan (hr_headers req) st)
      | PeerHealth \<Rightarrow> map_prod PeerHealthIs id (replication_health_route S now scan (hr_headers req) st)
      | PeerEvents \<Rightarrow> map_prod PeerEventsAre id (open_events now (hr_headers req) st)
      | PeerPack \<Rightarrow> map_prod PeerPackIs id
          (replication_pack S now (parameter args 0) (parameter args 1) (hr_have req) (hr_headers req) st))"

text \<open>A request below \<open>/_replication\<close>.\<close>

definition serve_peer ::
  "(string \<Rightarrow> ((http_method \<times> peer_endpoint) list \<times> string list) option) \<Rightarrow> (string \<Rightarrow> string option) \<Rightarrow>
     ('o, 'x) service \<Rightarrow> int \<Rightarrow> repository_scan \<Rightarrow> http_request \<Rightarrow> 'o app_state \<Rightarrow> peer_reply \<times> 'o app_state" where
  "serve_peer router decode S now scan req st =
     (case router (hr_path req) of
        None \<Rightarrow> (PeerNotRouted, st)
      | Some (methods, raw) \<Rightarrow>
          if \<not> replication_key_accepted S req then (PeerUnauthorized, st)
          else (case endpoint_for methods (hr_method req) of
              None \<Rightarrow> (PeerNotRouted, st)
            | Some e \<Rightarrow>
                (case those (map decode raw) of
                   None \<Rightarrow> (PeerRejection ''Invalid URL'', st)
                 | Some args \<Rightarrow> answer_peer S now scan req e args st)))"

end
