(* ===== verification/Guard_Facts.thy ===== *)
theory Guard_Facts
  imports Guard Read_Facts
begin

text \<open>
  What the guards of the content API keep out: a request without the key reaches no handler, and
  a replica changes nothing for a request that has it.
\<close>

section \<open>Keys\<close>

lemma as_bytes_same: "as_bytes a = as_bytes b \<longleftrightarrow> a = b"
proof -
  have inj: "inj (of_char :: char \<Rightarrow> 8 word)"
  proof (rule injI)
    fix a b :: char
    assume "of_char a = (of_char b :: 8 word)"
    then have "unat (of_nat (of_char a) :: 8 word) = unat (of_nat (of_char b) :: 8 word)"
      by (simp only: of_nat_of_char)
    then have "of_char a = (of_char b :: nat)"
      using nat_of_char_less_256 [of a] nat_of_char_less_256 [of b] by (simp add: unat_of_nat)
    then show "a = b" by (metis char_of_char)
  qed
  then show ?thesis by (simp add: as_bytes_def inj_map_eq_map)
qed

lemma api_key_accepted_iff:
  "api_key_accepted S req \<longleftrightarrow> hr_authorization req = Some (BEARER_PREFIX @ sc_api_key (cf_server (sv_config S)))"
  by (auto simp: api_key_accepted_def provided_key_def constant_time_eq_decides_equality as_bytes_same
      starts_with_def split: option.splits) (metis append_take_drop_id)+

section \<open>Routes\<close>

lemma captures_iff:
  "captures [] segs = Some raw \<longleftrightarrow> segs = [] \<and> raw = []"
  "captures [Rest] segs = Some raw \<longleftrightarrow> segs \<noteq> [] \<and> raw = [join_with CHR ''/'' segs]"
  "captures (Literal l # ps) segs = Some raw \<longleftrightarrow> (\<exists>ss. segs = l # ss \<and> captures ps ss = Some raw)"
  "captures (Capture # ps) segs = Some raw \<longleftrightarrow>
     (\<exists>s ss cs. segs = s # ss \<and> s \<noteq> [] \<and> raw = s # cs \<and> captures ps ss = Some cs)"
  by (cases segs; auto)+

lemma strip_tail_Some: "strip_tail tail s = Some a \<longleftrightarrow> s = a @ tail"
  by (auto simp: strip_tail_def) (metis append_take_drop_id)

lemma strip_tail_last: "strip_tail tail s = Some a \<Longrightarrow> tail \<noteq> [] \<Longrightarrow> last s = last tail"
  by (simp add: strip_tail_Some)

lemma batch_path_last:
  assumes "strip_tail ''/batch/files/read'' path = Some a"
  shows "last (segments path) = ''read''"
proof -
  have "path = (a @ ''/batch/files'') @ CHR ''/'' # ''read''" using assms by (simp add: strip_tail_Some)
  then have "split_on CHR ''/'' path = split_on CHR ''/'' (a @ ''/batch/files'') @ split_on CHR ''/'' ''read''"
    using split_on_append_sep by metis
  then show ?thesis by (simp add: segments_def)
qed

definition read_endpoint :: "endpoint \<Rightarrow> bool" where
  "read_endpoint e \<longleftrightarrow> e \<in> {EndPing, EndListFiles, EndCountFiles, EndBatchRead, EndReadFile, EndFileExists,
     EndReadOrderRoot, EndReadOrder, EndListCommits, EndGetCommit}"

lemma reads_reach:
  assumes router: "routes_of api_routes router" "router path = Some (methods, raw)"
    and m: "is_read m path" "endpoint_for methods m = Some e"
  shows "read_endpoint e \<or>
    (e = EndPostFile \<and> (\<exists>c t segs. raw = [c, t, join_with CHR ''/'' segs] \<and> segs \<noteq> [] \<and> last segs = ''read''))"
proof -
  obtain pattern where p: "(pattern, methods) \<in> set api_routes" "captures pattern (segments path) = Some raw"
    using router by (auto simp: routes_of_def dest!: spec [of _ path])
  show ?thesis
  proof (cases "m = POST")
    case True
    with m have "last (segments path) = ''read''" by (auto simp: is_read_def dest: batch_path_last)
    with p m True show ?thesis
      by (auto simp: api_routes_def endpoint_for_def read_endpoint_def captures_iff split: if_splits) blast
  next
    case False
    with p m show ?thesis
      by (auto simp: api_routes_def endpoint_for_def read_endpoint_def is_read_def
          split: if_splits http_method.splits)
  qed
qed

lemma root_reaches_ping:
  assumes router: "routes_of api_routes router" "router path = Some (methods, raw)"
    and m: "path = ''/'' \<or> path = ''/v1''" "endpoint_for methods GET = Some e"
  shows "e = EndPing \<and> raw = []"
proof -
  obtain pattern where p: "(pattern, methods) \<in> set api_routes" "captures pattern (segments path) = Some raw"
    using router by (auto simp: routes_of_def dest!: spec [of _ path])
  have "segments path = [[]] \<or> segments path = [''v1'']" using m(1) by (auto simp: segments_def)
  with p m(2) show ?thesis by (auto simp: api_routes_def endpoint_for_def captures_iff)
qed

section \<open>Handlers\<close>

definition write_reply :: "reply \<Rightarrow> bool" where
  "write_reply r \<longleftrightarrow> (case r of Committed _ \<Rightarrow> True | Replayed _ \<Rightarrow> True | TenantDeleted _ \<Rightarrow> True | _ \<Rightarrow> False)"

lemma handled_inert:
  assumes "handled input f run st = (r, st')" "\<And>i. inert (run i)" "\<And>a. \<not> write_reply (f a)"
  shows "st' = st \<and> \<not> write_reply r"
  using assms
  by (auto simp: handled_def replied_def write_reply_def dest: inertD split: sum.splits prod.splits)

lemma reads_inert:
  assumes run: "answer S now e args x st = (r, st')" and e: "read_endpoint e"
  shows "st' = st \<and> \<not> write_reply r"
proof (cases "e = EndPing")
  case True
  with run show ?thesis by (auto simp: answer_def write_reply_def)
next
  case False
  then show ?thesis
    using run e unfolding read_endpoint_def answer_def Let_def
    by (elim insertE emptyE; simp) (erule handled_inert; simp add: inert_routes write_reply_def; fail)+
qed

lemma refused_post_inert:
  assumes run: "answer S now EndPostFile args x st = (r, st')"
    and p: "parameter args 2 \<noteq> []" "last (parameter args 2) = CHR ''d''"
  shows "st' = st \<and> \<not> write_reply r"
proof -
  have "strip_tail ''/move'' (parameter args 2) = None" "strip_tail ''/reorder'' (parameter args 2) = None"
    using p by (auto simp: strip_tail_Some simp flip: not_Some_eq)
  with run show ?thesis
    by (auto simp: answer_def Let_def handled_def replied_def post_file_def act_err_def write_reply_def split: sum.splits)
qed

lemma percent_decodingD:
  assumes "percent_decoding decode" "CHR ''%'' \<notin> set b"
  shows "decode b = Some b" "decode (a @ CHR ''/'' # b) = map_option (\<lambda>x. x @ CHR ''/'' # b) (decode a)"
  using assms by (auto simp: percent_decoding_def)

lemma captured_tail:
  assumes "percent_decoding decode" "decode (join_with CHR ''/'' segs) = Some y" "segs \<noteq> []" "last segs = ''read''"
  shows "y \<noteq> [] \<and> last y = CHR ''d''"
proof -
  have plain: "CHR ''%'' \<notin> set ''read''" by simp
  obtain pre where segs: "segs = pre @ [''read'']" using assms(3,4) by (metis append_butlast_last_id)
  show ?thesis
  proof (cases "pre = []")
    case True
    with assms(2) percent_decodingD(1) [OF assms(1) plain] segs have "y = ''read''" by simp
    then show ?thesis by simp
  next
    case False
    then have "join_with CHR ''/'' segs = join_with CHR ''/'' pre @ CHR ''/'' # ''read''"
      by (simp add: segs join_with_append)
    then have "map_option (\<lambda>x. x @ CHR ''/'' # ''read'') (decode (join_with CHR ''/'' pre)) = Some y"
      using assms(2) percent_decodingD [OF assms(1) plain] by metis
    then obtain z where "y = z @ CHR ''/'' # ''read''" by auto
    then show ?thesis by simp
  qed
qed

section \<open>A replica\<close>

lemma replica_answer_inert:
  assumes router: "routes_of api_routes router" and decode: "percent_decoding decode"
    and route: "router path = Some (methods, raw)" and m: "is_read m path" "endpoint_for methods m = Some e"
    and args: "those (map decode raw) = Some args" and run: "answer S now e args x st = (r, st')"
  shows "st' = st \<and> \<not> write_reply r"
  using reads_reach [OF router route m]
proof (elim disjE conjE exE)
  assume "read_endpoint e"
  then show ?thesis by (rule reads_inert [OF run])
next
  fix c t segs
  assume e: "e = EndPostFile" "raw = [c, t, join_with CHR ''/'' segs]" and segs: "segs \<noteq> []" "last segs = ''read''"
  obtain c' t' y where y: "args = [c', t', y]" "decode (join_with CHR ''/'' segs) = Some y"
    using args e(2) by (auto split: option.splits)
  with captured_tail [OF decode y(2) segs] show ?thesis
    using run e(1) by (intro refused_post_inert) (auto simp: parameter_def)
qed

lemma cold_lets_ping:
  assumes cold: "st_is_replica (fo_status (as_node st))" "\<not> st_bootstrapped (fo_status (as_node st))"
    and open_: "replica_read_only m path st = None"
    and router: "routes_of api_routes router" and route: "router path = Some (methods, raw)"
    and e: "endpoint_for methods m = Some e"
  shows "e = EndPing \<and> raw = []"
proof -
  have "m = GET" "path = ''/'' \<or> path = ''/v1''"
    using cold open_ by (auto simp: replica_read_only_def Let_def split: if_splits)
  with e show ?thesis by (intro root_reaches_ping [OF router route]) auto
qed

text \<open>
  C39: a request for the content API without the server's key is answered as unauthorized, on any
  node. A replica leaves its state as it is whatever the request, and never answers as for a write;
  until it has been bootstrapped it lets nothing through but the ping.
\<close>

theorem replica_is_read_only:
  assumes router: "routes_of api_routes router" and decode: "percent_decoding decode"
    and run: "serve_api router decode S now req x st = (reply, st')"
  shows "(hr_authorization req \<noteq> Some (BEARER_PREFIX @ sc_api_key (cf_server (sv_config S))) \<longrightarrow>
      st' = st \<and> reply \<in> {NotRouted, Unauthorized}) \<and>
    (st_is_replica (fo_status (as_node st)) \<longrightarrow>
      st' = st \<and> \<not> write_reply reply \<and>
      (\<not> st_bootstrapped (fo_status (as_node st)) \<longrightarrow>
         reply \<in> {NotRouted, Unauthorized, LockedReadOnly, Bootstrapping 5, Pong (ping st)}))"
proof -
  consider (out) "st' = st" "reply \<in> {NotRouted, Unauthorized}"
    | (refused) "st' = st" "Some reply = replica_read_only (hr_method req) (hr_path req) st" "api_key_accepted S req"
    | (served) methods raw e args where "router (hr_path req) = Some (methods, raw)" "api_key_accepted S req"
        "replica_read_only (hr_method req) (hr_path req) st = None" "endpoint_for methods (hr_method req) = Some e"
        "those (map decode raw) = Some args" "answer S now e args x st = (reply, st')"
    | (undecoded) methods raw e where "router (hr_path req) = Some (methods, raw)" "api_key_accepted S req"
        "replica_read_only (hr_method req) (hr_path req) st = None" "endpoint_for methods (hr_method req) = Some e"
        "those (map decode raw) = None" "reply = Rejection ''Invalid URL''" "st' = st"
    using run unfolding serve_api_def by (auto split: option.splits prod.splits if_splits)
  then show ?thesis
  proof cases
    case out
    then show ?thesis by (auto simp: write_reply_def)
  next
    case refused
    then show ?thesis
      by (auto simp: write_reply_def api_key_accepted_iff replica_read_only_def Let_def split: if_splits)
  next
    case (served methods raw e args)
    have "st' = st \<and> \<not> write_reply reply" if "st_is_replica (fo_status (as_node st))"
    proof (rule replica_answer_inert [OF router decode served(1) _ served(4,5,6)])
      show "is_read (hr_method req) (hr_path req)"
        using that served(3) by (auto simp: replica_read_only_def Let_def split: if_splits)
    qed
    moreover have "reply = Pong (ping st)"
      if "st_is_replica (fo_status (as_node st))" "\<not> st_bootstrapped (fo_status (as_node st))"
      using cold_lets_ping [OF that served(3) router served(1,4)] served(6) by (auto simp: answer_def)
    ultimately show ?thesis using served(2) by (auto simp: api_key_accepted_iff)
  next
    case (undecoded methods raw e)
    have "st_bootstrapped (fo_status (as_node st))" if "st_is_replica (fo_status (as_node st))"
      using cold_lets_ping [OF that _ undecoded(3) router undecoded(1,4)] undecoded(5) by fastforce
    with undecoded show ?thesis by (auto simp: write_reply_def api_key_accepted_iff)
  qed
qed

text \<open>A router that takes the first pattern that matches, and a replica that holds nothing yet.\<close>

fun first_route :: "'e route_table \<Rightarrow> string list \<Rightarrow> ((http_method \<times> 'e) list \<times> string list) option" where
  "first_route [] segs = None"
| "first_route ((pattern, methods) # table) segs =
     (case captures pattern segs of
        Some raw \<Rightarrow> Some (methods, raw)
      | None \<Rightarrow> first_route table segs)"

definition sample_router :: "string \<Rightarrow> ((http_method \<times> endpoint) list \<times> string list) option" where
  "sample_router path = first_route api_routes (segments path)"

definition sample_decode :: "string \<Rightarrow> string option" where
  "sample_decode s = (if CHR ''%'' \<in> set s then None else Some s)"

definition no_body :: extracted where
  "no_body = \<lparr>ex_list_files = Inl [], ex_count_files = Inl [], ex_seek = Inl [], ex_batch = Inl [], ex_exists = Inl [],
     ex_write = Inl [], ex_delete = Inl [], ex_json = Inl [], ex_move = Inl [], ex_reorder = Inl [], ex_replay = Inl [],
     ex_order = Inl [], ex_plain = Inl [], ex_commits = Inl []\<rparr>"

definition sample_put :: http_request where
  "sample_put = \<lparr>hr_method = PUT, hr_path = ''/acme/docs/files/a.md'', hr_authorization = Some ''Bearer key'',
     hr_have = None, hr_headers = (\<lambda>_. None)\<rparr>"

lemma sample_routes: "routes_of api_routes sample_router"
proof -
  have "case first_route table segs of
        None \<Rightarrow> \<forall>(pattern, methods) \<in> set table. captures pattern segs = None
      | Some (methods, raw) \<Rightarrow> \<exists>pattern. (pattern, methods) \<in> set table \<and> captures pattern segs = Some raw"
    for table :: "endpoint route_table" and segs
    by (induction table segs rule: first_route.induct) (auto split: option.splits)
  then show ?thesis unfolding routes_of_def sample_router_def by blast
qed

lemma sample_decoding: "percent_decoding sample_decode"
  by (auto simp: percent_decoding_def sample_decode_def)

theorem replica_is_read_only_witness:
  "\<forall>bootstrapped.
     let st = sample_state Replica bootstrapped demo_disk;
       (reply, st') = serve_api sample_router sample_decode (sample_service Replica) 0 sample_put no_body st
     in st' = st \<and> reply = LockedReadOnly"
proof
  fix b
  let ?st = "sample_state Replica b demo_disk"
  let ?run = "serve_api sample_router sample_decode (sample_service Replica) 0 sample_put no_body ?st"
  have role: "st_is_replica (fo_status (as_node ?st))" by (simp add: sample_state_def sample_status_def)
  have "sample_router (hr_path sample_put) \<noteq> None" by code_simp
  moreover have "api_key_accepted (sample_service Replica) sample_put"
    by (simp add: api_key_accepted_iff) (simp add: sample_put_def BEARER_PREFIX_def)
  moreover have "hr_method sample_put = PUT" by (simp add: sample_put_def)
  ultimately have "fst ?run = LockedReadOnly"
    using role by (auto simp: serve_api_def replica_read_only_def is_read_def Let_def)
  moreover have "snd ?run = ?st"
    using replica_is_read_only [OF sample_routes sample_decoding, of "sample_service Replica" 0 sample_put no_body ?st] role
    by (metis prod.collapse)
  ultimately show "let st = ?st; (reply, st') = serve_api sample_router sample_decode (sample_service Replica) 0
      sample_put no_body st in st' = st \<and> reply = LockedReadOnly"
    by (simp add: Let_def split_def)
qed

end
