(* ===== verification/Startup.thy ===== *)
theory Startup
  imports Server
begin

text \<open>
  \<open>main\<close>, \<open>AppState::new\<close> and the \<open>spawn\<close> functions: how a node starts on the disk a previous
  process left. What a spawned task does once it runs is modelled where the task is
  (\<open>heal_on_start\<close>, \<open>rescan_locked\<close>, \<open>start_worker\<close>, \<open>stream_turn\<close>); here it is a name in the list
  of tasks. Binding a socket, parsing the command line and the logs are the process's.
\<close>

section \<open>Configuration\<close>

text \<open>The file's contents or the reason it cannot be read; \<open>toml\<close>'s parser is a parameter.\<close>

definition load_config ::
  "string + string \<Rightarrow> (string \<Rightarrow> string + config) \<Rightarrow> (string \<Rightarrow> path_probe) \<Rightarrow> (string \<Rightarrow> string option) \<Rightarrow> string \<Rightarrow>
     string list + config" where
  "load_config contents parse_toml probe url_scheme config_path =
     (case contents of
        Inl e \<Rightarrow> Inl [''Cannot read config file '' @ [CHR 0x27] @ config_path @ [CHR 0x27] @ '': '' @ e]
      | Inr raw \<Rightarrow>
          (case parse_toml raw of
             Inl e \<Rightarrow> Inl [''Invalid config file '' @ [CHR 0x27] @ config_path @ [CHR 0x27] @ '': '' @ e]
           | Inr c \<Rightarrow>
               (case validate probe url_scheme c of
                  Inl errors \<Rightarrow> Inl (map (\<lambda>e. ''Config error: '' @ e) errors)
                | Inr _ \<Rightarrow> Inr c)))"

section \<open>State\<close>

text \<open>What a process finds on its disk, and what it leaves there.\<close>

record 'o on_disk =
  od_store :: "'o store"
  od_identity :: identity_files
  od_incoming :: "string list option" \<comment> \<open>the directory of downloads, when there is one\<close>

text \<open>\<open>AppState::new\<close>, on the store and the identity file as they are by then.\<close>

definition new_app_state ::
  "config \<Rightarrow> replication_identity_state \<Rightarrow> identity_files \<Rightarrow> 'o store \<Rightarrow> 'o app_state" where
  "new_app_state c identity files s =
     \<lparr>as_node =
        \<lparr>fo_store = s, fo_index = new_index, fo_issues = [], fo_status = new_replica_status c,
         fo_identity = identity, fo_files = files, fo_pending = [], fo_reconcile_requested = False,
         fo_woken = False, fo_downloads = 0, fo_published = [], fo_maintenance = []\<rparr>,
      as_queues = \<lparr>hq_pending = (\<lambda>_. None), hq_effects = (\<lambda>_. [])\<rparr>,
      as_registry = []\<rparr>"

section \<open>Sweeps\<close>

text \<open>The downloads in flight land in a directory of their own. Its removal leaves nothing,
  or what a failure left of it.\<close>

definition cleanup_incoming_packs :: "(string list \<Rightarrow> string list option) \<Rightarrow> string list option \<Rightarrow> string list option" where
  "cleanup_incoming_packs remove_dir_all incoming =
     (case incoming of None \<Rightarrow> None | Some names \<Rightarrow> remove_dir_all names)"

section \<open>Tasks\<close>

datatype task = HealWorkingTrees | RescanIndex | EventStream string | FollowerWorker string

definition heal_tasks :: "config \<Rightarrow> task list" where
  "heal_tasks c =
     (if \<not> sc_checkout_files (cf_server c) then []
      else if \<not> sc_checkout_files_autoheal (cf_server c) then []
      else [HealWorkingTrees])"

definition INSTANCE_BYTES :: nat where "INSTANCE_BYTES = 16"

text \<open>
  \<open>ReplicaFollower::new\<close>: the process's token, and the follower's part of the state. \<open>client\<close> is
  the error building the HTTP clients ends with, if any.
\<close>

definition new_follower ::
  "('o, 'x) service \<Rightarrow> string option \<Rightarrow> 'o app_state \<Rightarrow> string + string \<times> 'o app_state" where
  "new_follower S client st =
     and_then (generate_hex (sv_identity S) INSTANCE_BYTES) (\<lambda>ins.
       (case client of
          Some e \<Rightarrow> Inl e
        | None \<Rightarrow> Inr (ins, st\<lparr>as_node := (as_node st)
            \<lparr>fo_pending := [], fo_woken := False, fo_reconcile_requested := True, fo_downloads := 0\<rparr>\<rparr>)))"

definition trim_end_slashes :: "string \<Rightarrow> string" where
  "trim_end_slashes s = rev (dropWhile (\<lambda>c. c = CHR ''/'') (rev s))"

definition spawn_replication ::
  "('o, 'x) service \<Rightarrow> string option \<Rightarrow> 'o app_state \<Rightarrow> task list \<times> 'o app_state" where
  "spawn_replication S client st =
     (case cf_replication (sv_config S) of
        None \<Rightarrow> ([], st)
      | Some replication \<Rightarrow>
          if \<not> is_replica replication then ([RescanIndex], st)
          else (case rc_master_url replication of
              None \<Rightarrow> ([RescanIndex], st)
            | Some url \<Rightarrow>
                (case new_follower S client st of
                   Inl _ \<Rightarrow> ([RescanIndex], st)
                 | Inr (_, st') \<Rightarrow>
                     ([RescanIndex, EventStream (trim_end_slashes url), FollowerWorker (trim_end_slashes url)], st'))))"

text \<open>The addresses of the two listeners; the second exists where replication is configured.\<close>

definition api_address :: "config \<Rightarrow> string" where
  "api_address c = sc_host (cf_server c) @ '':'' @ show_nat (sc_port (cf_server c))"

definition replication_address :: "config \<Rightarrow> string option" where
  "replication_address c =
     map_option (\<lambda>r. replication_host r (cf_server c) @ '':'' @ show_nat (rc_port r)) (cf_replication c)"

section \<open>Start-up\<close>

text \<open>From a loaded configuration to the state the listeners serve; an identity file that cannot
  be trusted stops the process.\<close>

definition boot ::
  "('o, 'x) service \<Rightarrow> (string list \<Rightarrow> string list option) \<Rightarrow> string option \<Rightarrow> 'o on_disk \<Rightarrow>
     (string + 'o app_state \<times> task list) \<times> 'o on_disk" where
  "boot S remove_dir_all client disk =
     (let c = sv_config S;
          s = cleanup_abandoned (sv_os S) (cleanup_all_stale_locks (sv_os S) (od_store disk));
          disk = disk\<lparr>od_store := s, od_incoming := cleanup_incoming_packs remove_dir_all (od_incoming disk)\<rparr>
      in case load_identity (sv_identity S) (sc_repos_path (cf_server c) @ ''/'' @ IDENTITY_FILE) c (od_identity disk) of
           (Inl e, files) \<Rightarrow> (Inl e, disk\<lparr>od_identity := files\<rparr>)
         | (Inr identity, files) \<Rightarrow>
             (case spawn_replication S client (new_app_state c identity files s) of
                (tasks, st) \<Rightarrow> (Inr (st, heal_tasks c @ tasks), disk\<lparr>od_identity := files\<rparr>)))"

end
