(* ===== verification/Startup_Facts.thy ===== *)
theory Startup_Facts
  imports Startup Service_Instance Staging_Facts
begin

text \<open>
  What a restart keeps and what it clears away: the tenants and the identity on the one side, the
  staging siblings and index locks of the previous process on the other; and when a restarted
  replica serves.
\<close>

section \<open>The sweeps\<close>

lemma discard_staging_locks: "sr_locks (discard_staging fs c names s) = sr_locks s"
  by (induction names arbitrary: s) (auto simp: discard_def split: option.splits)

lemma sweep_locks: "sr_locks (cleanup_abandoned fs s) = sr_locks s"
proof -
  have "sr_locks (sweep_collections fs cs s) = sr_locks s" for cs
    by (induction cs arbitrary: s) (auto simp: discard_staging_locks split: option.splits)
  then show ?thesis by (simp add: cleanup_abandoned_def split: option.split)
qed

lemma unlink_dirs: "sr_dirs (cleanup_all_stale_locks fs s) = sr_dirs s"
proof -
  have one: "sr_dirs (unlink_locks fs c names s) = sr_dirs s" for c names s
    by (induction names arbitrary: s) auto
  have "sr_dirs (unlink_collections fs cs s) = sr_dirs s" for cs
    by (induction cs arbitrary: s) (auto simp: one split: option.splits)
  then show ?thesis by (simp add: cleanup_all_stale_locks_def split: option.split)
qed

text \<open>A file system that lists what the store holds and removes what it is told to.\<close>

definition listed_at :: "'o os \<Rightarrow> place \<Rightarrow> bool" where
  "listed_at fs p \<longleftrightarrow>
     (\<exists>cs names. os_read_root fs = Some cs \<and> fst p \<in> set cs \<and> os_is_dir fs (fst p) \<and>
        os_read_collection fs (fst p) = Some names \<and> snd p \<in> set names)"

definition swept_by :: "'o os \<Rightarrow> 'o store \<Rightarrow> bool" where
  "swept_by fs s \<longleftrightarrow> (\<forall>p. os_remove_all fs p = None) \<and> (\<forall>p. os_unlink fs p = None) \<and>
     (\<forall>p. sr_dirs s p \<noteq> None \<or> sr_locks s p \<noteq> None \<longrightarrow> listed_at fs p)"

lemma discard_staging_None:
  assumes "\<And>p. os_remove_all fs p = None"
  shows "sr_dirs (discard_staging fs c names s) (d, n) =
    (if d = c \<and> n \<in> set names \<and> valid_utf8 n \<and> is_staging_name n then None else sr_dirs s (d, n))"
  using assms by (induction names arbitrary: s) (auto simp: discard_def split: option.splits)

lemma unlink_locks_None:
  assumes "\<And>p. os_unlink fs p = None"
  shows "sr_locks (unlink_locks fs c names s) (d, n) = (if d = c \<and> n \<in> set names then None else sr_locks s (d, n))"
  using assms by (induction names arbitrary: s) auto

lemma sweep_staging:
  assumes fs: "swept_by fs s" and n: "valid_utf8 n" "is_staging_name n"
  shows "sr_dirs (cleanup_abandoned fs s) (c, n) = None"
proof -
  have rm: "\<And>p. os_remove_all fs p = None" using fs unfolding swept_by_def by blast
  have keep: "sr_dirs (sweep_collections fs cs s) (c, n) = None" if "sr_dirs s (c, n) = None" for cs s
    using that by (induction cs arbitrary: s) (auto simp: discard_staging_None [OF rm] split: option.split)
  show ?thesis
  proof (cases "sr_dirs s (c, n) = None")
    case True
    with keep show ?thesis by (auto simp: cleanup_abandoned_def split: option.split)
  next
    case False
    then have "listed_at fs (c, n)" using fs unfolding swept_by_def by blast
    then obtain cs names where cs: "os_read_root fs = Some cs" "c \<in> set cs" "os_is_dir fs c"
        "os_read_collection fs c = Some names" "n \<in> set names"
      by (auto simp: listed_at_def)
    from cs(2) have "sr_dirs (sweep_collections fs cs s) (c, n) = None"
      by (induction cs arbitrary: s) (auto simp: cs(3-5) keep n discard_staging_None [OF rm])
    then show ?thesis by (simp add: cleanup_abandoned_def cs(1))
  qed
qed

lemma sweep_unlocks:
  assumes fs: "swept_by fs s"
  shows "sr_locks (cleanup_all_stale_locks fs s) (c, n) = None"
proof -
  have rm: "\<And>p. os_unlink fs p = None" using fs unfolding swept_by_def by blast
  have keep: "sr_locks (unlink_collections fs cs s) (c, n) = None" if "sr_locks s (c, n) = None" for cs s
    using that by (induction cs arbitrary: s) (auto simp: unlink_locks_None [OF rm] split: option.split)
  show ?thesis
  proof (cases "sr_locks s (c, n) = None")
    case True
    with keep show ?thesis by (auto simp: cleanup_all_stale_locks_def split: option.split)
  next
    case False
    then have "listed_at fs (c, n)" using fs unfolding swept_by_def by blast
    then obtain cs names where cs: "os_read_root fs = Some cs" "c \<in> set cs" "os_is_dir fs c"
        "os_read_collection fs c = Some names" "n \<in> set names"
      by (auto simp: listed_at_def)
    from cs(2) have "sr_locks (unlink_collections fs cs s) (c, n) = None"
      by (induction cs arbitrary: s) (auto simp: cs(3-5) keep unlink_locks_None [OF rm])
    then show ?thesis by (simp add: cleanup_all_stale_locks_def cs(1))
  qed
qed

section \<open>The first look at the disk\<close>

lemma put_entry_nonempty [simp]: "put_entry k v m \<noteq> []"
  by (cases "(k, v, m)" rule: put_entry.cases) auto

lemma scan_map_nonempty: "scan_map hs = [] \<longleftrightarrow> hs = []"
  by (cases hs rule: rev_cases) (auto simp: scan_map_def)

lemma merge_nonempty: "ix_heads (merge_scanned started hs ix) = [] \<longleftrightarrow> hs = [] \<and> ix_heads ix = []"
  by (induction started hs ix rule: merge_scanned.induct) (auto simp: announced_since_def split: if_splits option.splits)

lemma finish_first_scan:
  "ix_heads (finish_scan now started scan intact new_index) = [] \<longleftrightarrow> rs_repositories scan = []"
  by (simp add: finish_scan_def Let_def merge_nonempty scan_map_nonempty new_index_def)

lemma sort_key_Nil: "sort_key f xs = [] \<longleftrightarrow> xs = []"
  by (metis length_0_conv length_sort)

lemma first_snapshot:
  "rs_repositories (fst (snapshot L now ident fs scan (issues, new_index))) = [] \<longleftrightarrow> rs_repositories scan = []"
proof -
  have "needs_scan now new_index" by (simp add: needs_scan_def new_index_def)
  then show ?thesis
    unfolding snapshot_def rescan_locked_def
    by (simp add: Let_def split_def sort_key_Nil finish_first_scan)
qed

section \<open>A restart\<close>

definition identity_path :: "config \<Rightarrow> string" where
  "identity_path c = sc_repos_path (cf_server c) @ ''/'' @ IDENTITY_FILE"

lemma swept_unlocked:
  "swept_by fs s \<Longrightarrow> swept_by fs (cleanup_all_stale_locks fs s)"
  using sweep_unlocks [of fs s] unfolding swept_by_def by (simp add: unlink_dirs)

lemma spawn_replication_keeps:
  assumes "spawn_replication S client st = (tasks, st')"
  shows "fo_store (as_node st') = fo_store (as_node st)" "fo_identity (as_node st') = fo_identity (as_node st)"
    "fo_status (as_node st') = fo_status (as_node st)" "fo_index (as_node st') = fo_index (as_node st)"
    "fo_issues (as_node st') = fo_issues (as_node st)"
    "FollowerWorker u \<in> set tasks \<Longrightarrow> fo_reconcile_requested (as_node st') \<and>
       (\<exists>r url. cf_replication (sv_config S) = Some r \<and> is_replica r \<and> rc_master_url r = Some url \<and> u = trim_end_slashes url)"
  using assms
  by (auto simp: spawn_replication_def new_follower_def and_then_eq_Inr split: option.splits sum.splits if_splits)

lemma boot_parts:
  assumes "boot S remove_dir_all client disk = (Inr (st, tasks), disk')"
  obtains identity files spawned where
    "load_identity (sv_identity S) (identity_path (sv_config S)) (sv_config S) (od_identity disk) = (Inr identity, files)"
    "spawn_replication S client (new_app_state (sv_config S) identity files
       (cleanup_abandoned (sv_os S) (cleanup_all_stale_locks (sv_os S) (od_store disk)))) = (spawned, st)"
    "tasks = heal_tasks (sv_config S) @ spawned" "od_identity disk' = files"
  using assms unfolding boot_def identity_path_def
  by (auto simp: Let_def split: prod.splits sum.splits)

lemma known_identity_loads:
  assumes "load_identity L path c fs = (Inr identity, fs')" "cf_replication c \<noteq> None"
    and "read_identity_file L path fs = Inr (Some (i, x))"
  shows "ri_current identity = Some i \<and> fs' = fs"
  using assms by (auto simp: load_identity_def bind_act_def act_ok_def split: option.splits)

text \<open>
  C40: a restart keeps what a node holds. Every tenant is as the previous process left it, and a
  node that replicates goes on under the identity its file holds, the file untouched; where the
  file system lists and removes what it is asked to, no staging directory and no index lock is
  left. A restarted replica refuses reads until its worker has looked at the disk, and serves from
  then on exactly when the scan found a repository; a node that follows starts with a reconcile.
\<close>

theorem restart_keeps_node:
  assumes run: "boot S remove_dir_all client disk = (Inr (st, tasks), disk')"
  shows "(\<forall>p. visible p \<longrightarrow> sr_dirs (fo_store (as_node st)) p = sr_dirs (od_store disk) p) \<and>
    (\<forall>i x. cf_replication (sv_config S) \<noteq> None \<longrightarrow>
       read_identity_file (sv_identity S) (identity_path (sv_config S)) (od_identity disk) = Inr (Some (i, x)) \<longrightarrow>
       ri_current (fo_identity (as_node st)) = Some i \<and> od_identity disk' = od_identity disk) \<and>
    (swept_by (sv_os S) (od_store disk) \<longrightarrow>
       (\<forall>c n. sr_locks (fo_store (as_node st)) (c, n) = None \<and>
          (valid_utf8 n \<longrightarrow> is_staging_name n \<longrightarrow> sr_dirs (fo_store (as_node st)) (c, n) = None))) \<and>
    (st_is_replica (fo_status (as_node st)) \<longleftrightarrow> (\<exists>r. cf_replication (sv_config S) = Some r \<and> is_replica r)) \<and>
    (st_is_replica (fo_status (as_node st)) \<longrightarrow> \<not> st_bootstrapped (fo_status (as_node st)) \<and>
       (\<forall>nd now scan. st_bootstrapped (fo_status (start_worker nd now scan (as_node st))) \<longleftrightarrow> rs_repositories scan \<noteq> [])) \<and>
    (\<forall>u. FollowerWorker u \<in> set tasks \<longrightarrow>
       st_is_replica (fo_status (as_node st)) \<and> fo_reconcile_requested (as_node st))"
proof -
  from run obtain identity files spawned where
    load: "load_identity (sv_identity S) (identity_path (sv_config S)) (sv_config S) (od_identity disk) = (Inr identity, files)"
    and spawn: "spawn_replication S client (new_app_state (sv_config S) identity files
       (cleanup_abandoned (sv_os S) (cleanup_all_stale_locks (sv_os S) (od_store disk)))) = (spawned, st)"
    and tasks: "tasks = heal_tasks (sv_config S) @ spawned" "od_identity disk' = files"
    by (rule boot_parts)
  let ?s = "cleanup_all_stale_locks (sv_os S) (od_store disk)"
  note state = spawn_replication_keeps(1-5) [OF spawn, unfolded new_app_state_def, simplified]
  have "shown_as (sr_dirs ?s) (sr_dirs (cleanup_abandoned (sv_os S) ?s))"
    by (rule observes_dirs [OF sweep_spares_tenants]) (simp add: shown_as_def)
  then have "\<forall>p. visible p \<longrightarrow> sr_dirs (fo_store (as_node st)) p = sr_dirs (od_store disk) p"
    by (simp add: state shown_as_def unlink_dirs)
  moreover have "\<forall>c n. sr_locks (fo_store (as_node st)) (c, n) = None \<and>
      (valid_utf8 n \<longrightarrow> is_staging_name n \<longrightarrow> sr_dirs (fo_store (as_node st)) (c, n) = None)"
    if "swept_by (sv_os S) (od_store disk)"
    using sweep_unlocks [OF that] sweep_staging [OF swept_unlocked [OF that]] by (simp add: state sweep_locks)
  moreover have "st_is_replica (fo_status (as_node st)) \<longleftrightarrow> (\<exists>r. cf_replication (sv_config S) = Some r \<and> is_replica r)"
    by (simp add: state new_replica_status_def Let_def split: option.split)
  moreover have "st_bootstrapped (fo_status (as_node st)) = (\<not> st_is_replica (fo_status (as_node st)))"
    by (simp add: state new_replica_status_def Let_def)
  moreover have "st_bootstrapped (fo_status (start_worker nd now scan (as_node st))) \<longleftrightarrow>
      rs_repositories scan \<noteq> [] \<or> st_bootstrapped (fo_status (as_node st))" for nd now scan
    using first_snapshot [of "nd_identity nd" now "fo_identity (as_node st)" "fo_files (as_node st)" scan "[]"]
    by (auto simp: start_worker_def index_snapshot_def state with_status_def mark_bootstrapped_def split: prod.splits)
  moreover have "st_is_replica (fo_status (as_node st)) \<and> fo_reconcile_requested (as_node st)"
    if "FollowerWorker u \<in> set tasks" for u
    using that spawn_replication_keeps(6) [OF spawn, of u]
    by (auto simp: tasks heal_tasks_def state new_replica_status_def Let_def split: if_splits)
  ultimately show ?thesis
    using known_identity_loads [OF load] by (simp add: state tasks) blast
qed

text \<open>A replica killed while it built a repository and wrote another one's index.\<close>

definition half_built :: string where
  "half_built = staging_name ''docs'' STAGING_CREATING 0"

definition crashed_service :: "(gobj, unit) service" where
  "crashed_service =
     (sample_service Replica)\<lparr>sv_os := sample_os\<lparr>os_read_collection := (\<lambda>_. Some [half_built, ''docs''])\<rparr>\<rparr>"

definition crashed_disk :: "gobj on_disk" where
  "crashed_disk =
     \<lparr>od_store = \<lparr>sr_dirs = [(''acme'', ''docs'') \<mapsto> demo_disk, (''acme'', half_built) \<mapsto> missing_disk],
        sr_locks = [(''acme'', ''docs'') \<mapsto> 0], sr_sequence = 1, sr_seen = []\<rparr>,
      od_identity = \<lparr>id_file = Some zero_identity, id_temporary = None\<rparr>, od_incoming = Some [''0.pack'']\<rparr>"

theorem restart_keeps_node_witness:
  "\<exists>st tasks disk'. boot crashed_service (\<lambda>_. None) None crashed_disk = (Inr (st, tasks), disk') \<and>
     sr_dirs (fo_store (as_node st)) (''acme'', ''docs'') = Some demo_disk \<and>
     sr_dirs (fo_store (as_node st)) (''acme'', half_built) = None \<and>
     sr_locks (fo_store (as_node st)) (''acme'', ''docs'') = None \<and>
     ri_current (fo_identity (as_node st)) = Some zero_identity \<and> \<not> st_bootstrapped (fo_status (as_node st))"
proof -
  let ?id = "\<lparr>id_file = Some zero_identity, id_temporary = None\<rparr>" and ?path = "identity_path (sv_config crashed_service)"
  have read: "read_identity_file tiny_identity path ?id = Inr (Some (zero_identity, ()))" for path
  proof -
    have "replication_identity zero_identity = Inr zero_identity" by code_simp
    then show ?thesis by (simp add: read_identity_file_def tiny_identity_def and_then_def)
  qed
  have parts [simp]: "sv_identity crashed_service = tiny_identity" "cf_replication (sv_config crashed_service) = Some (sample_role Replica)"
      "is_replica (sample_role Replica)" "od_identity crashed_disk = ?id"
    by (simp_all add: crashed_service_def crashed_disk_def is_replica_def sample_role_def)
  have "load_identity tiny_identity ?path (sv_config crashed_service) ?id =
      (Inr \<lparr>ri_path = ?path, ri_current = Some zero_identity\<rparr>, ?id)"
    using read by (simp add: load_identity_def bind_act_def act_ok_def)
  then obtain st tasks disk' where run: "boot crashed_service (\<lambda>_. None) None crashed_disk = (Inr (st, tasks), disk')"
    by (cases "boot crashed_service (\<lambda>_. None) None crashed_disk")
      (auto simp: boot_def identity_path_def Let_def split: prod.splits)
  have swept: "swept_by (sv_os crashed_service) (od_store crashed_disk)"
    by (auto simp: swept_by_def listed_at_def crashed_service_def crashed_disk_def sample_os_def)
  have names: "valid_utf8 half_built" "is_staging_name half_built" "visible (''acme'', ''docs'')" by code_simp+
  have held: "sr_dirs (od_store crashed_disk) (''acme'', ''docs'') = Some demo_disk"
    using names(2) by (auto simp: crashed_disk_def half_built_def staging_name_def)
  have "sr_dirs (fo_store (as_node st)) (''acme'', ''docs'') = Some demo_disk \<and>
     sr_dirs (fo_store (as_node st)) (''acme'', half_built) = None \<and>
     sr_locks (fo_store (as_node st)) (''acme'', ''docs'') = None \<and>
     ri_current (fo_identity (as_node st)) = Some zero_identity \<and> \<not> st_bootstrapped (fo_status (as_node st))"
    using restart_keeps_node [OF run] read swept names held by auto
  with run show ?thesis by blast
qed

end
