(* ===== verification/Spec2Isabelle.thy ===== *)
theory Spec2Isabelle
  imports Errors Validate Traverse Util Git_History Git_Moves Git_Ordering Git_Paths Paging Hook_Mirror Hook_Replay Commit_Facts Staging_Facts Maintenance_Facts Scheduler Replica_Sync Index_Facts Follower_Gate Write_Facts Read_Facts Replay_Facts Serving_Facts Guard_Facts Startup_Facts
begin

text \<open>
  A verification development for githttp-fs, a service that stores each tenant's files in a git
  repository of its own and serves them over HTTP. Paths below are relative to the crate.

  \<^bold>\<open>The program and its model.\<close> A request is validated (\<open>src/validate.rs\<close>), runs one git
  operation under the tenant's write lock (\<open>src/git.rs\<close>), and a write that made a commit is
  announced: its changes are queued as hook jobs (\<open>src/hooks.rs\<close>), its head is recorded for the
  followers of a replicated pair (\<open>src/replication.rs\<close>) and a housekeeping pass is armed
  (\<open>src/maintenance.rs\<close>). Each part is a group of theories:

  \<^item> \<open>Prelude\<close>, \<open>Rust_Path\<close>: byte strings, results, state-passing actions, \<open>std::path\<close>.
  \<^item> \<open>Errors\<close> (\<open>error.rs\<close>), \<open>Util\<close> (\<open>util.rs\<close>), \<open>Validate\<close> (\<open>validate.rs\<close>), \<open>Config\<close>
    (\<open>config.rs\<close>), \<open>Seek\<close> (\<open>seek.rs\<close>), \<open>Order_Index\<close> (\<open>order.rs\<close>), \<open>Traverse\<close>
    (\<open>traverse.rs\<close>): one theory per module, definitions and properties together.
  \<^item> \<open>Git_Model\<close>: the repository as a record (objects, HEAD, a working tree), git2 as the record
    \<open>libs\<close>, and \<open>GitUtils\<close> and \<open>WorkingTree\<close>. \<open>Git_Laws\<close> states the documented laws of git2 the
    theorems use (\<open>git2_ok\<close>), \<open>Git_Instance\<close> gives a small git on which they hold and which every
    witness runs on. \<open>Git_Order\<close>, \<open>Git_Files\<close>, \<open>Git_Walk\<close>, \<open>Git_Listing\<close>, \<open>Git_Dates\<close>,
    \<open>Git_Commits\<close> and \<open>Git_Reverts\<close> hold the operations of \<open>GitOrder\<close>, \<open>GitFiles\<close> and
    \<open>GitCommits\<close>.
  \<^item> \<open>Git_History\<close> proves what all mutating operations share, once, in the locales
    \<open>committing_writer\<close> and \<open>single_commit_writer\<close>, interpreted on each operation. \<open>Git_Writes\<close>,
    \<open>Git_Moves\<close>, \<open>Git_Deletes\<close>, \<open>Git_Ordering\<close>, \<open>Git_Restores\<close>, \<open>Git_Undo\<close> (over \<open>Git_Diffs\<close>)
    prove what each one does to HEAD's content on every path. \<open>Git_Paths\<close>, \<open>Walk_Facts\<close>,
    \<open>Tree_Shape\<close>, \<open>Paging\<close> and \<open>Commit_Facts\<close> prove the reading side: snapshots, counts, the
    rendered tree, pages and per-file diffs.
  \<^item> \<open>Hooks\<close> models jobs, payloads, retries and queues; \<open>Hook_Facts\<close>, \<open>Hook_Mirror\<close> and
    \<open>Hook_Replay\<close> prove what a receiver can rely on. \<open>receiver_converges\<close> composes the git
    operations, the classification of changes and the delivery.
  \<^item> \<open>Staging\<close>, \<open>Staging_Facts\<close>: creation and deletion of repositories (\<open>GitStaging\<close>,
    \<open>GitTenant\<close>, \<open>GitLocks\<close>) over the store of all tenants, with every state a reader that takes
    no lock could see.
  \<^item> \<open>Maintenance\<close>, \<open>Maintenance_Facts\<close>: a housekeeping pass over the files of a \<open>.git\<close> directory
    and what it may lose at any crash point. \<open>Scheduler\<close>: when passes are armed, run and
    cancelled, as a step relation over slots, tasks and tenant locks; \<open>task_step\<close> is the spawned
    task alone.
  \<^item> Replication (\<open>replication.rs\<close>, \<open>GitReplication\<close> of \<open>git.rs\<close>, \<open>checkout.rs\<close>): \<open>Replication_Git\<close>
    has the listing of the disk, packs out and in, the relation of two heads and the mirroring of
    a working tree; \<open>Node_Status\<close> the issues, the roster of replicas and the verdicts of the health
    routes; \<open>Repository_Index\<close> the identity file and the index with its scans; \<open>Follower\<close> the
    replica's worker, its reconciles, drains, syncs and its notification stream, a step each, with
    the master's answers as arguments. \<open>Sync_Facts\<close> and \<open>Sync_Instance\<close> state and discharge the
    laws of packs and graph queries; \<open>Replica_Sync\<close>, \<open>Index_Facts\<close>, \<open>Follower_Facts\<close> and
    \<open>Follower_Gate\<close> prove what a listing names, what a scan and a restart keep, that a replica
    reaches the announced head, loses nothing the master names, and when it starts to serve.
  \<^item> The HTTP surface (\<open>routes/\<close>, \<open>middleware.rs\<close>, \<open>state.rs\<close>, \<open>main.rs\<close>): \<open>Server\<close> is \<open>AppState\<close> and
    what handlers share; \<open>Routes_Write\<close>, \<open>Routes_Read\<close>, \<open>Routes_Replay\<close> and \<open>Routes_Replication\<close> hold
    the handlers, each one step on the state of a node; \<open>Guard\<close> the route tables, the keys and the
    read-only gate, from a request to its handler; \<open>Startup\<close> the way from the disk of the previous
    process to the state the listeners serve. \<open>Git_Reports\<close>, \<open>Write_Facts\<close>, \<open>Read_Facts\<close>,
    \<open>Replay_Facts\<close>, \<open>Serving_Facts\<close>, \<open>Guard_Facts\<close> and \<open>Startup_Facts\<close> prove what they promise:
    a commit is announced once, with what its operation reported, and nothing else is, a batch agrees with single reads, a
    replay tells the difference, the replication surface never makes a follower drop what it
    holds, a replica changes nothing for a client, a restart keeps what a node has.
    \<open>Service_Instance\<close> is the node their witnesses run on.

  \<^bold>\<open>State and errors.\<close> Structs are records, enums datatypes, \<open>Result\<close> a sum with the error on
  the left, \<open>?\<close> is \<open>and_then\<close>. A git operation is a function from the disk to a result and the
  disk it leaves; it keeps its changes when it fails, as the code does. \<open>usize\<close> and \<open>u64\<close> are
  64-bit words wherever their arithmetic matters, so saturation and wrap-around are the code's.
  A Rust \<open>&str\<close> is the list of its UTF-8 bytes. A handler holds its tenant's lock from its first
  access to the repository to its answer, so it is one step; operations of different handlers
  interleave as sequences of such steps. A failing file-system call answers its error and leaves
  the files its parameter says; of an error's kind only those the code tells apart are kept, the
  others are \<open>IoOther\<close>. \<open>Path::exists\<close> and \<open>Path::is_dir\<close> answer false where the metadata cannot
  be read: the scan of the store and \<open>head_sha\<close> take these answers from \<open>scan_os\<close> and \<open>os_stat\<close>;
  elsewhere \<open>exists\<close> is taken to answer what is there.

  \<^bold>\<open>Parameters.\<close> Code that is not in this repository is an argument of the model: \<open>libs\<close>,
  \<open>commit_libs\<close> and \<open>history_libs\<close> (git2's objects, trees, diffs, walks; serde_json),
  \<open>odb_libs\<close> (object files and packs), \<open>sync_libs\<close> (packfiles and graph queries), \<open>scan_os\<close> and the
  fault records of the file system, \<open>identity_libs\<close> (serde_json, randomness), \<open>hook_world\<close> (the
  receiver and the clock), axum's router and percent-decoding. What an extractor makes of a body
  or a query string comes with the request. A theorem names the law it uses (\<open>git2_ok\<close>,
  \<open>diff_law\<close>, \<open>odb_ok\<close>, \<open>disk_sound\<close>, \<open>sync_ok\<close>, \<open>pack_ok\<close>, \<open>lookup_ok\<close>, \<open>listing_law\<close>, \<open>identity_law\<close>,
  \<open>routes_of\<close>, \<open>percent_decoding\<close>), and its witness discharges the law on a concrete instance.

  \<^bold>\<open>Bounds.\<close> Recursion is structural or has a proved measure; the walks over a library's trees
  run on the finite listing the library hands over. No fuel is used.

  \<^bold>\<open>Not modelled.\<close> Sockets, the command line, logging and TOML deserialisation; the matching
  of paths, extraction and the streaming of bodies inside axum; the HTTP client, whose answers are
  arguments. RFC 3339 spellings go through chrono and redacting a URL through the url crate: times
  are integers, and the redacted URL a parameter. The redirect of the bare server root keeps no
  state. Timing is modelled as nondeterminism (\<open>Scheduler\<close>) or as a supplied clock. Repositories a
  replica syncs in parallel are synced one after the other: each has its own lock and place.
\<close>

end
